(* ===== verification/Prelude.thy ===== *)
theory Prelude
  imports Complex_Main "HOL-Library.List_Lexorder" "HOL-Library.Char_ord"
begin

text \<open>
  Shared material of the development: fallible computations as sums, insertion-ordered
  dictionaries as association lists, Python string helpers, insertion-ordered sets as
  duplicate-free lists, and the generic worklist walk that the graph components use.
\<close>

section \<open>Theorem collections\<close>

named_theorems err_simps \<open>rewrite rules of the error monad\<close>
named_theorems dict_simps \<open>rewrite rules of insertion-ordered dictionaries\<close>
named_theorems sql_simps \<open>rewrite rules of the table operations\<close>

section \<open>Fallible computations\<close>

text \<open>A raise is \<open>Inl\<close>, a normal return is \<open>Inr\<close>; \<open>bindE\<close> is sequencing.\<close>

fun bindE :: "'e + 'a \<Rightarrow> ('a \<Rightarrow> 'e + 'b) \<Rightarrow> 'e + 'b" where
  "bindE (Inl e) f = Inl e"
| "bindE (Inr x) f = f x"

text \<open>\<open>if bad: raise e\<close> followed by the rest of the body.\<close>

definition guardE :: "bool \<Rightarrow> 'e \<Rightarrow> 'e + 'a \<Rightarrow> 'e + 'a" where
  "guardE bad e k = (if bad then Inl e else k)"

fun mapE :: "('a \<Rightarrow> 'e + 'b) \<Rightarrow> 'a list \<Rightarrow> 'e + 'b list" where
  "mapE f [] = Inr []"
| "mapE f (x # xs) = bindE (f x) (\<lambda>y. bindE (mapE f xs) (\<lambda>ys. Inr (y # ys)))"

text \<open>A \<open>for\<close> loop whose body may raise and updates an accumulator.\<close>

fun foldE :: "('a \<Rightarrow> 's \<Rightarrow> 'e + 's) \<Rightarrow> 'a list \<Rightarrow> 's \<Rightarrow> 'e + 's" where
  "foldE f [] s = Inr s"
| "foldE f (x # xs) s = bindE (f x s) (foldE f xs)"

lemma bindE_eq_Inr [err_simps]:
  "bindE m f = Inr y \<longleftrightarrow> (\<exists>x. m = Inr x \<and> f x = Inr y)"
  by (cases m) auto

lemma bindE_eq_Inl [err_simps]:
  "bindE m f = Inl e \<longleftrightarrow> m = Inl e \<or> (\<exists>x. m = Inr x \<and> f x = Inl e)"
  by (cases m) auto

lemma guardE_eq_Inr [err_simps]: "guardE b e k = Inr y \<longleftrightarrow> \<not> b \<and> k = Inr y"
  by (simp add: guardE_def)

lemma guardE_eq_Inl [err_simps]:
  "guardE b e k = Inl x \<longleftrightarrow> (b \<and> x = e) \<or> (\<not> b \<and> k = Inl x)"
  by (auto simp: guardE_def)

lemma guardE_simps [simp]: "guardE False e k = k" "guardE True e k = Inl e"
  by (simp_all add: guardE_def)

lemma bindE_assoc: "bindE (bindE m f) g = bindE m (\<lambda>x. bindE (f x) g)"
  by (cases m) auto

lemma mapE_Inr_list_all2: "mapE f xs = Inr ys \<Longrightarrow> list_all2 (\<lambda>x y. f x = Inr y) xs ys"
  by (induction xs arbitrary: ys) (auto simp: err_simps)

text \<open>Loop invariants of raising loops.\<close>

lemma foldE_invariant:
  assumes "foldE f xs s = Inr t" and "I s"
    and "\<And>x s s'. x \<in> set xs \<Longrightarrow> I s \<Longrightarrow> f x s = Inr s' \<Longrightarrow> I s'"
  shows "I t"
  using assms by (induction xs arbitrary: s) (auto simp: err_simps)

lemma foldE_append: "foldE f (xs @ ys) s = bindE (foldE f xs s) (foldE f ys)"
proof (induction xs arbitrary: s)
  case (Cons x xs)
  then show ?case by (cases "f x s") auto
qed simp

section \<open>Insertion-ordered dictionaries\<close>

text \<open>
  A Python dict is a list of key/value pairs in insertion order. Assigning an existing key
  keeps its position; a new key goes to the end.
\<close>

type_synonym ('k, 'v) dict = "('k \<times> 'v) list"

abbreviation dget :: "('k, 'v) dict \<Rightarrow> 'k \<Rightarrow> 'v option" where
  "dget \<equiv> map_of"

definition keys :: "('k, 'v) dict \<Rightarrow> 'k list" where
  "keys d = map fst d"

definition vals :: "('k, 'v) dict \<Rightarrow> 'v list" where
  "vals d = map snd d"

fun dset :: "'k \<Rightarrow> 'v \<Rightarrow> ('k, 'v) dict \<Rightarrow> ('k, 'v) dict" where
  "dset k v [] = [(k, v)]"
| "dset k v ((k', v') # d) = (if k' = k then (k, v) # d else (k', v') # dset k v d)"

definition dget_default :: "'v \<Rightarrow> ('k, 'v) dict \<Rightarrow> 'k \<Rightarrow> 'v" where
  "dget_default z d k = (case dget d k of None \<Rightarrow> z | Some v \<Rightarrow> v)"

definition dpop :: "'k \<Rightarrow> ('k, 'v) dict \<Rightarrow> ('k, 'v) dict" where
  "dpop k d = filter (\<lambda>(k', _). k' \<noteq> k) d"

lemma keys_simps [simp, dict_simps]: "keys [] = []" "keys ((k, v) # d) = k # keys d"
  by (simp_all add: keys_def)

lemma dget_dset [simp, dict_simps]: "dget (dset k v d) = (dget d)(k \<mapsto> v)"
  by (induction d) auto

lemma keys_dset: "keys (dset k v d) = (if k \<in> set (keys d) then keys d else keys d @ [k])"
  by (induction d) auto

lemma set_keys_dset [simp, dict_simps]: "set (keys (dset k v d)) = insert k (set (keys d))"
  by (auto simp: keys_dset)

lemma distinct_keys_dset [simp, dict_simps]: "distinct (keys d) \<Longrightarrow> distinct (keys (dset k v d))"
  by (auto simp: keys_dset)

lemma dget_None_iff [dict_simps]: "dget d k = None \<longleftrightarrow> k \<notin> set (keys d)"
  by (simp add: keys_def map_of_eq_None_iff)

lemma dget_SomeD: "dget d k = Some v \<Longrightarrow> k \<in> set (keys d) \<and> (k, v) \<in> set d"
  by (auto simp: keys_def dest: map_of_SomeD intro: rev_image_eqI)

lemma in_keys_iff: "k \<in> set (keys d) \<longleftrightarrow> (\<exists>v. dget d k = Some v)"
  using dget_None_iff [of d k] by auto

lemma in_keys_pair: "k \<in> set (keys d) \<longleftrightarrow> (\<exists>v. (k, v) \<in> set d)"
  by (force simp: keys_def)

text \<open>Membership in a list built by a loop over the items of a dictionary.\<close>

lemma in_concat_items:
  "z \<in> set (concat (map (\<lambda>(k, v). F k v) d)) \<longleftrightarrow> (\<exists>k v. (k, v) \<in> set d \<and> z \<in> set (F k v))"
  by force

lemma in_concat_loop: "z \<in> set (concat (map F xs)) \<longleftrightarrow> (\<exists>x \<in> set xs. z \<in> set (F x))"
  by auto

lemma dget_distinct: "distinct (keys d) \<Longrightarrow> (k, v) \<in> set d \<longleftrightarrow> dget d k = Some v"
  by (auto simp: keys_def dest: map_of_SomeD)

lemma dset_new: "k \<notin> set (keys d) \<Longrightarrow> dset k v d = d @ [(k, v)]"
  by (induction d) auto

lemma dget_map_keys: "dget (map (\<lambda>k. (k, f k)) ks) k = (if k \<in> set ks then Some (f k) else None)"
  by (induction ks) auto

lemma dget_map_vals: "dget (map (\<lambda>(k, v). (k, f k v)) d) k = map_option (f k) (dget d k)"
  by (induction d) auto

lemma keys_map_vals [simp]: "keys (map (\<lambda>(k, v). (k, f k v)) d) = keys d"
  by (auto simp: keys_def)

section \<open>Insertion-ordered sets\<close>

text \<open>\<open>list(dict.fromkeys(xs))\<close>: duplicates removed, first occurrences kept.\<close>

fun dedup :: "'a list \<Rightarrow> 'a list" where
  "dedup [] = []"
| "dedup (x # xs) = x # filter (\<lambda>y. y \<noteq> x) (dedup xs)"

lemma set_dedup [simp]: "set (dedup xs) = set xs"
  by (induction xs) auto

lemma distinct_dedup [simp]: "distinct (dedup xs)"
  by (induction xs) (auto intro: distinct_filter)

lemma dedup_distinct: "distinct xs \<Longrightarrow> dedup xs = xs"
  by (induction xs) (auto simp: filter_id_conv)

end
