(* ===== verification/Py_Value.thy ===== *)
theory Py_Value
  imports Prelude
begin

text \<open>
  The Python values that cross the boundaries of the program: what \<open>json.loads\<close> and
  \<open>yaml.safe_load\<close> produce. Dictionaries keep insertion order and may have keys that are
  not strings (the loaders check for that). A Python \<open>str\<close> is the list of its UTF-8
  bytes, so equality, prefixes, substrings and the code-point order agree with Python's, and
  \<open>py_len\<close> counts code points. Floats are exact rationals (no NaN or infinity).
\<close>

datatype pyval =
    PNone
  | PBool bool
  | PInt int
  | PFloat rat
  | PStr string
  | PList "pyval list"
  | PDict "(pyval \<times> pyval) list"

type_synonym pydict = "(pyval, pyval) dict"

section \<open>Type tests and truth value\<close>

fun is_pstr :: "pyval \<Rightarrow> bool" where
  "is_pstr (PStr s) = True"
| "is_pstr _ = False"

fun is_pdict :: "pyval \<Rightarrow> bool" where
  "is_pdict (PDict d) = True"
| "is_pdict _ = False"

fun is_plist :: "pyval \<Rightarrow> bool" where
  "is_plist (PList d) = True"
| "is_plist _ = False"

fun is_pbool :: "pyval \<Rightarrow> bool" where
  "is_pbool (PBool b) = True"
| "is_pbool _ = False"

text \<open>\<open>isinstance(v, int)\<close>: a \<open>bool\<close> is an \<open>int\<close> too.\<close>

fun is_pint :: "pyval \<Rightarrow> bool" where
  "is_pint (PInt i) = True"
| "is_pint (PBool b) = True"
| "is_pint _ = False"

fun truthy :: "pyval \<Rightarrow> bool" where
  "truthy PNone = False"
| "truthy (PBool b) = b"
| "truthy (PInt i) = (i \<noteq> 0)"
| "truthy (PFloat q) = (q \<noteq> 0)"
| "truthy (PStr s) = (s \<noteq> [])"
| "truthy (PList xs) = (xs \<noteq> [])"
| "truthy (PDict d) = (d \<noteq> [])"

text \<open>The number a value stands for in comparisons (\<open>True == 1 == 1.0\<close>).\<close>

fun py_num :: "pyval \<Rightarrow> rat option" where
  "py_num (PBool b) = Some (if b then 1 else 0)"
| "py_num (PInt i) = Some (of_int i)"
| "py_num (PFloat q) = Some q"
| "py_num _ = None"

text \<open>Python's \<open>==\<close>: numbers by value, dictionaries regardless of order.\<close>

function py_eq :: "pyval \<Rightarrow> pyval \<Rightarrow> bool"
  and py_eq_list :: "pyval list \<Rightarrow> pyval list \<Rightarrow> bool"
  and py_eq_items :: "(pyval \<times> pyval) list \<Rightarrow> (pyval \<times> pyval) list \<Rightarrow> bool"
  and py_match :: "pyval \<Rightarrow> pyval \<Rightarrow> (pyval \<times> pyval) list \<Rightarrow> bool" where
  "py_eq a b =
     (case (a, b) of
        (PNone, PNone) \<Rightarrow> True
      | (PStr s, PStr t) \<Rightarrow> s = t
      | (PList xs, PList ys) \<Rightarrow> py_eq_list xs ys
      | (PDict xs, PDict ys) \<Rightarrow> length xs = length ys \<and> py_eq_items xs ys
      | _ \<Rightarrow> (case (py_num a, py_num b) of (Some x, Some y) \<Rightarrow> x = y | _ \<Rightarrow> False))"
| "py_eq_list [] [] = True"
| "py_eq_list (x # xs) (y # ys) = (py_eq x y \<and> py_eq_list xs ys)"
| "py_eq_list [] (y # ys) = False"
| "py_eq_list (x # xs) [] = False"
| "py_eq_items [] ys = True"
| "py_eq_items ((k, v) # xs) ys = (py_match k v ys \<and> py_eq_items xs ys)"
| "py_match k v [] = False"
| "py_match k v ((k', w) # ys) = (if py_eq k k' then py_eq v w else py_match k v ys)"
  by pat_completeness auto
termination
  by (relation "measure (\<lambda>x. case x of
        Inl (Inl (a, b)) \<Rightarrow> size a + size b
      | Inl (Inr (xs, ys)) \<Rightarrow> size_list size xs + size_list size ys
      | Inr (Inl (xs, ys)) \<Rightarrow> size_list (size_prod size size) xs + size_list (size_prod size size) ys
      | Inr (Inr (k, v, ys)) \<Rightarrow> Suc (size k + size v + size_list (size_prod size size) ys))") auto

declare py_eq.simps [simp del]

lemma py_eq_simps [simp]:
  "py_eq PNone PNone" "py_eq (PStr s) (PStr t) = (s = t)" "\<not> py_eq PNone (PStr t)"
  "py_eq (PList xs) (PList ys) = py_eq_list xs ys" "py_eq (PInt i) (PInt j) = (i = j)"
  "py_eq (PBool p) (PBool q) = (p = q)" "\<not> py_eq (PStr s) (PInt i)" "\<not> py_eq PNone (PBool q)"
  "\<not> py_eq PNone (PInt i)" "\<not> py_eq (PStr s) (PBool q)" "\<not> py_eq (PStr s) PNone"
  "py_eq (PBool p) (PInt i) = ((if p then 1 else 0) = i)"
  by (auto simp: py_eq.simps [of "PNone"] py_eq.simps [of "PStr s"] py_eq.simps [of "PList xs"]
      py_eq.simps [of "PInt i"] py_eq.simps [of "PBool p"] split: if_splits)

section \<open>Dictionary access\<close>

text \<open>\<open>raw.get("k")\<close>, \<open>raw.get("k", z)\<close> and \<open>"k" in raw\<close>.\<close>

definition pget :: "pydict \<Rightarrow> string \<Rightarrow> pyval" where
  "pget d k = dget_default PNone d (PStr k)"

definition pget_or :: "pydict \<Rightarrow> string \<Rightarrow> pyval \<Rightarrow> pyval" where
  "pget_or d k z = dget_default z d (PStr k)"

definition phas :: "pydict \<Rightarrow> string \<Rightarrow> bool" where
  "phas d k = (PStr k \<in> set (keys d))"

text \<open>The strings among a list of values, in order.\<close>

fun strs_of :: "pyval list \<Rightarrow> string list" where
  "strs_of [] = []"
| "strs_of (PStr s # xs) = s # strs_of xs"
| "strs_of (_ # xs) = strs_of xs"

lemma strs_of_all: "list_all is_pstr xs \<Longrightarrow> map PStr (strs_of xs) = xs"
  by (induction xs rule: strs_of.induct) auto

lemma strs_of_map [simp]: "strs_of (map PStr xs) = xs"
  by (induction xs) auto

section \<open>Strings\<close>

definition starts_with :: "string \<Rightarrow> string \<Rightarrow> bool" where
  "starts_with p s = (take (length p) s = p)"

definition ends_with :: "string \<Rightarrow> string \<Rightarrow> bool" where
  "ends_with p s = starts_with (rev p) (rev s)"

fun contains :: "string \<Rightarrow> string \<Rightarrow> bool" where
  "contains p [] = (p = [])"
| "contains p (c # s) = (starts_with p (c # s) \<or> contains p s)"

text \<open>\<open>s.split(sep)\<close> for a one-character separator.\<close>

fun split_on :: "char \<Rightarrow> string \<Rightarrow> string list" where
  "split_on c [] = [[]]"
| "split_on c (x # s) =
     (if x = c then [] # split_on c s
      else (case split_on c s of [] \<Rightarrow> [[x]] | w # ws \<Rightarrow> (x # w) # ws))"

text \<open>Code points of a UTF-8 text: the bytes that are not continuation bytes.\<close>

definition continuation_byte :: "char \<Rightarrow> bool" where
  "continuation_byte c = ((128 :: nat) \<le> of_char c \<and> of_char c < (192 :: nat))"

definition py_len :: "string \<Rightarrow> nat" where
  "py_len s = length (filter (\<lambda>c. \<not> continuation_byte c) s)"

lemma starts_with_iff: "starts_with p s \<longleftrightarrow> (\<exists>t. s = p @ t)"
proof
  assume "starts_with p s"
  then have "s = p @ drop (length p) s"
    unfolding starts_with_def by (metis append_take_drop_id)
  then show "\<exists>t. s = p @ t" ..
qed (auto simp: starts_with_def)

lemma ends_with_iff: "ends_with p s \<longleftrightarrow> (\<exists>t. s = t @ p)"
  unfolding ends_with_def starts_with_iff by (metis rev_append rev_rev_ident)

lemma contains_iff: "contains p s \<longleftrightarrow> (\<exists>a b. s = a @ p @ b)"
proof (induction s)
  case (Cons c s)
  have "(\<exists>a b. c # s = a @ p @ b) \<longleftrightarrow> (\<exists>b. c # s = p @ b) \<or> (\<exists>a b. s = a @ p @ b)"
    by (metis append_Cons append_Nil list.exhaust list.inject)
  then show ?case using Cons by (simp add: starts_with_iff)
qed simp

lemma split_on_nonempty [simp]: "split_on c s \<noteq> []"
  by (induction s) (auto split: list.splits)

lemma split_on_no_sep: "c \<notin> set s \<Longrightarrow> split_on c s = [s]"
  by (induction s) auto

lemma split_on_pieces: "w \<in> set (split_on c s) \<Longrightarrow> c \<notin> set w"
  by (induction s arbitrary: w) (fastforce split: list.splits if_splits)+

text \<open>The code points of a text, each as the string of its bytes.\<close>

function code_points :: "string \<Rightarrow> string list" where
  "code_points [] = []"
| "code_points (c # s) = (c # takeWhile continuation_byte s) # code_points (dropWhile continuation_byte s)"
  by pat_completeness auto
termination by (relation "measure length") (auto simp: le_imp_less_Suc length_dropWhile_le)

lemma concat_code_points [simp]: "concat (code_points s) = s"
  by (induction s rule: code_points.induct) auto

text \<open>
  \<open>s.strip()\<close>: the code points that are white space in Python, as UTF-8 bytes.
\<close>

definition white_space :: "string list" where
  "white_space = map (map char_of)
     ([[9], [10], [11], [12], [13], [28], [29], [30], [31], [32], [194, 133], [194, 160],
       [225, 154, 128], [226, 128, 168], [226, 128, 169], [226, 128, 175], [226, 129, 159],
       [227, 128, 128]] @ map (\<lambda>i. [226, 128, i]) [128 ..< 139 :: nat])"

definition strip :: "string \<Rightarrow> string" where
  "strip s = (let blank = (\<lambda>c. c \<in> set white_space) in
     concat (rev (dropWhile blank (rev (dropWhile blank (code_points s))))))"

text \<open>ASCII lower case; the suffix tests that use it only look at ASCII letters.\<close>

definition lower_char :: "char \<Rightarrow> char" where
  "lower_char c = (if (65 :: nat) \<le> of_char c \<and> of_char c \<le> (90 :: nat) then char_of (of_char c + (32 :: nat)) else c)"

definition control_char :: "char \<Rightarrow> bool" where
  "control_char c = (of_char c < (32 :: nat) \<or> of_char c = (127 :: nat))"

section \<open>Sorting and dictionary updates\<close>

text \<open>
  \<open>sorted\<close> raises unless the elements of a set compare with each other: all strings, or all
  numbers, or a single element.
\<close>

definition sortable :: "pyval list \<Rightarrow> bool" where
  "sortable xs = (length xs \<le> 1 \<or> list_all is_pstr xs \<or> list_all (\<lambda>x. py_num x \<noteq> None) xs)"

definition pset :: "string \<Rightarrow> pyval \<Rightarrow> pydict \<Rightarrow> pydict" where
  "pset k v d = dset (PStr k) v d"

definition pdel :: "string \<Rightarrow> pydict \<Rightarrow> pydict" where
  "pdel k d = dpop (PStr k) d"

text \<open>\<open>a or b\<close>.\<close>

definition py_or :: "pyval \<Rightarrow> pyval \<Rightarrow> pyval" where
  "py_or a b = (if truthy a then a else b)"

lemma dget_dpop: "dget (dpop k d) k' = (if k' = k then None else dget d k')"
  by (induction d) (auto simp: dpop_def)

lemma pget_pset [simp]: "pget (pset k v d) k' = (if k' = k then v else pget d k')"
  by (auto simp: pget_def pset_def dget_default_def)

lemma pget_pdel [simp]: "pget (pdel k d) k' = (if k' = k then PNone else pget d k')"
  by (auto simp: pget_def pdel_def dget_default_def dget_dpop)

lemma phas_iff: "phas d k \<longleftrightarrow> dget d (PStr k) \<noteq> None"
  by (simp add: phas_def dget_None_iff)

lemma phas_pset [simp]: "phas (pset k v d) k' \<longleftrightarrow> k' = k \<or> phas d k'"
  by (auto simp: phas_iff pset_def)

lemma phas_pdel [simp]: "phas (pdel k d) k' \<longleftrightarrow> k' \<noteq> k \<and> phas d k'"
  by (auto simp: phas_iff pdel_def dget_dpop)

lemma strip_blank: "strip [] = []"
  by (simp add: strip_def Let_def)

end
