(* ===== verification/Workflow_Schema.thy ===== *)
theory Workflow_Schema
  imports Py_Value
begin

text \<open>
  The data model of a workflow definition (\<open>server/app/workflows/schema.py\<close>): frozen
  dataclasses as records, in the field order of the source, and the derived views of a
  definition. \<open>nodes\<close> is an insertion-ordered dictionary.
\<close>

section \<open>Records\<close>

record workflow_condition =
  c_artifact :: string
  c_path :: string
  c_equals :: pyval

record workflow_terminal =
  t_outcome :: string

record node_execution =
  x_provider :: string
  x_model :: string
  x_thinking :: string
  x_prompt :: string
  x_prompt_mode :: string
  x_runtime :: string

record workflow_edge =
  e_source :: string
  e_target :: string
  e_condition :: "workflow_condition option"

record shard_spec =
  sh_over :: "string option"
  sh_count :: "int option"
  sh_max_concurrency :: "int option"
  sh_max_shards :: int

record reduce_spec =
  r_from_node :: string

record node_skill =
  sk_key :: string
  sk_ref :: string

record text_input =
  ti_label :: string
  ti_filename :: string
  ti_template :: string

record workflow_node =
  n_key :: string
  n_label :: string
  n_capability :: string
  n_after :: "string list"
  n_inputs :: "string list"
  n_outputs :: "string list"
  n_terminal :: "workflow_terminal option"
  n_execution :: node_execution
  n_config :: pydict
  n_config_schema :: pydict
  n_skill :: "node_skill option"
  n_shard :: "shard_spec option"
  n_reduce :: "reduce_spec option"
  n_type :: string
  n_accepted :: "string list"
  n_text_input :: "text_input option"
  n_tools :: "string list"
  n_requires_labels :: "(string, string) dict"

record intake_mode =
  im_key :: string
  im_label :: string
  im_input_field :: string

type_synonym intake = "(string, intake_mode) dict"

record workflow_definition =
  d_key :: string
  d_label :: string
  d_intake :: intake
  d_nodes :: "(string, workflow_node) dict"
  d_edges :: "workflow_edge list"
  d_schema_version :: int
  d_execution :: node_execution

section \<open>Constants and default values\<close>

definition accepted_item_types :: "string list" where
  "accepted_item_types = [''material'', ''ref'', ''bundle'', ''text'']"

definition default_accepted_item_types :: "string list" where
  "default_accepted_item_types = [''material'', ''ref'']"

definition empty_execution :: node_execution where
  "empty_execution = \<lparr>x_provider = [], x_model = [], x_thinking = [], x_prompt = [],
     x_prompt_mode = [], x_runtime = []\<rparr>"

text \<open>\<open>WorkflowNode(key=..., label=..., capability=...)\<close> with every other field at its default.\<close>

definition mk_node :: "string \<Rightarrow> string \<Rightarrow> string \<Rightarrow> workflow_node" where
  "mk_node k l cap = \<lparr>n_key = k, n_label = l, n_capability = cap, n_after = [], n_inputs = [],
     n_outputs = [], n_terminal = None, n_execution = empty_execution, n_config = [],
     n_config_schema = [], n_skill = None, n_shard = None, n_reduce = None, n_type = ''code'',
     n_accepted = default_accepted_item_types, n_text_input = None, n_tools = [],
     n_requires_labels = []\<rparr>"

definition plain_edge :: "string \<Rightarrow> string \<Rightarrow> workflow_edge" where
  "plain_edge s t = \<lparr>e_source = s, e_target = t, e_condition = None\<rparr>"

section \<open>The definition and its views\<close>

text \<open>Edges that the \<open>after\<close> lists of the nodes stand for.\<close>

definition after_edges :: "(string, workflow_node) dict \<Rightarrow> workflow_edge list" where
  "after_edges nodes = concat (map (\<lambda>n. map (\<lambda>dep. plain_edge dep (n_key n)) (n_after n)) (vals nodes))"

text \<open>The constructor with \<open>__post_init__\<close>: version 1 without edges derives them from \<open>after\<close>.\<close>

definition mk_definition ::
  "string \<Rightarrow> string \<Rightarrow> intake \<Rightarrow> (string, workflow_node) dict \<Rightarrow> workflow_edge list \<Rightarrow> int \<Rightarrow>
   node_execution \<Rightarrow> workflow_definition" where
  "mk_definition k l intk nodes edges ver ex =
     \<lparr>d_key = k, d_label = l, d_intake = intk, d_nodes = nodes,
      d_edges = (if ver = 1 \<and> edges = [] then after_edges nodes else edges),
      d_schema_version = ver, d_execution = ex\<rparr>"

definition node_keys :: "workflow_definition \<Rightarrow> string list" where
  "node_keys d = keys (d_nodes d)"

definition terminal_nodes :: "workflow_definition \<Rightarrow> string list" where
  "terminal_nodes d = filter (\<lambda>k. k \<notin> set (map e_source (d_edges d))) (node_keys d)"

definition start_node :: "workflow_definition \<Rightarrow> workflow_node option" where
  "start_node d = find (\<lambda>n. n_type n = ''start'') (vals (d_nodes d))"

definition executable_nodes :: "workflow_definition \<Rightarrow> (string, workflow_node) dict" where
  "executable_nodes d = filter (\<lambda>(k, n). n_type n \<noteq> ''start'') (d_nodes d)"

section \<open>Explicit-edge relation and well-formedness\<close>

definition edge_graph :: "workflow_definition \<Rightarrow> (string \<times> string) set" where
  "edge_graph d = (\<lambda>e. (e_source e, e_target e)) ` set (d_edges d)"

text \<open>
  The shape every operation on a definition relies on: node keys are distinct, a node's own
  key is its dictionary key, and edges run between declared nodes (the code indexes
  \<open>children[edge.source]\<close> and \<open>incoming[edge.target]\<close> without a check).
\<close>

definition wf_shape :: "workflow_definition \<Rightarrow> bool" where
  "wf_shape d \<longleftrightarrow> distinct (node_keys d) \<and> (\<forall>(k, n) \<in> set (d_nodes d). n_key n = k)
     \<and> (\<forall>e \<in> set (d_edges d). e_source e \<in> set (node_keys d) \<and> e_target e \<in> set (node_keys d))"

lemma wf_shape_node: "wf_shape d \<Longrightarrow> (k, n) \<in> set (d_nodes d) \<Longrightarrow> dget (d_nodes d) k = Some n"
  by (simp add: wf_shape_def node_keys_def dget_distinct)

lemma wf_shape_key: "wf_shape d \<Longrightarrow> (k, n) \<in> set (d_nodes d) \<Longrightarrow> n_key n = k"
  by (auto simp: wf_shape_def)

lemma wf_shape_edge:
  "wf_shape d \<Longrightarrow> e \<in> set (d_edges d) \<Longrightarrow> e_source e \<in> set (node_keys d) \<and> e_target e \<in> set (node_keys d)"
  by (auto simp: wf_shape_def)

lemma edge_graph_iff:
  "(x, y) \<in> edge_graph d \<longleftrightarrow> (\<exists>e \<in> set (d_edges d). e_source e = x \<and> e_target e = y)"
  by (auto simp: edge_graph_def)

lemma in_node_keys: "k \<in> set (node_keys d) \<longleftrightarrow> (\<exists>n. (k, n) \<in> set (d_nodes d))"
  by (simp add: node_keys_def in_keys_pair)

lemma set_terminal_nodes:
  "set (terminal_nodes d) = {k \<in> set (node_keys d). \<forall>y. (k, y) \<notin> edge_graph d}"
  by (auto simp: terminal_nodes_def edge_graph_iff)

lemma keys_executable_nodes:
  "wf_shape d \<Longrightarrow> k \<in> set (keys (executable_nodes d)) \<longleftrightarrow>
    (\<exists>n. dget (d_nodes d) k = Some n \<and> n_type n \<noteq> ''start'')"
  by (auto simp: executable_nodes_def in_keys_pair dest: wf_shape_node map_of_SomeD)

end
