(* ===== verification/Graph_Walk.thy ===== *)
theory Graph_Walk
  imports Prelude
begin

text \<open>
  Worklist walks over an adjacency dictionary. Two disciplines occur in the code: the
  stack walk of \<open>walk_downstream\<close> (pop and extend at the end of a list) and the
  queue walk of \<open>downstream_nodes\<close> (pop at the front, extend at the end). Both visit
  exactly the nodes reachable from the initial work list; the argument is made once, in the
  locale \<open>worklist_walk\<close>, and both walks are interpretations of it.
\<close>

section \<open>Adjacency dictionaries\<close>

definition succs :: "('a, 'a list) dict \<Rightarrow> 'a \<Rightarrow> 'a list" where
  "succs ch x = dget_default [] ch x"

definition edge_rel :: "('a, 'a list) dict \<Rightarrow> ('a \<times> 'a) set" where
  "edge_rel ch = {(x, y). y \<in> set (succs ch x)}"

definition walk_targets :: "('a, 'a list) dict \<Rightarrow> 'a set" where
  "walk_targets ch = (\<Union>(k, vs) \<in> set ch. set vs)"

lemma succs_walk_targets: "set (succs ch x) \<subseteq> walk_targets ch"
  by (cases "dget ch x") (auto simp: succs_def walk_targets_def dget_default_def dest!: map_of_SomeD)

lemma finite_walk_targets [simp]: "finite (walk_targets ch)"
  by (auto simp: walk_targets_def)

lemma edge_rel_iff [simp]: "(x, y) \<in> edge_rel ch \<longleftrightarrow> y \<in> set (succs ch x)"
  by (simp add: edge_rel_def)

text \<open>The nodes a walk with work list \<open>w\<close> may still add to \<open>seen\<close>.\<close>

definition open_nodes :: "('a, 'a list) dict \<Rightarrow> 'a list \<Rightarrow> 'a list \<Rightarrow> 'a set" where
  "open_nodes ch w seen = (set w \<union> walk_targets ch) - set seen"

lemma finite_open_nodes [simp]: "finite (open_nodes ch w seen)"
  by (simp add: open_nodes_def)

lemma open_nodes_pop: "card (open_nodes ch w seen) \<le> card (open_nodes ch (c # w) seen)"
  by (rule card_mono) (auto simp: open_nodes_def)

lemma open_nodes_visit:
  assumes "c \<notin> set seen" and "set w' = set (succs ch c) \<union> set w"
    and "set seen' = insert c (set seen)"
  shows "card (open_nodes ch w' seen') < card (open_nodes ch (c # w) seen)"
proof (rule psubset_card_mono)
  show "open_nodes ch w' seen' \<subset> open_nodes ch (c # w) seen"
    using assms succs_walk_targets [of ch c] by (fastforce simp: open_nodes_def)
qed simp

section \<open>The walk interface\<close>

locale worklist_walk =
  fixes run :: "('a, 'a list) dict \<Rightarrow> 'a list \<Rightarrow> 'a list \<Rightarrow> 'a list"
  assumes run_done: "run ch [] seen = seen"
    and run_skip: "c \<in> set seen \<Longrightarrow> run ch (c # w) seen = run ch w seen"
    and run_visit: "c \<notin> set seen \<Longrightarrow> \<exists>w' seen'. run ch (c # w) seen = run ch w' seen'
      \<and> set w' = set (succs ch c) \<union> set w \<and> set seen' = insert c (set seen)
      \<and> (distinct seen \<longrightarrow> distinct seen')"
begin

lemma run_induct [case_names empty skip visit]:
  assumes "\<And>seen. P [] seen"
    and "\<And>c w seen. c \<in> set seen \<Longrightarrow> P w seen \<Longrightarrow> P (c # w) seen"
    and "\<And>c w seen w' seen'. c \<notin> set seen \<Longrightarrow> run ch (c # w) seen = run ch w' seen' \<Longrightarrow>
      set w' = set (succs ch c) \<union> set w \<Longrightarrow> set seen' = insert c (set seen) \<Longrightarrow>
      (distinct seen \<Longrightarrow> distinct seen') \<Longrightarrow> P w' seen' \<Longrightarrow> P (c # w) seen"
  shows "P w seen"
proof -
  let ?R = "measures [\<lambda>(w, seen). card (open_nodes ch w seen), \<lambda>(w, seen). length w]"
  have "wf ?R" by (rule wf_measures)
  then show ?thesis
  proof (induction "(w, seen)" arbitrary: w seen rule: wf_induct_rule)
  case (less w seen)
  show ?case
  proof (cases w)
    case Nil
    then show ?thesis by (simp add: assms(1))
  next
    case (Cons c v)
    show ?thesis
    proof (cases "c \<in> set seen")
      case True
      have "card (open_nodes ch v seen) < card (open_nodes ch w seen)
          \<or> card (open_nodes ch v seen) = card (open_nodes ch w seen)"
        using open_nodes_pop [of ch v seen c] Cons by auto
      then have "P v seen" using less Cons by auto
      then show ?thesis using Cons True assms(2) by simp
    next
      case False
      from run_visit [OF False, of ch v] obtain w' seen' where
        step: "run ch (c # v) seen = run ch w' seen'" "set w' = set (succs ch c) \<union> set v"
          "set seen' = insert c (set seen)" "distinct seen \<longrightarrow> distinct seen'" by blast
      have "P w' seen'"
        using less Cons open_nodes_visit [OF False step(2,3)] by auto
      then show ?thesis using assms(3) [OF False step(1-3)] step(4) Cons by simp
    qed
  qed
  qed
qed

lemma run_includes: "set w \<union> set seen \<subseteq> set (run ch w seen)"
proof (induction w seen rule: run_induct [where ch = ch])
  case (empty seen)
  then show ?case by (simp add: run_done)
next
  case (skip c w seen)
  then show ?case by (auto simp: run_skip)
next
  case (visit c w seen w' seen')
  then show ?case by auto
qed

lemma run_sound: "set (run ch w seen) \<subseteq> set seen \<union> (edge_rel ch)\<^sup>* `` set w"
proof (induction w seen rule: run_induct [where ch = ch])
  case (empty seen)
  then show ?case by (simp add: run_done)
next
  case (skip c w seen)
  then show ?case by (auto simp: run_skip)
next
  case (visit c w seen w' seen')
  have "(edge_rel ch)\<^sup>* `` set w' \<subseteq> (edge_rel ch)\<^sup>* `` set (c # w)"
  proof
    fix y
    assume "y \<in> (edge_rel ch)\<^sup>* `` set w'"
    then obtain x where x: "x \<in> set (succs ch c) \<or> x \<in> set w" "(x, y) \<in> (edge_rel ch)\<^sup>*"
      using visit(3) by auto
    then have "(c, y) \<in> (edge_rel ch)\<^sup>* \<or> x \<in> set w"
      by (auto intro: converse_rtrancl_into_rtrancl)
    then show "y \<in> (edge_rel ch)\<^sup>* `` set (c # w)" using x(2) by auto
  qed
  moreover have "set seen' \<subseteq> set seen \<union> (edge_rel ch)\<^sup>* `` set (c # w)"
    using visit(4) by auto
  ultimately show ?case unfolding visit(2) using visit(6) by blast
qed

lemma run_closed:
  "\<forall>x \<in> set seen. set (succs ch x) \<subseteq> set w \<union> set seen \<Longrightarrow> x \<in> set (run ch w seen) \<Longrightarrow>
    set (succs ch x) \<subseteq> set (run ch w seen)"
proof (induction w seen rule: run_induct [where ch = ch])
  case (empty seen)
  then show ?case by (simp add: run_done)
next
  case (skip c w seen)
  then show ?case by (simp add: run_skip insert_absorb)
next
  case (visit c w seen w' seen')
  from visit(3,4) visit.prems(1)
  have "\<forall>x \<in> set seen'. set (succs ch x) \<subseteq> set w' \<union> set seen'" by fastforce
  with visit show ?case by simp
qed

theorem run_reach: "set (run ch w []) = (edge_rel ch)\<^sup>* `` set w"
proof
  show "set (run ch w []) \<subseteq> (edge_rel ch)\<^sup>* `` set w"
    using run_sound [of ch w "[]"] by simp
  have "y \<in> set (run ch w [])" if "(x, y) \<in> (edge_rel ch)\<^sup>*" "x \<in> set w" for x y
    using that
  proof (induction rule: rtrancl_induct)
    case base
    then show ?case using run_includes [of w "[]" ch] by auto
  next
    case (step y z)
    then show ?case using run_closed [of "[]" ch w y] by auto
  qed
  then show "(edge_rel ch)\<^sup>* `` set w \<subseteq> set (run ch w [])" by blast
qed

lemma run_distinct: "distinct seen \<Longrightarrow> distinct (run ch w seen)"
proof (induction w seen rule: run_induct [where ch = ch])
  case (empty seen)
  then show ?case by (simp add: run_done)
next
  case (skip c w seen)
  then show ?case by (simp add: run_skip)
next
  case (visit c w seen w' seen')
  then show ?case by simp
qed

text \<open>Starting at the successors of a node gives its strict descendants.\<close>

lemma run_descendants: "set (run ch (succs ch x) []) = (edge_rel ch)\<^sup>+ `` {x}"
proof -
  have "(edge_rel ch)\<^sup>* `` set (succs ch x) = (edge_rel ch)\<^sup>+ `` {x}"
    by (auto simp: trancl_unfold_left relcomp_unfold intro: rtrancl_into_trancl2)
  then show ?thesis by (simp add: run_reach)
qed

end

section \<open>The two disciplines of the code\<close>

text \<open>The work stack; its top (Python's \<open>stack[-1]\<close>) is the head of the list.\<close>

function stack_walk :: "('a, 'a list) dict \<Rightarrow> 'a list \<Rightarrow> 'a list \<Rightarrow> 'a list" where
  "stack_walk ch [] seen = seen"
| "stack_walk ch (c # w) seen =
     (if c \<in> set seen then stack_walk ch w seen
      else stack_walk ch (rev (succs ch c) @ w) (seen @ [c]))"
  by pat_completeness auto
termination
proof (relation "measures [\<lambda>(ch, w, seen). card (open_nodes ch w seen), \<lambda>(ch, w, seen). length w]", goal_cases)
  case 1
  show ?case by simp
next
  case (2 ch c w seen)
  then show ?case using open_nodes_pop [of ch w seen c] by auto
next
  case (3 ch c w seen)
  then show ?case
    using open_nodes_visit [of c seen "rev (succs ch c) @ w" ch w "seen @ [c]"] by auto
qed

function queue_walk :: "('a, 'a list) dict \<Rightarrow> 'a list \<Rightarrow> 'a list \<Rightarrow> 'a list" where
  "queue_walk ch [] ordered = ordered"
| "queue_walk ch (c # q) ordered =
     (if c \<in> set ordered then queue_walk ch q ordered
      else queue_walk ch (q @ succs ch c) (ordered @ [c]))"
  by pat_completeness auto
termination
proof (relation "measures [\<lambda>(ch, w, seen). card (open_nodes ch w seen), \<lambda>(ch, w, seen). length w]", goal_cases)
  case 1
  show ?case by simp
next
  case (2 ch c w seen)
  then show ?case using open_nodes_pop [of ch w seen c] by auto
next
  case (3 ch c w seen)
  then show ?case
    using open_nodes_visit [of c seen "w @ succs ch c" ch w "seen @ [c]"] by auto
qed

interpretation stack: worklist_walk stack_walk
proof unfold_locales
  fix c :: 'a and seen ch w
  assume "c \<notin> set seen"
  then show "\<exists>w' seen'. stack_walk ch (c # w) seen = stack_walk ch w' seen'
      \<and> set w' = set (succs ch c) \<union> set w \<and> set seen' = insert c (set seen)
      \<and> (distinct seen \<longrightarrow> distinct seen')"
    by (intro exI [of _ "rev (succs ch c) @ w"] exI [of _ "seen @ [c]"]) simp
qed simp_all

interpretation queue: worklist_walk queue_walk
proof unfold_locales
  fix c :: 'a and seen ch w
  assume "c \<notin> set seen"
  then show "\<exists>w' seen'. queue_walk ch (c # w) seen = queue_walk ch w' seen'
      \<and> set w' = set (succs ch c) \<union> set w \<and> set seen' = insert c (set seen)
      \<and> (distinct seen \<longrightarrow> distinct seen')"
    by (intro exI [of _ "w @ succs ch c"] exI [of _ "seen @ [c]"]) auto
qed simp_all

end
