(* ===== verification/Definition_Check.thy ===== *)
theory Definition_Check
  imports Workflow_Schema Graph_Walk
begin

text \<open>
  The error type of the definition loaders and the cycle check
  (\<open>server/app/workflows/validator.py\<close>): a depth-first search that raises on a back edge.
  It accepts exactly the acyclic graphs.
\<close>

section \<open>Definition errors\<close>

text \<open>
  A \<open>WorkflowDefinitionError\<close> carries its subject (a node key, an edge index) and the
  fixed text of the message; the interpolated representations of values are dropped.
  \<open>KeyErr\<close> is Python's \<open>KeyError\<close>, \<open>SchemaErr\<close> a \<open>ConfigSchemaError\<close> at a path.
\<close>

datatype def_error =
    NodeErr string string
  | EdgeErr nat string
  | DefErr string
  | CycleAt string
  | KeyErr string
  | SchemaErr string string

section \<open>The cycle check\<close>

text \<open>
  \<open>visiting\<close> is the set of the open calls; the source removes a key from it when the call
  returns, so it is an argument here. \<open>visited\<close> is threaded through.
\<close>

function visit :: "(string, string list) dict \<Rightarrow> string list \<Rightarrow> string list \<Rightarrow> string \<Rightarrow> def_error + string list"
  and visit_all :: "(string, string list) dict \<Rightarrow> string list \<Rightarrow> string list \<Rightarrow> string list \<Rightarrow> def_error + string list" where
  "visit ch visiting visited k =
     (if k \<in> set visiting then Inl (CycleAt k)
      else if k \<in> set visited then Inr visited
      else (case dget ch k of
              None \<Rightarrow> Inl (KeyErr k)
            | Some cs \<Rightarrow>
                (case visit_all ch (k # visiting) visited cs of
                   Inl e \<Rightarrow> Inl e
                 | Inr visited' \<Rightarrow> Inr (k # visited'))))"
| "visit_all ch visiting visited [] = Inr visited"
| "visit_all ch visiting visited (c # cs) =
     (case visit ch visiting visited c of
        Inl e \<Rightarrow> Inl e
      | Inr visited' \<Rightarrow> visit_all ch visiting visited' cs)"
  by pat_completeness auto
termination
proof (relation "measures [\<lambda>x. case x of
      Inl (ch, visiting, visited, k) \<Rightarrow> 2 * card (set (keys ch) - set visiting)
    | Inr (ch, visiting, visited, cs) \<Rightarrow> 2 * card (set (keys ch) - set visiting) + 1,
    \<lambda>x. case x of Inl _ \<Rightarrow> 0 | Inr (ch, visiting, visited, cs) \<Rightarrow> length cs]", goal_cases)
  case 1
  show ?case by simp
next
  case (2 ch visiting visited k cs)
  then have "set (keys ch) - set (k # visiting) \<subset> set (keys ch) - set visiting"
    using dget_SomeD [of ch k cs] by auto
  then have "card (set (keys ch) - set (k # visiting)) < card (set (keys ch) - set visiting)"
    by (simp add: psubset_card_mono)
  then show ?case by simp
qed auto

definition children_of :: "(string, workflow_node) dict \<Rightarrow> workflow_edge list \<Rightarrow> (string, string list) dict" where
  "children_of nodes edges =
     map (\<lambda>k. (k, map e_target (filter (\<lambda>e. e_source e = k) edges))) (keys nodes)"

definition validate_acyclic ::
  "(string, workflow_node) dict \<Rightarrow> workflow_edge list \<Rightarrow> def_error + unit" where
  "validate_acyclic nodes edges =
     bindE (visit_all (children_of nodes edges) [] [] (keys nodes)) (\<lambda>_. Inr ())"

declare visit.simps [simp del]

section \<open>Soundness: an accepted graph is acyclic\<close>

definition no_cycle_in :: "('a \<times> 'a) set \<Rightarrow> 'a set \<Rightarrow> bool" where
  "no_cycle_in R V \<longleftrightarrow> (\<forall>x \<in> V. R `` {x} \<subseteq> V) \<and> (\<forall>x \<in> V. (x, x) \<notin> R\<^sup>+)"

lemma closed_trancl: "(x, y) \<in> R\<^sup>+ \<Longrightarrow> \<forall>x \<in> V. R `` {x} \<subseteq> V \<Longrightarrow> x \<in> V \<Longrightarrow> y \<in> V"
  by (induction rule: trancl_induct) auto

lemma no_cycle_insert:
  assumes "no_cycle_in R V" and "k \<notin> V" and "R `` {k} \<subseteq> V"
  shows "no_cycle_in R (insert k V)"
proof -
  have "(k, k) \<notin> R\<^sup>+"
  proof
    assume "(k, k) \<in> R\<^sup>+"
    then obtain z where z: "(k, z) \<in> R" "z = k \<or> (z, k) \<in> R\<^sup>+"
      by (metis converse_tranclE)
    then have "z \<in> V" using assms(3) by auto
    with z assms(1,2) show False
      using closed_trancl [of z k R V] by (auto simp: no_cycle_in_def)
  qed
  then show ?thesis using assms by (auto simp: no_cycle_in_def)
qed

lemma visit_sound:
  shows "visit ch visiting visited k = Inr visited' \<Longrightarrow> no_cycle_in (edge_rel ch) (set visited) \<Longrightarrow>
      set visiting \<inter> set visited = {} \<Longrightarrow>
      no_cycle_in (edge_rel ch) (set visited') \<and> k \<in> set visited' \<and> set visited \<subseteq> set visited'
      \<and> set visiting \<inter> set visited' = {}"
    and "visit_all ch visiting visited cs = Inr visited' \<Longrightarrow> no_cycle_in (edge_rel ch) (set visited) \<Longrightarrow>
      set visiting \<inter> set visited = {} \<Longrightarrow>
      no_cycle_in (edge_rel ch) (set visited') \<and> set cs \<subseteq> set visited' \<and> set visited \<subseteq> set visited'
      \<and> set visiting \<inter> set visited' = {}"
proof (induction ch visiting visited k and ch visiting visited cs arbitrary: visited' and visited'
    rule: visit_visit_all.induct)
  case (1 ch visiting visited k)
  show ?case
  proof (cases "k \<in> set visited")
    case True
    with 1 show ?thesis by (auto simp: visit.simps [of ch visiting visited k] split: if_splits)
  next
    case False
    with 1(2) obtain cs v where cs: "dget ch k = Some cs" and k: "k \<notin> set visiting"
      and v: "visit_all ch (k # visiting) visited cs = Inr v" and v': "visited' = k # v"
      by (auto simp: visit.simps [of ch visiting visited k] split: if_splits option.splits sum.splits)
    have "set (k # visiting) \<inter> set visited = {}" using 1(4) False by auto
    from 1(1) [OF k False cs v 1(3) this]
    have IH: "no_cycle_in (edge_rel ch) (set v)" "set cs \<subseteq> set v" "set visited \<subseteq> set v"
      "set (k # visiting) \<inter> set v = {}" by auto
    have "edge_rel ch `` {k} \<subseteq> set v" using IH(2) cs by (auto simp: succs_def dget_default_def)
    with no_cycle_insert [OF IH(1)] IH(4) have "no_cycle_in (edge_rel ch) (insert k (set v))" by auto
    then show ?thesis using v' IH(3,4) k by auto
  qed
next
  case (2 ch visiting visited)
  then show ?case by simp
next
  case (3 ch visiting visited c cs)
  from 3(3) obtain v where v: "visit ch visiting visited c = Inr v"
    and r: "visit_all ch visiting v cs = Inr visited'" by (auto split: sum.splits)
  from 3(1) [OF v 3(4,5)] 3(2) [OF v r] show ?case by auto
qed

section \<open>Completeness: a rejected graph has a cycle\<close>

lemma visit_complete:
  shows "visit ch visiting visited k = Inl (CycleAt x) \<Longrightarrow> \<forall>v \<in> set visiting. (v, k) \<in> (edge_rel ch)\<^sup>+ \<Longrightarrow>
      (x, x) \<in> (edge_rel ch)\<^sup>+"
    and "visit_all ch visiting visited cs = Inl (CycleAt x) \<Longrightarrow>
      \<forall>v \<in> set visiting. \<forall>c \<in> set cs. (v, c) \<in> (edge_rel ch)\<^sup>+ \<Longrightarrow> (x, x) \<in> (edge_rel ch)\<^sup>+"
proof (induction ch visiting visited k and ch visiting visited cs rule: visit_visit_all.induct)
  case (1 ch visiting visited k)
  show ?case
  proof (cases "k \<in> set visiting")
    case True
    with 1 show ?thesis by (auto simp: visit.simps [of ch visiting visited k])
  next
    case False
    with 1(2) obtain cs where nv: "k \<notin> set visited" and cs: "dget ch k = Some cs"
      and err: "visit_all ch (k # visiting) visited cs = Inl (CycleAt x)"
      by (auto simp: visit.simps [of ch visiting visited k] split: if_splits option.splits sum.splits)
    have kc: "(k, c) \<in> edge_rel ch" if "c \<in> set cs" for c
      using that cs by (simp add: succs_def dget_default_def)
    have "\<forall>v \<in> set (k # visiting). \<forall>c \<in> set cs. (v, c) \<in> (edge_rel ch)\<^sup>+"
    proof (intro ballI)
      fix v c
      assume "v \<in> set (k # visiting)" and "c \<in> set cs"
      then show "(v, c) \<in> (edge_rel ch)\<^sup>+"
        using 1(3) kc [of c] by (auto intro: trancl_into_trancl)
    qed
    with 1(1) [OF False nv cs err] show ?thesis by blast
  qed
next
  case (2 ch visiting visited)
  then show ?case by simp
next
  case (3 ch visiting visited c cs)
  show ?case
  proof (cases "visit ch visiting visited c")
    case (Inl e)
    with 3 show ?thesis by auto
  next
    case (Inr v)
    with 3(3) have "visit_all ch visiting v cs = Inl (CycleAt x)" by simp
    from 3(2) [OF Inr this] 3(4) show ?thesis by simp
  qed
qed

text \<open>With every target declared, the only error is a cycle.\<close>

lemma visit_errors:
  assumes "walk_targets ch \<subseteq> set (keys ch)"
  shows "visit ch visiting visited k = Inl e \<Longrightarrow> k \<in> set (keys ch) \<Longrightarrow> \<exists>x. e = CycleAt x"
    and "visit_all ch visiting visited cs = Inl e \<Longrightarrow> set cs \<subseteq> set (keys ch) \<Longrightarrow> \<exists>x. e = CycleAt x"
  using assms
proof (induction ch visiting visited k and ch visiting visited cs rule: visit_visit_all.induct)
  case (1 ch visiting visited k)
  from 1(3) obtain cs where cs: "dget ch k = Some cs" using in_keys_iff by metis
  have "set cs \<subseteq> set (keys ch)"
    using 1(4) cs dget_SomeD [OF cs] unfolding walk_targets_def by fastforce
  with 1 cs show ?case
    by (auto simp: visit.simps [of ch visiting visited k] split: if_splits sum.splits)
qed (auto split: sum.splits)

lemma edge_rel_children_of:
  assumes "\<forall>e \<in> set edges. e_source e \<in> set (keys nodes)"
  shows "edge_rel (children_of nodes edges) = (\<lambda>e. (e_source e, e_target e)) ` set edges"
  using assms
  by (auto simp: edge_rel_def children_of_def succs_def dget_default_def dget_map_keys split: if_splits)

lemma keys_children_of [simp]: "keys (children_of nodes edges) = keys nodes"
  by (simp add: children_of_def keys_def comp_def)

lemma targets_children_of: "walk_targets (children_of nodes edges) \<subseteq> e_target ` set edges"
  by (auto simp: walk_targets_def children_of_def)

theorem validate_acyclic_iff:
  assumes "\<forall>e \<in> set edges. e_source e \<in> set (keys nodes) \<and> e_target e \<in> set (keys nodes)"
  shows "validate_acyclic nodes edges = Inr () \<longleftrightarrow>
    acyclic ((\<lambda>e. (e_source e, e_target e)) ` set edges)"
proof -
  let ?ch = "children_of nodes edges"
  have R: "edge_rel ?ch = (\<lambda>e. (e_source e, e_target e)) ` set edges"
    using assms by (intro edge_rel_children_of) auto
  show ?thesis
  proof (cases "visit_all ?ch [] [] (keys nodes)")
    case (Inl e)
    have "walk_targets ?ch \<subseteq> set (keys ?ch)"
      using targets_children_of [of nodes edges] assms by auto
    from visit_errors(2) [OF this Inl] obtain x where "e = CycleAt x" by auto
    with visit_complete(2) [of ?ch "[]" "[]" "keys nodes" x] Inl
    have "(x, x) \<in> (edge_rel ?ch)\<^sup>+" by simp
    then show ?thesis using Inl R by (auto simp: validate_acyclic_def acyclic_def)
  next
    case (Inr v)
    from visit_sound(2) [OF Inr] have nc: "no_cycle_in (edge_rel ?ch) (set v)" "set (keys nodes) \<subseteq> set v"
      by (auto simp: no_cycle_in_def)
    have "(x, x) \<notin> (edge_rel ?ch)\<^sup>+" for x
    proof
      assume c: "(x, x) \<in> (edge_rel ?ch)\<^sup>+"
      then obtain y where "(x, y) \<in> edge_rel ?ch" by (metis converse_tranclE)
      then have "x \<in> set (keys nodes)" unfolding R using assms by auto
      with nc c show False by (auto simp: no_cycle_in_def)
    qed
    then show ?thesis using Inr R by (auto simp: validate_acyclic_def acyclic_def)
  qed
qed

end
