(* ===== verification/Config_Schema.thy ===== *)
theory Config_Schema
  imports Definition_Check
begin

text \<open>
  The typed config-schema subset (\<open>server/app/config_schema.py\<close>): validation of a schema
  declaration, validation of values against a schema, the schema defaults and the projection
  that may leave the server in a manifest. Error paths are the paths of the source.
\<close>

section \<open>Python operators used on untyped values\<close>

definition type_error :: def_error where
  "type_error = DefErr ''TypeError''"

text \<open>\<open>a < b\<close> on values: numbers compare by value, strings by code points.\<close>

definition py_lt :: "pyval \<Rightarrow> pyval \<Rightarrow> def_error + bool" where
  "py_lt a b =
     (case (a, b) of
        (PStr s, PStr t) \<Rightarrow> Inr (s < t)
      | _ \<Rightarrow> (case (py_num a, py_num b) of (Some x, Some y) \<Rightarrow> Inr (x < y) | _ \<Rightarrow> Inl type_error))"

text \<open>\<open>value in container\<close>.\<close>

fun py_in :: "pyval \<Rightarrow> pyval \<Rightarrow> def_error + bool" where
  "py_in v (PList xs) = Inr (list_ex (py_eq v) xs)"
| "py_in v (PDict d) = Inr (list_ex (py_eq v) (keys d))"
| "py_in v (PStr s) = (case v of PStr t \<Rightarrow> Inr (contains t s) | _ \<Rightarrow> Inl type_error)"
| "py_in v _ = Inl type_error"

section \<open>Schema declarations\<close>

definition schema_types :: "string list" where
  "schema_types = [''string'', ''integer'', ''number'', ''boolean'']"

definition top_level_keys :: "string list" where
  "top_level_keys = [''type'', ''properties'', ''required'']"

definition property_keys :: "string list" where
  "property_keys = [''type'', ''description'', ''default'', ''enum'', ''minimum'', ''maximum'',
     ''secret'', ''secret_ref'']"

text \<open>
  \<open>set(d) - ks\<close>, and the error raised when it is not empty: the message sorts the keys, which
  fails first on keys that do not compare.
\<close>

definition unknown_keys :: "string list \<Rightarrow> pydict \<Rightarrow> pyval list" where
  "unknown_keys ks d = filter (\<lambda>k. k \<notin> PStr ` set ks) (keys d)"

definition sort_error :: "pyval list \<Rightarrow> def_error \<Rightarrow> def_error" where
  "sort_error xs e = (if sortable xs then e else type_error)"

definition reject_unknown :: "pyval list \<Rightarrow> def_error \<Rightarrow> def_error + 'a \<Rightarrow> def_error + 'a" where
  "reject_unknown xs e = guardE (xs \<noteq> []) (sort_error xs e)"

fun is_number :: "pyval \<Rightarrow> bool" where
  "is_number (PInt i) = True"
| "is_number (PFloat q) = True"
| "is_number _ = False"

definition type_matches :: "pyval \<Rightarrow> pyval \<Rightarrow> bool" where
  "type_matches expected v =
     (if expected = PStr ''string'' then is_pstr v
      else if expected = PStr ''boolean'' then is_pbool v
      else if expected = PStr ''integer'' then is_pint v \<and> \<not> is_pbool v
      else if expected = PStr ''number'' then is_number v
      else False)"

definition numeric_type :: "pyval \<Rightarrow> bool" where
  "numeric_type expected \<longleftrightarrow> expected = PStr ''integer'' \<or> expected = PStr ''number''"

definition check_bound :: "string \<Rightarrow> string \<Rightarrow> pyval \<Rightarrow> pyval \<Rightarrow> pyval \<Rightarrow> def_error + unit" where
  "check_bound path msg bound a b =
     (if bound = PNone then Inr () else bindE (py_lt a b) (\<lambda>bad. guardE bad (SchemaErr path msg) (Inr ())))"

definition check_value :: "string \<Rightarrow> pydict \<Rightarrow> pyval \<Rightarrow> def_error + unit" where
  "check_value path prop v =
     guardE (\<not> phas prop ''type'') (KeyErr ''type'')
     (let expected = pget prop ''type'' in
      guardE (\<not> type_matches expected v) (SchemaErr path ''must be of type'')
      (let enum = pget prop ''enum'' in
       bindE (if enum = PNone then Inr True else py_in v enum) (\<lambda>member.
       guardE (\<not> member) (SchemaErr path ''must be one of'')
       (if numeric_type expected then
          (let minimum = pget prop ''minimum''; maximum = pget prop ''maximum'' in
           bindE (check_bound path ''must be >='' minimum v minimum) (\<lambda>_.
           check_bound path ''must be <='' maximum maximum v))
        else Inr ()))))"

definition check_enum :: "string \<Rightarrow> pydict \<Rightarrow> def_error + unit" where
  "check_enum path prop =
     (case pget prop ''enum'' of
        PNone \<Rightarrow> Inr ()
      | PList xs \<Rightarrow>
          guardE (xs = []) (SchemaErr path ''.enum must be a non-empty list'')
          (guardE (\<not> list_all (type_matches (pget prop ''type'')) xs)
             (SchemaErr path ''.enum items must match the declared type'') (Inr ()))
      | _ \<Rightarrow> Inl (SchemaErr path ''.enum must be a non-empty list''))"

definition check_bound_decl :: "string \<Rightarrow> pydict \<Rightarrow> string \<Rightarrow> def_error + unit" where
  "check_bound_decl path prop bound =
     (if phas prop bound then
        guardE (\<not> numeric_type (pget prop ''type'')) (SchemaErr (path @ CHR ''.'' # bound) ''requires a numeric type'')
        (guardE (\<not> type_matches (PStr ''number'') (pget prop bound))
           (SchemaErr (path @ CHR ''.'' # bound) ''must be a number'') (Inr ()))
      else Inr ())"

definition check_marker :: "string \<Rightarrow> pydict \<Rightarrow> string \<Rightarrow> def_error + unit" where
  "check_marker path prop marker =
     guardE (phas prop marker \<and> \<not> is_pbool (pget prop marker))
       (SchemaErr (path @ CHR ''.'' # marker) ''must be a boolean'') (Inr ())"

definition validate_property :: "string \<Rightarrow> pyval \<Rightarrow> def_error + unit" where
  "validate_property path v =
     (case v of
        PDict prop \<Rightarrow>
          reject_unknown (unknown_keys (''runtime_mutable'' # property_keys) prop) (SchemaErr path ''has unsupported keys'')
          (guardE (pget prop ''type'' \<notin> PStr ` set schema_types) (SchemaErr path ''.type must be one of'')
          (bindE (mapE (check_marker path prop) [''secret'', ''secret_ref'', ''runtime_mutable'']) (\<lambda>_.
           bindE (check_enum path prop) (\<lambda>_.
           bindE (mapE (check_bound_decl path prop) [''minimum'', ''maximum'']) (\<lambda>_.
           bindE (if phas prop ''minimum'' \<and> phas prop ''maximum''
                  then py_lt (pget prop ''maximum'') (pget prop ''minimum'') else Inr False) (\<lambda>inverted.
           guardE inverted (SchemaErr path ''.minimum must not exceed maximum'')
           (bindE (if phas prop ''default'' then check_value (path @ ''.default'') prop (pget prop ''default'')
                   else Inr ()) (\<lambda>_.
            guardE (truthy (pget prop ''secret'') \<and> phas prop ''default'')
              (SchemaErr path '': a secret property cannot declare a default'') (Inr ())))))))))
      | _ \<Rightarrow> Inl (SchemaErr path ''must be a mapping''))"

definition validate_named_property :: "string \<Rightarrow> pyval \<times> pyval \<Rightarrow> def_error + unit" where
  "validate_named_property path item =
     (case fst item of
        PStr name \<Rightarrow>
          guardE (name = []) (SchemaErr path ''.properties keys must be non-empty strings'')
            (validate_property (path @ ''.properties.'' @ name) (snd item))
      | _ \<Rightarrow> Inl (SchemaErr path ''.properties keys must be non-empty strings''))"

definition validate_config_schema :: "string \<Rightarrow> pyval \<Rightarrow> def_error + unit" where
  "validate_config_schema path v =
     (case v of
        PDict schema \<Rightarrow>
          if schema = [] then Inr ()
          else reject_unknown (unknown_keys top_level_keys schema) (SchemaErr path ''has unsupported keys'')
          (guardE (pget_or schema ''type'' (PStr ''object'') \<noteq> PStr ''object'') (SchemaErr path ''.type must be object'')
          (case pget_or schema ''properties'' (PDict []) of
             PDict props \<Rightarrow>
               bindE (mapE (validate_named_property path) props) (\<lambda>_.
               case pget_or schema ''required'' (PList []) of
                 PList req \<Rightarrow>
                   guardE (\<not> list_all is_pstr req) (SchemaErr path ''.required must be a list of strings'')
                   (guardE (\<not> list_all (\<lambda>r. r \<in> set (keys props)) req)
                      (SchemaErr path ''.required references unknown property'') (Inr ()))
               | _ \<Rightarrow> Inl (SchemaErr path ''.required must be a list of strings''))
           | _ \<Rightarrow> Inl (SchemaErr path ''.properties must be a mapping'')))
      | _ \<Rightarrow> Inl (SchemaErr path ''must be a mapping''))"

section \<open>Values, defaults and the manifest projection\<close>

definition schema_properties :: "pydict \<Rightarrow> pydict" where
  "schema_properties schema = (case pget schema ''properties'' of PDict d \<Rightarrow> d | _ \<Rightarrow> [])"

fun item_default :: "pyval \<times> pyval \<Rightarrow> (pyval \<times> pyval) list" where
  "item_default (name, PDict prop) = (if phas prop ''default'' then [(name, pget prop ''default'')] else [])"
| "item_default _ = []"

definition config_schema_defaults :: "pydict \<Rightarrow> pydict" where
  "config_schema_defaults schema = concat (map item_default (schema_properties schema))"

definition check_item :: "string \<Rightarrow> pydict \<Rightarrow> pyval \<times> pyval \<Rightarrow> def_error + unit" where
  "check_item path props item =
     (case dget props (fst item) of
        Some (PDict prop) \<Rightarrow> check_value path prop (snd item)
      | Some _ \<Rightarrow> Inl type_error
      | None \<Rightarrow> Inl (KeyErr path))"

text \<open>\<open>for name in schema.get("required", []) or []\<close>: the values iterated over.\<close>

fun iter_values :: "pyval \<Rightarrow> def_error + pyval list" where
  "iter_values (PList xs) = Inr xs"
| "iter_values (PDict d) = Inr (keys d)"
| "iter_values (PStr s) = Inr (map PStr (code_points s))"
| "iter_values v = (if truthy v then Inl type_error else Inr [])"

definition validate_config_values :: "string \<Rightarrow> pydict \<Rightarrow> pyval \<Rightarrow> bool \<Rightarrow> def_error + pydict" where
  "validate_config_values path schema v partial =
     (case v of
        PDict values \<Rightarrow>
          (let props = schema_properties schema in
           reject_unknown (filter (\<lambda>k. k \<notin> set (keys props)) (keys values)) (SchemaErr path ''has unknown keys'')
           (bindE (mapE (check_item path props) values) (\<lambda>_.
            if partial then Inr values
            else bindE (iter_values (pget_or schema ''required'' (PList []))) (\<lambda>req.
              guardE (list_ex (\<lambda>r. r \<notin> set (keys values)) req) (SchemaErr path ''is required'') (Inr values)))))
      | _ \<Rightarrow> Inl (SchemaErr path ''must be a mapping''))"

definition manifest_safe_config :: "pydict \<Rightarrow> pydict \<Rightarrow> pydict" where
  "manifest_safe_config schema config =
     filter (\<lambda>(name, v). case dget (schema_properties schema) name of
         Some (PDict prop) \<Rightarrow> \<not> truthy (pget_or prop ''secret'' (PBool False))
       | _ \<Rightarrow> False) config"

lemma reject_unknown_Inr [err_simps]: "reject_unknown xs e k = Inr y \<longleftrightarrow> xs = [] \<and> k = Inr y"
  by (simp add: reject_unknown_def err_simps)

section \<open>What an accepted schema and accepted values satisfy\<close>

lemma mapE_InrD: "mapE f xs = Inr ys \<Longrightarrow> x \<in> set xs \<Longrightarrow> \<exists>y. f x = Inr y"
  by (induction xs arbitrary: ys) (auto simp: err_simps)

lemma mapE_unit: "\<forall>x \<in> set xs. f x = Inr () \<Longrightarrow> \<exists>ys. mapE f xs = Inr ys"
  by (induction xs) auto

text \<open>A value that satisfies its property: type, enumeration and bounds.\<close>

definition value_ok :: "pydict \<Rightarrow> pyval \<Rightarrow> bool" where
  "value_ok prop v \<longleftrightarrow> type_matches (pget prop ''type'') v
     \<and> (pget prop ''enum'' = PNone \<or> py_in v (pget prop ''enum'') = Inr True)
     \<and> (numeric_type (pget prop ''type'') \<longrightarrow>
          (pget prop ''minimum'' = PNone \<or> py_lt v (pget prop ''minimum'') = Inr False)
        \<and> (pget prop ''maximum'' = PNone \<or> py_lt (pget prop ''maximum'') v = Inr False))"

lemma check_bound_ok: "check_bound path msg b x y = Inr u \<longleftrightarrow> b = PNone \<or> py_lt x y = Inr False"
  by (auto simp: check_bound_def err_simps)

lemma check_value_ok:
  "check_value path prop v = Inr u \<longleftrightarrow> phas prop ''type'' \<and> value_ok prop v"
  by (auto simp: check_value_def value_ok_def Let_def err_simps check_bound_ok)

lemma validate_property_default:
  assumes "validate_property path (PDict prop) = Inr u" and "phas prop ''default''"
  shows "check_value path' prop (pget prop ''default'') = Inr () \<and> \<not> truthy (pget prop ''secret'')"
  using assms by (auto simp: validate_property_def err_simps check_value_ok)

lemma validate_schema_property:
  assumes "validate_config_schema path (PDict schema) = Inr u"
    and "(name, v) \<in> set (schema_properties schema)"
  shows "\<exists>s prop. name = PStr s \<and> s \<noteq> [] \<and> v = PDict prop
    \<and> validate_property (path @ ''.properties.'' @ s) (PDict prop) = Inr ()"
proof -
  have props: "pget_or schema ''properties'' (PDict []) = PDict (schema_properties schema)"
    using assms by (auto simp: validate_config_schema_def schema_properties_def pget_def pget_or_def
        dget_default_def err_simps split: pyval.splits option.splits if_splits)
  have "schema \<noteq> []" using assms(2) by (auto simp: schema_properties_def pget_def dget_default_def)
  then obtain ys where "mapE (validate_named_property path) (schema_properties schema) = Inr ys"
    using assms(1) props by (auto simp: validate_config_schema_def err_simps)
  from mapE_InrD [OF this assms(2)]
  have "validate_named_property path (name, v) = Inr ()" by auto
  then obtain s where s: "name = PStr s" "s \<noteq> []" "validate_property (path @ ''.properties.'' @ s) v = Inr ()"
    by (auto simp: validate_named_property_def err_simps split: pyval.splits)
  moreover from s(3) obtain pr where "v = PDict pr"
    by (auto simp: validate_property_def split: pyval.splits)
  ultimately show ?thesis by auto
qed

lemma set_schema_defaults:
  "(name, v) \<in> set (config_schema_defaults schema) \<longleftrightarrow>
    (\<exists>prop. (name, PDict prop) \<in> set (schema_properties schema) \<and> phas prop ''default''
       \<and> v = pget prop ''default'')"
proof -
  have "(name, v) \<in> set (item_default item) \<longleftrightarrow>
      (\<exists>prop. item = (name, PDict prop) \<and> phas prop ''default'' \<and> v = pget prop ''default'')" for item
    by (cases item rule: item_default.cases) auto
  then show ?thesis unfolding config_schema_defaults_def in_concat_loop by auto
qed

lemma defaults_validate:
  assumes "validate_config_schema path (PDict schema) = Inr ()"
    and "distinct (keys (schema_properties schema))"
  shows "validate_config_values path' schema (PDict (config_schema_defaults schema)) True
    = Inr (config_schema_defaults schema)"
proof -
  let ?props = "schema_properties schema" and ?ds = "config_schema_defaults schema"
  have known: "filter (\<lambda>k. k \<notin> set (keys ?props)) (keys ?ds) = []"
    by (auto simp: filter_empty_conv in_keys_pair set_schema_defaults)
  have "check_item path' ?props (name, v) = Inr ()" if "(name, v) \<in> set ?ds" for name v
  proof -
    from that obtain pr where p: "(name, PDict pr) \<in> set ?props" "phas pr ''default''"
      "v = pget pr ''default''" by (auto simp: set_schema_defaults)
    from validate_schema_property [OF assms(1) p(1)] obtain s where
      "validate_property (path @ ''.properties.'' @ s) (PDict pr) = Inr ()" by auto
    from validate_property_default [OF this p(2)] p(3)
    have "check_value path' pr v = Inr ()" by simp
    moreover have "dget ?props name = Some (PDict pr)"
      using p(1) assms(2) by (simp add: dget_distinct)
    ultimately show ?thesis by (simp add: check_item_def)
  qed
  then have "\<forall>x \<in> set ?ds. check_item path' ?props x = Inr ()" by (metis surj_pair)
  from mapE_unit [OF this] obtain ys where "mapE (check_item path' ?props) ?ds = Inr ys" ..
  then show ?thesis using known by (simp add: validate_config_values_def Let_def reject_unknown_def guardE_def)
qed

lemma validated_values_ok:
  assumes "validate_config_values path schema (PDict values) partial = Inr cleaned"
  shows "cleaned = values" and "(name, v) \<in> set values \<Longrightarrow>
    \<exists>prop. dget (schema_properties schema) name = Some (PDict prop) \<and> value_ok prop v"
proof -
  obtain ys where ys: "mapE (check_item path (schema_properties schema)) values = Inr ys"
    using assms by (auto simp: validate_config_values_def Let_def err_simps)
  show "cleaned = values"
    using assms by (auto simp: validate_config_values_def Let_def err_simps split: if_splits)
  assume "(name, v) \<in> set values"
  from mapE_InrD [OF ys this]
  show "\<exists>prop. dget (schema_properties schema) name = Some (PDict prop) \<and> value_ok prop v"
    by (auto simp: check_item_def check_value_ok split: option.splits pyval.splits)
qed

text \<open>
  The specification of a value: its type as a typing relation in which a truth value is no integer,
  the numbers it denotes, and what a property demands of it. Nothing here is taken from the checker.
\<close>

inductive has_type :: "string \<Rightarrow> pyval \<Rightarrow> bool" where
  string_ty: "has_type ''string'' (PStr s)"
| boolean_ty: "has_type ''boolean'' (PBool b)"
| integer_ty: "has_type ''integer'' (PInt i)"
| number_int_ty: "has_type ''number'' (PInt i)"
| number_float_ty: "has_type ''number'' (PFloat q)"

inductive denotes :: "pyval \<Rightarrow> rat \<Rightarrow> bool" where
  int_number: "denotes (PInt i) (of_int i)"
| float_number: "denotes (PFloat q) q"

declare has_type.intros [intro!] denotes.intros [intro!]

inductive_simps has_type_values [simp]:
  "has_type ty PNone" "has_type ty (PStr s)" "has_type ty (PBool b)" "has_type ty (PInt i)" "has_type ty (PFloat q)"
  "has_type ty (PList xs)" "has_type ty (PDict d)"

inductive_simps denotes_values [simp]:
  "denotes PNone x" "denotes (PStr s) x" "denotes (PBool b) x" "denotes (PInt i) x" "denotes (PFloat q) x"
  "denotes (PList xs) x" "denotes (PDict d) x"

definition conforms :: "pydict \<Rightarrow> pyval \<Rightarrow> bool" where
  "conforms prop v \<longleftrightarrow>
     (\<exists>ty. dget prop (PStr ''type'') = Some (PStr ty) \<and> has_type ty v)
   \<and> (\<forall>xs. dget prop (PStr ''enum'') = Some (PList xs) \<longrightarrow> (\<exists>x \<in> set xs. x = v \<or> (\<exists>q. denotes x q \<and> denotes v q)))
   \<and> (\<forall>m a b. dget prop (PStr ''minimum'') = Some m \<longrightarrow> denotes m a \<longrightarrow> denotes v b \<longrightarrow> a \<le> b)
   \<and> (\<forall>m a b. dget prop (PStr ''maximum'') = Some m \<longrightarrow> denotes m a \<longrightarrow> denotes v b \<longrightarrow> b \<le> a)"

lemma type_matches_iff:
  "ty \<in> set schema_types \<Longrightarrow> type_matches (PStr ty) v \<longleftrightarrow> has_type ty v"
  by (cases v) (auto simp: type_matches_def schema_types_def)

lemma same_value_iff:
  "has_type ty v \<Longrightarrow> has_type ty x \<Longrightarrow> py_eq v x \<longleftrightarrow> x = v \<or> (\<exists>q. denotes x q \<and> denotes v q)"
  by (cases v; cases x) (auto simp: py_eq.simps)

lemma numbers_compare:
  assumes "denotes v a" and "denotes w b"
  shows "py_lt v w = Inr (a < b)"
  using assms by (cases v; cases w) (auto simp: py_lt_def)

lemma has_number: "has_type ''number'' m \<Longrightarrow> \<exists>q. denotes m q"
  by (cases m) auto

lemma typed_number: "has_type ty v \<Longrightarrow> numeric_type (PStr ty) \<longleftrightarrow> (\<exists>q. denotes v q)"
  by (cases v) (auto simp: numeric_type_def)

lemma denotes_unique: "denotes v a \<Longrightarrow> denotes v b \<Longrightarrow> a = b"
  by (cases v) auto

text \<open>What the declaration of an accepted property says about its entries.\<close>

lemma accepted_property:
  assumes "validate_property path (PDict prop) = Inr u"
  obtains ty where "dget prop (PStr ''type'') = Some (PStr ty)" "ty \<in> set schema_types"
    "pget prop ''enum'' = PNone \<or> (\<exists>xs. pget prop ''enum'' = PList xs \<and> (\<forall>x \<in> set xs. has_type ty x))"
    "\<And>bound m. bound \<in> {''minimum'', ''maximum''} \<Longrightarrow> dget prop (PStr bound) = Some m \<Longrightarrow> numeric_type (PStr ty) \<and> has_type ''number'' m"
proof -
  from assms have "pget prop ''type'' \<in> PStr ` set schema_types" by (auto simp: validate_property_def err_simps)
  then obtain ty where t: "pget prop ''type'' = PStr ty" "ty \<in> set schema_types" by blast
  have "dget prop (PStr ''type'') = Some (PStr ty)" using t(1) by (auto simp: pget_def dget_default_def split: option.splits)
  moreover have "pget prop ''enum'' = PNone \<or> (\<exists>xs. pget prop ''enum'' = PList xs \<and> (\<forall>x \<in> set xs. has_type ty x))"
  proof -
    from assms obtain u' where "check_enum path prop = Inr u'" by (auto simp: validate_property_def err_simps)
    then show ?thesis
      using type_matches_iff [OF t(2)] by (auto simp: check_enum_def t(1) err_simps list_all_iff split: pyval.splits)
  qed
  moreover have "numeric_type (PStr ty) \<and> has_type ''number'' m"
    if b: "bound \<in> {''minimum'', ''maximum''}" and m: "dget prop (PStr bound) = Some m" for bound m
  proof -
    from assms obtain ys where "mapE (check_bound_decl path prop) [''minimum'', ''maximum''] = Inr ys"
      by (auto simp: validate_property_def err_simps)
    from mapE_InrD [OF this, of bound] b obtain u' where "check_bound_decl path prop bound = Inr u'" by auto
    moreover have "phas prop bound" "pget prop bound = m"
      using m by (auto simp: phas_def in_keys_iff pget_def dget_default_def)
    ultimately show ?thesis
      using type_matches_iff [of "''number''" m] by (auto simp: check_bound_decl_def t(1) err_simps schema_types_def)
  qed
  ultimately show ?thesis using that t(2) by blast
qed

lemma bound_iff:
  assumes "has_type ty v" and "\<And>m. dget prop (PStr bound) = Some m \<Longrightarrow> numeric_type (PStr ty) \<and> has_type ''number'' m"
  shows "(numeric_type (PStr ty) \<longrightarrow> pget prop bound = PNone \<or> py_lt v (pget prop bound) = Inr False)
      \<longleftrightarrow> (\<forall>m a b. dget prop (PStr bound) = Some m \<longrightarrow> denotes m a \<longrightarrow> denotes v b \<longrightarrow> a \<le> b)"
    and "(numeric_type (PStr ty) \<longrightarrow> pget prop bound = PNone \<or> py_lt (pget prop bound) v = Inr False)
      \<longleftrightarrow> (\<forall>m a b. dget prop (PStr bound) = Some m \<longrightarrow> denotes m a \<longrightarrow> denotes v b \<longrightarrow> b \<le> a)"
proof -
  have none: "pget prop bound = PNone" if "dget prop (PStr bound) = None"
    using that by (simp add: pget_def dget_default_def)
  have some: "pget prop bound = m \<and> m \<noteq> PNone \<and> numeric_type (PStr ty) \<and> (\<exists>a b. denotes m a \<and> denotes v b)"
    if "dget prop (PStr bound) = Some m" for m
    using assms(2) [OF that] that typed_number [OF assms(1)] has_number [of m]
    by (auto simp: pget_def dget_default_def)
  show "(numeric_type (PStr ty) \<longrightarrow> pget prop bound = PNone \<or> py_lt v (pget prop bound) = Inr False)
      \<longleftrightarrow> (\<forall>m a b. dget prop (PStr bound) = Some m \<longrightarrow> denotes m a \<longrightarrow> denotes v b \<longrightarrow> a \<le> b)"
  proof (cases "dget prop (PStr bound)")
    case (Some m)
    with some obtain a b where "denotes m a" "denotes v b" "pget prop bound = m" "m \<noteq> PNone" "numeric_type (PStr ty)" by blast
    moreover have "(\<forall>m a b. dget prop (PStr bound) = Some m \<longrightarrow> denotes m a \<longrightarrow> denotes v b \<longrightarrow> a \<le> b) \<longleftrightarrow> a \<le> b"
      using Some \<open>denotes m a\<close> \<open>denotes v b\<close> denotes_unique by (metis option.inject)
    ultimately show ?thesis using numbers_compare [of v b m a] by (simp add: not_less)
  qed (simp add: none)
  show "(numeric_type (PStr ty) \<longrightarrow> pget prop bound = PNone \<or> py_lt (pget prop bound) v = Inr False)
      \<longleftrightarrow> (\<forall>m a b. dget prop (PStr bound) = Some m \<longrightarrow> denotes m a \<longrightarrow> denotes v b \<longrightarrow> b \<le> a)"
  proof (cases "dget prop (PStr bound)")
    case (Some m)
    with some obtain a b where "denotes m a" "denotes v b" "pget prop bound = m" "m \<noteq> PNone" "numeric_type (PStr ty)" by blast
    moreover have "(\<forall>m a b. dget prop (PStr bound) = Some m \<longrightarrow> denotes m a \<longrightarrow> denotes v b \<longrightarrow> b \<le> a) \<longleftrightarrow> b \<le> a"
      using Some \<open>denotes m a\<close> \<open>denotes v b\<close> denotes_unique by (metis option.inject)
    ultimately show ?thesis using numbers_compare [of m a v b] by (simp add: not_less)
  qed (simp add: none)
qed

lemma check_value_conforms:
  assumes "validate_property path (PDict prop) = Inr u"
  shows "check_value path' prop v = Inr () \<longleftrightarrow> conforms prop v"
proof (rule accepted_property [OF assms])
  fix ty
  assume ty: "dget prop (PStr ''type'') = Some (PStr ty)" "ty \<in> set schema_types"
    and enum: "pget prop ''enum'' = PNone \<or> (\<exists>xs. pget prop ''enum'' = PList xs \<and> (\<forall>x \<in> set xs. has_type ty x))"
    and bound: "\<And>bound m. bound \<in> {''minimum'', ''maximum''} \<Longrightarrow> dget prop (PStr bound) = Some m \<Longrightarrow>
      numeric_type (PStr ty) \<and> has_type ''number'' m"
  have t: "pget prop ''type'' = PStr ty" "phas prop ''type''" using ty(1) by (auto simp: pget_def dget_default_def phas_def in_keys_iff)
  show ?thesis
  proof (cases "has_type ty v")
    case False
    then show ?thesis using t ty by (simp add: check_value_ok value_ok_def conforms_def type_matches_iff)
  next
    case True
    have e: "(pget prop ''enum'' = PNone \<or> py_in v (pget prop ''enum'') = Inr True)
        \<longleftrightarrow> (\<forall>xs. dget prop (PStr ''enum'') = Some (PList xs) \<longrightarrow> (\<exists>x \<in> set xs. x = v \<or> (\<exists>q. denotes x q \<and> denotes v q)))"
      using enum same_value_iff [OF True]
      by (auto simp: pget_def dget_default_def list_ex_iff split: option.splits)
    show ?thesis
      using t ty True e bound_iff(1) [OF True bound [of "''minimum''"]] bound_iff(2) [OF True bound [of "''maximum''"]]
      by (simp add: check_value_ok value_ok_def conforms_def type_matches_iff imp_conjR del: has_type_values)
  qed
qed

lemma required_iff:
  assumes "validate_config_schema path (PDict schema) = Inr u"
  obtains names where "iter_values (pget_or schema ''required'' (PList [])) = Inr names"
    "set names = {r. \<exists>xs. dget schema (PStr ''required'') = Some (PList xs) \<and> r \<in> set xs}"
proof (cases "dget schema (PStr ''required'')")
  case None
  then show ?thesis using that [of "[]"] by (simp add: pget_or_def dget_default_def)
next
  case (Some v)
  then have "schema \<noteq> []" "pget_or schema ''required'' (PList []) = v" by (auto simp: pget_or_def dget_default_def)
  with assms obtain xs where "v = PList xs"
    by (auto simp: validate_config_schema_def err_simps split: pyval.splits)
  with Some show ?thesis using that [of xs] by (simp add: pget_or_def dget_default_def)
qed

lemma mapE_unit_iff: "(\<exists>ys. mapE f xs = Inr (ys :: unit list)) \<longleftrightarrow> (\<forall>x \<in> set xs. f x = Inr ())"
  using mapE_InrD [of f xs] mapE_unit [of xs f] by (metis (full_types) unit.exhaust)

lemma validated_values_iff:
  assumes "validate_config_schema spath (PDict schema) = Inr u"
  shows "validate_config_values path schema (PDict values) partial = Inr cleaned \<longleftrightarrow> cleaned = values
    \<and> (\<forall>(name, v) \<in> set values. \<exists>prop. dget (schema_properties schema) name = Some (PDict prop) \<and> conforms prop v)
    \<and> (\<not> partial \<longrightarrow> (\<forall>req. dget schema (PStr ''required'') = Some (PList req) \<longrightarrow> set req \<subseteq> set (keys values)))"
proof -
  let ?props = "schema_properties schema"
  obtain names where req: "iter_values (pget_or schema ''required'' (PList [])) = Inr names"
    "set names = {r. \<exists>xs. dget schema (PStr ''required'') = Some (PList xs) \<and> r \<in> set xs}" by (rule required_iff [OF assms])
  have item: "check_item path ?props (name, v) = Inr () \<longleftrightarrow> (\<exists>prop. dget ?props name = Some (PDict prop) \<and> conforms prop v)" for name v
  proof (cases "dget ?props name")
    case (Some p)
    from dget_SomeD [OF this] validate_schema_property [OF assms, of name p] obtain x pr where
      p: "p = PDict pr" "validate_property x (PDict pr) = Inr ()" by blast
    from check_value_conforms [OF p(2)] show ?thesis by (simp add: check_item_def Some p(1))
  qed (simp add: check_item_def)
  have all: "(\<exists>ys. mapE (check_item path ?props) values = Inr ys)
      \<longleftrightarrow> (\<forall>(name, v) \<in> set values. \<exists>prop. dget ?props name = Some (PDict prop) \<and> conforms prop v)"
    unfolding mapE_unit_iff using item by fastforce
  have known: "filter (\<lambda>k. k \<notin> set (keys ?props)) (keys values) = []"
    if "\<forall>(name, v) \<in> set values. \<exists>prop. dget ?props name = Some (PDict prop) \<and> conforms prop v"
  proof -
    have "k \<in> set (keys ?props)" if "k \<in> set (keys values)" for k
    proof -
      from that obtain v where "(k, v) \<in> set values" by (auto simp: in_keys_pair)
      with \<open>\<forall>(name, v) \<in> set values. \<exists>prop. dget ?props name = Some (PDict prop) \<and> conforms prop v\<close>
      show ?thesis unfolding in_keys_iff by blast
    qed
    then show ?thesis by (simp add: filter_empty_conv)
  qed
  have "validate_config_values path schema (PDict values) partial = Inr cleaned \<longleftrightarrow> cleaned = values
    \<and> filter (\<lambda>k. k \<notin> set (keys ?props)) (keys values) = [] \<and> (\<exists>ys. mapE (check_item path ?props) values = Inr ys)
    \<and> (\<not> partial \<longrightarrow> set names \<subseteq> set (keys values))"
    by (auto simp: validate_config_values_def Let_def err_simps req(1) list_ex_iff split: if_splits)
  also have "\<dots> \<longleftrightarrow> cleaned = values
    \<and> (\<forall>(name, v) \<in> set values. \<exists>prop. dget ?props name = Some (PDict prop) \<and> conforms prop v)
    \<and> (\<not> partial \<longrightarrow> (\<forall>req. dget schema (PStr ''required'') = Some (PList req) \<longrightarrow> set req \<subseteq> set (keys values)))"
    unfolding all req(2) using known by blast
  finally show ?thesis .
qed

lemma manifest_safe_iff:
  "(name, v) \<in> set (manifest_safe_config schema config) \<longleftrightarrow>
    (name, v) \<in> set config \<and> (\<exists>prop. dget (schema_properties schema) name = Some (PDict prop)
      \<and> \<not> truthy (pget prop ''secret''))"
  by (auto simp: manifest_safe_config_def pget_def pget_or_def dget_default_def
      split: option.splits pyval.splits)

section \<open>Properties\<close>

definition sample_schema :: pydict where
  "sample_schema = [(PStr ''type'', PStr ''object''), (PStr ''properties'', PDict
     [(PStr ''retries'', PDict [(PStr ''type'', PStr ''integer''), (PStr ''minimum'', PInt 1), (PStr ''default'', PInt 3)]),
      (PStr ''token'', PDict [(PStr ''type'', PStr ''string''), (PStr ''secret'', PBool True)])])]"

text \<open>
  The defaults of an accepted schema are themselves accepted configuration values, so
  filling in defaults never makes a configuration invalid.
\<close>

theorem schema_defaults_accepted:
  assumes "validate_config_schema path (PDict schema) = Inr ()"
    and "distinct (keys (schema_properties schema))"
  shows "validate_config_values path' schema (PDict (config_schema_defaults schema)) True
    = Inr (config_schema_defaults schema)"
  by (rule defaults_validate [OF assms])

theorem schema_defaults_accepted_witness:
  "validate_config_values ''node'' sample_schema (PDict [(PStr ''retries'', PInt 3)]) True = Inr [(PStr ''retries'', PInt 3)]"
proof -
  have "validate_config_schema ''node'' (PDict sample_schema) = Inr ()" by code_simp
  moreover have "distinct (keys (schema_properties sample_schema))" by code_simp
  moreover have "config_schema_defaults sample_schema = [(PStr ''retries'', PInt 3)]" by code_simp
  ultimately show ?thesis using schema_defaults_accepted [of "''node''" sample_schema "''node''"] by simp
qed

text \<open>
  C8. Against an accepted schema, a value mapping is accepted exactly when every entry is declared and
  conforms to its property (its type, where a truth value is no integer, its enumeration and its
  bounds) and, unless the check is partial, no required name is missing; it comes out unchanged.
\<close>

theorem accepted_values_conform:
  assumes "validate_config_schema spath (PDict schema) = Inr ()"
  shows "validate_config_values path schema (PDict values) partial = Inr cleaned \<longleftrightarrow> cleaned = values
    \<and> (\<forall>(name, v) \<in> set values. \<exists>prop. dget (schema_properties schema) name = Some (PDict prop) \<and> conforms prop v)
    \<and> (\<not> partial \<longrightarrow> (\<forall>req. dget schema (PStr ''required'') = Some (PList req) \<longrightarrow> set req \<subseteq> set (keys values)))"
  by (rule validated_values_iff [OF assms])

theorem accepted_values_conform_witness:
  "\<exists>prop. dget (schema_properties sample_schema) (PStr ''retries'') = Some (PDict prop) \<and> conforms prop (PInt 2)
     \<and> \<not> conforms prop (PBool True)"
proof -
  have ok: "validate_config_schema ''node'' (PDict sample_schema) = Inr ()" by code_simp
  have "validate_config_values ''node'' sample_schema (PDict [(PStr ''retries'', PInt 2)]) False = Inr [(PStr ''retries'', PInt 2)]"
    by code_simp
  moreover have "case validate_config_values ''node'' sample_schema (PDict [(PStr ''retries'', PBool True)]) True of Inr x \<Rightarrow> False | Inl e \<Rightarrow> True"
    by code_simp
  then have "validate_config_values ''node'' sample_schema (PDict [(PStr ''retries'', PBool True)]) True \<noteq> Inr [(PStr ''retries'', PBool True)]"
    by auto
  ultimately show ?thesis unfolding accepted_values_conform [OF ok] by auto
qed

text \<open>
  What a manifest carries of a configuration is exactly its declared entries that the
  schema does not mark secret: no secret and no undeclared value leaves the server this way.
\<close>

theorem manifest_projection_exact:
  "(name, v) \<in> set (manifest_safe_config schema config) \<longleftrightarrow>
    (name, v) \<in> set config \<and> (\<exists>prop. dget (schema_properties schema) name = Some (PDict prop)
      \<and> \<not> truthy (pget prop ''secret''))"
  by (rule manifest_safe_iff)

end
