(* ===== verification/Node_Fields.thy ===== *)
theory Node_Fields
  imports Config_Schema
begin

text \<open>
  The per-node field loaders of the workflow loader (\<open>server/app/workflows/\<close>: \<open>loader.py\<close>,
  \<open>workflow_node_execution.py\<close>, \<open>workflow_node_profile.py\<close>, \<open>workflow_node_skill.py\<close>,
  \<open>node_config_schema.py\<close>, \<open>start_text_input.py\<close>, \<open>start_node.py\<close>, \<open>approval_node.py\<close>):
  each takes the raw mapping of a node and returns the typed field or the error.
\<close>

section \<open>Lists, terminal, sharding, reduction\<close>

definition attribute_error :: def_error where
  "attribute_error = DefErr ''AttributeError''"

definition string_list :: "pyval \<Rightarrow> string \<Rightarrow> string \<Rightarrow> def_error + string list" where
  "string_list v field node_key =
     (case v of
        PNone \<Rightarrow> Inr []
      | PList xs \<Rightarrow> guardE (\<not> list_all is_pstr xs) (NodeErr node_key (field @ '' must be a list of strings''))
                    (Inr (strs_of xs))
      | _ \<Rightarrow> Inl (NodeErr node_key (field @ '' must be a list of strings'')))"

text \<open>A field that must be a non-empty string.\<close>

definition required_str :: "pyval \<Rightarrow> def_error \<Rightarrow> def_error + string" where
  "required_str v e = (case v of PStr s \<Rightarrow> guardE (s = []) e (Inr s) | _ \<Rightarrow> Inl e)"

definition load_terminal :: "pydict \<Rightarrow> string \<Rightarrow> def_error + workflow_terminal option" where
  "load_terminal raw k =
     (case pget raw ''terminal'' of
        PNone \<Rightarrow> Inr None
      | PDict t \<Rightarrow> bindE (required_str (pget t ''outcome'') (NodeErr k ''terminal.outcome is required''))
                    (\<lambda>s. Inr (Some \<lparr>t_outcome = s\<rparr>))
      | _ \<Rightarrow> Inl (NodeErr k ''terminal must be a mapping''))"

definition positive_int :: "pyval \<Rightarrow> string \<Rightarrow> string \<Rightarrow> def_error + int" where
  "positive_int v field k =
     (case v of
        PInt i \<Rightarrow> guardE (i < 1) (NodeErr k (field @ '' must be an integer >= 1'')) (Inr i)
      | _ \<Rightarrow> Inl (NodeErr k (field @ '' must be an integer >= 1'')))"

text \<open>An optional positive integer: absent or \<open>None\<close> stays undeclared.\<close>

definition optional_int :: "pyval \<Rightarrow> string \<Rightarrow> string \<Rightarrow> def_error + int option" where
  "optional_int v field k = (if v = PNone then Inr None else bindE (positive_int v field k) (\<lambda>i. Inr (Some i)))"

definition inputs_prefix :: string where
  "inputs_prefix = ''inputs.''"

definition load_over :: "pyval \<Rightarrow> string \<Rightarrow> string list \<Rightarrow> def_error + string option" where
  "load_over v k inputs =
     (if v = PNone then Inr None
      else (case v of
          PStr s \<Rightarrow>
            guardE (\<not> starts_with inputs_prefix s \<or> drop (length inputs_prefix) s = [])
              (NodeErr k ''shard.over must be of the form inputs.<name>'')
            (guardE (drop (length inputs_prefix) s \<notin> set inputs)
              (NodeErr k ''shard.over must reference a node input'') (Inr (Some s)))
        | _ \<Rightarrow> Inl (NodeErr k ''shard.over must be of the form inputs.<name>'')))"

definition load_shard :: "pydict \<Rightarrow> string \<Rightarrow> string list \<Rightarrow> def_error + shard_spec option" where
  "load_shard raw k inputs =
     (case pget raw ''shard'' of
        PNone \<Rightarrow> Inr None
      | PDict s \<Rightarrow>
          (let over = pget s ''over''; count = pget s ''count'' in
           guardE (over = PNone \<and> count = PNone) (NodeErr k ''shard requires over or count'')
           (guardE (over \<noteq> PNone \<and> count \<noteq> PNone) (NodeErr k ''shard over and count are mutually exclusive'')
           (bindE (load_over over k inputs) (\<lambda>ov.
            bindE (optional_int count ''shard.count'' k) (\<lambda>cnt.
            bindE (positive_int (pget_or s ''max_shards'' (PInt 1000)) ''shard.max_shards'' k) (\<lambda>ms.
            bindE (optional_int (pget s ''max_concurrency'') ''shard.max_concurrency'' k) (\<lambda>mc.
            Inr (Some \<lparr>sh_over = ov, sh_count = cnt, sh_max_concurrency = mc, sh_max_shards = ms\<rparr>))))))))
      | _ \<Rightarrow> Inl (NodeErr k ''shard must be a mapping''))"

definition load_reduce :: "pydict \<Rightarrow> string \<Rightarrow> def_error + reduce_spec option" where
  "load_reduce raw k =
     (case pget raw ''reduce'' of
        PNone \<Rightarrow> Inr None
      | PDict r \<Rightarrow> bindE (required_str (pget r ''from'') (NodeErr k ''reduce.from is required''))
                    (\<lambda>s. Inr (Some \<lparr>r_from_node = s\<rparr>))
      | _ \<Rightarrow> Inl (NodeErr k ''reduce must be a mapping''))"

section \<open>Execution block and profile\<close>

definition prompt_modes :: "string list" where
  "prompt_modes = [''append'', ''overwrite'']"

definition agent_runtimes :: "string list" where
  "agent_runtimes = [''pi'', ''velites'']"

text \<open>A string field of an execution block; absent means empty, \<open>None\<close> is an error.\<close>

definition str_field :: "pydict \<Rightarrow> def_error \<Rightarrow> string \<Rightarrow> def_error + string" where
  "str_field d e f = (case pget_or d f (PStr []) of PStr s \<Rightarrow> Inr s | _ \<Rightarrow> Inl e)"

definition load_node_execution :: "pydict \<Rightarrow> string \<Rightarrow> def_error + node_execution" where
  "load_node_execution raw k =
     (case pget raw ''execution'' of
        PNone \<Rightarrow> Inr empty_execution
      | PDict x \<Rightarrow>
          (let fld = (\<lambda>f. str_field x (NodeErr k (''execution.'' @ f @ '' must be a string'')) f) in
           bindE (fld ''provider'') (\<lambda>provider. bindE (fld ''model'') (\<lambda>model.
           bindE (fld ''thinking'') (\<lambda>thinking. bindE (fld ''prompt'') (\<lambda>prompt.
           bindE (fld ''prompt_mode'') (\<lambda>mode. bindE (fld ''runtime'') (\<lambda>runtime.
           guardE (mode \<noteq> [] \<and> mode \<notin> set prompt_modes) (NodeErr k ''execution.prompt_mode must be append or overwrite'')
           (Inr \<lparr>x_provider = provider, x_model = model, x_thinking = thinking, x_prompt = prompt,
              x_prompt_mode = mode, x_runtime = runtime\<rparr>))))))))
      | _ \<Rightarrow> Inl (NodeErr k ''execution must be a mapping''))"

definition validate_agent_runtime :: "string \<Rightarrow> def_error \<Rightarrow> def_error + unit" where
  "validate_agent_runtime runtime e = guardE (runtime \<noteq> [] \<and> runtime \<notin> set agent_runtimes) e (Inr ())"

text \<open>The \<open>(string, string)\<close> items of a mapping, or nothing when some item is of another kind.\<close>

fun str_items :: "pydict \<Rightarrow> (string, string) dict option" where
  "str_items [] = Some []"
| "str_items ((PStr k, PStr v) # d) =
     (if k = [] then None else map_option (\<lambda>r. (k, v) # r) (str_items d))"
| "str_items (_ # d) = None"

definition load_node_requires_labels :: "pydict \<Rightarrow> string \<Rightarrow> def_error + (string, string) dict" where
  "load_node_requires_labels raw k =
     (case pget raw ''requires_labels'' of
        PNone \<Rightarrow> Inr []
      | PDict d \<Rightarrow> (case str_items d of Some r \<Rightarrow> Inr r
          | None \<Rightarrow> Inl (NodeErr k ''requires_labels must be a mapping of strings''))
      | _ \<Rightarrow> Inl (NodeErr k ''requires_labels must be a mapping of strings''))"

definition validate_node_profile_fields :: "workflow_node \<Rightarrow> def_error + unit" where
  "validate_node_profile_fields n =
     bindE (validate_agent_runtime (x_runtime (n_execution n)) (NodeErr (n_key n) ''execution.runtime is unknown'')) (\<lambda>_.
     if n_type n = ''agent'' then Inr ()
     else guardE (x_runtime (n_execution n) \<noteq> [])
            (NodeErr (n_key n) ''execution.runtime is only valid on an agent node'')
          (guardE (n_requires_labels n \<noteq> [])
            (NodeErr (n_key n) ''requires_labels is only valid on an agent node'') (Inr ())))"

text \<open>\<open>is_self_contained_agent_node\<close> and \<open>frozen_node_execution_kind\<close>.\<close>

definition is_self_contained_agent_node :: "workflow_node \<Rightarrow> bool" where
  "is_self_contained_agent_node n \<longleftrightarrow> n_type n = ''agent'' \<and> x_runtime (n_execution n) \<noteq> []"

definition frozen_node_execution_kind :: "workflow_node \<Rightarrow> string" where
  "frozen_node_execution_kind n =
     (if n_type n \<noteq> ''agent'' then ''code''
      else if is_self_contained_agent_node n then ''self_contained_agent'' else ''legacy_agent'')"

section \<open>Skill binding\<close>

definition latest_ref :: string where
  "latest_ref = ''latest''"

definition validate_skill_key :: "string \<Rightarrow> string \<Rightarrow> def_error + unit" where
  "validate_skill_key skill k =
     guardE (starts_with ''/'' skill) (NodeErr k ''skill key must be relative'')
     (let parts = split_on (CHR ''/'') skill in
      guardE (''..'' \<in> set parts) (NodeErr k ''skill key must not contain ..'')
      (guardE (length parts \<noteq> 2 \<or> [] \<in> set parts) (NodeErr k ''skill key must be <group>/<name>'') (Inr ())))"

text \<open>
  Unknown keys are sorted and joined into the message: both steps fail on keys that are not
  strings.
\<close>

definition reject_unknown_str :: "pyval list \<Rightarrow> def_error \<Rightarrow> def_error + 'a \<Rightarrow> def_error + 'a" where
  "reject_unknown_str xs e = guardE (xs \<noteq> []) (if list_all is_pstr xs then e else type_error)"

definition skill_parts :: "pyval \<Rightarrow> string \<Rightarrow> def_error + pyval \<times> string" where
  "skill_parts v k =
     (case v of
        PStr s \<Rightarrow> Inr (PStr s, [])
      | PDict d \<Rightarrow>
          reject_unknown_str (unknown_keys [''key'', ''ref''] d) (NodeErr k ''skill only accepts key, ref'')
          (bindE (str_field d (NodeErr k ''skill.ref must be a string'') ''ref'') (\<lambda>r. Inr (pget d ''key'', r)))
      | _ \<Rightarrow> Inl (NodeErr k ''skill must be a skill key string or a mapping''))"

definition load_node_skill :: "pydict \<Rightarrow> string \<Rightarrow> def_error + node_skill option" where
  "load_node_skill raw k =
     (if pget raw ''skill'' = PNone then Inr None
      else bindE (skill_parts (pget raw ''skill'') k) (\<lambda>(v, r).
        bindE (required_str v (NodeErr k ''skill.key must be a non-empty string'')) (\<lambda>s.
        bindE (validate_skill_key s k) (\<lambda>_.
        Inr (Some \<lparr>sk_key = s, sk_ref = (if r = [] then latest_ref else r)\<rparr>)))))"

text \<open>\<open>effective_node_skill\<close>: the binding of the node wins, then the one of the Agent.\<close>

definition effective_node_skill :: "workflow_node \<Rightarrow> string \<Rightarrow> def_error + string \<times> string" where
  "effective_node_skill n agent_skill =
     (case n_skill n of
        Some sk \<Rightarrow> Inr (sk_key sk, if sk_ref sk = [] then latest_ref else sk_ref sk)
      | None \<Rightarrow> if agent_skill \<noteq> [] then Inr (agent_skill, latest_ref)
                else Inl (NodeErr (n_key n) ''no skill on node or Agent definition''))"

definition node_skill_publish_error :: "workflow_node \<Rightarrow> string option \<Rightarrow> def_error option" where
  "node_skill_publish_error n agent_skill =
     (case agent_skill of
        None \<Rightarrow> if n_skill n \<noteq> None
                then Some (NodeErr (n_key n) ''declares a skill but resolves to no published Agent'') else None
      | Some s \<Rightarrow> if n_skill n = None \<and> s = []
                  then Some (NodeErr (n_key n) ''declares no skill'') else None)"

section \<open>Configuration schema of a node\<close>

definition reserved_execution_keys :: "string list" where
  "reserved_execution_keys = [''timeout_seconds'', ''sandbox_network'']"

text \<open>A \<open>ConfigSchemaError\<close> is caught and raised again for the node; other errors pass.\<close>

fun wrap_schema_error :: "string \<Rightarrow> def_error + 'a \<Rightarrow> def_error + 'a" where
  "wrap_schema_error k (Inl (SchemaErr p m)) = Inl (NodeErr k (''config_schema: '' @ p @ '' '' @ m))"
| "wrap_schema_error k r = r"

definition load_node_config_schema :: "pydict \<Rightarrow> string \<Rightarrow> def_error + pydict" where
  "load_node_config_schema raw k =
     (if pget raw ''config_schema'' = PNone then Inr []
      else bindE (wrap_schema_error k (validate_config_schema ''config_schema'' (pget raw ''config_schema''))) (\<lambda>_.
        case pget raw ''config_schema'' of
          PDict d \<Rightarrow>
            guardE (list_ex (\<lambda>r. r \<in> set (keys (schema_properties d))) (map PStr reserved_execution_keys))
              (NodeErr k ''config_schema must not redeclare reserved execution keys'') (Inr d)
        | _ \<Rightarrow> Inl attribute_error))"

section \<open>Text input of a start node\<close>

definition text_field :: "string \<Rightarrow> pydict \<Rightarrow> string \<times> nat \<Rightarrow> def_error + string" where
  "text_field k raw f =
     (case f of (name, limit) \<Rightarrow>
       (case pget raw name of
          PNone \<Rightarrow> Inr []
        | PStr s \<Rightarrow> guardE (py_len s > limit) (NodeErr k (''text_input.'' @ name @ '' is too long''))
            (Inr (if name = ''template'' then (if strip s = [] then [] else s) else strip s))
        | _ \<Rightarrow> Inl (NodeErr k (''text_input.'' @ name @ '' is too long''))))"

definition bad_filename :: "string \<Rightarrow> bool" where
  "bad_filename f \<longleftrightarrow> f \<noteq> [] \<and>
     (CHR ''/'' \<in> set f \<or> CHR 0x5C \<in> set f \<or> starts_with ''.'' f \<or> list_ex control_char f
      \<or> \<not> list_ex (\<lambda>suffix. ends_with suffix (map lower_char f)) [''.md'', ''.txt'', ''.json''])"

definition load_text_input :: "pyval \<Rightarrow> string \<Rightarrow> def_error + text_input option" where
  "load_text_input v k =
     (case v of
        PNone \<Rightarrow> Inr None
      | PDict raw \<Rightarrow>
          guardE (unknown_keys [''label'', ''filename'', ''template''] raw \<noteq> [])
            (NodeErr k ''text_input must be a mapping with keys label, filename, template'')
          (bindE (mapE (text_field k raw) [(''label'', 80), (''filename'', 255), (''template'', 16 * 1024)]) (\<lambda>vs.
            let label = vs ! 0; filename = vs ! 1; template = vs ! 2 in
            guardE (bad_filename filename) (NodeErr k ''text_input.filename must be a bare .md, .txt or .json name'')
            (Inr (if label \<noteq> [] \<or> filename \<noteq> [] \<or> template \<noteq> []
                  then Some \<lparr>ti_label = label, ti_filename = filename, ti_template = template\<rparr> else None))))
      | _ \<Rightarrow> Inl (NodeErr k ''text_input must be a mapping with keys label, filename, template''))"

definition text_input_payload :: "text_input option \<Rightarrow> pyval" where
  "text_input_payload t =
     (case t of None \<Rightarrow> PNone
      | Some ti \<Rightarrow> PDict [(PStr ''label'', PStr (ti_label ti)), (PStr ''filename'', PStr (ti_filename ti)),
           (PStr ''template'', PStr (ti_template ti))])"

section \<open>Approval and start fields\<close>

definition forbidden_approval_fields :: "string list" where
  "forbidden_approval_fields =
     [''capability'', ''execution'', ''shard'', ''reduce'', ''skill'', ''tools'', ''outputs'']"

definition forbid_approval_field :: "string \<Rightarrow> pydict \<Rightarrow> string \<Rightarrow> def_error + unit" where
  "forbid_approval_field k raw f =
     guardE (if f = ''outputs'' then truthy (pget raw ''outputs'') else phas raw f)
       (NodeErr k (''approval node must not declare '' @ f)) (Inr ())"

definition secret_property :: "pyval \<Rightarrow> bool" where
  "secret_property v = (case v of PDict p \<Rightarrow> truthy (pget p ''secret'') \<or> truthy (pget p ''secret_ref'') | _ \<Rightarrow> False)"

definition approval_properties :: "pydict \<Rightarrow> def_error + pyval list" where
  "approval_properties raw =
     (case py_or (pget raw ''config_schema'') (PDict []) of
        PDict schema \<Rightarrow>
          (case py_or (pget schema ''properties'') (PDict []) of
             PDict props \<Rightarrow> Inr (vals props)
           | _ \<Rightarrow> Inl attribute_error)
      | _ \<Rightarrow> Inr [])"

definition bare_filename :: "string \<Rightarrow> bool" where
  "bare_filename s \<longleftrightarrow> s \<noteq> [] \<and> CHR ''/'' \<notin> set s \<and> CHR 0x5C \<notin> set s"

definition validate_approval_fields :: "pydict \<Rightarrow> string \<Rightarrow> def_error + unit" where
  "validate_approval_fields raw k =
     bindE (mapE (forbid_approval_field k raw) forbidden_approval_fields) (\<lambda>_.
     bindE (approval_properties raw) (\<lambda>props.
     guardE (list_ex secret_property props) (NodeErr k ''approval node must not declare secret verdict payload fields'')
     (case py_or (pget raw ''config'') (PDict []) of
        PDict config \<Rightarrow>
          reject_unknown_str (unknown_keys [''rework_target'', ''feedback_artifact''] config)
            (NodeErr k ''config only accepts rework_target, feedback_artifact'')
          (bindE (if pget config ''rework_target'' = PNone then Inr []
                  else required_str (pget config ''rework_target'')
                    (NodeErr k ''config.rework_target must be a non-empty string'')) (\<lambda>_.
           case pget config ''feedback_artifact'' of
             PNone \<Rightarrow> Inr ()
           | PStr f \<Rightarrow> guardE (\<not> bare_filename f) (NodeErr k ''config.feedback_artifact must be a bare filename'') (Inr ())
           | _ \<Rightarrow> Inl (NodeErr k ''config.feedback_artifact must be a bare filename'')))
      | _ \<Rightarrow> Inr ())))"

definition validate_non_start_fields :: "pydict \<Rightarrow> string \<Rightarrow> string \<Rightarrow> pyval \<Rightarrow> def_error + unit" where
  "validate_non_start_fields raw k node_type raw_types =
     guardE (raw_types \<noteq> PNone) (NodeErr k ''accepted_item_types is only valid on a start node'')
     (guardE (pget raw ''text_input'' \<noteq> PNone) (NodeErr k ''text_input is only valid on a start node'')
     (if node_type = ''approval'' then validate_approval_fields raw k else Inr ()))"

definition approval_rework_target :: "workflow_node \<Rightarrow> string" where
  "approval_rework_target n = (case pget (n_config n) ''rework_target'' of PStr s \<Rightarrow> s | _ \<Rightarrow> [])"

definition approval_feedback_artifact :: "workflow_node \<Rightarrow> string" where
  "approval_feedback_artifact n =
     (case pget (n_config n) ''feedback_artifact'' of
        PStr s \<Rightarrow> if s \<noteq> [] then s else ''review_feedback.json''
      | _ \<Rightarrow> ''review_feedback.json'')"

definition forbidden_start_fields :: "string list" where
  "forbidden_start_fields =
     [''capability'', ''execution'', ''shard'', ''reduce'', ''terminal'', ''skill'', ''config'', ''config_schema'']"

definition load_node_type :: "pydict \<Rightarrow> string \<Rightarrow> def_error + string" where
  "load_node_type raw k =
     (case pget_or raw ''type'' (PStr ''code'') of
        PStr t \<Rightarrow>
          (let t' = (if t = ''node'' then ''code'' else t) in
           guardE (t' \<notin> set [''code'', ''agent'', ''start'', ''approval''])
             (NodeErr k ''type must be code, agent, start or approval'') (Inr t'))
      | _ \<Rightarrow> Inl (NodeErr k ''type must be code, agent, start or approval''))"

definition load_accepted :: "pyval \<Rightarrow> string \<Rightarrow> def_error + string list" where
  "load_accepted v k =
     (case v of
        PNone \<Rightarrow> Inr default_accepted_item_types
      | PList xs \<Rightarrow>
          guardE (xs = [] \<or> list_ex (\<lambda>x. x \<notin> PStr ` set accepted_item_types) xs)
            (NodeErr k ''accepted_item_types must be a non-empty subset'') (Inr (dedup (strs_of xs)))
      | _ \<Rightarrow> Inl (NodeErr k ''accepted_item_types must be a non-empty subset''))"

definition load_start_fields :: "pydict \<Rightarrow> string \<Rightarrow> def_error + string \<times> string list \<times> text_input option" where
  "load_start_fields raw k =
     bindE (load_node_type raw k) (\<lambda>node_type.
     if node_type \<noteq> ''start'' then
       bindE (validate_non_start_fields raw k node_type (pget raw ''accepted_item_types'')) (\<lambda>_.
       Inr (node_type, default_accepted_item_types, None))
     else
       bindE (mapE (\<lambda>f. guardE (phas raw f) (NodeErr k (''start node must not declare '' @ f)) (Inr ()))
         forbidden_start_fields) (\<lambda>_.
       bindE (load_text_input (pget raw ''text_input'') k) (\<lambda>ti.
       bindE (load_accepted (pget raw ''accepted_item_types'') k) (\<lambda>acc.
       Inr (node_type, acc, ti)))))"

section \<open>Facts about the loaded fields\<close>

lemma required_str_Inr [err_simps]: "required_str v e = Inr s \<longleftrightarrow> v = PStr s \<and> s \<noteq> []"
  by (auto simp: required_str_def err_simps split: pyval.splits)

lemma positive_int_Inr [err_simps]: "positive_int v f k = Inr i \<longleftrightarrow> v = PInt i \<and> 1 \<le> i"
  by (auto simp: positive_int_def err_simps split: pyval.splits)

lemma load_node_type_Inr:
  "load_node_type raw k = Inr t \<Longrightarrow> t \<in> {''code'', ''agent'', ''start'', ''approval''}"
  unfolding load_node_type_def Let_def by (simp add: err_simps split: pyval.splits) metis

lemma load_start_fields_type:
  "load_start_fields raw k = Inr (t, acc, ti) \<Longrightarrow> load_node_type raw k = Inr t"
  unfolding load_start_fields_def by (auto simp: err_simps split: if_splits)

definition shard_ok :: "string list \<Rightarrow> shard_spec \<Rightarrow> bool" where
  "shard_ok inputs s \<longleftrightarrow> (sh_over s = None) \<noteq> (sh_count s = None)
     \<and> (\<forall>ov. sh_over s = Some ov \<longrightarrow> (\<exists>i \<in> set inputs. ov = inputs_prefix @ i \<and> i \<noteq> []))
     \<and> (\<forall>c. sh_count s = Some c \<longrightarrow> 1 \<le> c) \<and> (\<forall>c. sh_max_concurrency s = Some c \<longrightarrow> 1 \<le> c)
     \<and> 1 \<le> sh_max_shards s"

lemma load_over_Inr:
  "load_over v k inputs = Inr ov \<Longrightarrow> (ov = None \<longleftrightarrow> v = PNone) \<and>
     (\<forall>s. ov = Some s \<longrightarrow> (\<exists>i \<in> set inputs. s = inputs_prefix @ i \<and> i \<noteq> []))"
proof -
  assume a: "load_over v k inputs = Inr ov"
  show ?thesis
  proof (cases "v = PNone")
    case True
    with a show ?thesis by (simp add: load_over_def)
  next
    case False
    with a obtain s where s: "v = PStr s" "starts_with inputs_prefix s" "drop (length inputs_prefix) s \<noteq> []"
      "drop (length inputs_prefix) s \<in> set inputs" "ov = Some s"
      by (auto simp: load_over_def err_simps split: pyval.splits)
    from s(2) obtain i where i: "s = inputs_prefix @ i" by (auto simp: starts_with_iff)
    with s show ?thesis by auto
  qed
qed

lemma optional_int_Inr:
  "optional_int v f k = Inr c \<Longrightarrow> (c = None \<longleftrightarrow> v = PNone) \<and> (\<forall>i. c = Some i \<longrightarrow> 1 \<le> i)"
  by (auto simp: optional_int_def err_simps split: if_splits)

lemma load_shard_ok:
  assumes "load_shard raw k inputs = Inr (Some s)"
  shows "shard_ok inputs s"
proof -
  from assms obtain d where d: "pget raw ''shard'' = PDict d"
    by (auto simp: load_shard_def split: pyval.splits)
  with assms obtain ov cnt ms mc where
    f: "load_over (pget d ''over'') k inputs = Inr ov" "optional_int (pget d ''count'') ''shard.count'' k = Inr cnt"
      "positive_int (pget_or d ''max_shards'' (PInt 1000)) ''shard.max_shards'' k = Inr ms"
      "optional_int (pget d ''max_concurrency'') ''shard.max_concurrency'' k = Inr mc"
    and s: "s = \<lparr>sh_over = ov, sh_count = cnt, sh_max_concurrency = mc, sh_max_shards = ms\<rparr>"
    and x: "\<not> (pget d ''over'' = PNone \<and> pget d ''count'' = PNone)"
      "\<not> (pget d ''over'' \<noteq> PNone \<and> pget d ''count'' \<noteq> PNone)"
    unfolding load_shard_def by (simp add: Let_def err_simps) blast
  from load_over_Inr [OF f(1)] optional_int_Inr [OF f(2)] optional_int_Inr [OF f(4)] f(3) x s
  show ?thesis by (auto simp: shard_ok_def err_simps)
qed

end
