(* ===== verification/Workflow_Loader.thy ===== *)
theory Workflow_Loader
  imports Node_Fields
begin

text \<open>
  The workflow loader (\<open>server/app/workflows/loader.py\<close> with \<open>workflow_intake.py\<close>,
  \<open>workflow_execution_defaults.py\<close>, \<open>start_node.py\<close>, \<open>approval_node.py\<close> and
  \<open>snapshot_shape.py\<close>): from the untyped mapping of a YAML document or of a persisted snapshot
  to a checked definition.
\<close>

section \<open>Intake block\<close>

definition load_mode :: "pyval \<times> pyval \<Rightarrow> def_error + string \<times> intake_mode" where
  "load_mode item =
     (case item of
        (PStr k, v) \<Rightarrow>
          guardE (k = []) (DefErr ''Intake mode keys must be non-empty strings'')
          (case v of
             PDict m \<Rightarrow>
               (let label = pget_or m ''label'' (PStr k); field = pget_or m ''input_field'' (PStr k) in
                bindE (required_str label (NodeErr k ''label must be a string'')) (\<lambda>l.
                bindE (required_str field (NodeErr k ''input_field must be a string'')) (\<lambda>f.
                Inr (k, \<lparr>im_key = k, im_label = l, im_input_field = f\<rparr>))))
           | _ \<Rightarrow> Inl (NodeErr k ''Intake mode must be a mapping''))
      | _ \<Rightarrow> Inl (DefErr ''Intake mode keys must be non-empty strings''))"

text \<open>A mapping that may be absent or \<open>None\<close>.\<close>

definition mapping_or_empty :: "pyval \<Rightarrow> def_error \<Rightarrow> def_error + pydict" where
  "mapping_or_empty v e = (case v of PNone \<Rightarrow> Inr [] | PDict d \<Rightarrow> Inr d | _ \<Rightarrow> Inl e)"

definition load_intake :: "pydict \<Rightarrow> def_error + intake" where
  "load_intake raw =
     bindE (mapping_or_empty (pget raw ''intake'') (DefErr ''Workflow intake must be a mapping'')) (\<lambda>intk.
     bindE (mapping_or_empty (pget intk ''modes'') (DefErr ''Workflow intake.modes must be a mapping'')) (\<lambda>modes.
     bindE (mapE load_mode modes) (\<lambda>ms. Inr (foldl (\<lambda>d (k, m). dset k m d) [] ms))))"

section \<open>Nodes\<close>

definition node_core :: "pydict \<Rightarrow> string \<Rightarrow> def_error + workflow_node" where
  "node_core raw k =
     guardE (phas raw ''runner'') (DefErr ''Node field runner was removed'')
     (guardE (phas raw ''agent'') (DefErr ''Node field agent was removed'')
     (bindE (required_str (pget_or raw ''label'' (PStr k)) (NodeErr k ''label must be a non-empty string'')) (\<lambda>label.
      bindE (load_start_fields raw k) (\<lambda>(node_type, accepted, ti).
      bindE (case pget_or raw ''capability'' (PStr []) of
               PStr c \<Rightarrow> guardE (c = [] \<and> node_type \<notin> {''start'', ''approval''})
                           (NodeErr k ''capability must be a non-empty string'') (Inr c)
             | _ \<Rightarrow> Inl (NodeErr k ''capability must be a non-empty string'')) (\<lambda>capability.
      bindE (string_list (pget raw ''tools'') ''tools'' k) (\<lambda>tools.
      guardE (tools \<noteq> [] \<and> node_type \<noteq> ''agent'') (NodeErr k ''tools is only valid on an agent node'')
      (bindE (string_list (pget raw ''inputs'') ''inputs'' k) (\<lambda>inputs.
      guardE (phas raw ''resources'') (DefErr ''Node field resources was removed'')
      (bindE (mapping_or_empty (pget raw ''config'') (NodeErr k ''config must be a mapping with string keys'')) (\<lambda>config.
      guardE (\<not> list_all is_pstr (keys config)) (NodeErr k ''config must be a mapping with string keys'')
      (bindE (string_list (pget raw ''after'') ''after'' k) (\<lambda>after.
       bindE (string_list (pget raw ''outputs'') ''outputs'' k) (\<lambda>outputs.
       bindE (load_terminal raw k) (\<lambda>terminal.
       bindE (load_node_execution raw k) (\<lambda>execution.
       bindE (load_node_config_schema raw k) (\<lambda>schema.
       bindE (load_node_skill raw k) (\<lambda>skill.
       bindE (load_node_requires_labels raw k) (\<lambda>labels.
       bindE (load_shard raw k inputs) (\<lambda>shard.
       bindE (load_reduce raw k) (\<lambda>reduce.
       let n = \<lparr>n_key = k, n_label = label, n_capability = capability, n_after = after,
             n_inputs = inputs, n_outputs = outputs, n_terminal = terminal, n_execution = execution,
             n_config = config, n_config_schema = schema, n_skill = skill, n_shard = shard,
             n_reduce = reduce, n_type = node_type, n_accepted = accepted, n_text_input = ti,
             n_tools = tools, n_requires_labels = labels\<rparr> in
       bindE (validate_node_profile_fields n) (\<lambda>_. Inr n)))))))))))))))))))))"

definition load_node :: "pyval \<times> pyval \<Rightarrow> def_error + workflow_node" where
  "load_node item =
     (case item of
        (PStr k, v) \<Rightarrow>
          guardE (k = []) (DefErr ''Node keys must be non-empty strings'')
          (case v of PDict raw \<Rightarrow> node_core raw k | _ \<Rightarrow> Inl (NodeErr k ''must be a mapping''))
      | _ \<Rightarrow> Inl (DefErr ''Node keys must be non-empty strings''))"

definition add_node :: "pyval \<times> pyval \<Rightarrow> (string, workflow_node) dict \<Rightarrow> def_error + (string, workflow_node) dict" where
  "add_node item nodes = bindE (load_node item) (\<lambda>n. Inr (dset (n_key n) n nodes))"

definition reduce_source_ok :: "(string, workflow_node) dict \<Rightarrow> reduce_spec \<Rightarrow> bool" where
  "reduce_source_ok nodes r \<longleftrightarrow>
     (case dget nodes (r_from_node r) of Some src \<Rightarrow> n_shard src \<noteq> None | None \<Rightarrow> False)"

definition check_node_links :: "(string, workflow_node) dict \<Rightarrow> workflow_node \<Rightarrow> def_error + unit" where
  "check_node_links nodes n =
     guardE (list_ex (\<lambda>dep. dep \<notin> set (keys nodes)) (n_after n)) (NodeErr (n_key n) ''Unknown dependency'')
     (guardE (n_shard n \<noteq> None \<and> n_reduce n \<noteq> None) (NodeErr (n_key n) ''cannot declare both shard and reduce'')
     (case n_reduce n of
        None \<Rightarrow> Inr ()
      | Some r \<Rightarrow> guardE (\<not> reduce_source_ok nodes r)
          (NodeErr (n_key n) ''reduce.from must reference a node that declares shard'') (Inr ())))"

definition load_nodes :: "pydict \<Rightarrow> def_error + (string, workflow_node) dict" where
  "load_nodes raw_nodes =
     bindE (foldE add_node raw_nodes []) (\<lambda>nodes.
     bindE (mapE (check_node_links nodes) (vals nodes)) (\<lambda>_. Inr nodes))"

section \<open>Workflow-level execution defaults\<close>

definition load_workflow_execution :: "pydict \<Rightarrow> def_error + node_execution" where
  "load_workflow_execution raw =
     (case pget raw ''execution'' of
        PNone \<Rightarrow> Inr empty_execution
      | PDict x \<Rightarrow>
          (let fld = (\<lambda>f. str_field x (DefErr (''Workflow execution.'' @ f @ '' must be a string'')) f) in
           bindE (fld ''provider'') (\<lambda>provider. bindE (fld ''model'') (\<lambda>model.
           bindE (fld ''thinking'') (\<lambda>thinking. bindE (fld ''runtime'') (\<lambda>runtime.
           bindE (validate_agent_runtime runtime (DefErr ''Workflow execution.runtime is unknown'')) (\<lambda>_.
           guardE (truthy (pget x ''prompt'')) (DefErr ''Workflow execution.prompt is not allowed'')
           (guardE (truthy (pget x ''prompt_mode'')) (DefErr ''Workflow execution.prompt_mode is not allowed'')
           (Inr \<lparr>x_provider = provider, x_model = model, x_thinking = thinking, x_prompt = [],
              x_prompt_mode = [], x_runtime = runtime\<rparr>))))))))
      | _ \<Rightarrow> Inl (DefErr ''Workflow execution must be a mapping''))"

definition str_or :: "string \<Rightarrow> string \<Rightarrow> string" where
  "str_or a b = (if a \<noteq> [] then a else b)"

definition merge_execution_defaults :: "node_execution \<Rightarrow> workflow_node \<Rightarrow> workflow_node" where
  "merge_execution_defaults defaults n =
     (if n_type n \<in> {''start'', ''approval''} then n
      else (let x = n_execution n in
        n\<lparr>n_execution := \<lparr>x_provider = str_or (x_provider x) (x_provider defaults),
             x_model = str_or (x_model x) (x_model defaults),
             x_thinking = str_or (x_thinking x) (x_thinking defaults),
             x_prompt = x_prompt x, x_prompt_mode = x_prompt_mode x,
             x_runtime = str_or (x_runtime x)
               (if n_type n = ''agent'' then x_runtime defaults else [])\<rparr>\<rparr>))"

definition apply_execution_defaults ::
  "(string, workflow_node) dict \<Rightarrow> node_execution \<Rightarrow> (string, workflow_node) dict" where
  "apply_execution_defaults nodes defaults =
     (if x_provider defaults = [] \<and> x_model defaults = [] \<and> x_thinking defaults = [] \<and> x_runtime defaults = []
      then nodes
      else map (\<lambda>(k, n). (k, merge_execution_defaults defaults n)) nodes)"

section \<open>Edges\<close>

definition load_condition :: "pydict \<Rightarrow> nat \<Rightarrow> def_error + workflow_condition option" where
  "load_condition raw i =
     (case pget raw ''when'' of
        PNone \<Rightarrow> Inr None
      | PDict c \<Rightarrow>
          bindE (required_str (pget c ''artifact'') (EdgeErr i ''when.artifact is required'')) (\<lambda>artifact.
          case pget c ''path'' of
            PStr path \<Rightarrow>
              guardE (\<not> starts_with ''$.'' path) (EdgeErr i ''when.path must start with $.'')
              (guardE (\<not> phas c ''equals'') (EdgeErr i ''when.equals is required'')
              (Inr (Some \<lparr>c_artifact = artifact, c_path = path, c_equals = pget c ''equals''\<rparr>)))
          | _ \<Rightarrow> Inl (EdgeErr i ''when.path must start with $.''))
      | _ \<Rightarrow> Inl (EdgeErr i ''when must be a mapping''))"

definition edge_end :: "pyval \<Rightarrow> (string, workflow_node) dict \<Rightarrow> def_error \<Rightarrow> def_error + string" where
  "edge_end v nodes e =
     (case v of PStr s \<Rightarrow> guardE (s \<notin> set (keys nodes)) e (Inr s) | _ \<Rightarrow> Inl e)"

definition add_edge ::
  "(string, workflow_node) dict \<Rightarrow> int \<Rightarrow> nat \<times> pyval \<Rightarrow> (string \<times> string) list \<times> workflow_edge list \<Rightarrow>
   def_error + (string \<times> string) list \<times> workflow_edge list" where
  "add_edge nodes version item st =
     (case (item, st) of ((i, v), (known, edges)) \<Rightarrow>
       (case v of
          PDict raw \<Rightarrow>
            bindE (edge_end (pget raw ''from'') nodes (DefErr ''Unknown edge source'')) (\<lambda>s.
            bindE (edge_end (pget raw ''to'') nodes (DefErr ''Unknown edge target'')) (\<lambda>t.
            if version = 1 \<and> (s, t) \<in> set known then Inr (known, edges)
            else bindE (load_condition raw i) (\<lambda>c.
              Inr ((s, t) # known, edges @ [\<lparr>e_source = s, e_target = t, e_condition = c\<rparr>]))))
        | _ \<Rightarrow> Inl (EdgeErr i ''must be a mapping'')))"

definition edge_pair :: "workflow_edge \<Rightarrow> string \<times> string" where
  "edge_pair e = (e_source e, e_target e)"

definition load_edges :: "pydict \<Rightarrow> (string, workflow_node) dict \<Rightarrow> int \<Rightarrow> def_error + workflow_edge list" where
  "load_edges raw nodes version =
     bindE (if version = 1 then
              bindE (iter_values (py_or (pget raw ''edges'') (PList []))) (\<lambda>xs.
              Inr (xs, after_edges nodes))
            else (case pget raw ''edges'' of
                    PList xs \<Rightarrow> Inr (xs, [])
                  | _ \<Rightarrow> Inl (DefErr ''Workflow schema_version 2 requires edges''))) (\<lambda>(xs, edges).
     bindE (foldE (add_edge nodes version) (enumerate 0 xs) (map edge_pair edges, edges))
       (\<lambda>(known, edges'). Inr edges'))"

section \<open>The start node\<close>

fun nat_str :: "nat \<Rightarrow> string" where
  "nat_str n = (if n < 10 then [char_of (48 + n)] else nat_str (n div 10) @ [char_of (48 + n mod 10)])"

declare nat_str.simps [simp del]

definition start_candidate :: "nat \<Rightarrow> string" where
  "start_candidate i = (if i = 0 then ''_start'' else ''_start_'' @ nat_str i)"

text \<open>
  \<open>while key in nodes\<close>: the loop tries the candidates in turn. Among \<open>length nodes + 1\<close>
  candidates one is free, so that fuel is enough (\<open>fresh_start_key_fresh\<close>).
\<close>

fun fresh_start_loop :: "nat \<Rightarrow> (string, workflow_node) dict \<Rightarrow> nat \<Rightarrow> string" where
  "fresh_start_loop 0 nodes i = start_candidate i"
| "fresh_start_loop (Suc fuel) nodes i =
     (if start_candidate i \<in> set (keys nodes) then fresh_start_loop fuel nodes (Suc i) else start_candidate i)"

definition fresh_start_key :: "(string, workflow_node) dict \<Rightarrow> string" where
  "fresh_start_key nodes = fresh_start_loop (length nodes) nodes 0"

definition inject_start_node ::
  "(string, workflow_node) dict \<Rightarrow> workflow_edge list \<Rightarrow> (string, workflow_node) dict \<times> workflow_edge list" where
  "inject_start_node nodes edges =
     (let k = fresh_start_key nodes;
          start = (mk_node k ''Start'' [])\<lparr>n_type := ''start''\<rparr>;
          roots = filter (\<lambda>n. \<not> list_ex (\<lambda>e. e_target e = n) edges) (keys nodes) in
      ((k, start) # nodes, edges @ map (plain_edge k) roots))"

definition start_keys :: "(string, workflow_node) dict \<Rightarrow> string list" where
  "start_keys nodes = map fst (filter (\<lambda>(k, n). n_type n = ''start'') nodes)"

definition ensure_start_node ::
  "(string, workflow_node) dict \<Rightarrow> workflow_edge list \<Rightarrow>
   def_error + (string, workflow_node) dict \<times> workflow_edge list" where
  "ensure_start_node nodes edges =
     (case start_keys nodes of
        [] \<Rightarrow> Inr (inject_start_node nodes edges)
      | [k] \<Rightarrow>
          guardE (list_ex (\<lambda>e. e_target e = k) edges) (NodeErr k ''Start node must not have incoming edges'')
          (guardE (\<not> list_ex (\<lambda>e. e_source e = k) edges) (NodeErr k ''Start node must have at least one outgoing edge'')
          (guardE (list_ex (\<lambda>e. e_source e = k \<and> e_condition e \<noteq> None) edges)
             (NodeErr k ''Start node must not have conditional outgoing edges'')
          (Inr (nodes, edges))))
      | _ \<Rightarrow> Inl (DefErr ''Workflow must declare exactly one start node''))"

section \<open>Approval gates\<close>

definition approval_keys :: "(string, workflow_node) dict \<Rightarrow> string list" where
  "approval_keys nodes = map fst (filter (\<lambda>(k, n). n_type n = ''approval'') nodes)"

definition validate_approval_edges :: "(string, workflow_node) dict \<Rightarrow> workflow_edge list \<Rightarrow> def_error + unit" where
  "validate_approval_edges nodes edges =
     (let fed = map e_target (filter (\<lambda>e. e_source e \<notin> set (start_keys nodes)) edges) in
      (case sort (filter (\<lambda>k. k \<notin> set fed) (approval_keys nodes)) of
         [] \<Rightarrow> Inr ()
       | k # _ \<Rightarrow> Inl (NodeErr k ''Approval node must have at least one incoming edge from an executable node'')))"

section \<open>The whole definition\<close>

definition definition_from_mapping :: "pydict \<Rightarrow> def_error + workflow_definition" where
  "definition_from_mapping raw =
     bindE (required_str (pget raw ''key'') (DefErr ''Workflow key is required'')) (\<lambda>k.
     bindE (required_str (pget raw ''label'') (DefErr ''Workflow label is required'')) (\<lambda>label.
     bindE (case pget raw ''nodes'' of
              PDict ns \<Rightarrow> guardE (ns = []) (DefErr ''Workflow nodes are required'') (Inr ns)
            | _ \<Rightarrow> Inl (DefErr ''Workflow nodes are required'')) (\<lambda>raw_nodes.
     guardE (phas raw ''concurrency'') (DefErr ''Workflow field concurrency was removed'')
     (bindE (case pget_or raw ''schema_version'' (PInt 1) of
               PInt i \<Rightarrow> Inr i | PBool b \<Rightarrow> Inr (if b then 1 else 0)
             | _ \<Rightarrow> Inl (DefErr ''Workflow schema_version must be an integer'')) (\<lambda>version.
      bindE (load_intake raw) (\<lambda>intk.
      bindE (load_nodes raw_nodes) (\<lambda>nodes0.
      bindE (load_workflow_execution raw) (\<lambda>execution.
      let nodes1 = apply_execution_defaults nodes0 execution in
      bindE (load_edges raw nodes1 version) (\<lambda>edges1.
      bindE (ensure_start_node nodes1 edges1) (\<lambda>(nodes, edges).
      bindE (validate_approval_edges nodes edges) (\<lambda>_.
      bindE (validate_acyclic nodes edges) (\<lambda>_.
      Inr (mk_definition k label intk nodes edges version execution)))))))))))))"

definition load_workflow_document :: "pyval \<Rightarrow> def_error + workflow_definition" where
  "load_workflow_document raw =
     (case raw of PDict d \<Rightarrow> definition_from_mapping d
      | _ \<Rightarrow> Inl (DefErr ''Workflow definition must be a mapping''))"

section \<open>Persisted snapshots\<close>

definition snapshot_nodes :: "pyval \<Rightarrow> def_error + pydict" where
  "snapshot_nodes payload =
     (case payload of
        PDict d \<Rightarrow>
          (case pget d ''nodes'' of
             PNone \<Rightarrow> Inr []
           | PDict ns \<Rightarrow> guardE (\<not> list_all is_pdict (vals ns)) (DefErr ''snapshot nodes must be a mapping of mappings'') (Inr ns)
           | _ \<Rightarrow> Inl (DefErr ''snapshot nodes must be a mapping of mappings''))
      | _ \<Rightarrow> Inl (DefErr ''snapshot must be a mapping''))"

definition snapshot_edges :: "pyval \<Rightarrow> def_error + pyval list" where
  "snapshot_edges payload =
     (case payload of
        PDict d \<Rightarrow>
          (case pget d ''edges'' of
             PNone \<Rightarrow> Inr []
           | PList es \<Rightarrow> guardE (\<not> list_all is_pdict es) (DefErr ''snapshot edges must be a list of mappings'') (Inr es)
           | _ \<Rightarrow> Inl (DefErr ''snapshot edges must be a list of mappings''))
      | _ \<Rightarrow> Inl (DefErr ''snapshot must be a mapping''))"

definition ensure_mapping :: "pyval \<Rightarrow> def_error \<Rightarrow> def_error + pyval" where
  "ensure_mapping v e = guardE (v \<noteq> PNone \<and> \<not> is_pdict v) e (Inr v)"

definition blank_placeholder :: "pyval \<Rightarrow> bool" where
  "blank_placeholder v \<longleftrightarrow> (case v of PDict d \<Rightarrow> \<not> list_ex truthy (vals d) | _ \<Rightarrow> False) \<or> \<not> truthy v"

definition strip_snapshot_placeholders :: "pydict \<Rightarrow> pydict" where
  "strip_snapshot_placeholders raw =
     (if pget raw ''type'' = PStr ''start'' then fold pdel (forbidden_start_fields @ [''tools'']) raw
      else
        (let raw1 = pdel ''text_input'' (pdel ''accepted_item_types'' raw) in
         if pget raw ''type'' \<noteq> PStr ''approval'' then raw1
         else fold (\<lambda>f r. if blank_placeholder (pget r f) then pdel f r else r) forbidden_approval_fields
                (pdel ''execution'' raw1)))"

definition translate_type :: "pydict \<Rightarrow> pydict" where
  "translate_type raw = (if phas raw ''node_type'' then pset ''type'' (pget raw ''node_type'') (pdel ''node_type'' raw) else raw)"

definition translate_reduce :: "pydict \<Rightarrow> pydict" where
  "translate_reduce raw =
     (case pget raw ''reduce'' of
        PDict r \<Rightarrow>
          if phas r ''from_node'' then
            (let r1 = pdel ''from_node'' r in
             pset ''reduce'' (PDict (if phas r1 ''from'' then r1 else pset ''from'' (pget r ''from_node'') r1)) raw)
          else raw
      | _ \<Rightarrow> raw)"

definition snapshot_node :: "pyval \<times> pyval \<Rightarrow> def_error + pyval \<times> pyval" where
  "snapshot_node item =
     (case item of
        (k, PDict node) \<Rightarrow>
          (let raw = strip_snapshot_placeholders (translate_reduce (translate_type node)) in
           bindE (ensure_mapping (pget raw ''terminal'') (DefErr ''node terminal must be a mapping'')) (\<lambda>_.
           Inr (k, PDict raw)))
      | _ \<Rightarrow> Inl type_error)"

text \<open>\<open>condition.get(...)\<close> turns absent keys into \<open>None\<close>.\<close>

definition snapshot_when :: "pydict \<Rightarrow> pyval" where
  "snapshot_when c = PDict [(PStr ''artifact'', pget c ''artifact''), (PStr ''path'', pget c ''path''),
     (PStr ''equals'', pget c ''equals'')]"

definition snapshot_edge :: "pyval \<Rightarrow> def_error + pyval" where
  "snapshot_edge v =
     (case v of
        PDict e \<Rightarrow>
          (let ends = [(PStr ''from'', py_or (pget e ''source'') (pget e ''from'')),
                       (PStr ''to'', py_or (pget e ''target'') (pget e ''to''))] in
           bindE (ensure_mapping (py_or (pget e ''condition'') (pget e ''when'')) (DefErr ''edge condition must be a mapping'')) (\<lambda>c.
           Inr (PDict (ends @ (case c of PDict d \<Rightarrow> if d \<noteq> [] then [(PStr ''when'', snapshot_when d)] else []
                                | _ \<Rightarrow> [])))))
      | _ \<Rightarrow> Inl type_error)"

definition definition_from_dict :: "pyval \<Rightarrow> def_error + workflow_definition" where
  "definition_from_dict payload =
     bindE (snapshot_nodes payload) (\<lambda>ns.
     bindE (snapshot_edges payload) (\<lambda>es.
     case payload of
       PDict d \<Rightarrow>
         bindE (mapE snapshot_node ns) (\<lambda>nodes.
         bindE (mapE snapshot_edge es) (\<lambda>edges.
         definition_from_mapping
           [(PStr ''key'', pget d ''key''), (PStr ''label'', pget d ''label''),
            (PStr ''schema_version'', pget_or d ''schema_version'' (PInt 1)),
            (PStr ''intake'', pget_or d ''intake'' (PDict [])), (PStr ''execution'', pget d ''execution''),
            (PStr ''nodes'', PDict nodes), (PStr ''edges'', PList edges)]))
     | _ \<Rightarrow> Inl type_error))"

text \<open>
  \<open>definition_from_job_snapshot\<close> (\<open>revision_format.py\<close>): the caller catches every exception and
  reads a corrupt snapshot as an absent one. \<open>None\<close> stands for text that is not JSON.
\<close>

definition definition_from_job_snapshot :: "string \<Rightarrow> pyval option \<Rightarrow> workflow_definition option" where
  "definition_from_job_snapshot text parsed =
     (if text = [] then None
      else (case parsed of
              None \<Rightarrow> None
            | Some payload \<Rightarrow> (case definition_from_dict payload of Inl _ \<Rightarrow> None | Inr d \<Rightarrow> Some d)))"

end
