(* ===== verification/Loader_Correct.thy ===== *)
theory Loader_Correct
  imports Workflow_Loader
begin

text \<open>
  What the loader guarantees: whatever untyped mapping goes in, a definition that comes out is
  well formed. The invariant is established stage by stage, one lemma per stage of
  \<open>workflow_definition_from_mapping\<close>.
\<close>

section \<open>The invariant\<close>

definition node_ok :: "workflow_node \<Rightarrow> bool" where
  "node_ok n \<longleftrightarrow> n_key n \<noteq> [] \<and> n_label n \<noteq> []
     \<and> n_type n \<in> {''code'', ''agent'', ''start'', ''approval''}
     \<and> (n_type n \<in> {''code'', ''agent''} \<longrightarrow> n_capability n \<noteq> [])
     \<and> (n_type n \<noteq> ''agent'' \<longrightarrow> n_tools n = [] \<and> x_runtime (n_execution n) = [] \<and> n_requires_labels n = [])
     \<and> (x_runtime (n_execution n) = [] \<or> x_runtime (n_execution n) \<in> set agent_runtimes)
     \<and> (\<forall>s. n_shard n = Some s \<longrightarrow> shard_ok (n_inputs n) s)"

definition nodes_ok :: "(string, workflow_node) dict \<Rightarrow> bool" where
  "nodes_ok nodes \<longleftrightarrow> distinct (keys nodes) \<and> (\<forall>(k, n) \<in> set nodes. n_key n = k \<and> node_ok n)"

definition links_ok :: "(string, workflow_node) dict \<Rightarrow> bool" where
  "links_ok nodes \<longleftrightarrow> (\<forall>(k, n) \<in> set nodes. set (n_after n) \<subseteq> set (keys nodes)
     \<and> (n_shard n = None \<or> n_reduce n = None) \<and> (\<forall>r. n_reduce n = Some r \<longrightarrow> reduce_source_ok nodes r))"

definition edges_ok :: "(string, workflow_node) dict \<Rightarrow> workflow_edge list \<Rightarrow> bool" where
  "edges_ok nodes edges \<longleftrightarrow> (\<forall>e \<in> set edges. e_source e \<in> set (keys nodes) \<and> e_target e \<in> set (keys nodes))"

definition start_ok :: "(string, workflow_node) dict \<Rightarrow> workflow_edge list \<Rightarrow> bool" where
  "start_ok nodes edges \<longleftrightarrow> (\<exists>k. start_keys nodes = [k] \<and> (\<forall>e \<in> set edges. e_target e \<noteq> k)
     \<and> (\<exists>e \<in> set edges. e_source e = k) \<and> (\<forall>e \<in> set edges. e_source e = k \<longrightarrow> e_condition e = None))"

definition gates_fed :: "(string, workflow_node) dict \<Rightarrow> workflow_edge list \<Rightarrow> bool" where
  "gates_fed nodes edges \<longleftrightarrow> (\<forall>k \<in> set (approval_keys nodes).
     \<exists>e \<in> set edges. e_target e = k \<and> e_source e \<notin> set (start_keys nodes))"

definition wf_definition :: "workflow_definition \<Rightarrow> bool" where
  "wf_definition d \<longleftrightarrow> nodes_ok (d_nodes d) \<and> links_ok (d_nodes d) \<and> edges_ok (d_nodes d) (d_edges d)
     \<and> acyclic (edge_graph d) \<and> start_ok (d_nodes d) (d_edges d) \<and> gates_fed (d_nodes d) (d_edges d)"

lemma wf_definition_shape: "wf_definition d \<Longrightarrow> wf_shape d"
  by (auto simp: wf_definition_def wf_shape_def nodes_ok_def edges_ok_def node_keys_def)

section \<open>One node\<close>

lemma validate_node_profile_Inr:
  "validate_node_profile_fields n = Inr u \<Longrightarrow>
    (x_runtime (n_execution n) = [] \<or> x_runtime (n_execution n) \<in> set agent_runtimes)
    \<and> (n_type n \<noteq> ''agent'' \<longrightarrow> x_runtime (n_execution n) = [] \<and> n_requires_labels n = [])"
  unfolding validate_node_profile_fields_def validate_agent_runtime_def
  by (simp add: err_simps split: if_splits)

lemma case_prod_Inr: "(case p of (a, b) \<Rightarrow> f a b) = Inr y \<longleftrightarrow> (\<exists>a b. p = (a, b) \<and> f a b = Inr y)"
  by (cases p) auto

lemma capability_Inr:
  "(case v of PStr c \<Rightarrow> guardE (c = [] \<and> t \<notin> {''start'', ''approval''}) e (Inr c) | _ \<Rightarrow> Inl e) = Inr cap
    \<longleftrightarrow> v = PStr cap \<and> \<not> (cap = [] \<and> t \<notin> {''start'', ''approval''})"
  by (cases v) (auto simp: guardE_def)

lemma node_core_fields:
  assumes "node_core raw k = Inr n"
  shows "(\<exists>acc ti. load_start_fields raw k = Inr (n_type n, acc, ti))
    \<and> \<not> (n_capability n = [] \<and> n_type n \<notin> {''start'', ''approval''})
    \<and> \<not> (n_tools n \<noteq> [] \<and> n_type n \<noteq> ''agent'')
    \<and> load_shard raw k (n_inputs n) = Inr (n_shard n) \<and> n_label n \<noteq> [] \<and> n_key n = k
    \<and> (\<exists>u. validate_node_profile_fields n = Inr u)"
  using assms unfolding node_core_def Let_def
  apply (simp only: err_simps case_prod_Inr capability_Inr)
  apply (elim exE conjE)
  apply (simp only: sum.inject)
  apply hypsubst
  apply (simp only: workflow_node.simps simp_thms)
  apply (intro conjI exI; (assumption | rule refl))
  done

lemma node_core_ok:
  assumes "node_core raw k = Inr n" and "k \<noteq> []"
  shows "n_key n = k \<and> node_ok n"
proof -
  from node_core_fields [OF assms(1)] obtain acc ti u where
    f: "load_start_fields raw k = Inr (n_type n, acc, ti)"
      "\<not> (n_capability n = [] \<and> n_type n \<notin> {''start'', ''approval''})"
      "\<not> (n_tools n \<noteq> [] \<and> n_type n \<noteq> ''agent'')"
      "load_shard raw k (n_inputs n) = Inr (n_shard n)" "n_label n \<noteq> []" "n_key n = k"
      "validate_node_profile_fields n = Inr u"
    by (elim conjE exE) metis
  from load_node_type_Inr [OF load_start_fields_type [OF f(1)]]
  have t: "n_type n \<in> {''code'', ''agent'', ''start'', ''approval''}" .
  have c: "n_type n \<in> {''code'', ''agent''} \<longrightarrow> n_capability n \<noteq> []" using f(2) by auto
  have sh: "\<forall>s. n_shard n = Some s \<longrightarrow> shard_ok (n_inputs n) s"
    using f(4) load_shard_ok by metis
  show ?thesis
    unfolding node_ok_def using t c sh f(3,5,6) validate_node_profile_Inr [OF f(7)] assms(2) by metis
qed

lemma add_node_nodes_ok:
  assumes "add_node item nodes = Inr nodes'" and "nodes_ok nodes"
  shows "nodes_ok nodes'"
proof -
  from assms(1) obtain n where n: "load_node item = Inr n" "nodes' = dset (n_key n) n nodes"
    by (auto simp: add_node_def err_simps)
  obtain k v where item: "item = (k, v)" by (cases item)
  from n(1) obtain s raw where "node_core raw s = Inr n" "s \<noteq> []"
    unfolding load_node_def item by (auto simp: err_simps split: pyval.splits)
  from node_core_ok [OF this] have ok: "n_key n = s" "node_ok n" by auto
  have d: "distinct (keys nodes')" using assms(2) n(2) by (simp add: nodes_ok_def)
  have "n_key m = k \<and> node_ok m" if "(k, m) \<in> set nodes'" for k m
  proof -
    have "dget nodes' k = Some m" using that d by (simp add: dget_distinct)
    then have "k = n_key n \<and> m = n \<or> (k, m) \<in> set nodes"
      using n(2) by (auto split: if_splits dest: map_of_SomeD)
    then show ?thesis using ok assms(2) by (auto simp: nodes_ok_def)
  qed
  with d show ?thesis by (auto simp: nodes_ok_def)
qed

lemma check_node_links_Inr:
  "check_node_links nodes n = Inr u \<Longrightarrow> set (n_after n) \<subseteq> set (keys nodes)
     \<and> (n_shard n = None \<or> n_reduce n = None) \<and> (\<forall>r. n_reduce n = Some r \<longrightarrow> reduce_source_ok nodes r)"
  by (auto simp: check_node_links_def err_simps list_ex_iff split: option.splits)

lemma load_nodes_ok:
  assumes "load_nodes raw = Inr nodes"
  shows "nodes_ok nodes \<and> links_ok nodes"
proof -
  from assms obtain us where f: "foldE add_node raw [] = Inr nodes"
    and l: "mapE (check_node_links nodes) (vals nodes) = Inr us"
    by (auto simp: load_nodes_def err_simps)
  have "nodes_ok nodes"
    by (rule foldE_invariant [OF f]) (auto simp: nodes_ok_def [of "[]"] intro: add_node_nodes_ok)
  moreover have "links_ok nodes"
  proof -
    have "\<exists>u. check_node_links nodes n = Inr u" if "(k, n) \<in> set nodes" for k n
      using mapE_InrD [OF l] that by (force simp: vals_def)
    with check_node_links_Inr [of nodes] show ?thesis unfolding links_ok_def split_beta
      by (metis prod.collapse)
  qed
  ultimately show ?thesis by simp
qed

section \<open>Execution defaults\<close>

lemma load_workflow_execution_runtime:
  "load_workflow_execution raw = Inr x \<Longrightarrow> x_runtime x = [] \<or> x_runtime x \<in> set agent_runtimes"
  by (auto simp: load_workflow_execution_def empty_execution_def validate_agent_runtime_def err_simps Let_def
      split: pyval.splits)

lemma merge_execution_fields [simp]:
  "n_key (merge_execution_defaults x n) = n_key n" "n_type (merge_execution_defaults x n) = n_type n"
  "n_after (merge_execution_defaults x n) = n_after n" "n_shard (merge_execution_defaults x n) = n_shard n"
  "n_reduce (merge_execution_defaults x n) = n_reduce n" "n_inputs (merge_execution_defaults x n) = n_inputs n"
  "n_label (merge_execution_defaults x n) = n_label n" "n_tools (merge_execution_defaults x n) = n_tools n"
  "n_capability (merge_execution_defaults x n) = n_capability n"
  "n_requires_labels (merge_execution_defaults x n) = n_requires_labels n"
  by (simp_all add: merge_execution_defaults_def Let_def)

lemma merge_execution_runtime:
  "x_runtime (n_execution (merge_execution_defaults x n)) =
    (if n_type n = ''agent'' \<and> x_runtime (n_execution n) = [] then x_runtime x else x_runtime (n_execution n))"
  by (auto simp: merge_execution_defaults_def Let_def str_or_def)

lemma merge_node_ok:
  assumes "node_ok n" and "x_runtime x = [] \<or> x_runtime x \<in> set agent_runtimes"
  shows "node_ok (merge_execution_defaults x n)"
  using assms unfolding node_ok_def by (simp add: merge_execution_runtime)

lemma keys_apply_defaults [simp]: "keys (apply_execution_defaults nodes x) = keys nodes"
  by (simp add: apply_execution_defaults_def)

lemma apply_defaults_cases:
  "(k, n) \<in> set (apply_execution_defaults nodes x) \<Longrightarrow>
    \<exists>m. (k, m) \<in> set nodes \<and> (n = m \<or> n = merge_execution_defaults x m)"
  by (auto simp: apply_execution_defaults_def split: if_splits)

lemma reduce_source_apply_defaults:
  "reduce_source_ok (apply_execution_defaults nodes x) r \<longleftrightarrow> reduce_source_ok nodes r"
  by (auto simp: reduce_source_ok_def apply_execution_defaults_def dget_map_vals split: option.splits)

lemma apply_defaults_ok:
  assumes "nodes_ok nodes \<and> links_ok nodes" and "x_runtime x = [] \<or> x_runtime x \<in> set agent_runtimes"
  shows "nodes_ok (apply_execution_defaults nodes x) \<and> links_ok (apply_execution_defaults nodes x)"
proof
  show "nodes_ok (apply_execution_defaults nodes x)"
    unfolding nodes_ok_def
  proof (intro conjI ballI, goal_cases)
    case 1
    then show ?case using assms(1) by (simp add: nodes_ok_def)
  next
    case (2 p)
    obtain k n where p: "p = (k, n)" by (cases p)
    from apply_defaults_cases [of k n nodes x] 2 p obtain m where
      m: "(k, m) \<in> set nodes" "n = m \<or> n = merge_execution_defaults x m" by auto
    then have "n_key m = k" "node_ok m" using assms(1) by (auto simp: nodes_ok_def)
    with m(2) merge_node_ok [OF _ assms(2), of m] p show ?case by auto
  qed
  show "links_ok (apply_execution_defaults nodes x)"
    unfolding links_ok_def
  proof (intro ballI)
    fix p
    assume "p \<in> set (apply_execution_defaults nodes x)"
    moreover obtain k n where p: "p = (k, n)" by (cases p)
    ultimately obtain m where m: "(k, m) \<in> set nodes" "n = m \<or> n = merge_execution_defaults x m"
      using apply_defaults_cases [of k n nodes x] by auto
    then have f: "n_after n = n_after m" "n_shard n = n_shard m" "n_reduce n = n_reduce m" by auto
    from m(1) assms(1) have "set (n_after m) \<subseteq> set (keys nodes) \<and> (n_shard m = None \<or> n_reduce m = None)
      \<and> (\<forall>r. n_reduce m = Some r \<longrightarrow> reduce_source_ok nodes r)" by (auto simp: links_ok_def)
    then show "case p of (k, n) \<Rightarrow> set (n_after n) \<subseteq> set (keys (apply_execution_defaults nodes x))
      \<and> (n_shard n = None \<or> n_reduce n = None)
      \<and> (\<forall>r. n_reduce n = Some r \<longrightarrow> reduce_source_ok (apply_execution_defaults nodes x) r)"
      by (simp add: p f reduce_source_apply_defaults)
  qed
qed

section \<open>Edges\<close>

lemma edge_end_Inr [err_simps]: "edge_end v nodes e = Inr s \<longleftrightarrow> v = PStr s \<and> s \<in> set (keys nodes)"
  by (auto simp: edge_end_def err_simps split: pyval.splits)

lemma after_edges_ok: "nodes_ok nodes \<Longrightarrow> links_ok nodes \<Longrightarrow> edges_ok nodes (after_edges nodes)"
proof -
  assume a: "nodes_ok nodes" "links_ok nodes"
  have "e_source e \<in> set (keys nodes) \<and> e_target e \<in> set (keys nodes)" if "e \<in> set (after_edges nodes)" for e
  proof -
    from that obtain k n dep where n: "(k, n) \<in> set nodes" "dep \<in> set (n_after n)" "e = plain_edge dep (n_key n)"
      by (auto simp: after_edges_def vals_def)
    from n(1) a have "n_key n = k" "set (n_after n) \<subseteq> set (keys nodes)"
      by (auto simp: nodes_ok_def links_ok_def)
    with n show ?thesis by (auto simp: plain_edge_def in_keys_pair)
  qed
  then show ?thesis by (simp add: edges_ok_def)
qed

lemma add_edge_ok:
  assumes "add_edge nodes version item st = Inr st'" and "edges_ok nodes (snd st)"
  shows "edges_ok nodes (snd st')"
proof -
  obtain i v known edges where st: "item = (i, v)" "st = (known, edges)" by (cases item, cases st)
  from assms(1) obtain raw where v: "v = PDict raw" unfolding add_edge_def st by (auto split: pyval.splits)
  from assms show ?thesis
    unfolding add_edge_def st v by (auto simp: err_simps edges_ok_def split: if_splits)
qed

lemma load_edges_ok:
  assumes "load_edges raw nodes version = Inr edges" and "nodes_ok nodes \<and> links_ok nodes"
  shows "edges_ok nodes edges"
proof -
  obtain xs es known where
    f: "foldE (add_edge nodes version) (enumerate 0 xs) (map edge_pair es, es) = Inr (known, edges)"
    and es: "es = after_edges nodes \<or> es = []"
  proof (cases "version = 1")
    case True
    with assms(1) that [of _ "after_edges nodes"] show ?thesis
      by (auto simp: load_edges_def err_simps)
  next
    case False
    with assms(1) that [of _ "[]"] show ?thesis
      by (auto simp: load_edges_def err_simps split: pyval.splits)
  qed
  have "edges_ok nodes (snd (known, edges))"
  proof (rule foldE_invariant [OF f, where I = "\<lambda>st. edges_ok nodes (snd st)"])
    show "edges_ok nodes (snd (map edge_pair es, es))"
      using es after_edges_ok [of nodes] assms(2) by (auto simp: edges_ok_def [of _ "[]"])
  qed (rule add_edge_ok)
  then show ?thesis by simp
qed

section \<open>A fresh key for the injected start node\<close>

fun nat_of_str :: "nat \<Rightarrow> string \<Rightarrow> nat" where
  "nat_of_str acc [] = acc"
| "nat_of_str acc (c # s) = nat_of_str (10 * acc + (of_char c - 48)) s"

lemma nat_of_str_append: "nat_of_str acc (s @ t) = nat_of_str (nat_of_str acc s) t"
  by (induction acc s rule: nat_of_str.induct) auto

lemma nat_of_nat_str: "nat_of_str 0 (nat_str n) = n"
proof (induction n rule: nat_str.induct)
  case (1 n)
  show ?case
  proof (cases "n < 10")
    case True
    then show ?thesis by (simp add: nat_str.simps [of n])
  next
    case False
    moreover have "10 * (n div 10) + (of_char (char_of (48 + n mod 10) :: char) - 48) = n"
      by (simp add: mult_div_mod_eq)
    ultimately show ?thesis
      using 1 by (simp add: nat_str.simps [of n] nat_of_str_append)
  qed
qed

lemma nat_str_nonempty: "nat_str n \<noteq> []"
  by (simp add: nat_str.simps [of n])

lemma start_candidate_inj: "inj start_candidate"
proof (rule injI)
  fix i j
  assume a: "start_candidate i = start_candidate j"
  show "i = j"
  proof (cases "i = 0 \<or> j = 0")
    case True
    with a show ?thesis using nat_str_nonempty [of i] nat_str_nonempty [of j]
      by (auto simp: start_candidate_def split: if_splits)
  next
    case False
    with a have "nat_str i = nat_str j" by (simp add: start_candidate_def)
    then show ?thesis by (metis nat_of_nat_str)
  qed
qed

lemma fresh_start_loop_fresh:
  "(\<exists>j \<le> fuel. start_candidate (i + j) \<notin> set (keys nodes)) \<Longrightarrow>
    fresh_start_loop fuel nodes i \<notin> set (keys nodes)"
proof (induction fuel nodes i rule: fresh_start_loop.induct)
  case (2 fuel nodes i)
  show ?case
  proof (cases "start_candidate i \<in> set (keys nodes)")
    case True
    with 2(2) obtain j where j: "j \<le> Suc fuel" "j \<noteq> 0" "start_candidate (i + j) \<notin> set (keys nodes)"
      by (metis add.right_neutral)
    then have "j - 1 \<le> fuel" "Suc i + (j - 1) = i + j" by auto
    with j(3) have "\<exists>j \<le> fuel. start_candidate (Suc i + j) \<notin> set (keys nodes)" by metis
    with 2(1) [OF True] True show ?thesis by simp
  qed simp
qed simp

lemma fresh_start_key_fresh: "fresh_start_key nodes \<notin> set (keys nodes)"
proof -
  have "\<exists>j \<le> length nodes. start_candidate j \<notin> set (keys nodes)"
  proof (rule ccontr)
    assume "\<not> ?thesis"
    then have "start_candidate ` {..length nodes} \<subseteq> set (keys nodes)" by auto
    then have "card (start_candidate ` {..length nodes}) \<le> card (set (keys nodes))"
      by (intro card_mono) auto
    moreover have "card (set (keys nodes)) \<le> length nodes"
      by (metis card_length keys_def length_map)
    ultimately show False
      by (simp add: card_image inj_on_subset [OF start_candidate_inj])
  qed
  then show ?thesis unfolding fresh_start_key_def by (intro fresh_start_loop_fresh) simp
qed

section \<open>The start node\<close>

lemma start_keys_subset: "set (start_keys nodes) \<subseteq> set (keys nodes)"
  by (auto simp: start_keys_def in_keys_pair)

text \<open>A non-empty acyclic graph has a node without incoming edges.\<close>

lemma acyclic_has_root:
  assumes "edges_ok nodes edges" and "nodes \<noteq> []"
    and ac: "acyclic ((\<lambda>e. (e_source e, e_target e)) ` set edges)"
  shows "\<exists>k \<in> set (keys nodes). \<forall>e \<in> set edges. e_target e \<noteq> k"
proof -
  let ?R = "(\<lambda>e. (e_source e, e_target e)) ` set edges"
  have "finite ?R" by simp
  then have wf: "wf ?R" using ac by (rule finite_acyclic_wf)
  have "hd (keys nodes) \<in> set (keys nodes)" using assms(2) by (cases nodes) (auto simp: keys_def)
  from wfE_min [OF wf this] obtain k where k: "k \<in> set (keys nodes)"
    and m: "\<And>y. (y, k) \<in> ?R \<Longrightarrow> y \<notin> set (keys nodes)" by metis
  have "e_target e \<noteq> k" if "e \<in> set edges" for e
  proof
    assume "e_target e = k"
    then have "(e_source e, k) \<in> ?R" using that by auto
    with m assms(1) that show False by (auto simp: edges_ok_def)
  qed
  with k show ?thesis by auto
qed

lemma inject_nodes_ok:
  assumes "nodes_ok nodes \<and> links_ok nodes" and "edges_ok nodes edges" and "start_keys nodes = []"
    and "inject_start_node nodes edges = (nodes', edges')"
  shows "nodes_ok nodes' \<and> links_ok nodes' \<and> edges_ok nodes' edges' \<and> set edges \<subseteq> set edges'
    \<and> start_keys nodes' = [fresh_start_key nodes]"
proof -
  let ?k = "fresh_start_key nodes"
  let ?s = "(mk_node ?k ''Start'' [])\<lparr>n_type := ''start''\<rparr>"
  have n: "nodes' = (?k, ?s) # nodes"
    and e: "edges' = edges @ map (plain_edge ?k) (filter (\<lambda>n. \<not> list_ex (\<lambda>e. e_target e = n) edges) (keys nodes))"
    using assms(4) by (auto simp: inject_start_node_def Let_def)
  have k: "?k \<notin> set (keys nodes)" by (rule fresh_start_key_fresh)
  have "fresh_start_loop f nodes i \<noteq> []" for f i
    by (induction f nodes i rule: fresh_start_loop.induct) (auto simp: start_candidate_def)
  then have "node_ok ?s" by (auto simp: node_ok_def mk_node_def empty_execution_def fresh_start_key_def)
  moreover have "n_key ?s = ?k" by (simp add: mk_node_def)
  ultimately have "nodes_ok nodes'" using assms(1) k by (auto simp: nodes_ok_def n)
  moreover have "links_ok nodes'"
  proof -
    have s: "n_after ?s = []" "n_reduce ?s = None" by (simp_all add: mk_node_def)
    have "reduce_source_ok nodes' r" if "reduce_source_ok nodes r" for r
      using that k by (auto simp: reduce_source_ok_def n split: option.splits dest: dget_SomeD)
    with s assms(1) show ?thesis unfolding links_ok_def n by fastforce
  qed
  moreover have "edges_ok nodes' edges'" using assms(2) by (auto simp: edges_ok_def n e plain_edge_def)
  moreover have "start_keys nodes' = [?k]" using assms(3) by (simp add: start_keys_def n mk_node_def)
  ultimately show ?thesis by (auto simp: e)
qed

lemma inject_start_ok:
  assumes "nodes_ok nodes \<and> links_ok nodes" and "edges_ok nodes edges" and "start_keys nodes = []"
    and "nodes \<noteq> []" and inj: "inject_start_node nodes edges = (nodes', edges')"
    and ac: "acyclic ((\<lambda>e. (e_source e, e_target e)) ` set edges')"
  shows "start_ok nodes' edges'"
proof -
  let ?k = "fresh_start_key nodes"
  let ?roots = "filter (\<lambda>n. \<not> list_ex (\<lambda>e. e_target e = n) edges) (keys nodes)"
  have e: "edges' = edges @ map (plain_edge ?k) ?roots"
    using inj by (auto simp: inject_start_node_def Let_def)
  have k: "?k \<notin> set (keys nodes)" by (rule fresh_start_key_fresh)
  have old: "e_source e \<noteq> ?k \<and> e_target e \<noteq> ?k" if "e \<in> set edges" for e
    using that assms(2) k by (auto simp: edges_ok_def)
  have "acyclic ((\<lambda>e. (e_source e, e_target e)) ` set edges)"
    by (rule acyclic_subset [OF ac]) (auto simp: e)
  from acyclic_has_root [OF assms(2,4) this] obtain r where "r \<in> set ?roots"
    by (auto simp: list_ex_iff)
  then have "plain_edge ?k r \<in> set edges'" by (auto simp: e)
  then have "\<exists>e \<in> set edges'. e_source e = ?k" by (rule rev_bexI) (simp add: plain_edge_def)
  moreover have "e_target e \<noteq> ?k" if "e \<in> set edges'" for e
    using that old k by (auto simp: e plain_edge_def)
  moreover have "e_condition e = None" if "e \<in> set edges'" "e_source e = ?k" for e
    using that old by (auto simp: e plain_edge_def)
  ultimately show ?thesis
    using inject_nodes_ok [OF assms(1-3) inj] unfolding start_ok_def by blast
qed

lemma explicit_start_ok:
  assumes "ensure_start_node nodes edges = Inr (nodes', edges')" and "start_keys nodes \<noteq> []"
  shows "nodes' = nodes \<and> edges' = edges \<and> start_ok nodes edges"
proof -
  from assms obtain k where k: "start_keys nodes = [k]"
    by (auto simp: ensure_start_node_def err_simps split: list.splits)
  with assms(1) show ?thesis
    by (auto simp: ensure_start_node_def err_simps list_ex_iff start_ok_def)
qed

section \<open>The whole loader\<close>

lemma sort_Nil_iff: "sort xs = [] \<longleftrightarrow> xs = []"
  by (metis length_0_conv length_sort)

lemma validate_approval_Inr:
  "validate_approval_edges nodes edges = Inr u \<Longrightarrow> gates_fed nodes edges"
proof -
  assume a: "validate_approval_edges nodes edges = Inr u"
  let ?fed = "map e_target (filter (\<lambda>e. e_source e \<notin> set (start_keys nodes)) edges)"
  have "sort (filter (\<lambda>k. k \<notin> set ?fed) (approval_keys nodes)) = []"
    using a by (auto simp: validate_approval_edges_def Let_def split: list.splits)
  then have "filter (\<lambda>k. k \<notin> set ?fed) (approval_keys nodes) = []"
    by (simp only: sort_Nil_iff)
  then show ?thesis by (auto simp: gates_fed_def filter_empty_conv)
qed

lemma ensure_start_ok:
  assumes "nodes_ok nodes \<and> links_ok nodes" and "edges_ok nodes edges" and "nodes \<noteq> []"
    and "ensure_start_node nodes edges = Inr (nodes', edges')"
    and "validate_acyclic nodes' edges' = Inr ()"
  shows "nodes_ok nodes' \<and> links_ok nodes' \<and> edges_ok nodes' edges' \<and> start_ok nodes' edges'
    \<and> acyclic ((\<lambda>e. (e_source e, e_target e)) ` set edges')"
proof -
  have ok: "nodes_ok nodes' \<and> links_ok nodes' \<and> edges_ok nodes' edges'
      \<and> (acyclic ((\<lambda>e. (e_source e, e_target e)) ` set edges') \<longrightarrow> start_ok nodes' edges')"
  proof (cases "start_keys nodes = []")
    case True
    with assms(4) have inj: "inject_start_node nodes edges = (nodes', edges')"
      by (simp add: ensure_start_node_def)
    from inject_nodes_ok [OF assms(1,2) True inj] inject_start_ok [OF assms(1,2) True assms(3) inj]
    show ?thesis by blast
  next
    case False
    from explicit_start_ok [OF assms(4) False] assms(1,2) show ?thesis by auto
  qed
  have "acyclic ((\<lambda>e. (e_source e, e_target e)) ` set edges')"
    using validate_acyclic_iff [of edges' nodes'] ok assms(5) by (auto simp: edges_ok_def)
  with ok show ?thesis by blast
qed

lemma load_nodes_nonempty: "load_nodes raw = Inr nodes \<Longrightarrow> raw \<noteq> [] \<Longrightarrow> nodes \<noteq> []"
proof -
  assume a: "load_nodes raw = Inr nodes" "raw \<noteq> []"
  then obtain x xs where raw: "raw = x # xs" by (cases raw) auto
  from a(1) have "foldE add_node raw [] = Inr nodes" by (auto simp: load_nodes_def err_simps)
  then obtain n1 where n1: "add_node x [] = Inr n1" and f: "foldE add_node xs n1 = Inr nodes"
    by (auto simp: raw err_simps)
  have ne: "m \<noteq> []" if "add_node y m0 = Inr m" for y m0 m
  proof -
    from that obtain n where "m = dset (n_key n) n m0" by (auto simp: add_node_def err_simps)
    then show ?thesis by (cases m0) (auto split: if_splits)
  qed
  show ?thesis
    by (rule foldE_invariant [OF f, where I = "\<lambda>d. d \<noteq> []"]) (use ne n1 in blast)+
qed

lemma Inr_sym: "Inr a = Inr b \<Longrightarrow> b = a"
  by simp

lemma definition_from_mapping_stages:
  assumes "definition_from_mapping raw = Inr d"
  shows "\<exists>ns nodes0 x edges1 nodes edges k l intk ver u v. ns \<noteq> [] \<and> load_nodes ns = Inr nodes0
    \<and> load_workflow_execution raw = Inr x
    \<and> load_edges raw (apply_execution_defaults nodes0 x) ver = Inr edges1
    \<and> ensure_start_node (apply_execution_defaults nodes0 x) edges1 = Inr (nodes, edges)
    \<and> validate_approval_edges nodes edges = Inr u \<and> validate_acyclic nodes edges = Inr v
    \<and> d = mk_definition k l intk nodes edges ver x"
proof -
  have ns: "(case v of PDict ns \<Rightarrow> guardE (ns = []) e (Inr ns) | _ \<Rightarrow> Inl e) = Inr ns \<Longrightarrow> ns \<noteq> []"
    for v and e :: def_error and ns by (cases v) (auto simp: guardE_def split: if_splits)
  show ?thesis
    using assms unfolding definition_from_mapping_def Let_def
    apply (simp only: err_simps case_prod_Inr)
    apply (elim exE conjE)
    apply (drule ns)
    apply hypsubst
    apply (intro exI conjI; (assumption | (erule Inr_sym)))
    done
qed

theorem definition_from_mapping_wf:
  assumes "definition_from_mapping raw = Inr d"
  shows "wf_definition d"
proof -
  from definition_from_mapping_stages [OF assms] obtain ns nodes0 x edges1 nodes edges k l intk ver where
    ns: "ns \<noteq> []" "load_nodes ns = Inr nodes0" "load_workflow_execution raw = Inr x"
      "load_edges raw (apply_execution_defaults nodes0 x) ver = Inr edges1"
      "ensure_start_node (apply_execution_defaults nodes0 x) edges1 = Inr (nodes, edges)"
      "validate_approval_edges nodes edges = Inr ()" "validate_acyclic nodes edges = Inr ()"
    and d: "d = mk_definition k l intk nodes edges ver x"
    by (elim exE conjE) (metis old.unit.exhaust)
  have n1: "nodes_ok (apply_execution_defaults nodes0 x) \<and> links_ok (apply_execution_defaults nodes0 x)"
    by (rule apply_defaults_ok [OF load_nodes_ok [OF ns(2)] load_workflow_execution_runtime [OF ns(3)]])
  have ne: "apply_execution_defaults nodes0 x \<noteq> []"
    using load_nodes_nonempty [OF ns(2,1)] by (simp add: apply_execution_defaults_def)
  from ensure_start_ok [OF n1 load_edges_ok [OF ns(4) n1] ne ns(5,7)]
  have ok: "nodes_ok nodes \<and> links_ok nodes \<and> edges_ok nodes edges \<and> start_ok nodes edges
    \<and> acyclic ((\<lambda>e. (e_source e, e_target e)) ` set edges)" .
  then have "edges \<noteq> []" by (auto simp: start_ok_def)
  then have "d_nodes d = nodes" "d_edges d = edges" by (simp_all add: d mk_definition_def)
  with ok validate_approval_Inr [OF ns(6)] show ?thesis
    by (simp add: wf_definition_def edge_graph_def)
qed

lemma definition_from_dict_wf: "definition_from_dict payload = Inr d \<Longrightarrow> wf_definition d"
  by (cases payload) (auto simp: definition_from_dict_def err_simps intro: definition_from_mapping_wf)

end
