(* ===== verification/Workflow_Consumption.thy ===== *)
theory Workflow_Consumption
  imports Workflow_Schema Graph_Walk
begin

text \<open>
  Who consumes whose artifacts (\<open>server/app/workflows/workflow_consumption.py\<close>): the
  consumption and producer indexes, the implicit edges they induce, the merged adjacency
  (explicit edges and implicit consumption edges) and its transitive closures. The
  reference notion is the relation \<open>merged_graph\<close>; the closures are shown to be its
  strict descendants and ancestors.
\<close>

section \<open>Indexes: a dictionary of sets\<close>

definition set_add :: "'a \<Rightarrow> 'a list \<Rightarrow> 'a list" where
  "set_add x xs = (if x \<in> set xs then xs else xs @ [x])"

text \<open>\<open>index.setdefault(k, set()).add(x)\<close>\<close>

definition index_add :: "'k \<Rightarrow> 'a \<Rightarrow> ('k, 'a list) dict \<Rightarrow> ('k, 'a list) dict" where
  "index_add k x idx = dset k (set_add x (dget_default [] idx k)) idx"

definition index_pairs :: "('k \<times> 'a) list \<Rightarrow> ('k, 'a list) dict \<Rightarrow> ('k, 'a list) dict" where
  "index_pairs ps idx = fold (\<lambda>(k, x). index_add k x) ps idx"

lemma set_set_add [simp]: "set (set_add x xs) = insert x (set xs)"
  by (auto simp: set_add_def)

lemma distinct_set_add: "distinct xs \<Longrightarrow> distinct (set_add x xs)"
  by (auto simp: set_add_def)

lemma succs_index_add:
  "succs (index_add k x idx) k' = (if k' = k then set_add x (succs idx k) else succs idx k')"
  by (simp add: succs_def index_add_def dget_default_def)

lemma set_succs_index_pairs:
  "set (succs (index_pairs ps idx) k) = set (succs idx k) \<union> {x. (k, x) \<in> set ps}"
  unfolding index_pairs_def
  by (induction ps arbitrary: idx) (auto simp: succs_index_add split: if_splits)

lemma keys_index_pairs:
  "set (keys (index_pairs ps idx)) = set (keys idx) \<union> fst ` set ps"
  unfolding index_pairs_def
  by (induction ps arbitrary: idx) (auto simp: index_add_def)

lemma distinct_keys_index_pairs: "distinct (keys idx) \<Longrightarrow> distinct (keys (index_pairs ps idx))"
  unfolding index_pairs_def
  by (induction ps arbitrary: idx) (auto simp: index_add_def)

lemma distinct_succs_index_pairs:
  "(\<And>k. distinct (succs idx k)) \<Longrightarrow> distinct (succs (index_pairs ps idx) k)"
  unfolding index_pairs_def
  by (induction ps arbitrary: idx) (auto simp: succs_index_add distinct_set_add)

lemma succs_empty_rows [simp]: "succs (map (\<lambda>k. (k, [])) ks) k = []"
  by (induction ks) (auto simp: succs_def dget_default_def)

lemma succs_map_sort: "succs (map (\<lambda>(k, ts). (k, sort ts)) idx) k = sort (succs idx k)"
  by (induction idx) (auto simp: succs_def dget_default_def)

lemma keys_empty_rows [simp]: "keys (map (\<lambda>k. (k, [])) ks) = ks"
  by (induction ks) auto

lemma items_succs:
  "distinct (keys idx) \<Longrightarrow> (k, vs) \<in> set idx \<Longrightarrow> vs = succs idx k"
  by (simp add: dget_distinct succs_def dget_default_def)

section \<open>Consumers and producers\<close>

definition input_pairs :: "workflow_definition \<Rightarrow> (string \<times> string) list" where
  "input_pairs d = [(name, k). (k, n) \<leftarrow> d_nodes d, name \<leftarrow> n_inputs n]"

definition condition_pairs :: "workflow_definition \<Rightarrow> (string \<times> string) list" where
  "condition_pairs d = [(c_artifact c, e_target e). e \<leftarrow> d_edges d, c \<leftarrow> (case e_condition e of None \<Rightarrow> [] | Some c \<Rightarrow> [c])]"

definition artifact_consumption_index :: "workflow_definition \<Rightarrow> (string, string list) dict" where
  "artifact_consumption_index d = index_pairs (condition_pairs d) (index_pairs (input_pairs d) [])"

definition artifact_producers :: "workflow_definition \<Rightarrow> (string, string list) dict" where
  "artifact_producers d = index_pairs [(name, k). (k, n) \<leftarrow> d_nodes d, name \<leftarrow> n_outputs n] []"

text \<open>The implicit edges: each producer of a name to each other consumer of that name.\<close>

definition consumer_edges :: "workflow_definition \<Rightarrow> (string, string list) dict" where
  "consumer_edges d =
     (let producers = artifact_producers d;
          pairs = [(producer, consumer). (name, consumers) \<leftarrow> artifact_consumption_index d,
                     consumer \<leftarrow> consumers, producer \<leftarrow> succs producers name, producer \<noteq> consumer]
      in map (\<lambda>(k, ts). (k, sort ts)) (index_pairs pairs (map (\<lambda>k. (k, [])) (node_keys d))))"

definition dependency_children :: "workflow_definition \<Rightarrow> (string, string list) dict" where
  "dependency_children d =
     (let explicit = map (\<lambda>e. (e_source e, e_target e)) (d_edges d);
          implicit = [(source, target). (source, targets) \<leftarrow> consumer_edges d, target \<leftarrow> targets]
      in map (\<lambda>(k, ts). (k, sort ts))
           (index_pairs implicit (index_pairs explicit (map (\<lambda>k. (k, [])) (node_keys d)))))"

definition walk_downstream :: "('a, 'a list) dict \<Rightarrow> 'a list \<Rightarrow> 'a list" where
  "walk_downstream children starts = stack_walk children (rev (concat (map (succs children) starts))) []"

definition dependency_downstream :: "workflow_definition \<Rightarrow> string \<Rightarrow> string list" where
  "dependency_downstream d k = sort (walk_downstream (dependency_children d) [k])"

definition dependency_parents :: "workflow_definition \<Rightarrow> (string, string list) dict" where
  "dependency_parents d =
     map (\<lambda>(k, ss). (k, sort ss))
       (index_pairs [(target, source). (source, targets) \<leftarrow> dependency_children d, target \<leftarrow> targets]
         (map (\<lambda>k. (k, [])) (node_keys d)))"

definition dependency_ancestors :: "workflow_definition \<Rightarrow> string \<Rightarrow> string list" where
  "dependency_ancestors d k = sort (walk_downstream (dependency_parents d) [k])"

section \<open>The relations the code computes\<close>

definition produces :: "workflow_definition \<Rightarrow> string \<Rightarrow> string \<Rightarrow> bool" where
  "produces d k name \<longleftrightarrow> (\<exists>n. (k, n) \<in> set (d_nodes d) \<and> name \<in> set (n_outputs n))"

definition consumes :: "workflow_definition \<Rightarrow> string \<Rightarrow> string \<Rightarrow> bool" where
  "consumes d k name \<longleftrightarrow> (\<exists>n. (k, n) \<in> set (d_nodes d) \<and> name \<in> set (n_inputs n))
     \<or> (\<exists>e c. e \<in> set (d_edges d) \<and> e_target e = k \<and> e_condition e = Some c \<and> c_artifact c = name)"

definition merged_graph :: "workflow_definition \<Rightarrow> (string \<times> string) set" where
  "merged_graph d = edge_graph d \<union> {(p, c). p \<noteq> c \<and> (\<exists>name. produces d p name \<and> consumes d c name)}"

lemma succs_Nil [simp]: "succs [] k = []"
  by (simp add: succs_def dget_default_def)

lemma in_input_pairs:
  "(name, k) \<in> set (input_pairs d) \<longleftrightarrow> (\<exists>n. (k, n) \<in> set (d_nodes d) \<and> name \<in> set (n_inputs n))"
  unfolding input_pairs_def in_concat_items by auto

lemma in_condition_pairs:
  "(name, k) \<in> set (condition_pairs d) \<longleftrightarrow>
    (\<exists>e c. e \<in> set (d_edges d) \<and> e_target e = k \<and> e_condition e = Some c \<and> c_artifact c = name)"
proof -
  have "(name, k) \<in> set (condition_pairs d) \<longleftrightarrow>
      (\<exists>e \<in> set (d_edges d). \<exists>c. e_condition e = Some c \<and> (name, k) = (c_artifact c, e_target e))"
    unfolding condition_pairs_def in_concat_loop by (intro bex_cong) (auto split: option.splits dest: sym)
  then show ?thesis by auto
qed

lemma set_succs_producers:
  "k \<in> set (succs (artifact_producers d) name) \<longleftrightarrow> produces d k name"
  unfolding artifact_producers_def set_succs_index_pairs produces_def mem_Collect_eq Un_iff
    in_concat_items by auto

lemma set_succs_consumption:
  "k \<in> set (succs (artifact_consumption_index d) name) \<longleftrightarrow> consumes d k name"
  unfolding artifact_consumption_index_def set_succs_index_pairs consumes_def
  by (simp add: in_input_pairs in_condition_pairs)

lemma distinct_keys_consumption: "distinct (keys (artifact_consumption_index d))"
  by (simp add: artifact_consumption_index_def distinct_keys_index_pairs)

lemma keys_consumption:
  "name \<in> set (keys (artifact_consumption_index d)) \<longleftrightarrow> (\<exists>k. consumes d k name)"
proof -
  have "name \<in> set (keys (artifact_consumption_index d)) \<longleftrightarrow>
      (\<exists>k. (name, k) \<in> set (input_pairs d) \<or> (name, k) \<in> set (condition_pairs d))"
    unfolding artifact_consumption_index_def keys_index_pairs by force
  then show ?thesis
    by (simp only: in_input_pairs in_condition_pairs consumes_def)
qed

lemma items_consumption:
  "(name, cs) \<in> set (artifact_consumption_index d) \<Longrightarrow> k \<in> set cs \<longleftrightarrow> consumes d k name"
  using items_succs [OF distinct_keys_consumption] set_succs_consumption by metis

lemma in_consumption_items:
  assumes "consumes d k name"
  shows "\<exists>cs. (name, cs) \<in> set (artifact_consumption_index d) \<and> k \<in> set cs"
proof -
  from assms have "name \<in> set (keys (artifact_consumption_index d))"
    unfolding keys_consumption by blast
  then obtain cs where cs: "(name, cs) \<in> set (artifact_consumption_index d)"
    unfolding in_keys_pair by blast
  with assms items_consumption [OF cs] show ?thesis by blast
qed

lemma set_succs_consumer_edges:
  "c \<in> set (succs (consumer_edges d) p) \<longleftrightarrow> p \<noteq> c \<and> (\<exists>name. produces d p name \<and> consumes d c name)"
proof -
  have "c \<in> set (succs (consumer_edges d) p) \<longleftrightarrow>
      (\<exists>name cs. (name, cs) \<in> set (artifact_consumption_index d) \<and> c \<in> set cs
        \<and> p \<in> set (succs (artifact_producers d) name) \<and> p \<noteq> c)"
    unfolding consumer_edges_def Let_def succs_map_sort set_sort set_succs_index_pairs
      mem_Collect_eq Un_iff in_concat_items in_concat_loop by auto
  also have "\<dots> \<longleftrightarrow> p \<noteq> c \<and> (\<exists>name. produces d p name \<and> consumes d c name)"
    unfolding set_succs_producers using items_consumption in_consumption_items by blast
  finally show ?thesis .
qed

lemma distinct_keys_consumer_edges:
  "distinct (node_keys d) \<Longrightarrow> distinct (keys (consumer_edges d))"
  unfolding consumer_edges_def Let_def
  by (simp add: distinct_keys_index_pairs)

lemma in_items_succs: "y \<in> set (succs ch x) \<Longrightarrow> \<exists>vs. (x, vs) \<in> set ch \<and> y \<in> set vs"
  by (cases "dget ch x") (auto simp: succs_def dget_default_def dest: map_of_SomeD)

lemma items_pairs_iff:
  "distinct (keys ch) \<Longrightarrow>
    (x, y) \<in> set [(s, t). (s, ts) \<leftarrow> ch, t \<leftarrow> ts] \<longleftrightarrow> y \<in> set (succs ch x)"
  unfolding in_concat_items using items_succs [of ch x] in_items_succs [of y ch x] by auto

theorem edge_rel_children:
  assumes "wf_shape d"
  shows "edge_rel (dependency_children d) = merged_graph d"
proof -
  have dist: "distinct (keys (consumer_edges d))"
    using assms distinct_keys_consumer_edges by (simp add: wf_shape_def)
  have "y \<in> set (succs (dependency_children d) x) \<longleftrightarrow> (x, y) \<in> merged_graph d" for x y
    unfolding dependency_children_def Let_def succs_map_sort set_sort set_succs_index_pairs
      merged_graph_def edge_graph_def mem_Collect_eq Un_iff items_pairs_iff [OF dist]
      set_succs_consumer_edges by auto
  then show ?thesis by (auto simp: edge_rel_def)
qed

lemma distinct_keys_children: "wf_shape d \<Longrightarrow> distinct (keys (dependency_children d))"
  unfolding dependency_children_def Let_def
  by (simp add: distinct_keys_index_pairs wf_shape_def)

theorem edge_rel_parents:
  assumes "wf_shape d"
  shows "edge_rel (dependency_parents d) = (merged_graph d)\<inverse>"
proof -
  have "y \<in> set (succs (dependency_parents d) x) \<longleftrightarrow> (y, x) \<in> merged_graph d" for x y
  proof -
    have "y \<in> set (succs (dependency_parents d) x) \<longleftrightarrow>
        (y, x) \<in> set [(s, t). (s, ts) \<leftarrow> dependency_children d, t \<leftarrow> ts]"
      unfolding dependency_parents_def succs_map_sort set_sort set_succs_index_pairs by auto
    then show ?thesis
      using items_pairs_iff [OF distinct_keys_children [OF assms]]
        edge_rel_children [OF assms, symmetric] by simp
  qed
  then show ?thesis by (auto simp: edge_rel_def)
qed

lemma set_walk_downstream:
  "set (walk_downstream ch starts) = (edge_rel ch)\<^sup>+ `` set starts"
proof -
  have "set (walk_downstream ch starts) = (edge_rel ch)\<^sup>* `` (\<Union>x \<in> set starts. set (succs ch x))"
    unfolding walk_downstream_def stack.run_reach by simp
  also have "\<dots> = (edge_rel ch)\<^sup>+ `` set starts"
    unfolding trancl_unfold_left by (force simp: relcomp_unfold)
  finally show ?thesis .
qed

lemma distinct_walk_downstream: "distinct (walk_downstream ch starts)"
  by (simp add: walk_downstream_def stack.run_distinct)

lemma set_dependency_downstream:
  "wf_shape d \<Longrightarrow> set (dependency_downstream d k) = (merged_graph d)\<^sup>+ `` {k}"
  by (simp add: dependency_downstream_def set_walk_downstream edge_rel_children)

lemma set_dependency_ancestors:
  "wf_shape d \<Longrightarrow> set (dependency_ancestors d k) = ((merged_graph d)\<inverse>)\<^sup>+ `` {k}"
  by (simp add: dependency_ancestors_def set_walk_downstream edge_rel_parents)

lemma merged_graph_nodes:
  assumes "wf_shape d" and "(x, y) \<in> merged_graph d"
  shows "x \<in> set (node_keys d) \<and> y \<in> set (node_keys d)"
proof -
  have "(x, y) \<in> edge_graph d \<Longrightarrow> ?thesis"
    using assms(1) wf_shape_edge by (auto simp: edge_graph_def)
  moreover have "produces d x name \<Longrightarrow> x \<in> set (node_keys d)" for name
    by (auto simp: produces_def in_node_keys)
  moreover have "consumes d y name \<Longrightarrow> y \<in> set (node_keys d)" for name
    using wf_shape_edge [OF assms(1)] by (fastforce simp: consumes_def in_node_keys)
  ultimately show ?thesis using assms(2) unfolding merged_graph_def by blast
qed

lemma dependency_downstream_nodes:
  "wf_shape d \<Longrightarrow> set (dependency_downstream d k) \<subseteq> set (node_keys d)"
proof
  fix y
  assume wf: "wf_shape d" and "y \<in> set (dependency_downstream d k)"
  then have "(k, y) \<in> (merged_graph d)\<^sup>+" by (simp add: set_dependency_downstream)
  then obtain z where "(z, y) \<in> merged_graph d" by (rule tranclE)
  with wf show "y \<in> set (node_keys d)" by (simp add: merged_graph_nodes)
qed

end
