(* ===== verification/Workflow_Branching.thy ===== *)
theory Workflow_Branching
  imports Workflow_Consumption
begin

text \<open>
  Conditional edges and branch evaluation (\<open>conditions.py\<close>, \<open>condition_barrier.py\<close>
  and \<open>workflow_branching.py\<close> under \<open>server/app/workflows\<close>). The job directory is a
  map from artifact names to what is stored there; a regular file is given by the result of
  \<open>json.loads\<close> on its text. Python sets are duplicate-free lists here.
\<close>

section \<open>Conditions\<close>

datatype file_entry = Directory | JsonFile pyval | OtherFile

type_synonym job_dir = "string \<Rightarrow> file_entry option"

fun walk_path :: "pyval \<Rightarrow> string list \<Rightarrow> pyval" where
  "walk_path current [] = current"
| "walk_path (PDict d) (part # parts) =
     (case dget d (PStr part) of None \<Rightarrow> PNone | Some v \<Rightarrow> walk_path v parts)"
| "walk_path _ (part # parts) = PNone"

definition read_path :: "pyval \<Rightarrow> string \<Rightarrow> pyval" where
  "read_path payload path =
     (if path = ''$'' then payload
      else if \<not> starts_with ''$.'' path then PNone
      else walk_path payload (split_on (CHR ''.'') (drop 2 path)))"

definition condition_matches :: "workflow_condition \<Rightarrow> job_dir \<Rightarrow> bool" where
  "condition_matches c dir =
     (case dir (c_artifact c) of
        Some (JsonFile payload) \<Rightarrow> py_eq (read_path payload (c_path c)) (c_equals c)
      | _ \<Rightarrow> False)"

definition selected_edges :: "workflow_edge list \<Rightarrow> job_dir \<Rightarrow> workflow_edge list" where
  "selected_edges edges dir =
     filter (\<lambda>e. case e_condition e of None \<Rightarrow> True | Some c \<Rightarrow> condition_matches c dir) edges"

section \<open>The producer barrier of conditions\<close>

type_synonym statuses = "(string, string) dict"

definition terminal_success_statuses :: "string list" where
  "terminal_success_statuses = [''completed'', ''not_applicable'']"

definition condition_producer_in_flight ::
  "workflow_edge \<Rightarrow> (string, string list) dict \<Rightarrow> statuses \<Rightarrow> string list \<Rightarrow> bool" where
  "condition_producer_in_flight e producers st excluded =
     (case e_condition e of
        None \<Rightarrow> False
      | Some c \<Rightarrow> list_ex (\<lambda>p. p \<notin> set excluded
            \<and> dget_default ''pending'' st p \<notin> set terminal_success_statuses)
          (succs producers (c_artifact c)))"

definition branch_gated_keys :: "workflow_definition \<Rightarrow> string \<Rightarrow> string list" where
  "branch_gated_keys d target = set_add target (dependency_downstream d target)"

definition any_condition_producer_in_flight ::
  "workflow_edge list \<Rightarrow> (string, string list) dict \<Rightarrow> statuses \<Rightarrow> workflow_definition \<Rightarrow> bool" where
  "any_condition_producer_in_flight edges producers st d =
     list_ex (\<lambda>e. condition_producer_in_flight e producers st (branch_gated_keys d (e_target e))) edges"

section \<open>Statuses, edge groups and explicit closures\<close>

definition runnable_statuses :: "string list" where
  "runnable_statuses = [''pending'', ''ready'', ''stale'']"

definition effective_node_statuses :: "workflow_definition \<Rightarrow> statuses \<Rightarrow> statuses" where
  "effective_node_statuses d st =
     fold (\<lambda>n s. if n_type n = ''start'' then dset (n_key n) ''completed'' s else s) (vals (d_nodes d)) st"

definition outgoing_edges :: "workflow_definition \<Rightarrow> string \<Rightarrow> workflow_edge list" where
  "outgoing_edges d k = filter (\<lambda>e. e_source e = k) (d_edges d)"

definition incoming_edges :: "workflow_definition \<Rightarrow> string \<Rightarrow> workflow_edge list" where
  "incoming_edges d k = filter (\<lambda>e. e_target e = k) (d_edges d)"

definition upstream_nodes :: "workflow_definition \<Rightarrow> string \<Rightarrow> string list" where
  "upstream_nodes d k = dedup (map e_source (incoming_edges d k))"

definition explicit_children :: "workflow_definition \<Rightarrow> (string, string list) dict" where
  "explicit_children d = map (\<lambda>k. (k, map e_target (outgoing_edges d k))) (node_keys d)"

definition downstream_nodes :: "workflow_definition \<Rightarrow> string \<Rightarrow> string list" where
  "downstream_nodes d k = queue_walk (explicit_children d) (succs (explicit_children d) k) []"

definition reachable_from :: "workflow_definition \<Rightarrow> string list \<Rightarrow> string list" where
  "reachable_from d starts = dedup (starts @ concat (map (downstream_nodes d) starts))"

section \<open>Branch evaluation\<close>

record edge_verdict =
  v_selected :: "string list"
  v_unselected :: "string list"
  v_deferred :: "string list"

definition evaluate_edge_verdict ::
  "workflow_definition \<Rightarrow> workflow_edge list \<Rightarrow> statuses \<Rightarrow> job_dir \<Rightarrow> edge_verdict" where
  "evaluate_edge_verdict d edges st dir =
     (let producers = artifact_producers d;
          in_flight = (\<lambda>e. condition_producer_in_flight e producers st (branch_gated_keys d (e_target e)));
          decidable = filter (\<lambda>e. \<not> in_flight e) edges;
          selected = dedup (map e_target (selected_edges decidable dir))
      in \<lparr>v_selected = selected,
          v_unselected = filter (\<lambda>k. k \<notin> set selected) (dedup (map e_target decidable)),
          v_deferred = dedup (map e_target (filter in_flight edges))\<rparr>)"

text \<open>One iteration of the loop over the sources; the state is \<open>(not_applicable, deferred)\<close>.\<close>

definition evaluate_source ::
  "workflow_definition \<Rightarrow> statuses \<Rightarrow> job_dir \<Rightarrow> string \<Rightarrow> string list \<times> string list \<Rightarrow> string list \<times> string list" where
  "evaluate_source d st dir k acc =
     (let edges = outgoing_edges d k in
      if dget st k \<noteq> Some ''completed'' then acc
      else if \<not> list_ex (\<lambda>e. e_condition e \<noteq> None) edges then acc
      else
        (let v = evaluate_edge_verdict d edges st dir;
             sel = reachable_from d (v_selected v);
             unsel = reachable_from d (v_unselected v)
         in (fst acc @ filter (\<lambda>x. x \<notin> set sel) unsel,
             snd acc @ concat (map (\<lambda>t. t # dependency_downstream d t) (v_deferred v)))))"

definition evaluate_branches :: "workflow_definition \<Rightarrow> statuses \<Rightarrow> job_dir \<Rightarrow> string list" where
  "evaluate_branches d st dir =
     (let acc = fold (evaluate_source d (effective_node_statuses d st) dir) (node_keys d) ([], [])
      in dedup (filter (\<lambda>x. x \<notin> set (snd acc)) (fst acc)))"

section \<open>Lemmas\<close>

lemma set_selected_edges:
  "e \<in> set (selected_edges es dir) \<longleftrightarrow>
    e \<in> set es \<and> (\<forall>c. e_condition e = Some c \<longrightarrow> condition_matches c dir)"
  by (auto simp: selected_edges_def split: option.splits)

lemma dget_effective_aux:
  assumes "\<forall>(k, n) \<in> set ns. n_key n = k" and "distinct (keys ns)"
  shows "dget (fold (\<lambda>n s. if n_type n = ''start'' then dset (n_key n) ''completed'' s else s) (vals ns) st) k =
    (if \<exists>n. (k, n) \<in> set ns \<and> n_type n = ''start'' then Some ''completed'' else dget st k)"
  using assms
proof (induction ns arbitrary: st)
  case Nil
  then show ?case by (simp add: vals_def)
next
  case (Cons p ns)
  obtain k' n where p: "p = (k', n)" by (cases p)
  have step: "vals (p # ns) = n # vals ns" by (simp add: vals_def p)
  have "k' \<notin> set (keys ns)" using Cons.prems(2) by (simp add: p)
  then have new: "(k', m) \<notin> set ns" for m by (simp add: in_keys_pair)
  show ?case
    unfolding step fold_simps comp_def
    using Cons.IH [of "if n_type n = ''start'' then dset (n_key n) ''completed'' st else st"] Cons.prems new
    by (auto simp: p)
qed

lemma dget_effective:
  "wf_shape d \<Longrightarrow> dget (effective_node_statuses d st) k =
    (if \<exists>n. (k, n) \<in> set (d_nodes d) \<and> n_type n = ''start'' then Some ''completed'' else dget st k)"
  unfolding effective_node_statuses_def
  by (rule dget_effective_aux) (auto simp: wf_shape_def node_keys_def)

lemma set_outgoing: "e \<in> set (outgoing_edges d k) \<longleftrightarrow> e \<in> set (d_edges d) \<and> e_source e = k"
  by (auto simp: outgoing_edges_def)

lemma set_incoming: "e \<in> set (incoming_edges d k) \<longleftrightarrow> e \<in> set (d_edges d) \<and> e_target e = k"
  by (auto simp: incoming_edges_def)

lemma set_upstream_nodes: "set (upstream_nodes d k) = {s. (s, k) \<in> edge_graph d}"
  by (auto simp: upstream_nodes_def incoming_edges_def edge_graph_iff)

lemma succs_explicit_children:
  "succs (explicit_children d) k = (if k \<in> set (node_keys d) then map e_target (outgoing_edges d k) else [])"
  by (simp add: explicit_children_def succs_def dget_default_def dget_map_keys)

lemma edge_rel_explicit: "wf_shape d \<Longrightarrow> edge_rel (explicit_children d) = edge_graph d"
  by (auto simp: edge_rel_def succs_explicit_children edge_graph_def outgoing_edges_def
      dest: wf_shape_edge split: if_splits)

lemma set_downstream_nodes: "wf_shape d \<Longrightarrow> set (downstream_nodes d k) = (edge_graph d)\<^sup>+ `` {k}"
  by (simp add: downstream_nodes_def queue.run_descendants edge_rel_explicit)

lemma distinct_downstream_nodes: "distinct (downstream_nodes d k)"
  by (simp add: downstream_nodes_def queue.run_distinct)

lemma set_reachable_from: "wf_shape d \<Longrightarrow> set (reachable_from d ks) = (edge_graph d)\<^sup>* `` set ks"
  by (auto simp: reachable_from_def set_downstream_nodes rtrancl_eq_or_trancl)

lemma set_branch_gated: "wf_shape d \<Longrightarrow> set (branch_gated_keys d t) = (merged_graph d)\<^sup>* `` {t}"
  by (auto simp: branch_gated_keys_def set_dependency_downstream rtrancl_eq_or_trancl)

text \<open>What decides whether an edge's verdict has to wait.\<close>

lemma condition_producer_in_flight_iff:
  "condition_producer_in_flight e (artifact_producers d) st ex \<longleftrightarrow>
    (\<exists>c p. e_condition e = Some c \<and> produces d p (c_artifact c) \<and> p \<notin> set ex
      \<and> dget_default ''pending'' st p \<notin> {''completed'', ''not_applicable''})"
  by (auto simp: condition_producer_in_flight_def list_ex_iff set_succs_producers
      terminal_success_statuses_def split: option.splits)

section \<open>Relational specification of branch evaluation\<close>

text \<open>
  The verdicts on the outgoing edges of one source, as sets of targets: edges whose condition
  file still has a producer in flight are deferred, the others are decided by the file.
\<close>

definition in_flight :: "workflow_definition \<Rightarrow> statuses \<Rightarrow> workflow_edge \<Rightarrow> bool" where
  "in_flight d st e = condition_producer_in_flight e (artifact_producers d) st (branch_gated_keys d (e_target e))"

definition edge_selected :: "workflow_edge \<Rightarrow> job_dir \<Rightarrow> bool" where
  "edge_selected e dir \<longleftrightarrow> (\<forall>c. e_condition e = Some c \<longrightarrow> condition_matches c dir)"

definition selected_targets :: "workflow_definition \<Rightarrow> statuses \<Rightarrow> job_dir \<Rightarrow> string \<Rightarrow> string set" where
  "selected_targets d st dir s =
     {e_target e | e. e \<in> set (d_edges d) \<and> e_source e = s \<and> \<not> in_flight d st e \<and> edge_selected e dir}"

definition decided_targets :: "workflow_definition \<Rightarrow> statuses \<Rightarrow> string \<Rightarrow> string set" where
  "decided_targets d st s = {e_target e | e. e \<in> set (d_edges d) \<and> e_source e = s \<and> \<not> in_flight d st e}"

definition deferred_targets :: "workflow_definition \<Rightarrow> statuses \<Rightarrow> string \<Rightarrow> string set" where
  "deferred_targets d st s = {e_target e | e. e \<in> set (d_edges d) \<and> e_source e = s \<and> in_flight d st e}"

text \<open>A source whose branches are evaluated: completed, with a conditional outgoing edge.\<close>

definition branching_source :: "workflow_definition \<Rightarrow> statuses \<Rightarrow> string \<Rightarrow> bool" where
  "branching_source d st s \<longleftrightarrow> s \<in> set (node_keys d) \<and> dget st s = Some ''completed''
     \<and> (\<exists>e \<in> set (d_edges d). e_source e = s \<and> e_condition e \<noteq> None)"

lemma verdict_sets:
  "set (v_selected (evaluate_edge_verdict d (outgoing_edges d s) st dir)) = selected_targets d st dir s"
  "set (v_unselected (evaluate_edge_verdict d (outgoing_edges d s) st dir)) =
     decided_targets d st s - selected_targets d st dir s"
  "set (v_deferred (evaluate_edge_verdict d (outgoing_edges d s) st dir)) = deferred_targets d st s"
  by (auto simp: evaluate_edge_verdict_def Let_def set_selected_edges selected_targets_def
      decided_targets_def deferred_targets_def in_flight_def edge_selected_def set_outgoing)

lemma branching_source_iff:
  "s \<in> set (node_keys d) \<Longrightarrow> branching_source d st s \<longleftrightarrow>
    dget st s = Some ''completed'' \<and> list_ex (\<lambda>e. e_condition e \<noteq> None) (outgoing_edges d s)"
  by (auto simp: branching_source_def list_ex_iff set_outgoing)

lemma fold_evaluate_source:
  assumes "wf_shape d" and "set ks \<subseteq> set (node_keys d)"
  shows "set (fst (fold (evaluate_source d st dir) ks acc)) = set (fst acc) \<union>
      {k. \<exists>s \<in> set ks. branching_source d st s
        \<and> k \<in> (edge_graph d)\<^sup>* `` (decided_targets d st s - selected_targets d st dir s)
        \<and> k \<notin> (edge_graph d)\<^sup>* `` selected_targets d st dir s}
    \<and> set (snd (fold (evaluate_source d st dir) ks acc)) = set (snd acc) \<union>
      {k. \<exists>s \<in> set ks. branching_source d st s \<and> k \<in> (merged_graph d)\<^sup>* `` deferred_targets d st s}"
  using assms(2)
proof (induction ks arbitrary: acc)
  case (Cons s ks)
  let ?acc = "evaluate_source d st dir s acc"
  have s: "s \<in> set (node_keys d)" using Cons.prems by simp
  have gated: "set (t # dependency_downstream d t) = (merged_graph d)\<^sup>* `` {t}" for t
    using assms(1) by (auto simp: set_dependency_downstream rtrancl_eq_or_trancl)
  have dfr: "set (concat (map (\<lambda>t. t # dependency_downstream d t) (v_deferred v)))
      = (merged_graph d)\<^sup>* `` set (v_deferred v)" for v
    using gated by (simp del: list.set(2)) blast
  have "set (fst ?acc) = set (fst acc) \<union> {k. branching_source d st s
        \<and> k \<in> (edge_graph d)\<^sup>* `` (decided_targets d st s - selected_targets d st dir s)
        \<and> k \<notin> (edge_graph d)\<^sup>* `` selected_targets d st dir s}"
    unfolding evaluate_source_def Let_def branching_source_iff [OF s]
    by (auto simp: set_reachable_from [OF assms(1)] verdict_sets)
  moreover have "set (snd ?acc) = set (snd acc) \<union>
      {k. branching_source d st s \<and> k \<in> (merged_graph d)\<^sup>* `` deferred_targets d st s}"
    unfolding evaluate_source_def Let_def branching_source_iff [OF s]
    by (auto simp: dfr verdict_sets simp del: set_concat)
  ultimately show ?case
    using Cons.IH [of ?acc] Cons.prems by auto
qed simp

theorem evaluate_branches_iff:
  fixes d :: workflow_definition and st :: statuses
  assumes "wf_shape d"
  defines "st' \<equiv> effective_node_statuses d st"
  shows "k \<in> set (evaluate_branches d st dir) \<longleftrightarrow>
    (\<exists>s. branching_source d st' s
        \<and> k \<in> (edge_graph d)\<^sup>* `` (decided_targets d st' s - selected_targets d st' dir s)
        \<and> k \<notin> (edge_graph d)\<^sup>* `` selected_targets d st' dir s)
    \<and> \<not> (\<exists>s. branching_source d st' s \<and> k \<in> (merged_graph d)\<^sup>* `` deferred_targets d st' s)"
  unfolding evaluate_branches_def Let_def set_dedup set_filter st'_def
  using fold_evaluate_source [OF assms(1) order_refl, of "effective_node_statuses d st" dir "([], [])"]
  by (auto simp: branching_source_def)

end
