(* ===== verification/Workflow_Scheduler.thy ===== *)
theory Workflow_Scheduler
  imports Workflow_Branching
begin

text \<open>
  Which nodes may be claimed (\<open>server/app/workflows/scheduler.py\<close>) and which nodes the
  execution control allows (\<open>execution_control.py\<close>), with the safety of the ready set
  (never a producer beside its consumer), its progress under a sound definition, and the job
  status summary.
\<close>

section \<open>Ready nodes\<close>

definition inputs_exist :: "workflow_node \<Rightarrow> job_dir \<Rightarrow> bool" where
  "inputs_exist n dir = list_all (\<lambda>name. dir name \<noteq> None) (n_inputs n)"

definition has_unfinished_implicit_producer ::
  "workflow_node \<Rightarrow> statuses \<Rightarrow> (string, string list) dict \<Rightarrow> bool" where
  "has_unfinished_implicit_producer n st producers =
     list_ex (\<lambda>name. list_ex (\<lambda>p. p \<noteq> n_key n
         \<and> dget_default ''pending'' st p \<notin> set terminal_success_statuses) (succs producers name))
       (n_inputs n)"

text \<open>The body of the loop over \<open>definition.nodes\<close>: its \<open>continue\<close> guards in order.\<close>

definition node_ready ::
  "workflow_definition \<Rightarrow> (string, string list) dict \<Rightarrow> statuses \<Rightarrow> job_dir \<Rightarrow> workflow_node \<Rightarrow> bool" where
  "node_ready d producers st dir n =
     (let incoming = incoming_edges d (n_key n);
          active = selected_edges incoming dir
      in if dget_default ''pending'' st (n_key n) \<notin> set runnable_statuses then False
         else if incoming \<noteq> [] \<and> active = [] then False
         else if list_ex (\<lambda>e. dget st (e_source e) = Some ''not_applicable'') active then False
         else if list_ex (\<lambda>e. dget st (e_source e) \<noteq> Some ''completed'') active then False
         else if any_condition_producer_in_flight incoming producers st d then False
         else if \<not> inputs_exist n dir then False
         else if has_unfinished_implicit_producer n st producers then False
         else True)"

definition find_ready_nodes :: "workflow_definition \<Rightarrow> statuses \<Rightarrow> job_dir \<Rightarrow> workflow_node list" where
  "find_ready_nodes d st dir =
     (let producers = artifact_producers d;
          st' = effective_node_statuses d st
      in filter (node_ready d producers st' dir) (vals (d_nodes d)))"

definition summarize_job_status :: "string list \<Rightarrow> string" where
  "summarize_job_status ss =
     (if ss = [] then ''queued''
      else if ''running'' \<in> set ss then ''running''
      else if ''failed'' \<in> set ss then ''failed''
      else if ''awaiting_approval'' \<in> set ss then ''awaiting_approval''
      else if list_all (\<lambda>s. s \<in> set terminal_success_statuses) ss then ''completed''
      else ''queued'')"

section \<open>Execution control\<close>

datatype control_error =
    UnknownTarget string
  | TargetRequired
  | InvalidMode string

text \<open>
  The closure loop of \<open>ancestor_closure\<close>: a parent is added to the closure when it is
  pushed. \<open>stack\<close> has the list end of the source as its head.
\<close>

fun push_parents :: "string list \<Rightarrow> string list \<Rightarrow> string list \<Rightarrow> string list \<times> string list" where
  "push_parents [] stack closure = (stack, closure)"
| "push_parents (p # ps) stack closure =
     (if p \<in> set closure then push_parents ps stack closure
      else push_parents ps (p # stack) (closure @ [p]))"

lemma push_parents_spec:
  "push_parents ps stack closure = (stack', closure') \<Longrightarrow>
    set closure' = set closure \<union> set ps \<and> set stack \<subseteq> set stack'
    \<and> set stack' \<subseteq> set stack \<union> set ps \<and> set ps - set closure \<subseteq> set stack'
    \<and> length stack' + length closure = length stack + length closure'
    \<and> (distinct closure \<longrightarrow> distinct closure')"
proof (induction ps stack closure arbitrary: stack' closure' rule: push_parents.induct)
  case (1 stack closure)
  then show ?case by simp
next
  case (2 p ps stack closure)
  show ?case
  proof (cases "p \<in> set closure")
    case True
    with 2 show ?thesis by auto
  next
    case False
    from False 2(2) [OF False, of stack' closure'] 2(3) show ?thesis by auto
  qed
qed

function closure_loop :: "(string, string list) dict \<Rightarrow> string list \<Rightarrow> string list \<Rightarrow> string list" where
  "closure_loop par [] closure = closure"
| "closure_loop par (k # stack) closure =
     (case push_parents (succs par k) stack closure of
        (stack', closure') \<Rightarrow> closure_loop par stack' closure')"
  by pat_completeness auto
termination
proof (relation "measures [\<lambda>(par, stack, closure). card (walk_targets par - set closure),
      \<lambda>(par, stack, closure). length stack]", goal_cases)
  case 1
  show ?case by simp
next
  case (2 par k stack closure stack' closure')
  from push_parents_spec [OF 2 [symmetric]] 2
  have c: "set closure' = set closure \<union> set (succs par k)"
    and len: "length stack' + length closure = length stack + length closure'"
    by (auto simp: push_parents_spec)
  show ?case
  proof (cases "set (succs par k) \<subseteq> set closure")
    case True
    have "push_parents ps stack closure = (stack, closure)" if "set ps \<subseteq> set closure" for ps
      using that by (induction ps) auto
    with True 2 show ?thesis by auto
  next
    case False
    then have "walk_targets par - set closure' \<subset> walk_targets par - set closure"
      using c succs_walk_targets [of par k] by auto
    then show ?thesis by (simp add: psubset_card_mono)
  qed
qed

definition explicit_parents :: "workflow_definition \<Rightarrow> (string, string list) dict" where
  "explicit_parents d = map (\<lambda>k. (k, map e_source (incoming_edges d k))) (node_keys d)"

definition ancestor_closure :: "workflow_definition \<Rightarrow> string \<Rightarrow> control_error + string list" where
  "ancestor_closure d target =
     (if target \<notin> set (node_keys d) then Inl (UnknownTarget target)
      else Inr (closure_loop (explicit_parents d) [target] [target]))"

text \<open>The claimable nodes; \<open>execution_mode\<close> defaults to \<open>full\<close> when absent (\<open>None\<close>).\<close>

definition allowed_nodes ::
  "workflow_definition \<Rightarrow> string option \<Rightarrow> string option \<Rightarrow> control_error + string list" where
  "allowed_nodes d mode target =
     (let m = (case mode of None \<Rightarrow> ''full'' | Some m \<Rightarrow> m);
          executable = (\<lambda>k. case dget (d_nodes d) k of None \<Rightarrow> False | Some n \<Rightarrow> n_type n \<noteq> ''start'')
      in if m = ''full'' then Inr (filter executable (node_keys d))
         else if m = ''until_node'' then
           (case target of
              None \<Rightarrow> Inl TargetRequired
            | Some t \<Rightarrow>
                if t = [] then Inl TargetRequired
                else if t \<notin> set (node_keys d) then Inl (UnknownTarget t)
                else Inr (filter executable (set_add t (dependency_ancestors d t))))
         else Inl (InvalidMode m))"

section \<open>The ready set\<close>

lemma vals_iff: "n \<in> set (vals d) \<longleftrightarrow> (\<exists>k. (k, n) \<in> set d)"
  by (force simp: vals_def)

lemma find_ready_iff:
  fixes d :: workflow_definition and st :: statuses
  assumes "wf_shape d"
  defines "st' \<equiv> effective_node_statuses d st"
  shows "n \<in> set (find_ready_nodes d st dir) \<longleftrightarrow>
    dget (d_nodes d) (n_key n) = Some n
    \<and> dget_default ''pending'' st' (n_key n) \<in> set runnable_statuses
    \<and> (incoming_edges d (n_key n) = [] \<or> (\<exists>e \<in> set (incoming_edges d (n_key n)). edge_selected e dir))
    \<and> (\<forall>e \<in> set (incoming_edges d (n_key n)). edge_selected e dir \<longrightarrow> dget st' (e_source e) = Some ''completed'')
    \<and> (\<forall>e \<in> set (incoming_edges d (n_key n)). \<not> in_flight d st' e)
    \<and> (\<forall>name \<in> set (n_inputs n). dir name \<noteq> None)
    \<and> (\<forall>name \<in> set (n_inputs n). \<forall>p. produces d p name \<longrightarrow> p \<noteq> n_key n \<longrightarrow>
          dget_default ''pending'' st' p \<in> set terminal_success_statuses)"
proof -
  have node: "n \<in> set (vals (d_nodes d)) \<longleftrightarrow> dget (d_nodes d) (n_key n) = Some n"
    using assms(1) wf_shape_node wf_shape_key by (auto simp: vals_iff dest: map_of_SomeD)
  let ?inc = "incoming_edges d (n_key n)"
  have act: "e \<in> set (selected_edges es dir) \<longleftrightarrow> e \<in> set es \<and> edge_selected e dir" for e es
    by (simp add: set_selected_edges edge_selected_def)
  have sel: "selected_edges es dir = [] \<longleftrightarrow> \<not> (\<exists>e \<in> set es. edge_selected e dir)" for es
    using act [of _ es] by (metis list.set_intros(1) neq_Nil_conv empty_iff list.set(1))
  have ready: "node_ready d (artifact_producers d) st' dir n \<longleftrightarrow>
      dget_default ''pending'' st' (n_key n) \<in> set runnable_statuses
      \<and> \<not> (?inc \<noteq> [] \<and> selected_edges ?inc dir = [])
      \<and> (\<not> list_ex (\<lambda>e. dget st' (e_source e) = Some ''not_applicable'') (selected_edges ?inc dir)
        \<and> \<not> list_ex (\<lambda>e. dget st' (e_source e) \<noteq> Some ''completed'') (selected_edges ?inc dir))
      \<and> \<not> any_condition_producer_in_flight ?inc (artifact_producers d) st' d
      \<and> inputs_exist n dir \<and> \<not> has_unfinished_implicit_producer n st' (artifact_producers d)"
    by (simp add: node_ready_def Let_def)
  have ups: "\<not> list_ex (\<lambda>e. dget st' (e_source e) = Some ''not_applicable'') (selected_edges ?inc dir)
      \<and> \<not> list_ex (\<lambda>e. dget st' (e_source e) \<noteq> Some ''completed'') (selected_edges ?inc dir) \<longleftrightarrow>
      (\<forall>e \<in> set ?inc. edge_selected e dir \<longrightarrow> dget st' (e_source e) = Some ''completed'')"
    unfolding list_ex_iff Bex_def act by auto
  have cond: "\<not> any_condition_producer_in_flight ?inc (artifact_producers d) st' d \<longleftrightarrow>
      (\<forall>e \<in> set ?inc. \<not> in_flight d st' e)"
    unfolding any_condition_producer_in_flight_def list_ex_iff in_flight_def by simp
  have inp: "inputs_exist n dir \<longleftrightarrow> (\<forall>name \<in> set (n_inputs n). dir name \<noteq> None)"
    by (simp add: inputs_exist_def list_all_iff)
  have prod: "\<not> has_unfinished_implicit_producer n st' (artifact_producers d) \<longleftrightarrow>
      (\<forall>name \<in> set (n_inputs n). \<forall>p. produces d p name \<longrightarrow> p \<noteq> n_key n \<longrightarrow>
          dget_default ''pending'' st' p \<in> set terminal_success_statuses)"
    unfolding has_unfinished_implicit_producer_def list_ex_iff
    by (simp add: set_succs_producers Bex_def) blast
  have "n \<in> set (find_ready_nodes d st dir) \<longleftrightarrow>
      dget (d_nodes d) (n_key n) = Some n \<and> node_ready d (artifact_producers d) st' dir n"
    by (simp add: find_ready_nodes_def Let_def node st'_def conj_commute)
  then show ?thesis
    unfolding ready sel ups cond inp prod by (simp only: de_Morgan_conj not_not conj_assoc)
qed

text \<open>
  No producer beside its consumer: two nodes handed out together never stand in a
  producer/consumer relation over a declared artifact, so they may run concurrently.
\<close>

lemma ready_not_terminal:
  assumes "wf_shape d" and "n \<in> set (find_ready_nodes d st dir)"
  shows "dget_default ''pending'' (effective_node_statuses d st) (n_key n)
      \<notin> set terminal_success_statuses"
proof -
  have "dget_default ''pending'' (effective_node_statuses d st) (n_key n) \<in> set runnable_statuses"
    using assms(2) unfolding find_ready_iff [OF assms(1)] by (elim conjE)
  then show ?thesis by (auto simp: runnable_statuses_def terminal_success_statuses_def)
qed

lemma ready_race_free:
  assumes "wf_shape d" and "n \<in> set (find_ready_nodes d st dir)"
    and "m \<in> set (find_ready_nodes d st dir)" and "n \<noteq> m"
  shows "set (n_outputs n) \<inter> set (n_inputs m) = {}"
proof (rule ccontr)
  assume "set (n_outputs n) \<inter> set (n_inputs m) \<noteq> {}"
  then obtain name where out: "name \<in> set (n_outputs n)" and inp: "name \<in> set (n_inputs m)" by auto
  have n: "dget (d_nodes d) (n_key n) = Some n"
    using assms(2) unfolding find_ready_iff [OF assms(1)] by (elim conjE)
  have m: "dget (d_nodes d) (n_key m) = Some m"
    using assms(3) unfolding find_ready_iff [OF assms(1)] by (elim conjE)
  have prodn: "produces d (n_key n) name"
    using n out by (auto simp: produces_def dest: map_of_SomeD)
  have neq: "n_key n \<noteq> n_key m" using n m assms(4) by auto
  have prods: "\<forall>name \<in> set (n_inputs m). \<forall>p. produces d p name \<longrightarrow> p \<noteq> n_key m \<longrightarrow>
      dget_default ''pending'' (effective_node_statuses d st) p \<in> set terminal_success_statuses"
    using assms(3) unfolding find_ready_iff [OF assms(1)] by (elim conjE)
  have "dget_default ''pending'' (effective_node_statuses d st) (n_key n) \<in> set terminal_success_statuses"
    by (rule prods [THEN bspec, OF inp, THEN spec, THEN mp, OF prodn, THEN mp, OF neq])
  with ready_not_terminal [OF assms(1,2)] show False by (rule notE)
qed

text \<open>
  Progress. \<open>settled\<close>: every node of the job either completed or is waiting to run, which
  holds for a job no branch of which was cut off and in which nothing is running, failed or
  parked. Then an acyclic merged graph with unconditional edges always has a ready node.
\<close>

definition settled :: "workflow_definition \<Rightarrow> statuses \<Rightarrow> bool" where
  "settled d st \<longleftrightarrow> (\<forall>k \<in> set (node_keys d).
     dget_default ''pending'' (effective_node_statuses d st) k
       \<in> {''completed'', ''pending'', ''ready'', ''stale''})"

lemma minimal_unfinished:
  assumes "acyclic R" and "finite R" and "finite S" and "S \<noteq> {}"
  shows "\<exists>x \<in> S. \<forall>y \<in> S. (y, x) \<notin> R"
proof -
  have wf: "wf R" using assms(1,2) by (simp add: finite_acyclic_wf)
  obtain z where "z \<in> S" using assms(4) by auto
  from wfE_min [OF wf this] obtain x where "x \<in> S" and "\<And>y. (y, x) \<in> R \<Longrightarrow> y \<notin> S" by metis
  then show ?thesis by auto
qed

lemma finite_merged_graph: "wf_shape d \<Longrightarrow> finite (merged_graph d)"
  by (rule finite_subset [of _ "set (node_keys d) \<times> set (node_keys d)"])
     (auto dest: merged_graph_nodes)

text \<open>The same inside a set of nodes that is closed under upstreams, whatever the other nodes do.\<close>

lemma ready_progress_in:
  assumes wf: "wf_shape d" and ac: "acyclic (merged_graph d)"
    and unc: "\<forall>e \<in> set (d_edges d). e_condition e = None"
    and A: "A \<subseteq> set (node_keys d)" "\<And>x y. (y, x) \<in> merged_graph d \<Longrightarrow> x \<in> A \<Longrightarrow> y \<in> A"
    and set: "\<And>k. k \<in> A \<Longrightarrow> dget_default ''pending'' (effective_node_statuses d st) k \<in> {''completed'', ''pending'', ''ready'', ''stale''}"
    and todo: "\<exists>k \<in> A. dget_default ''pending'' (effective_node_statuses d st) k \<noteq> ''completed''"
    and files: "\<And>k n name. (k, n) \<in> set (d_nodes d) \<Longrightarrow> k \<in> A \<Longrightarrow> name \<in> set (n_inputs n) \<Longrightarrow> dir name \<noteq> None
      \<or> (\<exists>p. produces d p name \<and> p \<noteq> k \<and> dget_default ''pending'' (effective_node_statuses d st) p \<noteq> ''completed'')"
  shows "\<exists>n \<in> set (find_ready_nodes d st dir). n_key n \<in> A"
proof -
  let ?st = "effective_node_statuses d st"
  let ?S = "{k \<in> A. dget_default ''pending'' ?st k \<noteq> ''completed''}"
  have "finite ?S" using A(1) by (auto intro: finite_subset [of _ "set (node_keys d)"])
  then obtain k where k: "k \<in> ?S" and min: "\<forall>y \<in> ?S. (y, k) \<notin> merged_graph d"
    using minimal_unfinished [OF ac finite_merged_graph [OF wf], of ?S] todo by auto
  from k A(1) have "k \<in> set (node_keys d)" by blast
  then obtain n where n: "(k, n) \<in> set (d_nodes d)" unfolding in_node_keys by blast
  then have nk: "n_key n = k" "dget (d_nodes d) k = Some n"
    using wf wf_shape_key wf_shape_node by auto
  have up: "dget_default ''pending'' ?st y = ''completed''" if "(y, k) \<in> merged_graph d" for y
    using that min A(2) [OF that] k by auto
  have edges: "dget ?st (e_source e) = Some ''completed''" if "e \<in> set (incoming_edges d k)" for e
  proof -
    have "(e_source e, k) \<in> merged_graph d"
      using that by (auto simp: merged_graph_def edge_graph_iff set_incoming)
    from up [OF this] show ?thesis by (auto simp: dget_default_def split: option.splits)
  qed
  have prods: "dget_default ''pending'' ?st p = ''completed''"
    if "name \<in> set (n_inputs n)" "produces d p name" "p \<noteq> k" for p name
  proof -
    have "consumes d k name" using that(1) n by (auto simp: consumes_def)
    then have "(p, k) \<in> merged_graph d" using that(2,3) by (auto simp: merged_graph_def)
    then show ?thesis by (rule up)
  qed
  have inp: "dir name \<noteq> None" if "name \<in> set (n_inputs n)" for name
    using files [OF n _ that] that prods k by fastforce
  have noflight: "\<not> in_flight d ?st e" if "e \<in> set (incoming_edges d k)" for e
    using that unc by (simp add: in_flight_def condition_producer_in_flight_iff set_incoming)
  have run: "dget_default ''pending'' ?st k \<in> set runnable_statuses"
    using set [of k] k by (auto simp: runnable_statuses_def)
  have sel: "edge_selected e dir" if "e \<in> set (incoming_edges d k)" for e
    using that unc by (simp add: edge_selected_def set_incoming)
  then have some: "incoming_edges d k = [] \<or> (\<exists>e \<in> set (incoming_edges d k). edge_selected e dir)"
    by (cases "incoming_edges d k") auto
  have "n \<in> set (find_ready_nodes d st dir)"
    unfolding find_ready_iff [OF wf] nk
    using nk(2) run some edges noflight inp prods
    by (intro conjI ballI impI allI) (simp_all add: terminal_success_statuses_def)
  then show ?thesis using nk(1) k by auto
qed

lemma ready_progress:
  assumes wf: "wf_shape d" and ac: "acyclic (merged_graph d)"
    and unc: "\<forall>e \<in> set (d_edges d). e_condition e = None"
    and set: "settled d st"
    and todo: "\<exists>k \<in> set (node_keys d). dget_default ''pending'' (effective_node_statuses d st) k \<noteq> ''completed''"
    and files: "\<forall>(k, n) \<in> set (d_nodes d). \<forall>name \<in> set (n_inputs n). dir name \<noteq> None
      \<or> (\<exists>p. produces d p name \<and> p \<noteq> k \<and> dget_default ''pending'' (effective_node_statuses d st) p \<noteq> ''completed'')"
  shows "find_ready_nodes d st dir \<noteq> []"
proof -
  have "\<exists>n \<in> set (find_ready_nodes d st dir). n_key n \<in> set (node_keys d)"
  proof (rule ready_progress_in [OF wf ac unc subset_refl _ _ todo])
    show "y \<in> set (node_keys d)" if "(y, x) \<in> merged_graph d" for x y
      using merged_graph_nodes [OF wf that] by simp
    show "dget_default ''pending'' (effective_node_statuses d st) k \<in> {''completed'', ''pending'', ''ready'', ''stale''}"
      if "k \<in> set (node_keys d)" for k using set that by (simp add: settled_def)
    show "dir name \<noteq> None \<or> (\<exists>p. produces d p name \<and> p \<noteq> k \<and> dget_default ''pending'' (effective_node_statuses d st) p \<noteq> ''completed'')"
      if "(k, n) \<in> set (d_nodes d)" "name \<in> set (n_inputs n)" for k n name using files that by blast
  qed
  then show ?thesis by auto
qed

section \<open>Execution control\<close>

lemma closure_loop_spec:
  assumes "set stack \<subseteq> set closure"
  shows "set closure \<subseteq> set (closure_loop par stack closure)
    \<and> set (closure_loop par stack closure) \<subseteq> set closure \<union> (edge_rel par)\<^sup>+ `` set stack
    \<and> ((\<forall>x \<in> set closure - set stack. set (succs par x) \<subseteq> set closure) \<longrightarrow>
        (\<forall>x \<in> set (closure_loop par stack closure).
           set (succs par x) \<subseteq> set (closure_loop par stack closure)))"
  using assms
proof (induction par stack closure rule: closure_loop.induct)
  case (1 par closure)
  then show ?case by simp
next
  case (2 par k stack closure)
  obtain stack' closure' where pp: "push_parents (succs par k) stack closure = (stack', closure')"
    by fastforce
  from push_parents_spec [OF pp] have cl: "set closure' = set closure \<union> set (succs par k)"
    and st: "set stack \<subseteq> set stack'" "set stack' \<subseteq> set stack \<union> set (succs par k)"
      "set (succs par k) - set closure \<subseteq> set stack'" by blast+
  have sub: "set stack' \<subseteq> set closure'" using cl st 2(2) by auto
  note IH = "2.IH" [OF pp [symmetric] sub]
  have up: "(edge_rel par)\<^sup>+ `` set stack' \<subseteq> (edge_rel par)\<^sup>+ `` set (k # stack)"
  proof
    fix y
    assume "y \<in> (edge_rel par)\<^sup>+ `` set stack'"
    then obtain x where "x \<in> set stack'" and xy: "(x, y) \<in> (edge_rel par)\<^sup>+" by auto
    then have "x \<in> set stack \<or> (k, x) \<in> edge_rel par" using st(2) by auto
    then show "y \<in> (edge_rel par)\<^sup>+ `` set (k # stack)"
      using xy trancl_into_trancl2 [of k x "edge_rel par" y] by auto
  qed
  have new: "set (succs par k) \<subseteq> (edge_rel par)\<^sup>+ `` set (k # stack)"
  proof
    fix y
    assume "y \<in> set (succs par k)"
    then have "(k, y) \<in> (edge_rel par)\<^sup>+" by auto
    then show "y \<in> (edge_rel par)\<^sup>+ `` set (k # stack)" by (rule ImageI) simp
  qed
  have closed: "\<forall>x \<in> set closure' - set stack'. set (succs par x) \<subseteq> set closure'"
    if "\<forall>x \<in> set closure - set (k # stack). set (succs par x) \<subseteq> set closure"
    using that cl st by auto
  let ?L = "closure_loop par stack' closure'"
  have L: "closure_loop par (k # stack) closure = ?L" by (simp add: pp)
  have "set closure \<subseteq> set ?L" using IH cl by auto
  moreover have "set ?L \<subseteq> set closure \<union> (edge_rel par)\<^sup>+ `` set (k # stack)"
    using IH [THEN conjunct2, THEN conjunct1] unfolding cl using up new by blast
  moreover have "\<forall>x \<in> set ?L. set (succs par x) \<subseteq> set ?L"
    if "\<forall>x \<in> set closure - set (k # stack). set (succs par x) \<subseteq> set closure"
    using IH [THEN conjunct2, THEN conjunct2] closed [OF that] by (rule mp)
  ultimately show ?case unfolding L by blast
qed

lemma edge_rel_explicit_parents: "wf_shape d \<Longrightarrow> edge_rel (explicit_parents d) = (edge_graph d)\<inverse>"
  by (auto simp: edge_rel_def explicit_parents_def succs_def dget_default_def dget_map_keys
      edge_graph_def incoming_edges_def dest: wf_shape_edge split: if_splits)

lemma set_ancestor_closure:
  assumes "wf_shape d" and "ancestor_closure d t = Inr cl"
  shows "set cl = ((edge_graph d)\<inverse>)\<^sup>* `` {t}"
proof -
  let ?par = "explicit_parents d"
  have cl: "cl = closure_loop ?par [t] [t]" and t: "t \<in> set (node_keys d)"
    using assms(2) by (auto simp: ancestor_closure_def split: if_splits)
  from closure_loop_spec [of "[t]" "[t]" ?par]
  have a: "t \<in> set cl" "set cl \<subseteq> {t} \<union> (edge_rel ?par)\<^sup>+ `` {t}"
    and c: "\<forall>x \<in> set cl. set (succs ?par x) \<subseteq> set cl" by (auto simp: cl)
  have "y \<in> set cl" if "(t, y) \<in> (edge_rel ?par)\<^sup>*" for y
    using that by (induction rule: rtrancl_induct) (use a c in auto)
  with a show ?thesis
    unfolding edge_rel_explicit_parents [OF assms(1), symmetric]
    by (auto simp: rtrancl_eq_or_trancl)
qed

end
