(* ===== verification/Reset_Closure.thy ===== *)
theory Reset_Closure
  imports Workflow_Scheduler
begin

text \<open>
  Which nodes a rerun resets (\<open>server/app/services/job_reset_closure.py\<close>) and which artifact
  names a new revision drops (\<open>server/app/workflows/revision_diff.py\<close>). Two producers of one
  artifact name share one storage object, so they are reset together: a fixpoint over name
  sharing and downstream dependencies.
\<close>

section \<open>The fixpoint\<close>

datatype closure_error = UnknownKey string

definition outputs_of :: "workflow_definition \<Rightarrow> string \<Rightarrow> string list" where
  "outputs_of d k = (case dget (d_nodes d) k of None \<Rightarrow> [] | Some n \<Rightarrow> n_outputs n)"

text \<open>The names that trigger: all outputs, or the outputs a node does not read itself.\<close>

definition trigger_names :: "workflow_definition \<Rightarrow> bool \<Rightarrow> string \<Rightarrow> string list" where
  "trigger_names d pure k =
     (case dget (d_nodes d) k of
        None \<Rightarrow> []
      | Some n \<Rightarrow> if pure then filter (\<lambda>x. x \<notin> set (n_inputs n)) (n_outputs n) else n_outputs n)"

definition face_names :: "workflow_definition \<Rightarrow> bool \<Rightarrow> string list \<Rightarrow> string list" where
  "face_names d pure face = concat (map (trigger_names d pure) face)"

definition newly_shared :: "workflow_definition \<Rightarrow> string list \<Rightarrow> string list \<Rightarrow> string list \<Rightarrow> string list" where
  "newly_shared d keep excluded names =
     filter (\<lambda>k. k \<notin> set excluded \<and> list_ex (\<lambda>x. x \<in> set names) (outputs_of d k)) keep"

function shared_loop ::
  "workflow_definition \<Rightarrow> string list \<Rightarrow> string list \<Rightarrow> bool \<Rightarrow> string list \<Rightarrow> string list" where
  "shared_loop d keep face pure excluded =
     (let names = face_names d pure (face @ excluded) in
      if names = [] then excluded
      else (let newly = newly_shared d keep excluded names in
        if newly = [] then excluded
        else (let downstream = walk_downstream (dependency_children d) newly in
          shared_loop d keep face pure (excluded @ filter (\<lambda>k. k \<notin> set excluded
            \<and> (k \<in> set newly \<or> k \<in> set downstream)) keep))))"
  by pat_completeness auto
termination
proof (relation "measure (\<lambda>(d, keep, face, pure, excluded). card (set keep - set excluded))", goal_cases)
  case 1
  show ?case by simp
next
  case (2 d keep face pure excluded names newly downstream)
  then have "newly \<noteq> []" by simp
  then obtain k where "k \<in> set newly" by (meson list.set_sel(1))
  with 2 have k: "k \<in> set keep" "k \<notin> set excluded" "k \<in> set newly" by (auto simp: newly_shared_def)
  let ?ex = "excluded @ filter (\<lambda>k. k \<notin> set excluded \<and> (k \<in> set newly \<or> k \<in> set downstream)) keep"
  have "set keep - set ?ex \<subset> set keep - set excluded" using k by auto
  then show ?case by (simp add: psubset_card_mono)
qed

declare shared_loop.simps [simp del]

definition known_face :: "workflow_definition \<Rightarrow> string list \<Rightarrow> 'a \<Rightarrow> closure_error + 'a" where
  "known_face d face r =
     (case filter (\<lambda>k. k \<notin> set (node_keys d)) face of [] \<Rightarrow> Inr r | k # _ \<Rightarrow> Inl (UnknownKey k))"

text \<open>\<open>shared_name_rerun_closure\<close> (upgrade) and \<open>shared_name_expanded_reset\<close> (rerun, run-to).\<close>

definition shared_name_rerun_closure :: "workflow_definition \<Rightarrow> string list \<Rightarrow> string list \<Rightarrow> closure_error + string list" where
  "shared_name_rerun_closure d keep face = known_face d face (shared_loop d keep face False [])"

definition shared_name_expanded_reset :: "workflow_definition \<Rightarrow> string list \<Rightarrow> closure_error + string list" where
  "shared_name_expanded_reset d reset =
     (let keep = filter (\<lambda>k. k \<notin> set reset) (keys (executable_nodes d)) in
      known_face d reset (reset @ shared_loop d keep reset True []))"

definition rerun_reset_closure :: "workflow_definition \<Rightarrow> string list \<Rightarrow> closure_error + string list" where
  "rerun_reset_closure d seeds =
     shared_name_expanded_reset d (dedup (seeds @ concat (map (dependency_downstream d) seeds)))"

definition run_to_reset_nodes :: "workflow_definition \<Rightarrow> string list \<Rightarrow> statuses \<Rightarrow> closure_error + string list" where
  "run_to_reset_nodes d closure current =
     bindE (shared_name_expanded_reset d (filter (\<lambda>k. dget current k \<noteq> Some ''completed'') closure))
       (\<lambda>r. Inr (sort r))"

section \<open>Revision differences\<close>

definition all_outputs :: "workflow_definition \<Rightarrow> string list" where
  "all_outputs d = concat (map (\<lambda>(k, n). n_outputs n) (d_nodes d))"

definition dropped_artifact_names :: "workflow_definition \<Rightarrow> workflow_definition \<Rightarrow> string list" where
  "dropped_artifact_names new old =
     dedup (filter (\<lambda>x. x \<notin> set (all_outputs new) \<and> x \<notin> set (keys (artifact_consumption_index new))) (all_outputs old))"

definition removed_node_keys :: "workflow_definition \<Rightarrow> workflow_definition \<Rightarrow> string list" where
  "removed_node_keys new old =
     sort (dedup (filter (\<lambda>k. k \<notin> set (keys (executable_nodes new))) (keys (executable_nodes old))))"

section \<open>What the fixpoint computes\<close>

text \<open>Node \<open>k\<close> writes a name that triggers in the set \<open>S\<close>.\<close>

definition shares_name :: "workflow_definition \<Rightarrow> bool \<Rightarrow> string set \<Rightarrow> string \<Rightarrow> bool" where
  "shares_name d pure S k \<longleftrightarrow> (\<exists>x \<in> set (outputs_of d k). \<exists>f \<in> S. x \<in> set (trigger_names d pure f))"

lemma set_newly_shared:
  "set (newly_shared d keep excluded (face_names d pure face)) =
    {k \<in> set keep. k \<notin> set excluded \<and> shares_name d pure (set face) k}"
  by (auto simp: newly_shared_def face_names_def shares_name_def list_ex_iff)

lemma shares_name_mono: "shares_name d pure S k \<Longrightarrow> S \<subseteq> T \<Longrightarrow> shares_name d pure T k"
  by (auto simp: shares_name_def)

lemma shared_loop_keep: "set excluded \<subseteq> set keep \<Longrightarrow> set (shared_loop d keep face pure excluded) \<subseteq> set keep"
proof (induction d keep face pure excluded rule: shared_loop.induct)
  case (1 d keep face pure excluded)
  show ?case
    by (subst shared_loop.simps) (use 1 in \<open>auto simp: Let_def\<close>)
qed

lemma shared_loop_grows: "set excluded \<subseteq> set (shared_loop d keep face pure excluded)"
proof (induction d keep face pure excluded rule: shared_loop.induct)
  case (1 d keep face pure excluded)
  let ?r = "shared_loop d keep face pure excluded"
  define names where "names = face_names d pure (face @ excluded)"
  define newly where "newly = newly_shared d keep excluded names"
  show ?case
  proof (cases "names = [] \<or> newly = []")
    case True
    then show ?thesis by (subst shared_loop.simps) (auto simp: Let_def names_def newly_def)
  next
    case False
    from 1 [OF names_def _ newly_def _ refl] False show ?thesis
      by (subst shared_loop.simps) (auto simp: Let_def names_def newly_def)
  qed
qed

lemma face_names_Nil: "face_names d pure face = [] \<Longrightarrow> \<not> shares_name d pure (set face) k"
  by (auto simp: face_names_def shares_name_def)

lemma shared_loop_names:
  "k \<in> set keep \<Longrightarrow> shares_name d pure (set face \<union> set (shared_loop d keep face pure excluded)) k \<Longrightarrow>
    k \<in> set (shared_loop d keep face pure excluded)"
proof (induction d keep face pure excluded rule: shared_loop.induct)
  case (1 d keep face pure excluded)
  define names where "names = face_names d pure (face @ excluded)"
  define newly where "newly = newly_shared d keep excluded names"
  show ?case
  proof (cases "names = [] \<or> newly = []")
    case True
    then have r: "shared_loop d keep face pure excluded = excluded"
      by (subst shared_loop.simps) (auto simp: Let_def names_def newly_def)
    show ?thesis
    proof (cases "names = []")
      case names: True
      then have "\<not> shares_name d pure (set (face @ excluded)) k"
        unfolding names_def by (rule face_names_Nil)
      with 1(3) r show ?thesis by simp
    next
      case False
      with True have "newly = []" by simp
      then have "k \<notin> {k \<in> set keep. k \<notin> set excluded \<and> shares_name d pure (set (face @ excluded)) k}"
        unfolding newly_def names_def using set_newly_shared [of d keep excluded pure "face @ excluded"]
        by (metis empty_iff empty_set)
      with 1(2,3) r show ?thesis by simp
    qed
  next
    case False
    let ?ex = "excluded @ filter (\<lambda>k. k \<notin> set excluded \<and> (k \<in> set newly \<or>
        k \<in> set (walk_downstream (dependency_children d) newly))) keep"
    have r: "shared_loop d keep face pure excluded = shared_loop d keep face pure ?ex"
      by (subst shared_loop.simps) (use False in \<open>simp add: Let_def names_def newly_def\<close>)
    from 1(1) [OF names_def _ newly_def _ refl 1(2)] False 1(3) show ?thesis unfolding r by blast
  qed
qed

text \<open>What is pulled in drags its kept dependents along.\<close>

lemma shared_loop_downstream:
  assumes "wf_shape d"
  shows "\<forall>x \<in> set excluded. \<forall>y \<in> set keep. (x, y) \<in> (merged_graph d)\<^sup>+ \<longrightarrow> y \<in> set excluded \<Longrightarrow>
    x \<in> set (shared_loop d keep face pure excluded) \<Longrightarrow> y \<in> set keep \<Longrightarrow> (x, y) \<in> (merged_graph d)\<^sup>+ \<Longrightarrow>
    y \<in> set (shared_loop d keep face pure excluded)"
  using assms
proof (induction d keep face pure excluded rule: shared_loop.induct)
  case (1 d keep face pure excluded)
  define names where "names = face_names d pure (face @ excluded)"
  define newly where "newly = newly_shared d keep excluded names"
  show ?case
  proof (cases "names = [] \<or> newly = []")
    case True
    then have r: "shared_loop d keep face pure excluded = excluded"
      by (subst shared_loop.simps) (auto simp: Let_def names_def newly_def)
    with 1(2-5) show ?thesis by simp
  next
    case False
    let ?ex = "excluded @ filter (\<lambda>k. k \<notin> set excluded \<and> (k \<in> set newly \<or>
        k \<in> set (walk_downstream (dependency_children d) newly))) keep"
    have r: "shared_loop d keep face pure excluded = shared_loop d keep face pure ?ex"
      by (subst shared_loop.simps) (use False in \<open>simp add: Let_def names_def newly_def\<close>)
    have w: "set (walk_downstream (dependency_children d) newly) = (merged_graph d)\<^sup>+ `` set newly"
      by (simp add: set_walk_downstream edge_rel_children [OF 1(6)])
    have closed: "\<forall>x \<in> set ?ex. \<forall>y \<in> set keep. (x, y) \<in> (merged_graph d)\<^sup>+ \<longrightarrow> y \<in> set ?ex"
    proof (intro ballI impI)
      fix x y
      assume x: "x \<in> set ?ex" and y: "y \<in> set keep" and p: "(x, y) \<in> (merged_graph d)\<^sup>+"
      consider "x \<in> set excluded" | "x \<in> set newly" | "x \<in> (merged_graph d)\<^sup>+ `` set newly"
        using x w by auto
      then show "y \<in> set ?ex"
      proof cases
        case 1
        with \<open>\<forall>x \<in> set excluded. \<forall>y \<in> set keep. (x, y) \<in> (merged_graph d)\<^sup>+ \<longrightarrow> y \<in> set excluded\<close> y p
        show ?thesis by simp
      next
        case 2
        with p y w show ?thesis by auto
      next
        case 3
        with p have "y \<in> (merged_graph d)\<^sup>+ `` set newly" by (auto intro: trancl_trans)
        with y w show ?thesis by auto
      qed
    qed
    from 1(1) [OF names_def _ newly_def _ refl closed _ 1(4,5,6)] False 1(3) show ?thesis unfolding r by blast
  qed
qed

lemma known_face_Inr: "known_face d face r = Inr x \<longleftrightarrow> set face \<subseteq> set (node_keys d) \<and> x = r"
  by (auto simp: known_face_def filter_empty_conv split: list.splits)
    (metis filter_empty_conv list.distinct(1) subset_code(1))+

lemma rerun_reset_closure_spec:
  assumes wf: "wf_shape d" and r: "rerun_reset_closure d seeds = Inr S"
  shows "set seeds \<subseteq> set S"
    and "x \<in> set S \<Longrightarrow> (x, y) \<in> merged_graph d \<Longrightarrow> y \<in> set (keys (executable_nodes d)) \<Longrightarrow> y \<in> set S"
    and "k \<in> set (keys (executable_nodes d)) \<Longrightarrow> shares_name d True (set S) k \<Longrightarrow> k \<in> set S"
proof -
  define face where "face = dedup (seeds @ concat (map (dependency_downstream d) seeds))"
  define keep where "keep = filter (\<lambda>k. k \<notin> set face) (keys (executable_nodes d))"
  define R where "R = shared_loop d keep face True []"
  have S: "set S = set face \<union> set R"
    using r by (auto simp: rerun_reset_closure_def shared_name_expanded_reset_def Let_def known_face_Inr
        face_def keep_def R_def)
  have face: "set face = set seeds \<union> (merged_graph d)\<^sup>+ `` set seeds"
    by (auto simp: face_def set_dependency_downstream [OF wf])
  show "set seeds \<subseteq> set S" using S face by auto
  show "y \<in> set S" if x: "x \<in> set S" and e: "(x, y) \<in> merged_graph d" and y: "y \<in> set (keys (executable_nodes d))"
  proof (cases "y \<in> set face")
    case False
    then have "y \<in> set keep" using y by (simp add: keep_def)
    moreover have "x \<notin> set face" using False face e by (auto intro: trancl_into_trancl)
    ultimately show ?thesis
      using shared_loop_downstream [OF wf, of "[]" keep x face True y] x S e by (auto simp: R_def)
  qed (use S in simp)
  show "k \<in> set S" if "k \<in> set (keys (executable_nodes d))" and "shares_name d True (set S) k"
    using shared_loop_names [of k keep d True face "[]"] that S by (auto simp: keep_def R_def)
qed

section \<open>The closure as a least fixpoint\<close>

text \<open>
  What a rerun of \<open>seeds\<close> has to reset: the seeds, whatever depends on a reset node, and every
  executable node that writes a name which a reset node writes and does not read itself.
\<close>

inductive_set must_reset :: "workflow_definition \<Rightarrow> string list \<Rightarrow> string set"
  for d :: workflow_definition and seeds :: "string list" where
  seed: "k \<in> set seeds \<Longrightarrow> k \<in> must_reset d seeds"
| dependent: "x \<in> must_reset d seeds \<Longrightarrow> (x, y) \<in> merged_graph d \<Longrightarrow> y \<in> must_reset d seeds"
| sharing: "f \<in> must_reset d seeds \<Longrightarrow> x \<in> set (trigger_names d True f) \<Longrightarrow> x \<in> set (outputs_of d k) \<Longrightarrow>
    k \<in> set (keys (executable_nodes d)) \<Longrightarrow> k \<in> must_reset d seeds"

text \<open>No dependency leads back into a start node.\<close>

definition start_isolated :: "workflow_definition \<Rightarrow> bool" where
  "start_isolated d \<longleftrightarrow> (\<forall>(x, y) \<in> merged_graph d. y \<in> set (keys (executable_nodes d)))"

lemma trancl_closed: "(x, y) \<in> R\<^sup>+ \<Longrightarrow> x \<in> T \<Longrightarrow> R `` T \<subseteq> T \<Longrightarrow> y \<in> T"
  by (induction rule: trancl_induct) auto

lemma trancl_image_closed: "R `` T \<subseteq> T \<Longrightarrow> S \<subseteq> T \<Longrightarrow> R\<^sup>+ `` S \<subseteq> T"
  using trancl_closed [of _ _ R T] by (auto simp only: subset_eq Image_iff Bex_def)

lemma shared_loop_least:
  assumes "wf_shape d"
  shows "set face \<subseteq> T \<Longrightarrow> set excluded \<subseteq> T \<Longrightarrow> merged_graph d `` T \<subseteq> T \<Longrightarrow>
    (\<And>k. k \<in> set keep \<Longrightarrow> shares_name d pure T k \<Longrightarrow> k \<in> T) \<Longrightarrow>
    set (shared_loop d keep face pure excluded) \<subseteq> T"
  using assms
proof (induction d keep face pure excluded rule: shared_loop.induct)
  case (1 d keep face pure excluded)
  define names where "names = face_names d pure (face @ excluded)"
  define newly where "newly = newly_shared d keep excluded names"
  show ?case
  proof (cases "names = [] \<or> newly = []")
    case True
    then have "shared_loop d keep face pure excluded = excluded"
      by (subst shared_loop.simps) (auto simp: Let_def names_def newly_def)
    with 1(3) show ?thesis by simp
  next
    case False
    let ?ex = "excluded @ filter (\<lambda>k. k \<notin> set excluded \<and> (k \<in> set newly \<or>
        k \<in> set (walk_downstream (dependency_children d) newly))) keep"
    have r: "shared_loop d keep face pure excluded = shared_loop d keep face pure ?ex"
      by (subst shared_loop.simps) (use False in \<open>simp add: Let_def names_def newly_def\<close>)
    have w: "set (walk_downstream (dependency_children d) newly) = (merged_graph d)\<^sup>+ `` set newly"
      by (simp add: set_walk_downstream edge_rel_children [OF 1(6)])
    have "shares_name d pure T k" if "k \<in> set newly" for k
      using that set_newly_shared [of d keep excluded pure "face @ excluded"] 1(2,3)
      by (intro shares_name_mono [of d pure "set (face @ excluded)" k T]) (auto simp: newly_def names_def)
    then have n: "set newly \<subseteq> T" using 1(5) by (auto simp: newly_def newly_shared_def)
    then have "(merged_graph d)\<^sup>+ `` set newly \<subseteq> T" by (rule trancl_image_closed [OF 1(4)])
    then have ex: "set ?ex \<subseteq> T" using n w 1(3) by auto
    have h: "names \<noteq> []" "newly \<noteq> []" using False by simp_all
    show ?thesis
      unfolding r by (rule 1(1) [OF names_def h(1) newly_def h(2) refl 1(2) ex 1(4) _ 1(6)]) (rule 1(5))
  qed
qed

lemma shares_name_must_reset:
  "shares_name d True (must_reset d seeds) k \<Longrightarrow> k \<in> set (keys (executable_nodes d)) \<Longrightarrow> k \<in> must_reset d seeds"
  by (auto simp: shares_name_def intro: must_reset.sharing)

lemma rerun_reset_closure_least:
  assumes wf: "wf_shape d" and r: "rerun_reset_closure d seeds = Inr S"
  shows "set S \<subseteq> must_reset d seeds"
proof -
  have closed: "merged_graph d `` must_reset d seeds \<subseteq> must_reset d seeds" by (auto intro: must_reset.dependent)
  define face where "face = dedup (seeds @ concat (map (dependency_downstream d) seeds))"
  have seeds: "set seeds \<subseteq> must_reset d seeds" by (auto intro: must_reset.seed)
  then have down: "(merged_graph d)\<^sup>+ `` set seeds \<subseteq> must_reset d seeds" by (rule trancl_image_closed [OF closed])
  have "set face = set seeds \<union> (merged_graph d)\<^sup>+ `` set seeds"
    by (auto simp: face_def set_dependency_downstream [OF wf])
  with seeds down have face: "set face \<subseteq> must_reset d seeds" by simp
  have "set (shared_loop d (filter (\<lambda>k. k \<notin> set face) (keys (executable_nodes d))) face True []) \<subseteq> must_reset d seeds"
    by (rule shared_loop_least [OF wf face _ closed]) (auto intro: shares_name_must_reset)
  with face r show ?thesis
    by (auto simp: rerun_reset_closure_def shared_name_expanded_reset_def Let_def known_face_Inr face_def)
qed

lemma rerun_reset_closure_exact:
  assumes wf: "wf_shape d" and iso: "start_isolated d" and r: "rerun_reset_closure d seeds = Inr S"
  shows "set S = must_reset d seeds"
proof
  show "set S \<subseteq> must_reset d seeds" by (rule rerun_reset_closure_least [OF wf r])
  show "must_reset d seeds \<subseteq> set S"
  proof
    fix k
    assume "k \<in> must_reset d seeds"
    then show "k \<in> set S"
    proof induction
      case (seed k)
      with rerun_reset_closure_spec(1) [OF wf r] show ?case by auto
    next
      case (dependent x y)
      then have "y \<in> set (keys (executable_nodes d))" using iso by (auto simp: start_isolated_def)
      with dependent rerun_reset_closure_spec(2) [OF wf r] show ?case by blast
    next
      case (sharing f x k)
      then have "shares_name d True (set S) k" by (auto simp: shares_name_def)
      with sharing rerun_reset_closure_spec(3) [OF wf r] show ?case by blast
    qed
  qed
qed

end
