(* ===== verification/Definition_Properties.thy ===== *)
theory Definition_Properties
  imports Loader_Correct Definition_Check Reset_Closure
begin

text \<open>
  What the workflow loader and the graph walks promise: every document that loads is well formed,
  and the walks compute reachability in the graphs they name. A small document and a small
  branching definition serve as the concrete inputs.
\<close>

section \<open>Sample inputs\<close>

definition sample_node :: "string \<Rightarrow> string list \<Rightarrow> string list \<Rightarrow> string list \<Rightarrow> pyval \<times> pyval" where
  "sample_node k ins outs after =
     (PStr k, PDict [(PStr ''type'', PStr ''code''), (PStr ''label'', PStr k), (PStr ''capability'', PStr ''run''),
        (PStr ''inputs'', PList (map PStr ins)), (PStr ''outputs'', PList (map PStr outs)),
        (PStr ''after'', PList (map PStr after))])"

definition sample_document :: pydict where
  "sample_document = [(PStr ''key'', PStr ''demo''), (PStr ''label'', PStr ''Demo''),
     (PStr ''nodes'', PDict [sample_node ''a'' [] [''x''] [], sample_node ''b'' [''x''] [''y''] [''a''],
        sample_node ''c'' [''y''] [] [''b'']])]"

lemma sample_loads: "\<exists>d. definition_from_mapping sample_document = Inr d"
proof -
  have "case definition_from_mapping sample_document of Inr d \<Rightarrow> True | Inl _ \<Rightarrow> False" by code_simp
  then show ?thesis by (cases "definition_from_mapping sample_document") auto
qed

text \<open>
  Two verdict branches that write the same report: \<open>score\<close> feeds \<open>good\<close> or \<open>bad\<close>, and
  \<open>publish\<close> reads what either of them wrote. The condition of the branches is a parameter.
\<close>

definition flow_node :: "string \<Rightarrow> string list \<Rightarrow> string list \<Rightarrow> string \<times> workflow_node" where
  "flow_node k ins outs = (k, (mk_node k k ''run'')\<lparr>n_inputs := ins, n_outputs := outs\<rparr>)"

definition flow_edge :: "string \<Rightarrow> string \<Rightarrow> workflow_condition option \<Rightarrow> workflow_edge" where
  "flow_edge s t c = \<lparr>e_source = s, e_target = t, e_condition = c\<rparr>"

definition sample_flow :: "workflow_condition option \<Rightarrow> workflow_condition option \<Rightarrow> workflow_definition" where
  "sample_flow c1 c2 = mk_definition ''flow'' ''Flow'' []
     [(''_start'', (mk_node ''_start'' ''Start'' [])\<lparr>n_type := ''start''\<rparr>), flow_node ''score'' [] [''verdict''],
      flow_node ''good'' [] [''report''], flow_node ''bad'' [] [''report''], flow_node ''publish'' [''report''] []]
     [flow_edge ''_start'' ''score'' None, flow_edge ''score'' ''good'' c1, flow_edge ''score'' ''bad'' c2,
      flow_edge ''good'' ''publish'' None] 1 empty_execution"

definition verdict_is :: "bool \<Rightarrow> workflow_condition option" where
  "verdict_is b = Some \<lparr>c_artifact = ''verdict'', c_path = ''$.ok'', c_equals = PBool b\<rparr>"

lemmas sample_flow_defs = sample_flow_def flow_node_def flow_edge_def mk_definition_def mk_node_def

lemma sample_flow_shape: "wf_shape (sample_flow c1 c2)"
  by (simp add: wf_shape_def node_keys_def sample_flow_defs keys_def)

text \<open>A rank that grows along every edge of a relation shows that it has no cycle.\<close>

lemma acyclic_rank: 
  fixes f :: "'a \<Rightarrow> nat"
  assumes "\<And>x y. (x, y) \<in> R \<Longrightarrow> f x < f y"
  shows "acyclic R"
proof -
  have "R \<subseteq> measure f" using assms by auto
  then show ?thesis by (metis acyclic_subset wf_acyclic wf_measure)
qed

section \<open>The loader\<close>

text \<open>
  C1. Whatever untyped mapping is given to the loader, a definition that comes out is well
  formed: distinct non-empty node keys, valid types and per-type fields, existing dependencies
  and edge ends, an acyclic explicit graph, exactly one start node without incoming edges and
  with unconditional outgoing ones, and approval gates that some real node feeds.
\<close>

theorem loaded_definition_wf:
  assumes "definition_from_mapping raw = Inr d"
  shows "wf_definition d"
  by (rule definition_from_mapping_wf [OF assms])

theorem loaded_definition_wf_witness:
  "\<exists>d. definition_from_mapping sample_document = Inr d \<and> wf_definition d"
  using sample_loads loaded_definition_wf by blast

text \<open>
  C2. The cycle check of the loader is exact: over declared nodes it passes if and only if the
  explicit graph has no cycle.
\<close>

theorem cycle_check_exact:
  assumes "\<forall>e \<in> set edges. e_source e \<in> set (keys nodes) \<and> e_target e \<in> set (keys nodes)"
  shows "validate_acyclic nodes edges = Inr () \<longleftrightarrow> acyclic ((\<lambda>e. (e_source e, e_target e)) ` set edges)"
  by (rule validate_acyclic_iff [OF assms])

theorem cycle_check_exact_witness:
  "\<not> acyclic ((\<lambda>e. (e_source e, e_target e)) ` set [plain_edge ''a'' ''b'', plain_edge ''b'' ''a''])"
proof -
  let ?ns = "[flow_node ''a'' [] [], flow_node ''b'' [] []]" and ?es = "[plain_edge ''a'' ''b'', plain_edge ''b'' ''a'']"
  have h: "\<forall>e \<in> set ?es. e_source e \<in> set (keys ?ns) \<and> e_target e \<in> set (keys ?ns)" by code_simp
  have "validate_acyclic ?ns ?es \<noteq> Inr ()" by code_simp
  with cycle_check_exact [OF h] show ?thesis by simp
qed

text \<open>The key invented for an implicit start node never collides with a declared node.\<close>

theorem injected_start_key_fresh: "fresh_start_key nodes \<notin> set (keys nodes)"
  by (rule fresh_start_key_fresh)

section \<open>The dependency walks\<close>

text \<open>
  C3. The downstream and ancestor walks are exactly reachability in the merged graph (explicit
  edges together with producer to consumer links), in one step or more, without duplicates.
\<close>

theorem dependency_walks_exact:
  assumes "wf_shape d"
  shows "set (dependency_downstream d k) = (merged_graph d)\<^sup>+ `` {k}
    \<and> set (dependency_ancestors d k) = ((merged_graph d)\<inverse>)\<^sup>+ `` {k}"
  by (simp add: set_dependency_downstream [OF assms] set_dependency_ancestors [OF assms])

theorem dependency_walks_exact_witness:
  "set (dependency_downstream (sample_flow None None) ''score'') = (merged_graph (sample_flow None None))\<^sup>+ `` {''score''}
    \<and> set (dependency_downstream (sample_flow None None) ''score'') = {''good'', ''bad'', ''publish''}"
proof -
  have "set (dependency_downstream (sample_flow None None) ''score'') = {''good'', ''bad'', ''publish''}" by code_simp
  then show ?thesis using dependency_walks_exact [OF sample_flow_shape, of None None "''score''"] by simp
qed

text \<open>
  The execution scope of a run-to request is exactly the target with its explicit ancestors,
  and it exists for every declared target.
\<close>

theorem run_to_scope_exact:
  assumes "wf_shape d" and "t \<in> set (node_keys d)"
  shows "\<exists>cl. ancestor_closure d t = Inr cl \<and> set cl = ((edge_graph d)\<inverse>)\<^sup>* `` {t}"
proof -
  from assms(2) obtain cl where "ancestor_closure d t = Inr cl" by (auto simp: ancestor_closure_def)
  with set_ancestor_closure [OF assms(1)] show ?thesis by blast
qed

theorem run_to_scope_exact_witness:
  "\<exists>cl. ancestor_closure (sample_flow None None) ''good'' = Inr cl
     \<and> set cl = ((edge_graph (sample_flow None None))\<inverse>)\<^sup>* `` {''good''}"
  by (rule run_to_scope_exact [OF sample_flow_shape]) code_simp

section \<open>Branches and readiness\<close>

text \<open>
  C4. Branch evaluation switches off exactly the nodes that some completed branching source cuts
  off (reachable from an unselected target of it and from no selected one), unless a branch
  whose condition is still being produced may yet reach them.
\<close>

theorem branch_evaluation_exact:
  fixes d :: workflow_definition and st :: statuses
  assumes "wf_shape d" and "st' = effective_node_statuses d st"
  shows "k \<in> set (evaluate_branches d st dir) \<longleftrightarrow>
    (\<exists>s. branching_source d st' s
        \<and> k \<in> (edge_graph d)\<^sup>* `` (decided_targets d st' s - selected_targets d st' dir s)
        \<and> k \<notin> (edge_graph d)\<^sup>* `` selected_targets d st' dir s)
    \<and> \<not> (\<exists>s. branching_source d st' s \<and> k \<in> (merged_graph d)\<^sup>* `` deferred_targets d st' s)"
  unfolding assms(2) by (rule evaluate_branches_iff [OF assms(1)])

definition verdict_dir :: job_dir where
  "verdict_dir name = (if name = ''verdict'' then Some (JsonFile (PDict [(PStr ''ok'', PBool True)])) else None)"

definition scored :: statuses where
  "scored = [(''score'', ''completed''), (''good'', ''pending''), (''bad'', ''pending''), (''publish'', ''pending'')]"

theorem branch_evaluation_exact_witness:
  "set (evaluate_branches (sample_flow (verdict_is True) (verdict_is False)) scored verdict_dir) = {''bad''}
    \<and> \<not> (\<exists>s. branching_source (sample_flow (verdict_is True) (verdict_is False))
           (effective_node_statuses (sample_flow (verdict_is True) (verdict_is False)) scored) s
        \<and> ''bad'' \<in> (merged_graph (sample_flow (verdict_is True) (verdict_is False)))\<^sup>* ``
            deferred_targets (sample_flow (verdict_is True) (verdict_is False))
              (effective_node_statuses (sample_flow (verdict_is True) (verdict_is False)) scored) s)"
proof -
  have e: "set (evaluate_branches (sample_flow (verdict_is True) (verdict_is False)) scored verdict_dir) = {''bad''}"
    by code_simp
  then show ?thesis
    using branch_evaluation_exact [OF sample_flow_shape refl, of "''bad''" "verdict_is True" "verdict_is False" scored verdict_dir]
    by simp
qed

text \<open>
  C5. Two nodes that are ready together never stand in a producer/consumer relation over a
  declared artifact, so the scheduler may run them side by side.
\<close>

theorem ready_nodes_race_free:
  assumes "wf_shape d" and "n \<in> set (find_ready_nodes d st dir)"
    and "m \<in> set (find_ready_nodes d st dir)" and "n \<noteq> m"
  shows "set (n_outputs n) \<inter> set (n_inputs m) = {}"
  by (rule ready_race_free [OF assms])

theorem ready_nodes_race_free_witness:
  "\<exists>n m. n \<in> set (find_ready_nodes (sample_flow None None) scored verdict_dir)
     \<and> m \<in> set (find_ready_nodes (sample_flow None None) scored verdict_dir) \<and> n \<noteq> m
     \<and> set (n_outputs n) \<inter> set (n_inputs m) = {}"
proof -
  let ?n = "snd (flow_node ''good'' [] [''report''])" and ?m = "snd (flow_node ''bad'' [] [''report''])"
  have r: "?n \<in> set (find_ready_nodes (sample_flow None None) scored verdict_dir)"
    "?m \<in> set (find_ready_nodes (sample_flow None None) scored verdict_dir)" "?n \<noteq> ?m"
    by code_simp+
  from r ready_nodes_race_free [OF sample_flow_shape r] show ?thesis by blast
qed

text \<open>
  C6. Progress: in a definition with unconditional edges and an acyclic merged graph, a job with
  unfinished nodes in which nothing runs, failed or is parked always has a ready node, when the
  inputs that no unfinished node produces are there.
\<close>

theorem scheduler_progress:
  assumes "wf_shape d" and "acyclic (merged_graph d)" and "\<forall>e \<in> set (d_edges d). e_condition e = None"
    and "settled d st"
    and "\<exists>k \<in> set (node_keys d). dget_default ''pending'' (effective_node_statuses d st) k \<noteq> ''completed''"
    and "\<forall>(k, n) \<in> set (d_nodes d). \<forall>name \<in> set (n_inputs n). dir name \<noteq> None
      \<or> (\<exists>p. produces d p name \<and> p \<noteq> k \<and> dget_default ''pending'' (effective_node_statuses d st) p \<noteq> ''completed'')"
  shows "find_ready_nodes d st dir \<noteq> []"
  by (rule ready_progress [OF assms])

definition flow_rank :: "string \<Rightarrow> nat" where
  "flow_rank k = (if k = ''_start'' then 0 else if k = ''score'' then 1 else if k = ''publish'' then 3 else 2)"

lemma sample_flow_merged:
  assumes "(x, y) \<in> merged_graph (sample_flow None None)"
  shows "list_all (\<lambda>(x, ys). list_all (\<lambda>y. P x y) ys) (dependency_children (sample_flow None None)) \<Longrightarrow> P x y"
proof -
  from assms have "y \<in> set (succs (dependency_children (sample_flow None None)) x)"
    by (simp flip: edge_rel_children [OF sample_flow_shape])
  from in_items_succs [OF this] obtain vs where "(x, vs) \<in> set (dependency_children (sample_flow None None))" "y \<in> set vs"
    by blast
  then show "list_all (\<lambda>(x, ys). list_all (\<lambda>y. P x y) ys) (dependency_children (sample_flow None None)) \<Longrightarrow> P x y"
    unfolding list_all_iff by fast
qed

lemma sample_flow_acyclic: "acyclic (merged_graph (sample_flow None None))"
  by (rule acyclic_rank [where f = flow_rank], erule sample_flow_merged) code_simp

lemma sample_flow_isolated: "start_isolated (sample_flow None None)"
proof -
  have "y \<in> set (keys (executable_nodes (sample_flow None None)))" if "(x, y) \<in> merged_graph (sample_flow None None)" for x y
    using that by (rule sample_flow_merged) code_simp
  then show ?thesis by (auto simp: start_isolated_def)
qed

theorem scheduler_progress_witness: "find_ready_nodes (sample_flow None None) [] verdict_dir \<noteq> []"
proof (rule scheduler_progress [OF sample_flow_shape sample_flow_acyclic])
  show "\<forall>e \<in> set (d_edges (sample_flow None None)). e_condition e = None" by (simp add: sample_flow_defs)
  show "settled (sample_flow None None) []" by code_simp
  show "\<exists>k \<in> set (node_keys (sample_flow None None)).
      dget_default ''pending'' (effective_node_statuses (sample_flow None None) []) k \<noteq> ''completed''" by code_simp
  have "produces (sample_flow None None) ''good'' ''report''" by (simp add: produces_def sample_flow_defs)
  moreover have "dget_default ''pending'' (effective_node_statuses (sample_flow None None) []) ''good'' \<noteq> ''completed''"
    by code_simp
  ultimately show "\<forall>(k, n) \<in> set (d_nodes (sample_flow None None)). \<forall>name \<in> set (n_inputs n). verdict_dir name \<noteq> None
      \<or> (\<exists>p. produces (sample_flow None None) p name \<and> p \<noteq> k
        \<and> dget_default ''pending'' (effective_node_statuses (sample_flow None None) []) p \<noteq> ''completed'')"
    by (auto simp: sample_flow_defs)
qed

section \<open>Rerun closure\<close>

text \<open>
  C7. The set a rerun resets is exactly the least one that holds the seeds and is closed under
  dependents and under sharing an artifact name with a reset producer.
\<close>

theorem rerun_closure_exact:
  assumes "wf_shape d" and "start_isolated d" and "rerun_reset_closure d seeds = Inr S"
  shows "set S = must_reset d seeds"
  by (rule rerun_reset_closure_exact [OF assms])

theorem rerun_closure_exact_witness: "must_reset (sample_flow None None) [''good''] = {''good'', ''bad'', ''publish''}"
proof -
  have e: "rerun_reset_closure (sample_flow None None) [''good''] = Inr [''good'', ''publish'', ''bad'']" by code_simp
  from rerun_closure_exact [OF sample_flow_shape sample_flow_isolated e] show ?thesis by auto
qed

section \<open>A limit of the snapshot path\<close>

definition broken_snapshot :: pyval where
  "broken_snapshot = PDict [(PStr ''key'', PStr ''demo''), (PStr ''label'', PStr ''Demo''),
     (PStr ''nodes'', PDict [(PStr ''gate'', PDict [(PStr ''type'', PStr ''approval''),
        (PStr ''config_schema'', PDict [(PStr ''properties'', PList [PInt 1])])])])]"

text \<open>
  The snapshot path is documented to fail with a definition error on any malformed payload.
  An approval node whose \<open>config_schema.properties\<close> is a non-empty list escapes with an
  attribute error instead.
\<close>

theorem snapshot_attribute_error: "definition_from_dict broken_snapshot = Inl attribute_error"
  by code_simp

end
