(* ===== verification/Job_Store.thy ===== *)
theory Job_Store
  imports Py_Value
begin

text \<open>
  The database of the scheduler (\<open>server/app/db/postgres_schema.sql\<close>): the columns that the
  lease, sharding and mutation code reads or writes, one record per row, a table as the list of
  its rows. A statement is a function of the table; its \<open>rowcount\<close> is the number of rows its
  \<open>where\<close> clause selects. Timestamps are integers (the fixed-width UTC format of
  \<open>database_timestamp\<close> orders like time). Advisory locks serialise the transactions of one job,
  so a transaction is one function of the database.
\<close>

section \<open>Rows\<close>

record job_row =
  j_id :: string
  j_workspace :: string
  j_status :: string
  j_mode :: string
  j_target :: "string option"
  j_paused :: bool
  j_pause_reason :: string
  j_error :: string
  j_packed :: bool
  j_generation :: int
  j_updated :: int
  j_revision :: string
  j_version :: int
  j_def_hash :: string
  j_snapshot :: string
  j_frozen :: "string option"

record node_row =
  jn_job :: string
  jn_node :: string
  jn_status :: string
  jn_stale_reason :: string
  jn_error :: string
  jn_category :: string
  jn_detail :: string
  jn_started :: "int option"
  jn_finished :: "int option"
  jn_created :: int
  jn_generation :: int

record run_row =
  nr_id :: int
  nr_job :: string
  nr_node :: string
  nr_status :: string
  nr_exit :: "int option"
  nr_error :: string
  nr_category :: string
  nr_detail :: string
  nr_command :: "string list"
  nr_log :: string
  nr_run_dir :: string
  nr_session_dir :: string
  nr_skill_version :: string
  nr_skill :: string
  nr_runner :: string
  nr_config :: string
  nr_definition :: string
  nr_started :: "int option"
  nr_finished :: "int option"
  nr_generation :: int

record lease_row =
  le_id :: string
  le_execution :: string
  le_executor :: string
  le_workspace :: string
  le_job :: string
  le_node :: string
  le_run :: int
  le_status :: string
  le_acquired :: int
  le_heartbeat :: int
  le_expires :: int
  le_generation :: int

record shard_row =
  sd_job :: string
  sd_node :: string
  sd_index :: nat
  sd_status :: string
  sd_input :: string
  sd_output :: string
  sd_error :: string
  sd_execution :: string
  sd_started :: "int option"
  sd_finished :: "int option"

record artifact_row =
  ar_job :: string
  ar_node :: string
  ar_name :: string
  ar_key :: string

text \<open>
  A request of the agent queue (\<open>agent_execution_requests\<close>). Its manifest is the parsed document;
  \<open>rq_trimmed\<close> says that the stored text has been cut to the audit stub, as every terminal write does.
\<close>

record request_row =
  rq_execution :: string
  rq_workspace :: string
  rq_job :: string
  rq_node :: string
  rq_kind :: string
  rq_agent_id :: string
  rq_agent_hash :: string
  rq_audit_limit :: int
  rq_state :: string
  rq_worker :: "string option"
  rq_lease :: "string option"
  rq_run :: "int option"
  rq_attempt :: int
  rq_queued :: int
  rq_claimed :: "int option"
  rq_heartbeat :: "int option"
  rq_finished :: "int option"
  rq_manifest :: pydict
  rq_outcome :: "pydict option"
  rq_trimmed :: bool
  rq_pinned :: "int option"
  rq_generation :: int
  rq_source :: string
  rq_runtime :: "string option"
  rq_labels :: "(string, string) dict option"

record worker_row =
  wk_id :: string
  wk_runtimes :: "string list"
  wk_models :: "pydict list"
  wk_capacity :: int
  wk_code_capacity :: int
  wk_labels :: "(string, string) dict"
  wk_protocol :: int
  wk_allowed :: "string list"
  wk_node_limits :: "(string, int) dict"
  wk_last_seen :: int
  wk_revoked :: "int option"

record db =
  t_jobs :: "job_row list"
  t_nodes :: "node_row list"
  t_runs :: "run_row list"
  t_leases :: "lease_row list"
  t_shards :: "shard_row list"
  t_artifacts :: "artifact_row list"
  t_requests :: "request_row list"
  t_limits :: "((string \<times> string) \<times> int) list"
  t_next_run :: int
  t_workers :: "worker_row list"
  t_agent_caps :: "(string \<times> int) list"

section \<open>Statements\<close>

definition update_where :: "('r \<Rightarrow> bool) \<Rightarrow> ('r \<Rightarrow> 'r) \<Rightarrow> 'r list \<Rightarrow> 'r list" where
  "update_where p f rows = map (\<lambda>r. if p r then f r else r) rows"

definition delete_where :: "('r \<Rightarrow> bool) \<Rightarrow> 'r list \<Rightarrow> 'r list" where
  "delete_where p rows = filter (\<lambda>r. \<not> p r) rows"

definition exists_where :: "('r \<Rightarrow> bool) \<Rightarrow> 'r list \<Rightarrow> bool" where
  "exists_where p rows = list_ex p rows"

definition count_where :: "('r \<Rightarrow> bool) \<Rightarrow> 'r list \<Rightarrow> nat" where
  "count_where p rows = length (filter p rows)"

lemma exists_where_iff [sql_simps]: "exists_where p rows \<longleftrightarrow> (\<exists>r \<in> set rows. p r)"
  by (simp add: exists_where_def list_ex_iff)

lemma count_where_0 [sql_simps]: "count_where p rows = 0 \<longleftrightarrow> (\<forall>r \<in> set rows. \<not> p r)"
  by (simp add: count_where_def filter_empty_conv)

lemma set_update_where [sql_simps]:
  "r \<in> set (update_where p f rows) \<longleftrightarrow> (\<exists>r0 \<in> set rows. r = (if p r0 then f r0 else r0))"
  by (auto simp: update_where_def)

lemma set_delete_where [sql_simps]: "r \<in> set (delete_where p rows) \<longleftrightarrow> r \<in> set rows \<and> \<not> p r"
  by (auto simp: delete_where_def)

lemma update_where_none: "\<forall>r \<in> set rows. \<not> p r \<Longrightarrow> update_where p f rows = rows"
  by (simp add: update_where_def map_idI)

lemma length_update_where [simp, sql_simps]: "length (update_where p f rows) = length rows"
  by (simp add: update_where_def)

lemma map_update_where: "(\<And>r. p r \<Longrightarrow> g (f r) = g r) \<Longrightarrow> map g (update_where p f rows) = map g rows"
  by (simp add: update_where_def)

lemma update_where_cong: "(\<And>r. r \<in> set rows \<Longrightarrow> p r = q r) \<Longrightarrow> update_where p f rows = update_where q f rows"
  by (simp add: update_where_def)

lemma find_update_where:
  "(\<And>r. p r \<Longrightarrow> q (f r) = q r) \<Longrightarrow>
    find q (update_where p f rows) = map_option (\<lambda>r. if p r then f r else r) (find q rows)"
  by (induction rows) (auto simp: update_where_def)

lemma find_update_view:
  "(\<And>r. q (f r) = q r) \<Longrightarrow> (\<And>r. g (f r) = g r) \<Longrightarrow>
    map_option g (find q (update_where p f rows)) = map_option g (find q rows)"
  by (induction rows) (auto simp: update_where_def)

lemma count_update_where_same:
  "(\<And>r. p r \<Longrightarrow> q (f r) = q r) \<Longrightarrow> count_where q (update_where p f rows) = count_where q rows"
  by (induction rows) (auto simp: update_where_def count_where_def)

lemma count_where_append: "count_where p (xs @ ys) = count_where p xs + count_where p ys"
  by (simp add: count_where_def)

lemma count_where_snoc: "count_where p (xs @ [x]) = count_where p xs + (if p x then 1 else 0)"
  by (simp add: count_where_def)

lemma count_where_mono: "(\<And>r. r \<in> set rows \<Longrightarrow> p r \<Longrightarrow> q r) \<Longrightarrow> count_where p rows \<le> count_where q rows"
  by (induction rows) (auto simp: count_where_def)

section \<open>Common reads\<close>

definition job_of :: "db \<Rightarrow> string \<Rightarrow> job_row option" where
  "job_of s job = find (\<lambda>r. j_id r = job) (t_jobs s)"

definition node_of :: "db \<Rightarrow> string \<Rightarrow> string \<Rightarrow> node_row option" where
  "node_of s job node = find (\<lambda>r. jn_job r = job \<and> jn_node r = node) (t_nodes s)"

definition lease_of :: "db \<Rightarrow> string \<Rightarrow> lease_row option" where
  "lease_of s l = find (\<lambda>r. le_id r = l) (t_leases s)"

text \<open>\<open>lock_job_mutation_and_read_generation\<close>: the epoch of the job, \<open>None\<close> when the row is gone.\<close>

definition job_generation :: "db \<Rightarrow> string \<Rightarrow> int option" where
  "job_generation s job = map_option j_generation (job_of s job)"

lemma job_generation_fields [simp]:
  "job_generation (s\<lparr>t_nodes := a\<rparr>) k = job_generation s k" "job_generation (s\<lparr>t_runs := b\<rparr>) k = job_generation s k"
  "job_generation (s\<lparr>t_leases := c\<rparr>) k = job_generation s k" "job_generation (s\<lparr>t_shards := d\<rparr>) k = job_generation s k"
  "job_generation (s\<lparr>t_artifacts := e\<rparr>) k = job_generation s k" "job_generation (s\<lparr>t_requests := f\<rparr>) k = job_generation s k"
  "job_generation (s\<lparr>t_next_run := g\<rparr>) k = job_generation s k" "job_generation (s\<lparr>t_workers := h\<rparr>) k = job_generation s k"
  by (simp_all add: job_generation_def job_of_def)

definition update_job :: "string \<Rightarrow> (job_row \<Rightarrow> job_row) \<Rightarrow> db \<Rightarrow> db" where
  "update_job job f s = s\<lparr>t_jobs := update_where (\<lambda>r. j_id r = job) f (t_jobs s)\<rparr>"

text \<open>\<open>update job_nodes ... where job_id = ... and node_key = ... and status in (...)\<close>.\<close>

definition node_match :: "string \<Rightarrow> string \<Rightarrow> string list \<Rightarrow> node_row \<Rightarrow> bool" where
  "node_match job node statuses r \<longleftrightarrow> jn_job r = job \<and> jn_node r = node \<and> jn_status r \<in> set statuses"

definition update_nodes :: "(node_row \<Rightarrow> bool) \<Rightarrow> (node_row \<Rightarrow> node_row) \<Rightarrow> db \<Rightarrow> db" where
  "update_nodes p f s = s\<lparr>t_nodes := update_where p f (t_nodes s)\<rparr>"

definition queueable :: "string list" where
  "queueable = [''pending'', ''ready'', ''stale'']"

definition runnable_or_running :: "string list" where
  "runnable_or_running = [''pending'', ''ready'', ''stale'', ''running'']"

lemma job_of_SomeD: "job_of s job = Some r \<Longrightarrow> r \<in> set (t_jobs s) \<and> j_id r = job"
  by (auto simp: job_of_def find_Some_iff)

lemma node_of_SomeD: "node_of s job node = Some r \<Longrightarrow> r \<in> set (t_nodes s) \<and> jn_job r = job \<and> jn_node r = node"
  by (auto simp: node_of_def find_Some_iff)

lemma lease_of_SomeD: "lease_of s l = Some r \<Longrightarrow> r \<in> set (t_leases s) \<and> le_id r = l"
  by (auto simp: lease_of_def find_Some_iff)

lemma find_update_key:
  "(\<And>r. key (f r) = key r) \<Longrightarrow> find (\<lambda>r. key r = k) (update_where (\<lambda>r. key r = j) f rows)
    = (if k = j then map_option f (find (\<lambda>r. key r = k) rows) else find (\<lambda>r. key r = k) rows)"
  by (induction rows) (auto simp: update_where_def)

lemma job_of_update_job:
  "(\<And>r. j_id (f r) = j_id r) \<Longrightarrow>
    job_of (update_job job f s) k = (if k = job then map_option f (job_of s job) else job_of s k)"
  by (simp add: job_of_def update_job_def find_update_key)

lemma update_job_tables [simp]:
  "t_nodes (update_job job f s) = t_nodes s" "t_runs (update_job job f s) = t_runs s"
  "t_leases (update_job job f s) = t_leases s" "t_shards (update_job job f s) = t_shards s"
  "t_artifacts (update_job job f s) = t_artifacts s" "t_requests (update_job job f s) = t_requests s"
  "t_limits (update_job job f s) = t_limits s" "t_next_run (update_job job f s) = t_next_run s"
  "t_workers (update_job job f s) = t_workers s" "t_agent_caps (update_job job f s) = t_agent_caps s"
  by (simp_all add: update_job_def)

lemma update_nodes_tables [simp]:
  "t_jobs (update_nodes p f s) = t_jobs s" "t_runs (update_nodes p f s) = t_runs s"
  "t_leases (update_nodes p f s) = t_leases s" "t_shards (update_nodes p f s) = t_shards s"
  "t_artifacts (update_nodes p f s) = t_artifacts s" "t_requests (update_nodes p f s) = t_requests s"
  "t_limits (update_nodes p f s) = t_limits s" "t_next_run (update_nodes p f s) = t_next_run s"
  "t_workers (update_nodes p f s) = t_workers s" "t_agent_caps (update_nodes p f s) = t_agent_caps s"
  by (simp_all add: update_nodes_def)

lemma find_cong_eq: "xs = ys \<Longrightarrow> (\<And>x. x \<in> set ys \<Longrightarrow> p x = q x) \<Longrightarrow> find p xs = find q ys"
  by (induction ys arbitrary: xs) auto

end
