(* ===== verification/Sharding.thy ===== *)
theory Sharding
  imports Job_Store Workflow_Schema
begin

text \<open>
  The shard table behind a sharded node (\<open>server/app/workflows/sharding.py\<close>,
  \<open>sharding_finish.py\<close>, \<open>sharding_batch.py\<close>, \<open>sharding_requeue.py\<close>): materialisation, start and
  finish of a shard, the aggregate state of the node, and the resets.
\<close>

section \<open>Statements on the shard table\<close>

definition shard_at :: "string \<Rightarrow> string \<Rightarrow> nat \<Rightarrow> shard_row \<Rightarrow> bool" where
  "shard_at job node i r \<longleftrightarrow> sd_job r = job \<and> sd_node r = node \<and> sd_index r = i"

definition shard_of_node :: "string \<Rightarrow> string \<Rightarrow> shard_row \<Rightarrow> bool" where
  "shard_of_node job node r \<longleftrightarrow> sd_job r = job \<and> sd_node r = node"

definition update_shards :: "(shard_row \<Rightarrow> bool) \<Rightarrow> (shard_row \<Rightarrow> shard_row) \<Rightarrow> db \<Rightarrow> db" where
  "update_shards p f s = s\<lparr>t_shards := update_where p f (t_shards s)\<rparr>"

definition pending_shard :: "string \<Rightarrow> string \<Rightarrow> nat \<Rightarrow> string \<Rightarrow> shard_row" where
  "pending_shard job node i input = \<lparr>sd_job = job, sd_node = node, sd_index = i, sd_status = ''pending'',
     sd_input = input, sd_output = [], sd_error = [], sd_execution = [], sd_started = None, sd_finished = None\<rparr>"

text \<open>\<open>insert ... on conflict (job_id, node_key, shard_index) do nothing\<close>.\<close>

definition insert_shard :: "string \<Rightarrow> string \<Rightarrow> nat \<times> string \<Rightarrow> shard_row list \<Rightarrow> shard_row list" where
  "insert_shard job node item rows =
     (if exists_where (shard_at job node (fst item)) rows then rows
      else rows @ [pending_shard job node (fst item) (snd item)])"

text \<open>\<open>Inl n\<close> is \<open>ShardLimitExceeded\<close> for a fan-out of \<open>n\<close>; inputs are JSON texts.\<close>

definition materialize_shards :: "string \<Rightarrow> string \<Rightarrow> string list \<Rightarrow> int \<Rightarrow> db \<Rightarrow> nat + nat \<times> db" where
  "materialize_shards job node inputs max_shards s =
     guardE (int (length inputs) > max_shards) (length inputs)
       (let s' = s\<lparr>t_shards := fold (insert_shard job node) (enumerate 0 inputs) (t_shards s)\<rparr> in
        Inr (count_where (shard_of_node job node) (t_shards s'), s'))"

text \<open>\<open>None\<close>: the shard is not claimable and nothing was written.\<close>

definition try_start_shard ::
  "string \<Rightarrow> string \<Rightarrow> nat \<Rightarrow> string \<Rightarrow> int \<Rightarrow> int option \<Rightarrow> db \<Rightarrow> db option" where
  "try_start_shard job node i execution now gen s =
     (case node_of s job node of
        None \<Rightarrow> None
      | Some n \<Rightarrow>
          if jn_status n \<notin> set runnable_or_running then None
          else (let p = (\<lambda>r. shard_at job node i r \<and> sd_status r = ''pending'') in
            if count_where p (t_shards s) = 0 then None
            else Some (update_nodes (node_match job node queueable)
                   (\<lambda>r. r\<lparr>jn_status := ''running'', jn_stale_reason := [], jn_error := [],
                        jn_started := Some now, jn_finished := None,
                        jn_generation := (case gen of None \<Rightarrow> jn_generation r | Some g \<Rightarrow> g)\<rparr>)
                   (update_shards p (\<lambda>r. r\<lparr>sd_status := ''running'', sd_execution := execution,
                        sd_started := Some now, sd_error := [], sd_finished := None\<rparr>) s))))"

definition shard_index_for_execution :: "string \<Rightarrow> string \<Rightarrow> string \<Rightarrow> db \<Rightarrow> nat option" where
  "shard_index_for_execution job node execution s =
     map_option sd_index (find (\<lambda>r. shard_of_node job node r \<and> sd_execution r = execution) (t_shards s))"

definition by_index :: "shard_row list \<Rightarrow> shard_row list" where
  "by_index rows = sort_key sd_index rows"

definition failed_shard_error :: "string \<Rightarrow> string \<Rightarrow> db \<Rightarrow> string" where
  "failed_shard_error job node s =
     (case by_index (filter (\<lambda>r. shard_of_node job node r \<and> sd_status r = ''failed'') (t_shards s)) of
        [] \<Rightarrow> [] | r # _ \<Rightarrow> sd_error r)"

definition read_shard_outputs :: "string \<Rightarrow> string \<Rightarrow> db \<Rightarrow> string list" where
  "read_shard_outputs job node s = map sd_output (by_index (filter (shard_of_node job node) (t_shards s)))"

definition delete_shards :: "string \<Rightarrow> string list \<Rightarrow> db \<Rightarrow> db" where
  "delete_shards job reset_keys s =
     s\<lparr>t_shards := delete_where (\<lambda>r. sd_job r = job \<and> sd_node r \<in> set reset_keys) (t_shards s)\<rparr>"

section \<open>Aggregate state\<close>

definition collapse_statuses :: "string list \<Rightarrow> string" where
  "collapse_statuses statuses =
     (if statuses = [] then ''pending''
      else if set statuses = {''completed''} then ''completed''
      else if ''failed'' \<in> set statuses then ''failed''
      else if ''running'' \<in> set statuses then ''running''
      else ''pending'')"

definition aggregate_shard_state :: "string \<Rightarrow> string \<Rightarrow> db \<Rightarrow> string" where
  "aggregate_shard_state job node s =
     collapse_statuses (map sd_status (filter (shard_of_node job node) (t_shards s)))"

definition on_shard_finished ::
  "string \<Rightarrow> string \<Rightarrow> nat \<Rightarrow> string \<Rightarrow> string \<Rightarrow> string \<Rightarrow> int \<Rightarrow> db \<Rightarrow> string \<times> db" where
  "on_shard_finished job node i status output err now s =
     (let s' = update_shards (shard_at job node i)
            (\<lambda>r. r\<lparr>sd_status := status, sd_output := output, sd_error := err, sd_finished := Some now\<rparr>) s in
      (aggregate_shard_state job node s', s'))"

definition reset_shard_for_requeue :: "string \<Rightarrow> string \<Rightarrow> string \<Rightarrow> db \<Rightarrow> db" where
  "reset_shard_for_requeue job node execution s =
     (case shard_index_for_execution job node execution s of
        None \<Rightarrow> s
      | Some i \<Rightarrow> update_shards (\<lambda>r. shard_at job node i r \<and> sd_status r = ''running'')
          (\<lambda>r. r\<lparr>sd_status := ''pending'', sd_execution := [], sd_started := None, sd_finished := None, sd_error := []\<rparr>) s)"

definition fail_shard_for_dead_execution :: "string \<Rightarrow> string \<Rightarrow> string \<Rightarrow> string \<Rightarrow> int \<Rightarrow> db \<Rightarrow> db" where
  "fail_shard_for_dead_execution job node execution err now s =
     (case shard_index_for_execution job node execution s of
        None \<Rightarrow> s
      | Some i \<Rightarrow> snd (on_shard_finished job node i ''failed'' [] err now s))"

section \<open>Batch views\<close>

definition running_shard_nodes :: "workflow_definition \<Rightarrow> (string, string) dict \<Rightarrow> string list" where
  "running_shard_nodes d statuses =
     map n_key (filter (\<lambda>n. n_shard n \<noteq> None \<and> dget statuses (n_key n) = Some ''running'') (vals (d_nodes d)))"

definition shard_effective_statuses :: "(string, string) dict \<Rightarrow> string list \<Rightarrow> (string, string) dict" where
  "shard_effective_statuses statuses pending = fold (\<lambda>k d. dset k ''pending'' d) pending statuses"

definition has_pending_shards_many :: "(string \<times> string) list \<Rightarrow> db \<Rightarrow> (string \<times> string) list" where
  "has_pending_shards_many pairs s =
     dedup (map (\<lambda>r. (sd_job r, sd_node r))
       (filter (\<lambda>r. sd_status r = ''pending'' \<and> (sd_job r, sd_node r) \<in> set pairs) (t_shards s)))"

section \<open>Keys of the shard table\<close>

definition shard_key :: "shard_row \<Rightarrow> string \<times> string \<times> nat" where
  "shard_key r = (sd_job r, sd_node r, sd_index r)"

lemma shard_at_key: "shard_at job node i r \<longleftrightarrow> shard_key r = (job, node, i)"
  by (auto simp: shard_at_def shard_key_def)

lemma update_shards_tables [simp]:
  "t_jobs (update_shards p f s) = t_jobs s" "t_runs (update_shards p f s) = t_runs s"
  "t_leases (update_shards p f s) = t_leases s" "t_nodes (update_shards p f s) = t_nodes s"
  "t_artifacts (update_shards p f s) = t_artifacts s" "t_requests (update_shards p f s) = t_requests s"
  "t_limits (update_shards p f s) = t_limits s" "t_next_run (update_shards p f s) = t_next_run s"
  "t_workers (update_shards p f s) = t_workers s" "t_agent_caps (update_shards p f s) = t_agent_caps s"
  "t_shards (update_shards p f s) = update_where p f (t_shards s)"
  by (simp_all add: update_shards_def)

lemma insert_shard_keys:
  "set (map shard_key (insert_shard job node item rows)) =
    insert (job, node, fst item) (set (map shard_key rows))"
  by (auto simp: insert_shard_def exists_where_iff shard_at_key pending_shard_def shard_key_def image_iff)

lemma insert_shard_distinct:
  "distinct (map shard_key rows) \<Longrightarrow> distinct (map shard_key (insert_shard job node item rows))"
  by (auto simp: insert_shard_def exists_where_iff shard_at_key pending_shard_def shard_key_def)

lemma insert_shard_present:
  "(job, node, fst item) \<in> shard_key ` set rows \<Longrightarrow> insert_shard job node item rows = rows"
  by (auto simp: insert_shard_def exists_where_iff shard_at_key image_iff)

lemma fold_insert_keys:
  "shard_key ` set (fold (insert_shard job node) items rows) =
    (\<lambda>i. (job, node, i)) ` fst ` set items \<union> shard_key ` set rows"
proof (induction items arbitrary: rows)
  case (Cons item items)
  then show ?case using insert_shard_keys [of job node item rows] by auto
qed simp

lemma fold_insert_present:
  "(\<lambda>i. (job, node, i)) ` fst ` set items \<subseteq> shard_key ` set rows \<Longrightarrow>
    fold (insert_shard job node) items rows = rows"
  by (induction items) (auto simp: insert_shard_present)

lemma fold_insert_distinct:
  "distinct (map shard_key rows) \<Longrightarrow> distinct (map shard_key (fold (insert_shard job node) items rows))"
  by (induction items arbitrary: rows) (auto simp: insert_shard_distinct)

lemma fst_enumerate: "fst ` set (enumerate 0 xs) = {..< length xs}"
  by (auto simp: enumerate_eq_zip image_iff set_zip) (metis atLeast0LessThan lessThan_iff nth_upt add_0)

lemma materialize_fixpoint:
  assumes "materialize_shards job node inputs ms s = Inr (n, s')"
  shows "materialize_shards job node inputs ms s' = Inr (n, s')"
proof -
  from assms have s': "s' = s\<lparr>t_shards := fold (insert_shard job node) (enumerate 0 inputs) (t_shards s)\<rparr>"
    and n: "n = count_where (shard_of_node job node) (t_shards s')"
    and le: "\<not> int (length inputs) > ms"
    by (auto simp: materialize_shards_def err_simps Let_def)
  have "fold (insert_shard job node) (enumerate 0 inputs) (t_shards s') = t_shards s'"
    by (rule fold_insert_present) (auto simp: s' fold_insert_keys)
  then show ?thesis using n le by (simp add: materialize_shards_def Let_def)
qed

lemma materialize_keys:
  assumes "materialize_shards job node inputs ms s = Inr (n, s')"
  shows "shard_key ` set (t_shards s') =
    (\<lambda>i. (job, node, i)) ` {..< length inputs} \<union> shard_key ` set (t_shards s)"
proof -
  from assms have s': "t_shards s' = fold (insert_shard job node) (enumerate 0 inputs) (t_shards s)"
    by (auto simp: materialize_shards_def err_simps Let_def)
  show ?thesis unfolding s' fold_insert_keys fst_enumerate ..
qed

section \<open>Aggregation\<close>

lemma collapse_completed: "collapse_statuses xs = ''completed'' \<longleftrightarrow> xs \<noteq> [] \<and> (\<forall>x \<in> set xs. x = ''completed'')"
proof -
  have "set xs = {''completed''} \<longleftrightarrow> xs \<noteq> [] \<and> (\<forall>x \<in> set xs. x = ''completed'')" by (cases xs) auto
  then show ?thesis by (simp add: collapse_statuses_def)
qed

lemma collapse_failed: "collapse_statuses xs = ''failed'' \<longleftrightarrow> ''failed'' \<in> set xs"
  by (auto simp: collapse_statuses_def)

lemma aggregate_completed_iff:
  "aggregate_shard_state job node s = ''completed'' \<longleftrightarrow>
    (\<exists>r \<in> set (t_shards s). shard_of_node job node r)
    \<and> (\<forall>r \<in> set (t_shards s). shard_of_node job node r \<longrightarrow> sd_status r = ''completed'')"
  unfolding aggregate_shard_state_def collapse_completed by (auto simp: filter_empty_conv)

lemma aggregate_failed_iff:
  "aggregate_shard_state job node s = ''failed'' \<longleftrightarrow>
    (\<exists>r \<in> set (t_shards s). shard_of_node job node r \<and> sd_status r = ''failed'')"
  unfolding aggregate_shard_state_def collapse_failed by (auto simp: image_iff eq_commute)

lemma aggregate_terminal:
  assumes "\<exists>r \<in> set (t_shards s). shard_of_node job node r"
    and "\<forall>r \<in> set (t_shards s). shard_of_node job node r \<longrightarrow> sd_status r \<in> {''completed'', ''failed''}"
  shows "aggregate_shard_state job node s \<in> {''completed'', ''failed''}"
  using assms aggregate_completed_iff [of job node s] aggregate_failed_iff [of job node s] by blast

lemma on_shard_finished_shards:
  "t_shards (snd (on_shard_finished job node i status output err now s)) =
    update_where (shard_at job node i)
      (\<lambda>r. r\<lparr>sd_status := status, sd_output := output, sd_error := err, sd_finished := Some now\<rparr>) (t_shards s)"
  by (simp add: on_shard_finished_def Let_def)

lemma on_shard_finished_tables [simp]:
  "t_nodes (snd (on_shard_finished job node i status output err now s)) = t_nodes s"
  "t_jobs (snd (on_shard_finished job node i status output err now s)) = t_jobs s"
  "t_leases (snd (on_shard_finished job node i status output err now s)) = t_leases s"
  "t_runs (snd (on_shard_finished job node i status output err now s)) = t_runs s"
  by (simp_all add: on_shard_finished_def Let_def)

text \<open>The last shard to finish always sees a terminal aggregate, so the node cannot stay running.\<close>

lemma last_shard_terminal:
  assumes row: "r \<in> set (t_shards s)" "shard_at job node i r" and st: "status \<in> {''completed'', ''failed''}"
    and others: "\<forall>r \<in> set (t_shards s). shard_of_node job node r \<and> sd_index r \<noteq> i
      \<longrightarrow> sd_status r \<in> {''completed'', ''failed''}"
  shows "fst (on_shard_finished job node i status output err now s) \<in> {''completed'', ''failed''}"
proof -
  let ?s = "snd (on_shard_finished job node i status output err now s)"
  have "fst (on_shard_finished job node i status output err now s) = aggregate_shard_state job node ?s"
    by (simp add: on_shard_finished_def Let_def)
  moreover have "\<exists>r \<in> set (t_shards ?s). shard_of_node job node r"
  proof -
    let ?f = "\<lambda>r. r\<lparr>sd_status := status, sd_output := output, sd_error := err, sd_finished := Some now\<rparr>"
    have "?f r \<in> set (t_shards ?s)"
      unfolding on_shard_finished_shards set_update_where using row by (intro bexI [of _ r]) auto
    moreover have "shard_of_node job node (?f r)" using row(2) by (simp add: shard_at_def shard_of_node_def)
    ultimately show ?thesis by blast
  qed
  moreover have "sd_status q \<in> {''completed'', ''failed''}"
    if q: "q \<in> set (t_shards ?s)" "shard_of_node job node q" for q
  proof -
    from q(1) obtain q0 where q0: "q0 \<in> set (t_shards s)"
      "q = (if shard_at job node i q0 then q0\<lparr>sd_status := status, sd_output := output, sd_error := err,
         sd_finished := Some now\<rparr> else q0)"
      unfolding on_shard_finished_shards set_update_where by blast
    show ?thesis
    proof (cases "shard_at job node i q0")
      case True
      with q0 st show ?thesis by simp
    next
      case False
      with q0 q(2) have "shard_of_node job node q0 \<and> sd_index q0 \<noteq> i" by (auto simp: shard_at_def shard_of_node_def)
      with others q0 False show ?thesis by metis
    qed
  qed
  ultimately show ?thesis using aggregate_terminal [of ?s job node] by metis
qed

lemma try_start_shard_Some:
  assumes "try_start_shard job node i execution now gen s = Some s'"
  shows "\<exists>r \<in> set (t_shards s). shard_at job node i r \<and> sd_status r = ''pending''"
    and "t_jobs s' = t_jobs s \<and> t_leases s' = t_leases s \<and> t_runs s' = t_runs s"
  using assms by (auto simp: try_start_shard_def Let_def count_where_0 split: option.splits if_splits)

text \<open>
  What starting a node means, for a node without shards and for one shard of a sharded node, from the
  database before to the one after. A first shard moves the waiting node to running in the epoch \<open>gen\<close>;
  a later shard finds the node already running and leaves its row as it is.
\<close>

definition node_started :: "string \<Rightarrow> string \<Rightarrow> nat option \<Rightarrow> int \<Rightarrow> string \<Rightarrow> db \<Rightarrow> db \<Rightarrow> bool" where
  "node_started job node shard gen execution s s' \<longleftrightarrow>
     (case shard of
        None \<Rightarrow> (\<exists>n \<in> set (t_nodes s). node_match job node queueable n)
          \<and> (\<exists>n \<in> set (t_nodes s'). node_match job node [''running''] n \<and> jn_generation n = gen)
          \<and> t_shards s' = t_shards s
      | Some i \<Rightarrow> (\<exists>n n'. node_of s job node = Some n \<and> node_of s' job node = Some n' \<and> jn_status n' = ''running''
            \<and> (jn_status n \<in> set queueable \<and> jn_generation n' = gen \<or> jn_status n = ''running'' \<and> n' = n))
          \<and> (\<exists>r \<in> set (t_shards s). shard_at job node i r \<and> sd_status r = ''pending'')
          \<and> (\<exists>r \<in> set (t_shards s'). shard_at job node i r \<and> sd_status r = ''running'' \<and> sd_execution r = execution)
          \<and> filter (\<lambda>r. \<not> shard_at job node i r) (t_shards s') = filter (\<lambda>r. \<not> shard_at job node i r) (t_shards s))"

lemma filter_update_where: "(\<And>r. p r \<Longrightarrow> \<not> q r \<and> \<not> q (f r)) \<Longrightarrow> filter q (update_where p f rows) = filter q rows"
  by (induction rows) (auto simp: update_where_def)

lemma node_started_queueable:
  assumes "count_where (node_match job node queueable) (t_nodes s) \<noteq> 0"
    and "\<And>n. jn_job (f n) = jn_job n \<and> jn_node (f n) = jn_node n \<and> jn_status (f n) = ''running'' \<and> jn_generation (f n) = gen"
  shows "node_started job node None gen execution s (update_nodes (node_match job node queueable) f s)"
proof -
  from assms(1) obtain n where n: "n \<in> set (t_nodes s)" "node_match job node queueable n" by (auto simp: count_where_0)
  moreover have "f n \<in> set (update_where (node_match job node queueable) f (t_nodes s))"
    using n by (auto simp: set_update_where)
  moreover have "node_match job node [''running''] (f n) \<and> jn_generation (f n) = gen"
    using n assms(2) [of n] by (simp add: node_match_def)
  ultimately show ?thesis by (auto simp: node_started_def update_nodes_def)
qed

lemma node_started_shard:
  assumes "try_start_shard job node i execution now (Some gen) s = Some s'"
  shows "node_started job node (Some i) gen execution s s'"
proof -
  let ?p = "\<lambda>r. shard_at job node i r \<and> sd_status r = ''pending''"
  let ?f = "\<lambda>r. r\<lparr>sd_status := ''running'', sd_execution := execution, sd_started := Some now, sd_error := [],
    sd_finished := None\<rparr>"
  let ?g = "\<lambda>r. r\<lparr>jn_status := ''running'', jn_stale_reason := [], jn_error := [], jn_started := Some now,
    jn_finished := None, jn_generation := gen\<rparr>"
  from assms obtain n where n: "node_of s job node = Some n" "jn_status n \<in> set runnable_or_running"
    and c: "count_where ?p (t_shards s) \<noteq> 0"
    and s': "s' = update_nodes (node_match job node queueable) ?g (update_shards ?p ?f s)"
    by (auto simp: try_start_shard_def Let_def split: option.splits if_splits)
  from c obtain r where r: "r \<in> set (t_shards s)" "?p r" by (auto simp: count_where_0)
  have "?f r \<in> set (t_shards s')" using r by (auto simp: s' update_nodes_def update_shards_def set_update_where)
  then have "\<exists>r \<in> set (t_shards s'). shard_at job node i r \<and> sd_status r = ''running'' \<and> sd_execution r = execution"
    using r(2) by (intro bexI [of _ "?f r"]) (simp_all add: shard_at_def)
  moreover have "filter (\<lambda>r. \<not> shard_at job node i r) (t_shards s') = filter (\<lambda>r. \<not> shard_at job node i r) (t_shards s)"
    by (simp add: s' update_nodes_def update_shards_def) (rule filter_update_where, simp add: shard_at_def)
  moreover have "node_of s' job node = Some (if node_match job node queueable n then ?g n else n)"
    using n(1) unfolding s' node_of_def
    by (simp add: update_nodes_def update_shards_def find_update_where)
  moreover have "jn_job n = job \<and> jn_node n = node" using n(1) by (auto simp: node_of_def find_Some_iff)
  ultimately show ?thesis
    using n r by (auto simp: node_started_def node_match_def queueable_def runnable_or_running_def)
qed

end
