(* ===== verification/Lease_Claim.thy ===== *)
theory Lease_Claim
  imports Sharding
begin

text \<open>
  Claiming a node run (\<open>server/app/executors/\<close>: \<open>_lease_control.py\<close>,
  \<open>_lease_claim_limits.py\<close>, \<open>_lease_claims.py\<close>, the claim half of \<open>_lease_write_paths.py\<close>, the
  requests of \<open>models.py\<close>): the epoch check, the capacity check, the flip of the node, the new run
  and lease rows.
\<close>

section \<open>Requests and answers\<close>

record claim_request =
  cr_executor :: string
  cr_capacity :: int
  cr_workspace :: string
  cr_job :: string
  cr_workflow :: string
  cr_node :: string
  cr_capability :: string
  cr_node_limit :: "int option"
  cr_ttl :: int
  cr_log :: string
  cr_mode :: string
  cr_target :: "string option"
  cr_allowed :: "string list"
  cr_shard :: "nat option"
  cr_config :: string
  cr_definition :: string
  cr_generation :: int

record claimed_execution =
  ce_lease :: string
  ce_execution :: string
  ce_run :: int
  ce_executor :: string
  ce_workspace :: string
  ce_job :: string
  ce_workflow :: string
  ce_node :: string
  ce_capability :: string
  ce_log :: string
  ce_shard :: "nat option"

text \<open>What a claim may raise: the two \<open>ValueError\<close>s of the limit check, a managed-path error.\<close>

datatype claim_error = NoNodeLimit string | NodeLimitMismatch string | LogPathError string

text \<open>
  Values a claim takes from outside: two fresh uuids, the clock (microseconds) and the
  canonical log path, \<open>None\<close> when the path check raises.
\<close>

record claim_env =
  ev_lease :: string
  ev_execution :: string
  ev_now :: int
  ev_log_path :: "string option"

section \<open>Execution control\<close>

definition terminal_job_statuses :: "string list" where
  "terminal_job_statuses = [''completed'', ''failed'']"

text \<open>
  \<open>_execution_control_rejects_claim\<close>. An unknown mode falls through to \<open>None\<close>, which the caller
  reads as authorised; the column admits only the two modes.
\<close>

definition control_rejects_claim :: "claim_request \<Rightarrow> job_row \<Rightarrow> bool" where
  "control_rejects_claim r j =
     (if j_paused j then True
      else if j_mode j \<noteq> cr_mode r then True
      else if cr_mode r = ''full'' then False
      else if cr_mode r = ''until_node'' then j_target j \<noteq> cr_target r \<or> cr_node r \<notin> set (cr_allowed r)
      else False)"

definition node_in :: "string \<Rightarrow> string \<Rightarrow> node_row \<Rightarrow> bool" where
  "node_in job status r \<longleftrightarrow> jn_job r = job \<and> jn_status r = status"

definition synced_status :: "string \<Rightarrow> db \<Rightarrow> string" where
  "synced_status job s =
     (if exists_where (node_in job ''running'') (t_nodes s) then ''running''
      else if exists_where (node_in job ''failed'') (t_nodes s) then ''failed''
      else if exists_where (\<lambda>j. j_id j = job \<and> j_paused j) (t_jobs s) then ''paused''
      else if exists_where (node_in job ''awaiting_approval'') (t_nodes s) then ''awaiting_approval''
      else if exists_where (\<lambda>r. jn_job r = job \<and> jn_status r \<notin> {''completed'', ''not_applicable''}) (t_nodes s)
      then ''queued''
      else ''completed'')"

definition sync_job_status :: "int \<Rightarrow> string \<Rightarrow> db \<Rightarrow> db" where
  "sync_job_status now job s =
     update_job job (\<lambda>j. j\<lparr>j_status := synced_status job s, j_updated := now\<rparr>) s"

definition pause_job_on_target_completion :: "string \<Rightarrow> string \<Rightarrow> int \<Rightarrow> db \<Rightarrow> db" where
  "pause_job_on_target_completion job node now s =
     (case job_of s job of
        None \<Rightarrow> s
      | Some j \<Rightarrow>
          if j_mode j = ''until_node'' \<and> j_target j = Some node \<and> j_status j \<noteq> ''completed''
          then update_job job (\<lambda>j. j\<lparr>j_status := ''paused'', j_paused := True,
                 j_pause_reason := ''target_reached'', j_updated := now\<rparr>) s
          else s)"

section \<open>Capacity\<close>

definition live_lease :: "int \<Rightarrow> lease_row \<Rightarrow> bool" where
  "live_lease now l \<longleftrightarrow> le_status l = ''active'' \<and> now < le_expires l"

text \<open>\<open>CODE_LEASE_FORMS_PREDICATE\<close>: the local pool or a remote code claim.\<close>

definition code_lease_form :: "string \<Rightarrow> bool" where
  "code_lease_form executor \<longleftrightarrow> executor = ''code'' \<or> starts_with ''agent:code:'' executor"

definition executor_load :: "string \<Rightarrow> int \<Rightarrow> db \<Rightarrow> nat" where
  "executor_load executor now s = count_where (\<lambda>l. le_executor l = executor \<and> live_lease now l) (t_leases s)"

definition node_load :: "string \<Rightarrow> string \<Rightarrow> int \<Rightarrow> db \<Rightarrow> nat" where
  "node_load ws node now s = count_where (\<lambda>l. le_workspace l = ws \<and> le_node l = node \<and> live_lease now l
     \<and> code_lease_form (le_executor l)) (t_leases s)"

definition check_claim_capacity :: "claim_request \<Rightarrow> int \<Rightarrow> db \<Rightarrow> claim_error + bool" where
  "check_claim_capacity r now s =
     bindE (case cr_node_limit r of
              None \<Rightarrow> Inr ()
            | Some requested \<Rightarrow>
                (case dget (t_limits s) (cr_workspace r, cr_node r) of
                   None \<Rightarrow> Inl (NoNodeLimit (cr_node r))
                 | Some persisted \<Rightarrow> guardE (persisted \<noteq> requested) (NodeLimitMismatch (cr_node r)) (Inr ()))) (\<lambda>_.
     if int (executor_load (cr_executor r) now s) \<ge> cr_capacity r then Inr False
     else (case cr_node_limit r of
             None \<Rightarrow> Inr True
           | Some limit \<Rightarrow> Inr (int (node_load (cr_workspace r) (cr_node r) now s) < limit)))"

text \<open>\<open>active_lease_counts\<close>: the pool total and one entry per workspace.\<close>

definition active_lease_counts :: "string \<Rightarrow> int \<Rightarrow> db \<Rightarrow> nat \<times> (string, nat) dict" where
  "active_lease_counts executor now s =
     (let live = filter (\<lambda>l. le_executor l = executor \<and> live_lease now l) (t_leases s) in
      (length live, map (\<lambda>w. (w, count_where (\<lambda>l. le_workspace l = w) live)) (dedup (map le_workspace live))))"

section \<open>The claim\<close>

definition start_node_run :: "claim_request \<Rightarrow> claim_env \<Rightarrow> int \<Rightarrow> db \<Rightarrow> db option" where
  "start_node_run r ev gen s =
     (case cr_shard r of
        Some i \<Rightarrow> try_start_shard (cr_job r) (cr_node r) i (ev_execution ev) (ev_now ev) (Some gen) s
      | None \<Rightarrow>
          (let p = node_match (cr_job r) (cr_node r) queueable in
           if count_where p (t_nodes s) = 0 then None
           else Some (update_nodes p (\<lambda>n. n\<lparr>jn_status := ''running'', jn_stale_reason := [], jn_error := [],
                        jn_started := Some (ev_now ev), jn_finished := None, jn_generation := gen\<rparr>) s)))"

definition new_run :: "claim_request \<Rightarrow> claim_env \<Rightarrow> string \<Rightarrow> int \<Rightarrow> run_row" where
  "new_run r ev lg rid = \<lparr>nr_id = rid, nr_job = cr_job r, nr_node = cr_node r, nr_status = ''running'',
     nr_exit = None, nr_error = [], nr_category = [], nr_detail = [], nr_command = [], nr_log = lg,
     nr_run_dir = [], nr_session_dir = [], nr_skill_version = [], nr_skill = [], nr_runner = [],
     nr_config = cr_config r, nr_definition = cr_definition r, nr_started = Some (ev_now ev),
     nr_finished = None, nr_generation = cr_generation r\<rparr>"

definition new_lease :: "claim_request \<Rightarrow> claim_env \<Rightarrow> int \<Rightarrow> lease_row" where
  "new_lease r ev rid = \<lparr>le_id = ev_lease ev, le_execution = ev_execution ev, le_executor = cr_executor r,
     le_workspace = cr_workspace r, le_job = cr_job r, le_node = cr_node r, le_run = rid,
     le_status = ''active'', le_acquired = ev_now ev, le_heartbeat = ev_now ev,
     le_expires = ev_now ev + cr_ttl r * 1000000, le_generation = cr_generation r\<rparr>"

definition record_claim :: "claim_request \<Rightarrow> claim_env \<Rightarrow> string \<Rightarrow> db \<Rightarrow> claimed_execution \<times> db" where
  "record_claim r ev lg s =
     (let rid = t_next_run s;
          s1 = s\<lparr>t_runs := t_runs s @ [new_run r ev lg rid], t_next_run := rid + 1,
                 t_leases := t_leases s @ [new_lease r ev rid]\<rparr>;
          s2 = s1\<lparr>t_jobs := update_where (\<lambda>j. j_id j = cr_job r \<and> j_status j \<notin> {''running'', ''completed'', ''failed''})
                     (\<lambda>j. j\<lparr>j_status := ''running'', j_updated := ev_now ev\<rparr>) (t_jobs s1)\<rparr> in
      (\<lparr>ce_lease = ev_lease ev, ce_execution = ev_execution ev, ce_run = rid, ce_executor = cr_executor r,
        ce_workspace = cr_workspace r, ce_job = cr_job r, ce_workflow = cr_workflow r, ce_node = cr_node r,
        ce_capability = cr_capability r, ce_log = cr_log r, ce_shard = cr_shard r\<rparr>, s2))"

text \<open>
  \<open>Inl\<close>: raised, the transaction rolls back. \<open>Inr None\<close>: not claimable, nothing written.
\<close>

definition claim_lease :: "claim_request \<Rightarrow> claim_env \<Rightarrow> db \<Rightarrow> claim_error + (claimed_execution \<times> db) option" where
  "claim_lease r ev s =
     (case job_of s (cr_job r) of
        None \<Rightarrow> Inr None
      | Some j \<Rightarrow>
          if j_generation j \<noteq> cr_generation r then Inr None
          else if control_rejects_claim r j then Inr None
          else if j_status j \<in> set terminal_job_statuses then Inr None
          else bindE (check_claim_capacity r (ev_now ev) s) (\<lambda>free.
            if \<not> free then Inr None
            else (case start_node_run r ev (j_generation j) s of
                    None \<Rightarrow> Inr None
                  | Some s1 \<Rightarrow>
                      (case ev_log_path ev of
                         None \<Rightarrow> Inl (LogPathError (cr_log r))
                       | Some lg \<Rightarrow> Inr (Some (record_claim r ev lg s1))))))"

section \<open>One transaction, one or many claims\<close>

definition try_claim :: "claim_request \<Rightarrow> claim_env \<Rightarrow> db \<Rightarrow> claim_error + claimed_execution option \<times> db" where
  "try_claim r ev s =
     bindE (claim_lease r ev s) (\<lambda>c. case c of None \<Rightarrow> Inr (None, s) | Some (ce, s') \<Rightarrow> Inr (Some ce, s'))"

text \<open>
  \<open>try_claim_many\<close>: the requests run in the order of (advisory lock key of the job, job id,
  position) and the answers go back to their positions; a raise rolls back the whole batch.
  \<open>lock_key\<close> is PostgreSQL's \<open>hashtext\<close>.
\<close>

definition batch_order :: "(string \<Rightarrow> int) \<Rightarrow> (nat \<times> claim_request \<times> claim_env) list \<Rightarrow> (nat \<times> claim_request \<times> claim_env) list" where
  "batch_order lock_key items =
     sort_key (\<lambda>(i, r, _). lock_key (cr_job r)) (sort_key (\<lambda>(i, r, _). cr_job r) items)"

definition claim_item ::
  "nat \<times> claim_request \<times> claim_env \<Rightarrow> claimed_execution option list \<times> db \<Rightarrow>
   claim_error + claimed_execution option list \<times> db" where
  "claim_item item st =
     (case (item, st) of ((i, r, ev), (answers, s)) \<Rightarrow>
        bindE (try_claim r ev s) (\<lambda>(c, s'). Inr (answers[i := c], s')))"

definition try_claim_many ::
  "(string \<Rightarrow> int) \<Rightarrow> (claim_request \<times> claim_env) list \<Rightarrow> db \<Rightarrow> claim_error + claimed_execution option list \<times> db" where
  "try_claim_many lock_key requests s =
     foldE claim_item (batch_order lock_key (enumerate 0 requests)) (replicate (length requests) None, s)"

section \<open>What a successful claim means\<close>

lemma start_node_run_Some:
  assumes "start_node_run r ev gen s = Some s1"
  shows "t_jobs s1 = t_jobs s" "t_leases s1 = t_leases s" "t_runs s1 = t_runs s"
    "t_limits s1 = t_limits s" "t_next_run s1 = t_next_run s"
  using assms
  by (auto simp: start_node_run_def try_start_shard_def Let_def split: option.splits if_splits)

lemma start_node_run_started:
  assumes "start_node_run r ev gen s = Some s1"
  shows "node_started (cr_job r) (cr_node r) (cr_shard r) gen (ev_execution ev) s s1"
proof (cases "cr_shard r")
  case None
  then show ?thesis
    using assms by (auto simp: start_node_run_def Let_def intro!: node_started_queueable split: if_splits)
next
  case (Some i)
  then show ?thesis using assms by (auto simp: start_node_run_def intro: node_started_shard)
qed

lemma record_claim_tables:
  "t_leases (snd (record_claim r ev lg s)) = t_leases s @ [new_lease r ev (t_next_run s)]"
  "t_runs (snd (record_claim r ev lg s)) = t_runs s @ [new_run r ev lg (t_next_run s)]"
  "t_nodes (snd (record_claim r ev lg s)) = t_nodes s"
  "t_shards (snd (record_claim r ev lg s)) = t_shards s"
  "t_next_run (snd (record_claim r ev lg s)) = t_next_run s + 1"
  by (simp_all add: record_claim_def Let_def)

lemma record_claim_generation:
  "job_generation (snd (record_claim r ev lg s)) k = job_generation s k"
  unfolding job_generation_def job_of_def record_claim_def Let_def by (simp add: find_update_view)

lemma check_claim_capacity_True:
  assumes "check_claim_capacity r now s = Inr True"
  shows "int (executor_load (cr_executor r) now s) < cr_capacity r"
    and "cr_node_limit r = Some limit \<Longrightarrow> int (node_load (cr_workspace r) (cr_node r) now s) < limit
       \<and> dget (t_limits s) (cr_workspace r, cr_node r) = Some limit"
  using assms by (auto simp: check_claim_capacity_def err_simps split: option.splits if_splits)

lemma claim_lease_Some:
  assumes "claim_lease r ev s = Inr (Some (ce, s'))"
  shows "\<exists>j s1 lg. job_of s (cr_job r) = Some j \<and> j_generation j = cr_generation r
    \<and> \<not> control_rejects_claim r j \<and> j_status j \<notin> set terminal_job_statuses
    \<and> check_claim_capacity r (ev_now ev) s = Inr True
    \<and> start_node_run r ev (cr_generation r) s = Some s1 \<and> (ce, s') = record_claim r ev lg s1"
proof -
  from assms obtain j where j: "job_of s (cr_job r) = Some j"
    by (auto simp: claim_lease_def split: option.splits)
  from assms obtain s1 lg where
    "j_generation j = cr_generation r \<and> \<not> control_rejects_claim r j \<and> j_status j \<notin> set terminal_job_statuses
      \<and> check_claim_capacity r (ev_now ev) s = Inr True \<and> start_node_run r ev (cr_generation r) s = Some s1
      \<and> record_claim r ev lg s1 = (ce, s')"
    unfolding claim_lease_def j by (auto simp: err_simps split: option.splits if_splits)
  then show ?thesis using j by metis
qed

text \<open>Capacity is never exceeded by a claim.\<close>

lemma claim_within_capacity:
  assumes "claim_lease r ev s = Inr (Some (ce, s'))"
  shows "int (executor_load (cr_executor r) (ev_now ev) s') \<le> cr_capacity r"
    and "cr_node_limit r = Some limit \<Longrightarrow> int (node_load (cr_workspace r) (cr_node r) (ev_now ev) s') \<le> limit"
proof -
  from claim_lease_Some [OF assms] obtain s1 lg where
    c: "check_claim_capacity r (ev_now ev) s = Inr True" and n: "start_node_run r ev (cr_generation r) s = Some s1"
    and s': "s' = snd (record_claim r ev lg s1)" by (metis snd_conv)
  have l: "t_leases s' = t_leases s @ [new_lease r ev (t_next_run s1)]"
    by (simp add: s' record_claim_tables start_node_run_Some [OF n])
  have e: "executor_load (cr_executor r) (ev_now ev) s' \<le> executor_load (cr_executor r) (ev_now ev) s + 1"
    by (simp add: executor_load_def l count_where_snoc)
  then show "int (executor_load (cr_executor r) (ev_now ev) s') \<le> cr_capacity r"
    using check_claim_capacity_True(1) [OF c] by linarith
  have "node_load (cr_workspace r) (cr_node r) (ev_now ev) s' \<le> node_load (cr_workspace r) (cr_node r) (ev_now ev) s + 1"
    by (simp add: node_load_def l count_where_snoc)
  then show "cr_node_limit r = Some limit \<Longrightarrow> int (node_load (cr_workspace r) (cr_node r) (ev_now ev) s') \<le> limit"
    using check_claim_capacity_True(2) [OF c] by force
qed

section \<open>Job status\<close>

lemma job_of_sync: "job_of (sync_job_status now job s) k =
    (if k = job then map_option (\<lambda>j. j\<lparr>j_status := synced_status job s, j_updated := now\<rparr>) (job_of s job)
     else job_of s k)"
  by (simp add: sync_job_status_def job_of_update_job)

lemma sync_tables [simp]:
  "t_nodes (sync_job_status now job s) = t_nodes s" "t_leases (sync_job_status now job s) = t_leases s"
  "t_runs (sync_job_status now job s) = t_runs s" "t_shards (sync_job_status now job s) = t_shards s"
  by (simp_all add: sync_job_status_def)

lemma pause_tables [simp]:
  "t_nodes (pause_job_on_target_completion job node now s) = t_nodes s"
  "t_leases (pause_job_on_target_completion job node now s) = t_leases s"
  "t_runs (pause_job_on_target_completion job node now s) = t_runs s"
  "t_shards (pause_job_on_target_completion job node now s) = t_shards s"
  by (simp_all add: pause_job_on_target_completion_def split: option.splits)

lemma job_generation_sync [simp]: "job_generation (sync_job_status now job s) k = job_generation s k"
  by (simp add: job_generation_def job_of_sync option.map_comp comp_def)

lemma job_generation_pause [simp]:
  "job_generation (pause_job_on_target_completion job node now s) k = job_generation s k"
  by (simp add: job_generation_def pause_job_on_target_completion_def job_of_update_job option.map_comp comp_def
      split: option.splits)

lemma job_generation_update_nodes [simp]: "job_generation (update_nodes p f s) k = job_generation s k"
  by (simp add: job_generation_def job_of_def)

lemma job_generation_update_shards [simp]: "job_generation (update_shards p f s) k = job_generation s k"
  by (simp add: job_generation_def job_of_def)

end
