(* ===== verification/Failure_Classification.thy ===== *)
theory Failure_Classification
  imports Py_Value
begin

text \<open>
  The rule table that classifies a failed run (\<open>server/app/services/failure_classification/\<close>:
  \<open>markers.py\<close>, \<open>rules.py\<close>, \<open>__init__.py\<close>). The regular expressions are written out as
  string functions. Which code points outside ASCII are digits or word characters is Unicode
  data and a parameter (\<open>unicode_tables\<close>).
\<close>

section \<open>Character classes\<close>

record unicode_tables =
  uc_digit :: "string \<Rightarrow> bool"
  uc_word :: "string \<Rightarrow> bool"

definition ascii_digit :: "char \<Rightarrow> bool" where
  "ascii_digit c \<longleftrightarrow> (48 :: nat) \<le> of_char c \<and> of_char c \<le> (57 :: nat)"

definition ascii_alpha :: "char \<Rightarrow> bool" where
  "ascii_alpha c \<longleftrightarrow> (let n = of_char c :: nat in (65 \<le> n \<and> n \<le> 90) \<or> (97 \<le> n \<and> n \<le> 122))"

definition high_byte :: "char \<Rightarrow> bool" where
  "high_byte c \<longleftrightarrow> (128 :: nat) \<le> of_char c"

text \<open>A code point is the list of its UTF-8 bytes: one byte is ASCII.\<close>

fun digit_point :: "unicode_tables \<Rightarrow> string \<Rightarrow> bool" where
  "digit_point u [] = False"
| "digit_point u (c # cs) = (if high_byte c then uc_digit u (c # cs) else cs = [] \<and> ascii_digit c)"

fun word_point :: "unicode_tables \<Rightarrow> string \<Rightarrow> bool" where
  "word_point u [] = False"
| "word_point u (c # cs) = (if high_byte c then uc_word u (c # cs)
     else cs = [] \<and> (ascii_digit c \<or> ascii_alpha c \<or> c = CHR ''_''))"

section \<open>The regular expressions\<close>

definition exited_prefix :: string where
  "exited_prefix = ''Agent process exited ''"

text \<open>
  \<open>^Agent process exited (\d+)(:|$)\<close>: the digits and whether a colon follows. \<open>$\<close> also matches
  before a final newline.
\<close>

definition process_exited :: "unicode_tables \<Rightarrow> string \<Rightarrow> (string \<times> bool) option" where
  "process_exited u msg =
     (if starts_with exited_prefix msg then
        (let cps = code_points (drop (length exited_prefix) msg);
             ds = concat (takeWhile (digit_point u) cps); rest = concat (dropWhile (digit_point u) cps) in
         if ds = [] then None
         else if starts_with '':'' rest then Some (ds, True)
         else if rest = [] \<or> rest = [CHR 0x0A] then Some (ds, False) else None)
      else None)"

text \<open>\<open>\bterminated\b\<close>: an occurrence with no word character on either side.\<close>

fun terminated_word_at :: "unicode_tables \<Rightarrow> bool \<Rightarrow> string list \<Rightarrow> bool" where
  "terminated_word_at u prev_word [] = False"
| "terminated_word_at u prev_word (c # cs) =
     ((\<not> prev_word \<and> take 10 (c # cs) = map (\<lambda>x. [x]) ''terminated''
        \<and> (case drop 10 (c # cs) of [] \<Rightarrow> True | d # _ \<Rightarrow> \<not> word_point u d))
      \<or> terminated_word_at u (word_point u c) cs)"

definition terminated_word :: "unicode_tables \<Rightarrow> string \<Rightarrow> bool" where
  "terminated_word u msg = terminated_word_at u False (code_points msg)"

definition first_line :: "string \<Rightarrow> string" where
  "first_line s = takeWhile (\<lambda>c. c \<noteq> CHR 0x0A) s"

definition drop_final_newline :: "string \<Rightarrow> string" where
  "drop_final_newline s = (if ends_with [CHR 0x0A] s then butlast s else s)"

definition quote :: string where
  "quote = [CHR 0x27]"

definition executor_not_registered :: "string \<Rightarrow> bool" where
  "executor_not_registered msg \<longleftrightarrow>
     (let s = drop_final_newline msg; p = ''Executor '' @ quote; q = quote @ '' is not registered'' in
      starts_with p s \<and> ends_with q s \<and> length p + length q < length s \<and> CHR 0x0A \<notin> set s)"

definition interaction_contract :: "unicode_tables \<Rightarrow> string \<Rightarrow> bool" where
  "interaction_contract u msg \<longleftrightarrow>
     starts_with ''Interaction '' msg \<and>
     (case code_points (drop 12 msg) of
        [] \<Rightarrow> False
      | d # rest \<Rightarrow> digit_point u d \<and>
          (let line = first_line (concat rest) in contains ''is missing'' line \<or> contains ''has unknown type'' line))"

definition connection_phrases :: "string list" where
  "connection_phrases = map (map char_of) [[228, 184, 141, 229, 173, 152, 229, 156, 168], [229, 183, 178, 229, 129, 156, 231, 148, 168], [232, 142, 183, 229, 143, 150, 32, 116, 111, 107, 101, 110, 32, 229, 164, 177, 232, 180, 165 :: nat]]"

definition connection_config :: "string \<Rightarrow> bool" where
  "connection_config msg \<longleftrightarrow>
     (let p = ''connection '' @ quote in
      starts_with p msg \<and>
      (let line = first_line (drop (length p) msg) in
       list_ex (\<lambda>phrase. contains (quote @ '' '' @ phrase) (tl line)) connection_phrases))"

section \<open>Markers\<close>

definition any_prefix :: "string list \<Rightarrow> string \<Rightarrow> bool" where
  "any_prefix ps msg = list_ex (\<lambda>p. starts_with p msg) ps"

definition any_marker :: "string list \<Rightarrow> string \<Rightarrow> bool" where
  "any_marker ms msg = list_ex (\<lambda>m. contains m msg) ms"

definition review_rejected_markers :: "string list" where
  "review_rejected_markers = [''review_rejected:'', ''content review rejected by skill'',
     ''Output validation failed: Review rejected'']"

definition source_missing_markers :: "string list" where
  "source_missing_markers = [''HTTPError: 404'', ''knowledge video not found'',
     ''knowledge video has no source url'', ''no questions found for knowledge code'',
     map char_of [67, 77, 83, 32, 229, 147, 141, 229, 186, 148, 231, 188, 186, 229, 176, 145, 233, 162, 152, 229, 185, 178 :: nat]]"

definition provider_stream_markers :: "string list" where
  "provider_stream_markers = [''stream error'', ''error decoding response body'', ''unexpected EOF'']"

definition resource_limit_markers :: "string list" where
  "resource_limit_markers = [''Too many open files'', ''No space left on device'']"

definition sqlite_markers :: "string list" where
  "sqlite_markers = [''database is locked'', ''cannot rollback'', ''unable to open database file'',
     ''database or disk is full'']"

definition execution_error_markers :: "string list" where
  "execution_error_markers = [''openclaw command failed'', ''SQLite objects created in a thread'',
     ''isolated handler did not return a result'', ''object has no attribute'',
     ''[Errno 2] No such file or directory'']"

definition network_markers :: "string list" where
  "network_markers = [''IncompleteRead'', ''ChunkedEncodingError'', ''Connection broken'']"

definition db_pool_markers :: "string list" where
  "db_pool_markers = [''PoolTimeout'', ''connection pool exhausted'',
     [CHR ''c'', CHR ''o'', CHR ''u'', CHR ''l'', CHR ''d'', CHR ''n'', CHR 0x27] @ ''t get a connection after'']"

section \<open>The rule table\<close>

text \<open>The rules are tried in the order of the source; the first that applies decides.\<close>

fun first_rule :: "(bool \<times> string \<times> string) list \<Rightarrow> string \<times> string \<Rightarrow> string \<times> string" where
  "first_rule [] z = z"
| "first_rule ((c, r) # rs) z = (if c then r else first_rule rs z)"

definition tech :: "string \<Rightarrow> string \<times> string" where
  "tech d = (''technical'', d)"

definition business :: "string \<Rightarrow> string \<times> string" where
  "business d = (''business'', d)"

definition provider_call :: "string \<Rightarrow> string \<times> string" where
  "provider_call m =
     (if contains ''unexpected finish_reason `sensitive`'' m then business ''provider_content_filter''
      else if any_marker provider_stream_markers m then tech ''provider_stream''
      else tech ''provider_request'')"

text \<open>\<open>m\<close> is the message reduced to its exit line, \<open>exited\<close> the match on the full message.\<close>

definition message_rules ::
  "unicode_tables \<Rightarrow> int option \<Rightarrow> (string \<times> bool) option \<Rightarrow> string \<Rightarrow> (bool \<times> string \<times> string) list" where
  "message_rules u exit_code exited m =
     [(any_prefix review_rejected_markers m, business ''review_rejected''),
      (starts_with ''CmsClientError: CMS request failed'' m, tech ''cms_request''),
      (connection_config m, tech ''connection_config''),
      (starts_with ''[work-dir-missing]'' m, tech ''work_dir_missing''),
      (starts_with ''Output validation failed:'' m, business ''output_invalid''),
      (starts_with ''Validator error:'' m, tech ''validator_env''),
      (starts_with ''invalid json '' m \<or> interaction_contract u m, business ''output_invalid''),
      (contains ''All transcription providers failed'' m, business ''transcription_input''),
      (any_marker source_missing_markers m, business ''source_missing''),
      (starts_with ''Model output hit the per-call output token limit'' m, tech ''output_truncated''),
      (exit_code = Some 124 \<or> (\<exists>colon \<in> {True, False}. exited = Some (''124'', colon)) \<or> contains ''timed out'' m,
       tech ''timeout''),
      (executor_not_registered m, tech ''executor_unregistered''),
      (any_prefix [''worker interrupted before restart'', ''lease expired'', ''Agent Worker heartbeat expired''] m,
       tech ''worker_orphaned''),
      (terminated_word u m \<or> contains ''Connection error'' m, tech ''provider_stream''),
      (starts_with ''Pi model call failed:'' m \<or> contains ''HTTPError: 502'' m, tech ''provider_request''),
      (starts_with ''provider call failed'' m, provider_call m),
      (contains ''CmsClientError'' m \<or> contains ''CMS token'' m, tech ''cms_auth''),
      (any_marker resource_limit_markers m, tech ''resource_limit''),
      (starts_with ''execution was cancelled'' m, tech ''cancelled''),
      (any_prefix [''No Executor binding'', ''workspace node is not routed to an Agent''] m, tech ''executor_binding''),
      (starts_with (''Agent definition '' @ quote) m \<and> contains ''was disabled or changed'' m, tech ''stale_definition''),
      (starts_with ''Agent request manifest has unresolved'' m, tech ''unresolved_model''),
      (contains ''config differs from the published skill lock'' m
         \<or> any_prefix [''skill missing references'', ''git command failed''] m, tech ''skill_config''),
      (starts_with ''artifact upload failed'' m \<or> contains ''download failed: /api/'' m, tech ''artifact_transfer''),
      (starts_with ''lease was lost during execution'' m, tech ''lease_lost''),
      (any_marker sqlite_markers m, tech ''database''),
      (any_marker db_pool_markers m, tech ''db_pool_timeout''),
      (any_marker network_markers m, tech ''network''),
      (any_prefix [''missing outputs'', ''missing required file''] (map lower_char m)
         \<or> starts_with ''Agent Worker did not report output artifacts'' m, tech ''output_missing''),
      (contains ''failed to unpack Agent result'' m \<or> any_marker execution_error_markers m, tech ''execution_error''),
      (exited \<noteq> None, (''unknown'', ''execution_error''))]"

definition classify_failure :: "unicode_tables \<Rightarrow> int option \<Rightarrow> string \<Rightarrow> string \<times> string" where
  "classify_failure u exit_code msg =
     (let exited = process_exited u msg;
          m = (case exited of Some (ds, True) \<Rightarrow> exited_prefix @ ds | _ \<Rightarrow> msg) in
      first_rule (message_rules u exit_code exited m) (''unknown'', ''unknown''))"

definition resolve_failure_fields ::
  "unicode_tables \<Rightarrow> string \<Rightarrow> int option \<Rightarrow> string \<Rightarrow> string \<Rightarrow> string \<Rightarrow> string \<times> string" where
  "resolve_failure_fields u status exit_code msg declared_category declared_detail =
     (if status \<noteq> ''failed'' then ([], [])
      else if declared_category \<noteq> [] then (declared_category, declared_detail)
      else classify_failure u exit_code msg)"

definition is_transient_retryable :: "string \<Rightarrow> bool" where
  "is_transient_retryable detail \<longleftrightarrow> detail \<in> {''db_pool_timeout'', ''cms_request''}"

section \<open>Crash messages\<close>

lemma ascii_digit_facts:
  assumes "ascii_digit c"
  shows "\<not> continuation_byte c" "\<not> high_byte c" "c \<noteq> CHR 0x0A" "lower_char c = c" "\<not> ascii_alpha c"
  using assms by (auto simp: ascii_digit_def continuation_byte_def high_byte_def lower_char_def ascii_alpha_def)

lemma code_points_ascii:
  "list_all ascii_digit ds \<Longrightarrow> r = [] \<or> \<not> continuation_byte (hd r) \<Longrightarrow>
    code_points (ds @ r) = map (\<lambda>c. [c]) ds @ code_points r"
proof (induction ds)
  case (Cons c ds)
  have "takeWhile continuation_byte (ds @ r) = [] \<and> dropWhile continuation_byte (ds @ r) = ds @ r"
    using Cons.prems ascii_digit_facts(1) by (cases ds; cases r) auto
  with Cons show ?case by simp
qed simp

lemma digit_points: "list_all ascii_digit ds \<Longrightarrow>
    takeWhile (digit_point u) (map (\<lambda>c. [c]) ds @ cs) = map (\<lambda>c. [c]) ds @ takeWhile (digit_point u) cs
  \<and> dropWhile (digit_point u) (map (\<lambda>c. [c]) ds @ cs) = dropWhile (digit_point u) cs"
  by (induction ds) (auto simp: ascii_digit_facts)

lemma starts_with_append: "starts_with p (p @ s)"
  by (simp add: starts_with_def)

lemma process_exited_crash:
  assumes "list_all ascii_digit ds" and "ds \<noteq> []"
  shows "process_exited u (exited_prefix @ ds @ CHR '':'' # t) = Some (ds, True)"
proof -
  have "\<not> continuation_byte CHR '':''" and nd: "\<not> digit_point u (CHR '':'' # takeWhile continuation_byte t)"
    by (simp_all add: continuation_byte_def ascii_digit_def high_byte_def)
  then have cp: "code_points (ds @ CHR '':'' # t) = map (\<lambda>c. [c]) ds @ code_points (CHR '':'' # t)"
    using code_points_ascii [OF assms(1), of "CHR '':'' # t"] by simp
  have tw: "takeWhile (digit_point u) (code_points (CHR '':'' # t)) = []"
    and dw: "dropWhile (digit_point u) (code_points (CHR '':'' # t)) = code_points (CHR '':'' # t)"
    using nd by simp_all
  have c: "concat (map (\<lambda>c. [c]) ds) = ds" by (induction ds) auto
  have w: "starts_with '':'' (concat (code_points (CHR '':'' # t)))"
    unfolding concat_code_points by (simp add: starts_with_def)
  show ?thesis
    unfolding process_exited_def Let_def
    using digit_points [OF assms(1), of u "code_points (CHR '':'' # t)"] cp tw dw c w assms(2)
    by (simp add: starts_with_append del: code_points.simps)
qed

lemma contains_digits: "p \<noteq> [] \<Longrightarrow> \<not> ascii_digit (hd p) \<Longrightarrow> list_all ascii_digit ds \<Longrightarrow> \<not> contains p ds"
proof (induction ds)
  case (Cons c ds)
  then show ?case by (cases p) (auto simp: starts_with_def)
qed simp

text \<open>The exit line alone triggers no rule but the exit-code rules.\<close>

definition exit_line :: "string \<Rightarrow> string" where
  "exit_line ds = exited_prefix @ ds"

lemma exit_line_prefix:
  "take 7 p \<noteq> ''Agent p'' \<Longrightarrow> 7 \<le> length p \<Longrightarrow> \<not> starts_with p (exit_line ds)"
proof
  assume p: "take 7 p \<noteq> ''Agent p''" "7 \<le> length p" and "starts_with p (exit_line ds)"
  then obtain t where "exit_line ds = p @ t" by (auto simp: starts_with_iff)
  then have "take 7 (exit_line ds) = take 7 p" using p(2) by simp
  then show False using p(1) by (simp add: exit_line_def exited_prefix_def)
qed

lemma contains_append_cases:
  "contains p (a @ b) \<Longrightarrow> (\<exists>i < length a. starts_with p (drop i a @ b)) \<or> contains p b"
proof (induction a)
  case (Cons c a)
  show ?case
  proof (cases "starts_with p (c # a @ b)")
    case True
    then show ?thesis by (intro disjI1 exI [of _ 0]) simp
  next
    case False
    with Cons.prems have "contains p (a @ b)" by simp
    with Cons.IH show ?thesis by (metis Suc_less_eq drop_Suc_Cons length_Cons)
  qed
qed simp

text \<open>
  A marker does not occur in an exit line when it does not start with a digit and no suffix of
  the prefix starts the way it does.
\<close>

definition no_overlap :: "string \<Rightarrow> string \<Rightarrow> bool" where
  "no_overlap p a \<longleftrightarrow> p \<noteq> [] \<and> \<not> ascii_digit (hd p) \<and>
     list_all (\<lambda>i. take (min (length p) (length a - i)) p \<noteq> take (min (length p) (length a - i)) (drop i a))
       [0 ..< length a]"

lemma no_overlap_contains:
  assumes "no_overlap p a" and "list_all ascii_digit ds"
  shows "\<not> contains p (a @ ds)"
proof
  assume "contains p (a @ ds)"
  moreover have "\<not> contains p ds"
    using contains_digits assms by (auto simp: no_overlap_def)
  ultimately obtain i where i: "i < length a" "starts_with p (drop i a @ ds)"
    using contains_append_cases by blast
  then obtain t where t: "drop i a @ ds = p @ t" by (auto simp: starts_with_iff)
  let ?n = "min (length p) (length a - i)"
  have "take ?n (drop i a @ ds) = take ?n (p @ t)" using t by simp
  then have "take ?n (drop i a) = take ?n p" by simp
  moreover have "i \<in> set [0 ..< length a]" using i(1) by simp
  ultimately show False using assms(1) unfolding no_overlap_def list_all_iff by metis
qed

definition all_markers :: "string list" where
  "all_markers = source_missing_markers @ resource_limit_markers @ sqlite_markers @ execution_error_markers
     @ network_markers @ db_pool_markers
     @ [''terminated'', ''All transcription providers failed'', ''timed out'', ''Connection error'', ''HTTPError: 502'',
        ''CmsClientError'', ''CMS token'', ''config differs from the published skill lock'',
        ''download failed: /api/'', ''failed to unpack Agent result'']"

lemma markers_no_overlap: "list_all (\<lambda>p. no_overlap p exited_prefix) all_markers"
  by code_simp

lemma exit_line_contains:
  "list_all ascii_digit ds \<Longrightarrow> p \<in> set all_markers \<Longrightarrow> \<not> contains p (exit_line ds)"
  using markers_no_overlap no_overlap_contains by (auto simp: list_all_iff exit_line_def)

lemma exit_line_markers:
  "list_all ascii_digit ds \<Longrightarrow> set ms \<subseteq> set all_markers \<Longrightarrow> \<not> any_marker ms (exit_line ds)"
  using exit_line_contains by (fastforce simp: any_marker_def list_ex_iff)

lemma exit_line_any_prefix:
  "list_all (\<lambda>p. take 7 p \<noteq> ''Agent p'' \<and> 7 \<le> length p) ps \<Longrightarrow> \<not> any_prefix ps (exit_line ds)"
  using exit_line_prefix by (fastforce simp: any_prefix_def list_ex_iff list_all_iff)

lemma terminated_word_contains:
  "terminated_word_at u b cps \<Longrightarrow> contains ''terminated'' (concat cps)"
proof (induction u b cps rule: terminated_word_at.induct)
  case (2 u prev c cs)
  show ?case
  proof (cases "take 10 (c # cs) = map (\<lambda>x. [x]) ''terminated''")
    case True
    have "concat (c # cs) = concat (take 10 (c # cs)) @ concat (drop 10 (c # cs))"
      by (metis append_take_drop_id concat_append)
    then have "concat (c # cs) = ''terminated'' @ concat (drop 10 (c # cs))" unfolding True by simp
    then show ?thesis unfolding contains_iff by (metis append_Nil)
  next
    case False
    with 2(2) have "terminated_word_at u (word_point u c) cs" unfolding terminated_word_at.simps by blast
    with 2(1) have "contains ''terminated'' (concat cs)" .
    then show ?thesis unfolding contains_iff by (metis append.assoc concat.simps(2))
  qed
qed simp

lemma drop_final_newline_prefix: "starts_with p (drop_final_newline s) \<Longrightarrow> starts_with p s"
  unfolding starts_with_iff drop_final_newline_def
  by (metis append.assoc append_butlast_last_id butlast.simps(1))

lemma starts_with_hd: "starts_with p s \<Longrightarrow> p \<noteq> [] \<Longrightarrow> hd s = hd p"
  by (auto simp: starts_with_iff)

lemma exit_line_special:
  assumes "list_all ascii_digit ds"
  shows "\<not> connection_config (exit_line ds)" "\<not> interaction_contract u (exit_line ds)"
    "\<not> executor_not_registered (exit_line ds)" "\<not> terminated_word u (exit_line ds)"
    "\<not> any_prefix [''missing outputs'', ''missing required file''] (map lower_char (exit_line ds))"
proof -
  show "\<not> connection_config (exit_line ds)" "\<not> interaction_contract u (exit_line ds)"
    using exit_line_prefix [of "''connection '' @ quote" ds] exit_line_prefix [of "''Interaction ''" ds]
    by (simp_all add: connection_config_def interaction_contract_def Let_def)
  show "\<not> executor_not_registered (exit_line ds)"
    using exit_line_prefix [of "''Executor '' @ quote" ds] drop_final_newline_prefix
    by (auto simp: executor_not_registered_def Let_def)
  have "\<not> contains ''terminated'' (exit_line ds)"
    by (rule exit_line_contains [OF assms]) (simp add: all_markers_def)
  then show "\<not> terminated_word u (exit_line ds)"
    using terminated_word_contains unfolding terminated_word_def by (metis concat_code_points)
  have "lower_char CHR ''A'' = CHR ''a''" by code_simp
  then have "hd (map lower_char (exit_line ds)) = CHR ''a''"
    by (simp add: exit_line_def exited_prefix_def)
  then show "\<not> any_prefix [''missing outputs'', ''missing required file''] (map lower_char (exit_line ds))"
    using starts_with_hd by (fastforce simp: any_prefix_def)
qed

lemma first_rule_skip: "\<not> c \<Longrightarrow> first_rule ((c, r) # rs) z = first_rule rs z"
  by simp

lemma first_rule_take: "c \<Longrightarrow> first_rule ((c, r) # rs) z = r"
  by simp

lemma exit_line_rules:
  assumes "list_all ascii_digit ds"
  shows "first_rule (message_rules u code (Some (ds, True)) (exit_line ds)) z =
    (if code = Some 124 \<or> ds = ''124'' then tech ''timeout'' else (''unknown'', ''execution_error''))"
proof -
  note c = exit_line_contains [OF assms] and m = exit_line_markers [OF assms]
    and p = exit_line_any_prefix exit_line_prefix and sp = exit_line_special [OF assms]
  have ms: "\<not> any_marker source_missing_markers (exit_line ds)" "\<not> any_marker resource_limit_markers (exit_line ds)"
    "\<not> any_marker sqlite_markers (exit_line ds)" "\<not> any_marker execution_error_markers (exit_line ds)"
    "\<not> any_marker network_markers (exit_line ds)" "\<not> any_marker db_pool_markers (exit_line ds)"
    by (intro m; auto simp: all_markers_def)+
  have ct: "\<not> contains ''All transcription providers failed'' (exit_line ds)"
    "\<not> contains ''timed out'' (exit_line ds)" "\<not> contains ''Connection error'' (exit_line ds)"
    "\<not> contains ''HTTPError: 502'' (exit_line ds)" "\<not> contains ''CmsClientError'' (exit_line ds)"
    "\<not> contains ''CMS token'' (exit_line ds)" "\<not> contains ''config differs from the published skill lock'' (exit_line ds)"
    "\<not> contains ''download failed: /api/'' (exit_line ds)" "\<not> contains ''failed to unpack Agent result'' (exit_line ds)"
    by (rule c; simp add: all_markers_def)+
  have rr: "\<not> any_prefix review_rejected_markers (exit_line ds)"
    by (rule p(1)) (simp add: review_rejected_markers_def)
  show ?thesis
    unfolding message_rules_def
    by (simp add: rr ms ct sp p)
qed

lemma classify_crash:
  assumes "list_all ascii_digit ds" and "ds \<noteq> []"
  shows "classify_failure u code (exited_prefix @ ds @ CHR '':'' # t) =
    (if code = Some 124 \<or> ds = ''124'' then tech ''timeout'' else (''unknown'', ''execution_error''))"
  unfolding classify_failure_def process_exited_crash [OF assms]
  using exit_line_rules [OF assms(1)] by (simp add: exit_line_def)

section \<open>Properties\<close>

text \<open>
  The classification of an agent crash depends on the exit codes alone: whatever the
  captured stderr text after the colon says, it cannot turn the failure into a retryable one.
\<close>

theorem crash_text_irrelevant:
  assumes "list_all ascii_digit ds" and "ds \<noteq> []"
  shows "classify_failure u code (exited_prefix @ ds @ CHR '':'' # t) =
    (if code = Some 124 \<or> ds = ''124'' then tech ''timeout'' else (''unknown'', ''execution_error''))"
  by (rule classify_crash [OF assms])

theorem crash_text_irrelevant_witness:
  "classify_failure \<lparr>uc_digit = \<lambda>_. False, uc_word = \<lambda>_. False\<rparr> (Some 1) (exited_prefix @ ''1'' @ CHR '':'' # '' Connection error'') = (''unknown'', ''execution_error'')"
proof -
  have "list_all ascii_digit ''1''" by code_simp
  from crash_text_irrelevant [OF this, of "\<lparr>uc_digit = \<lambda>_. False, uc_word = \<lambda>_. False\<rparr>" "Some 1" "'' Connection error''"] show ?thesis by simp
qed

end
