(* ===== verification/Lease_Lifecycle.thy ===== *)
theory Lease_Lifecycle
  imports Lease_Claim Failure_Classification
begin

text \<open>
  The life of a lease after the claim (\<open>server/app/executors/\<close>: \<open>_lease_lifecycle.py\<close>,
  \<open>_lease_shards.py\<close>, \<open>_lease_transient_retry.py\<close>, \<open>_lease_expiry.py\<close>, the recovery half of
  \<open>_lease_write_paths.py\<close>, \<open>_lease_approval.py\<close>, \<open>_lease_config_failure.py\<close>,
  \<open>_failed_node_recording.py\<close>, \<open>_lease_write_gate.py\<close>). Each function is one transaction under
  the job-mutation lock. File promotion and path canonicalisation touch the file system only and
  are parameters (\<open>finish_env\<close>).
\<close>

section \<open>Results\<close>

record exec_result =
  er_status :: string
  er_exit :: int
  er_error :: string
  er_command :: "string list"
  er_log :: string
  er_run_dir :: string
  er_session_dir :: string
  er_session_ref :: string
  er_skill_version :: string
  er_skill :: string
  er_runner :: string
  er_category :: string
  er_detail :: string
  er_output :: string
  er_moves :: "(string \<times> string) list"

record finish_verdict =
  fv_applied :: bool
  fv_stale :: bool

text \<open>
  \<open>fe_promote\<close> is the promotion of the staged files, which moves them into place and returns the
  result to finish with; \<open>fe_paths\<close> gives the canonical log path, run and session directory of
  the result for a stored log path (a path outside the managed tree raises and rolls the
  transaction back, which leaves the database as it was).
\<close>

record finish_env =
  fe_now :: int
  fe_promote :: "exec_result \<Rightarrow> exec_result"
  fe_paths :: "exec_result \<Rightarrow> string \<Rightarrow> string \<times> string \<times> string"
  fe_unicode :: unicode_tables

definition classify_result :: "unicode_tables \<Rightarrow> exec_result \<Rightarrow> string \<times> string" where
  "classify_result u r =
     resolve_failure_fields u (er_status r) (Some (er_exit r)) (er_error r) (er_category r) (er_detail r)"

text \<open>
  \<open>promote_result_staged_moves_contained\<close>: a failed promotion has been rolled back; a completed
  result turns into a failed one and loses its run directory. \<open>None\<close> means the moves succeeded.
\<close>

definition contain_promotion :: "string option \<Rightarrow> exec_result \<Rightarrow> exec_result" where
  "contain_promotion failure r =
     (case failure of
        None \<Rightarrow> r
      | Some msg \<Rightarrow>
          if er_status r = ''completed''
          then r\<lparr>er_status := ''failed'', er_exit := 1,
                 er_error := ''failed to promote result files: '' @ msg, er_run_dir := []\<rparr>
          else r\<lparr>er_run_dir := []\<rparr>)"

section \<open>Heartbeat\<close>

definition active_lease :: "string \<Rightarrow> lease_row \<Rightarrow> bool" where
  "active_lease l r \<longleftrightarrow> le_id r = l \<and> le_status r = ''active''"

definition update_leases :: "(lease_row \<Rightarrow> bool) \<Rightarrow> (lease_row \<Rightarrow> lease_row) \<Rightarrow> db \<Rightarrow> db" where
  "update_leases p f s = s\<lparr>t_leases := update_where p f (t_leases s)\<rparr>"

definition update_runs :: "(run_row \<Rightarrow> bool) \<Rightarrow> (run_row \<Rightarrow> run_row) \<Rightarrow> db \<Rightarrow> db" where
  "update_runs p f s = s\<lparr>t_runs := update_where p f (t_runs s)\<rparr>"

definition heartbeat_lease :: "string \<Rightarrow> int \<Rightarrow> int \<Rightarrow> db \<Rightarrow> bool \<times> db" where
  "heartbeat_lease l ttl now s =
     (case lease_of s l of
        None \<Rightarrow> (False, s)
      | Some le \<Rightarrow>
          if le_status le \<noteq> ''active'' then (False, s)
          else (count_where (active_lease l) (t_leases s) > 0,
                update_leases (active_lease l)
                  (\<lambda>r. r\<lparr>le_heartbeat := now, le_expires := now + ttl * 1000000\<rparr>) s))"

section \<open>Finish\<close>

definition max_transient_attempts :: nat where
  "max_transient_attempts = 3"

definition failed_attempts :: "string \<Rightarrow> string \<Rightarrow> db \<Rightarrow> nat" where
  "failed_attempts job node s =
     count_where (\<lambda>r. nr_job r = job \<and> nr_node r = node \<and> nr_status r = ''failed'') (t_runs s)"

definition try_return_node_to_pending :: "lease_row \<Rightarrow> exec_result \<Rightarrow> string \<Rightarrow> string \<Rightarrow> db \<Rightarrow> db option" where
  "try_return_node_to_pending le r category detail s =
     (if er_status r = ''completed'' \<or> \<not> is_transient_retryable detail then None
      else if failed_attempts (le_job le) (le_node le) s \<ge> max_transient_attempts then None
      else Some (update_nodes (\<lambda>n. jn_job n = le_job le \<and> jn_node n = le_node le)
             (\<lambda>n. n\<lparr>jn_status := ''pending'', jn_error := er_error r, jn_finished := None,
                   jn_category := category, jn_detail := detail\<rparr>) s))"

definition finish_shard_execution :: "lease_row \<Rightarrow> exec_result \<Rightarrow> int \<Rightarrow> bool \<Rightarrow> db \<Rightarrow> db option" where
  "finish_shard_execution le r now stale s =
     (case shard_index_for_execution (le_job le) (le_node le) (le_execution le) s of
        None \<Rightarrow> None
      | Some i \<Rightarrow>
          (let status = (if er_status r = ''completed'' then ''completed'' else ''failed'');
               (aggregate, s1) = on_shard_finished (le_job le) (le_node le) i status
                 (if status = ''completed'' then er_output r else []) (er_error r) now s in
           Some (if aggregate \<in> {''completed'', ''failed''} \<and> \<not> stale
             then (let s2 = sync_job_status now (le_job le)
                     (update_nodes (node_match (le_job le) (le_node le) runnable_or_running)
                        (\<lambda>n. n\<lparr>jn_status := aggregate,
                             jn_error := failed_shard_error (le_job le) (le_node le) s1,
                             jn_finished := Some now\<rparr>) s1) in
                   if aggregate = ''completed'' then pause_job_on_target_completion (le_job le) (le_node le) now s2
                   else s2)
             else s1)))"

text \<open>The part of \<open>finish_lease\<close> that settles the lease and its run, whatever the epoch.\<close>

definition stored_log :: "int \<Rightarrow> db \<Rightarrow> string" where
  "stored_log rid s = (case find (\<lambda>r. nr_id r = rid) (t_runs s) of None \<Rightarrow> [] | Some r \<Rightarrow> nr_log r)"

definition settle_run :: "finish_env \<Rightarrow> lease_row \<Rightarrow> exec_result \<Rightarrow> db \<Rightarrow> db" where
  "settle_run env le r s =
     (let s1 = update_leases (\<lambda>l. le_id l = le_id le) (\<lambda>l. l\<lparr>le_status := ''released''\<rparr>) s;
          (lg, run_dir, session_dir) = fe_paths env r (stored_log (le_run le) s1);
          (category, detail) = classify_result (fe_unicode env) r;
          s2 = update_runs (\<lambda>n. nr_id n = le_run le)
                 (\<lambda>n. n\<lparr>nr_status := er_status r, nr_exit := Some (er_exit r), nr_error := er_error r,
                      nr_category := category, nr_detail := detail, nr_command := er_command r,
                      nr_log := lg, nr_run_dir := run_dir, nr_session_dir := session_dir,
                      nr_skill_version := er_skill_version r, nr_skill := er_skill r,
                      nr_finished := Some (fe_now env),
                      nr_runner := (if er_runner r \<noteq> [] then er_runner r else le_executor le)\<rparr>) s1 in
      if run_dir \<noteq> []
      then update_runs (\<lambda>n. nr_run_dir n = run_dir \<and> nr_id n \<noteq> le_run le)
             (\<lambda>n. n\<lparr>nr_run_dir := [], nr_session_dir := []\<rparr>) s2
      else s2)"

text \<open>A late finish does not promote; its run directory never existed on disk.\<close>

definition effective_result :: "finish_env \<Rightarrow> bool \<Rightarrow> exec_result \<Rightarrow> exec_result" where
  "effective_result env stale r =
     (if er_moves r = [] then r else if stale then r\<lparr>er_run_dir := []\<rparr> else fe_promote env r)"

definition flip_node :: "finish_env \<Rightarrow> lease_row \<Rightarrow> exec_result \<Rightarrow> db \<Rightarrow> db" where
  "flip_node env le r s =
     (let (category, detail) = classify_result (fe_unicode env) r in
      case try_return_node_to_pending le r category detail s of
        Some s1 \<Rightarrow> sync_job_status (fe_now env) (le_job le) s1
      | None \<Rightarrow>
          (let s1 = sync_job_status (fe_now env) (le_job le)
                 (update_nodes (\<lambda>n. jn_job n = le_job le \<and> jn_node n = le_node le)
                    (\<lambda>n. n\<lparr>jn_status := (if er_status r = ''completed'' then ''completed'' else ''failed''),
                         jn_error := er_error r, jn_finished := Some (fe_now env),
                         jn_category := category, jn_detail := detail\<rparr>) s) in
           if er_status r = ''completed''
           then pause_job_on_target_completion (le_job le) (le_node le) (fe_now env) s1 else s1))"

definition finish_lease :: "finish_env \<Rightarrow> string \<Rightarrow> exec_result \<Rightarrow> db \<Rightarrow> finish_verdict \<times> db" where
  "finish_lease env l result s =
     (case lease_of s l of
        None \<Rightarrow> (\<lparr>fv_applied = False, fv_stale = False\<rparr>, s)
      | Some le \<Rightarrow>
          if le_status le \<noteq> ''active'' then (\<lparr>fv_applied = False, fv_stale = False\<rparr>, s)
          else
            (let stale = (job_generation s (le_job le) \<noteq> Some (le_generation le));
                 r = effective_result env stale result;
                 s1 = settle_run env le r s in
             case finish_shard_execution le r (fe_now env) stale s1 of
               Some s2 \<Rightarrow> (\<lparr>fv_applied = True, fv_stale = stale\<rparr>, s2)
             | None \<Rightarrow>
                 if stale then (\<lparr>fv_applied = True, fv_stale = True\<rparr>, s1)
                 else (\<lparr>fv_applied = True, fv_stale = False\<rparr>, flip_node env le r s1)))"

text \<open>Zero shards: the node completes without an execution, if the epoch still matches.\<close>

definition complete_empty_shard_node :: "string \<Rightarrow> string \<Rightarrow> int \<Rightarrow> int \<Rightarrow> db \<Rightarrow> bool \<times> db" where
  "complete_empty_shard_node job node gen now s =
     (if job_generation s job \<noteq> Some gen then (False, s)
      else (let p = node_match job node queueable in
        if count_where p (t_nodes s) = 0 then (False, s)
        else (True, pause_job_on_target_completion job node now (sync_job_status now job
               (update_nodes p (\<lambda>n. n\<lparr>jn_status := ''completed'', jn_error := [], jn_finished := Some now\<rparr>) s)))))"

section \<open>Expiry\<close>

definition settle_expired :: "lease_row \<Rightarrow> int \<Rightarrow> db \<Rightarrow> db" where
  "settle_expired le now s =
     update_runs (\<lambda>n. nr_id n = le_run le)
       (\<lambda>n. n\<lparr>nr_status := ''failed'', nr_error := ''lease expired'', nr_finished := Some now\<rparr>)
     (update_leases (\<lambda>l. active_lease (le_id le) l \<and> le_expires l \<le> now) (\<lambda>l. l\<lparr>le_status := ''expired''\<rparr>) s)"

definition expire_flip_node :: "lease_row \<Rightarrow> int \<Rightarrow> db \<Rightarrow> db" where
  "expire_flip_node le now s =
     (let s1 = sync_job_status now (le_job le)
            (update_nodes (\<lambda>n. jn_job n = le_job le \<and> jn_node n = le_node le)
               (\<lambda>n. n\<lparr>jn_status := ''failed'', jn_stale_reason := [], jn_error := ''lease expired'',
                    jn_finished := Some now\<rparr>) s) in
      s1\<lparr>t_jobs := update_where (\<lambda>j. j_id j = le_job le \<and> j_status j \<noteq> ''failed'')
           (\<lambda>j. j\<lparr>j_status := ''failed'', j_updated := now\<rparr>) (t_jobs s1)\<rparr>)"

definition expire_lease_row :: "lease_row \<Rightarrow> int \<Rightarrow> db \<Rightarrow> bool \<times> db" where
  "expire_lease_row le now s =
     (let stale = (job_generation s (le_job le) \<noteq> Some (le_generation le)) in
      if count_where (\<lambda>l. active_lease (le_id le) l \<and> le_expires l \<le> now) (t_leases s) = 0 then (False, s)
      else (let s1 = settle_expired le now s in
        (True,
         case shard_index_for_execution (le_job le) (le_node le) (le_execution le) s1 of
           Some i \<Rightarrow>
             (let (aggregate, s2) = on_shard_finished (le_job le) (le_node le) i ''failed'' [] ''lease expired'' now s1 in
              if aggregate \<in> {''completed'', ''failed''} \<and> \<not> stale
              then sync_job_status now (le_job le)
                     (update_nodes (node_match (le_job le) (le_node le) runnable_or_running)
                        (\<lambda>n. n\<lparr>jn_status := aggregate, jn_stale_reason := [],
                             jn_error := failed_shard_error (le_job le) (le_node le) s2,
                             jn_finished := Some now\<rparr>) s2)
              else s2)
         | None \<Rightarrow> if stale then s1 else expire_flip_node le now s1)))"

text \<open>
  \<open>expire_stale_leases\<close>: the leases due at \<open>now\<close> that are not owned by the Agent broker, of
  existing jobs, in the order of (advisory lock key, job id).
\<close>

definition due_leases :: "int \<Rightarrow> db \<Rightarrow> lease_row list" where
  "due_leases now s = filter (\<lambda>l. le_status l = ''active'' \<and> le_expires l \<le> now
     \<and> \<not> starts_with ''agent:'' (le_executor l) \<and> job_of s (le_job l) \<noteq> None) (t_leases s)"

definition lock_order :: "(string \<Rightarrow> int) \<Rightarrow> ('a \<Rightarrow> string) \<Rightarrow> 'a list \<Rightarrow> 'a list" where
  "lock_order lock_key job xs = sort_key (\<lambda>x. lock_key (job x)) (sort_key job xs)"

definition expire_one :: "int \<Rightarrow> lease_row \<Rightarrow> string list \<times> db \<Rightarrow> string list \<times> db" where
  "expire_one now le st =
     (case expire_lease_row le now (snd st) of
        (True, s') \<Rightarrow> (fst st @ [le_id le], s') | (False, s') \<Rightarrow> (fst st, s'))"

definition expire_stale_leases :: "(string \<Rightarrow> int) \<Rightarrow> int \<Rightarrow> db \<Rightarrow> string list \<times> db" where
  "expire_stale_leases lock_key now s = fold (expire_one now) (lock_order lock_key le_job (due_leases now s)) ([], s)"

section \<open>Recovery of orphaned jobs\<close>

definition job_has_active_lease :: "string \<Rightarrow> db \<Rightarrow> bool" where
  "job_has_active_lease job s = exists_where (\<lambda>l. le_job l = job \<and> le_status l = ''active'') (t_leases s)"

definition recover_orphaned_job :: "string \<Rightarrow> int \<Rightarrow> db \<Rightarrow> bool \<times> db" where
  "recover_orphaned_job job now s =
     (case job_generation s job of
        None \<Rightarrow> (False, s)
      | Some gen \<Rightarrow>
          (let p = (\<lambda>n. jn_job n = job \<and> jn_status n = ''running'' \<and> jn_generation n = gen
                  \<and> \<not> job_has_active_lease job s);
               reset_keys = map jn_node (filter p (t_nodes s)) in
           if reset_keys = [] then
             (if job_has_active_lease job s then (False, s) else (True, sync_job_status now job s))
           else
             (let s1 = update_nodes p (\<lambda>n. n\<lparr>jn_status := ''pending'', jn_stale_reason := [], jn_error := [],
                         jn_started := None, jn_finished := None, jn_created := now\<rparr>) s;
                  s2 = delete_shards job reset_keys s1;
                  s3 = update_runs (\<lambda>r. nr_job r = job \<and> nr_status r = ''running'' \<and> \<not> job_has_active_lease job s2)
                         (\<lambda>r. r\<lparr>nr_status := ''failed'', nr_error := ''orphaned recovery'', nr_category := ''technical'',
                              nr_detail := ''worker_orphaned'', nr_finished := Some now\<rparr>) s2 in
              (True, sync_job_status now job s3))))"

definition orphaned_jobs :: "db \<Rightarrow> string list" where
  "orphaned_jobs s = map j_id (filter (\<lambda>j. j_status j = ''running'' \<and> \<not> job_has_active_lease (j_id j) s) (t_jobs s))"

definition recover_one :: "int \<Rightarrow> string \<Rightarrow> string list \<times> db \<Rightarrow> string list \<times> db" where
  "recover_one now job st =
     (case recover_orphaned_job job now (snd st) of
        (True, s') \<Rightarrow> (fst st @ [job], s') | (False, s') \<Rightarrow> (fst st, s'))"

definition recover_orphaned_running_jobs :: "(string \<Rightarrow> int) \<Rightarrow> int \<Rightarrow> db \<Rightarrow> string list \<times> db" where
  "recover_orphaned_running_jobs lock_key now s =
     fold (recover_one now) (lock_order lock_key (\<lambda>j. j) (orphaned_jobs s)) ([], s)"

section \<open>Approval park, configuration failure, write gate\<close>

definition park_awaiting_approval :: "string \<Rightarrow> string \<Rightarrow> int \<Rightarrow> int \<Rightarrow> db \<Rightarrow> bool \<times> db" where
  "park_awaiting_approval job node gen now s =
     (if job_generation s job \<noteq> Some gen then (False, s)
      else (let p = node_match job node queueable in
        if count_where p (t_nodes s) = 0 then (False, s)
        else (True, sync_job_status now job
               (update_nodes p (\<lambda>n. n\<lparr>jn_status := ''awaiting_approval'', jn_stale_reason := [], jn_error := [],
                    jn_started := Some now, jn_finished := None, jn_generation := gen\<rparr>) s))))"

definition record_failed_node ::
  "string \<Rightarrow> string \<Rightarrow> string \<Rightarrow> string \<times> string \<Rightarrow> string \<Rightarrow> int \<Rightarrow> db \<Rightarrow> (int \<times> db) option" where
  "record_failed_node job node err fl lg now s =
     (let p = node_match job node queueable in
      if count_where p (t_nodes s) = 0 then None
      else (let s1 = update_nodes p (\<lambda>n. n\<lparr>jn_status := ''failed'', jn_stale_reason := [], jn_error := err,
                       jn_finished := Some now, jn_category := fst fl, jn_detail := snd fl\<rparr>) s;
                rid = t_next_run s1 in
            Some (rid, s1\<lparr>t_next_run := rid + 1, t_runs := t_runs s1 @
              [\<lparr>nr_id = rid, nr_job = job, nr_node = node, nr_status = ''failed'', nr_exit = None, nr_error = err,
                nr_category = fst fl, nr_detail = snd fl, nr_command = [], nr_log = lg, nr_run_dir = [],
                nr_session_dir = [], nr_skill_version = [], nr_skill = [], nr_runner = [], nr_config = [],
                nr_definition = [], nr_started = Some now, nr_finished = Some now, nr_generation = 0\<rparr>]\<rparr>)))"

definition fail_without_lease ::
  "unicode_tables \<Rightarrow> string \<Rightarrow> string \<Rightarrow> int \<Rightarrow> string \<Rightarrow> string \<Rightarrow> int \<Rightarrow> db \<Rightarrow> int option \<times> db" where
  "fail_without_lease u job node gen err lg now s =
     (if job_generation s job \<noteq> Some gen then (None, s)
      else (case record_failed_node job node err (resolve_failure_fields u ''failed'' None err [] []) lg now s of
              None \<Rightarrow> (None, s)
            | Some (rid, s1) \<Rightarrow> (Some rid, sync_job_status now job s1)))"

text \<open>The write gate of artifacts: the lease is the job's, active, and of the current epoch.\<close>

definition lease_artifact_write_current :: "string \<Rightarrow> string \<Rightarrow> db \<Rightarrow> bool" where
  "lease_artifact_write_current l job s =
     (case job_generation s job of
        None \<Rightarrow> False
      | Some current \<Rightarrow>
          (case find (\<lambda>r. le_id r = l \<and> le_job r = job \<and> le_status r = ''active'') (t_leases s) of
             None \<Rightarrow> False | Some r \<Rightarrow> le_generation r = current))"

end
