(* ===== verification/Job_Mutations.thy ===== *)
theory Job_Mutations
  imports Lease_Lifecycle
begin

text \<open>
  The job mutations of the operator (\<open>server/app/jobs/\<close>: \<open>atomic_mutations.py\<close>,
  \<open>run_to_mutation.py\<close>, \<open>job_state_mutations.py\<close>, \<open>execution_control.py\<close>,
  \<open>execution_pause.py\<close>, \<open>artifact_row_retire.py\<close>, and the queued-request cancellation of
  \<open>agent_broker/manifest_trim.py\<close>): rerun, run-to, resume, pause, delete, replay copies. The
  mutations that reset nodes bump the execution epoch exactly once.
\<close>

section \<open>Errors and guards\<close>

datatype mutation_error =
    Conflict string string
  | UnknownNode string string
  | JobNotFound string
  | BadMode string
  | MissingTarget
  | EmptyClosure

text \<open>\<open>lease_guarded_mutation\<close>: the guard of a mutation, then its body in the same transaction.\<close>

definition lease_guarded :: "string \<Rightarrow> int \<Rightarrow> bool \<Rightarrow> (db \<Rightarrow> mutation_error + 'a \<times> db) \<Rightarrow> db \<Rightarrow> mutation_error + 'a \<times> db" where
  "lease_guarded job now reject_running body s =
     guardE (exists_where (\<lambda>l. le_job l = job \<and> live_lease now l) (t_leases s))
       (Conflict ''busy'' ''Job has an active executor lease'')
     (guardE (reject_running \<and> exists_where (node_in job ''running'') (t_nodes s))
       (Conflict ''busy'' ''Job has running nodes'')
     (body s))"

definition retire_artifact_rows_by_name :: "string \<Rightarrow> string list \<Rightarrow> db \<Rightarrow> artifact_row list \<times> db" where
  "retire_artifact_rows_by_name job names s =
     (let p = (\<lambda>r. ar_job r = job \<and> ar_name r \<in> set names) in
      (filter p (t_artifacts s), s\<lparr>t_artifacts := delete_where p (t_artifacts s)\<rparr>))"

text \<open>\<open>cancel_queued_sql\<close>: queued agent requests of the nodes are cancelled and trimmed.\<close>

definition cancel_queued :: "string \<Rightarrow> string list \<Rightarrow> int \<Rightarrow> db \<Rightarrow> db" where
  "cancel_queued job nodes now s =
     s\<lparr>t_requests := update_where (\<lambda>r. rq_job r = job \<and> rq_node r \<in> set nodes \<and> rq_state r = ''queued'')
        (\<lambda>r. r\<lparr>rq_state := ''cancelled'', rq_finished := Some now, rq_trimmed := True\<rparr>) (t_requests s)\<rparr>"

definition cancel_queued_requests_for_job :: "string \<Rightarrow> int \<Rightarrow> db \<Rightarrow> db" where
  "cancel_queued_requests_for_job job now s =
     s\<lparr>t_requests := update_where (\<lambda>r. rq_job r = job \<and> rq_state r = ''queued'')
        (\<lambda>r. r\<lparr>rq_state := ''cancelled'', rq_finished := Some now, rq_trimmed := True\<rparr>) (t_requests s)\<rparr>"

section \<open>Rerun\<close>

definition rerun_descendants :: "string list \<Rightarrow> (string, string list) dict \<Rightarrow> string list" where
  "rerun_descendants targets downstream =
     dedup (filter (\<lambda>d. d \<notin> set targets) (concat (map (dget_default [] downstream) targets)))"

definition at_node :: "string \<Rightarrow> string \<Rightarrow> node_row \<Rightarrow> bool" where
  "at_node job node n \<longleftrightarrow> jn_job n = job \<and> jn_node n = node"

definition reset_target :: "string \<Rightarrow> int \<Rightarrow> int \<Rightarrow> string \<Rightarrow> db \<Rightarrow> mutation_error + db" where
  "reset_target job gen now node s =
     guardE (count_where (at_node job node) (t_nodes s) = 0) (UnknownNode job node)
     (Inr (update_nodes (at_node job node)
        (\<lambda>n. n\<lparr>jn_status := ''pending'', jn_stale_reason := [], jn_error := [], jn_category := [], jn_detail := [],
             jn_started := None, jn_finished := None, jn_created := now, jn_generation := gen\<rparr>) s))"

definition stale_descendant :: "string \<Rightarrow> int \<Rightarrow> int \<Rightarrow> string \<Rightarrow> db \<Rightarrow> db" where
  "stale_descendant job gen now node s =
     update_nodes (at_node job node)
       (\<lambda>n. n\<lparr>jn_status := ''stale'', jn_stale_reason := ''upstream rerun'', jn_error := [], jn_category := [],
            jn_detail := [], jn_created := now, jn_generation := gen\<rparr>) s"

definition clear_run_dirs :: "string \<Rightarrow> string list \<Rightarrow> db \<Rightarrow> db" where
  "clear_run_dirs job nodes s =
     update_runs (\<lambda>r. nr_job r = job \<and> nr_node r \<in> set nodes) (\<lambda>r. r\<lparr>nr_run_dir := [], nr_session_dir := []\<rparr>) s"

text \<open>The bump: one \<open>update ... returning execution_generation\<close>.\<close>

definition bump_generation :: "(job_row \<Rightarrow> job_row) \<Rightarrow> string \<Rightarrow> int \<Rightarrow> db \<Rightarrow> mutation_error + int \<times> db" where
  "bump_generation f job now s =
     (let s' = update_job job (\<lambda>j. (f j)\<lparr>j_generation := j_generation j + 1, j_updated := now\<rparr>) s in
      case job_generation s' job of None \<Rightarrow> Inl (JobNotFound job) | Some g \<Rightarrow> Inr (g, s'))"

definition mark_nodes_for_rerun ::
  "string \<Rightarrow> string list \<Rightarrow> (string, string list) dict \<Rightarrow> string list \<Rightarrow> int \<Rightarrow> db \<Rightarrow>
   mutation_error + artifact_row list \<times> db" where
  "mark_nodes_for_rerun job targets downstream staged now s =
     (let ds = rerun_descendants targets downstream;
          affected = dedup (targets @ ds);
          (retired, s1) = retire_artifact_rows_by_name job staged s;
          s2 = delete_shards job affected (clear_run_dirs job affected s1) in
      bindE (bump_generation (\<lambda>j. j\<lparr>j_status := ''queued'', j_error := [], j_packed := False\<rparr>) job now s2) (\<lambda>(gen, s3).
      bindE (foldE (reset_target job gen now) targets s3) (\<lambda>s4.
      Inr (retired, cancel_queued job affected now (fold (stale_descendant job gen now) ds s4)))))"

section \<open>Run-to\<close>

definition run_to_control :: "string \<Rightarrow> job_row \<Rightarrow> job_row" where
  "run_to_control target j = j\<lparr>j_status := ''queued'', j_mode := ''until_node'', j_target := Some target,
     j_paused := False, j_pause_reason := [], j_error := []\<rparr>"

text \<open>\<open>set_run_to_control\<close> without and with the bump.\<close>

definition set_run_to_control :: "string \<Rightarrow> string \<Rightarrow> int \<Rightarrow> db \<Rightarrow> db" where
  "set_run_to_control job target now s = update_job job (\<lambda>j. (run_to_control target j)\<lparr>j_updated := now\<rparr>) s"

definition set_run_to_control_bump :: "string \<Rightarrow> string \<Rightarrow> int \<Rightarrow> db \<Rightarrow> mutation_error + int \<times> db" where
  "set_run_to_control_bump job target now s = bump_generation (run_to_control target) job now s"

definition node_status_of :: "string \<Rightarrow> db \<Rightarrow> string \<Rightarrow> string option" where
  "node_status_of job s node = map_option jn_status (node_of s job node)"

text \<open>The default reset set: the nodes of the closure that are not completed.\<close>

definition default_reset_nodes :: "string \<Rightarrow> string list \<Rightarrow> db \<Rightarrow> string list" where
  "default_reset_nodes job closure s = filter (\<lambda>k. node_status_of job s k \<noteq> Some ''completed'') closure"

definition apply_run_to ::
  "string \<Rightarrow> string \<Rightarrow> string list \<Rightarrow> string list option \<Rightarrow> string list \<Rightarrow> int \<Rightarrow> db \<Rightarrow>
   mutation_error + artifact_row list \<times> db" where
  "apply_run_to job target closure reset staged now s =
     (case node_of s job target of
        None \<Rightarrow> Inl (UnknownNode job target)
      | Some t \<Rightarrow>
          guardE (jn_status t = ''completed'') (Conflict ''target_already_completed'' ''Target node is already completed'')
          (let reset_nodes = (case reset of Some r \<Rightarrow> r | None \<Rightarrow> default_reset_nodes job closure s) in
           guardE (closure = []) EmptyClosure
           (let (retired, s1) = (if staged \<noteq> [] \<and> reset_nodes \<noteq> [] then retire_artifact_rows_by_name job staged s else ([], s)) in
            bindE (set_run_to_control_bump job target now s1) (\<lambda>(gen, s2).
            let s3 = update_nodes (\<lambda>n. jn_job n = job \<and> jn_node n \<in> set reset_nodes \<and> jn_node n \<in> set closure)
                  (\<lambda>n. n\<lparr>jn_status := ''pending'', jn_stale_reason := [], jn_error := [], jn_started := None,
                       jn_finished := None, jn_created := now, jn_generation := gen\<rparr>) s2;
                s4 = update_nodes (\<lambda>n. jn_job n = job \<and> jn_node n \<in> set reset_nodes \<and> jn_node n \<notin> set closure)
                  (\<lambda>n. n\<lparr>jn_status := ''stale'', jn_stale_reason := ''shared-name producer rerun'', jn_error := [],
                       jn_created := now, jn_generation := gen\<rparr>) s3 in
            Inr (retired, delete_shards job reset_nodes (cancel_queued job (closure @ reset_nodes) now s4))))))"

definition apply_run_to_atomic :: "string \<Rightarrow> string \<Rightarrow> string list \<Rightarrow> int \<Rightarrow> db \<Rightarrow> mutation_error + artifact_row list \<times> db" where
  "apply_run_to_atomic job target closure now s =
     lease_guarded job now True (apply_run_to job target closure None [] now) s"

section \<open>Mutations without a reset\<close>

definition replay_completed :: "string \<Rightarrow> int \<Rightarrow> string \<Rightarrow> db \<Rightarrow> mutation_error + db" where
  "replay_completed job now node s =
     (let p = node_match job node [''pending''] in
      guardE (count_where p (t_nodes s) = 0) (UnknownNode job node)
      (Inr (update_nodes p (\<lambda>n. n\<lparr>jn_status := ''completed'', jn_finished := Some now\<rparr>) s)))"

definition prepare_replay_copy :: "string \<Rightarrow> string list \<Rightarrow> string list \<Rightarrow> int \<Rightarrow> db \<Rightarrow> mutation_error + db" where
  "prepare_replay_copy job completed skipped now s =
     bindE (foldE (replay_completed job now) completed s) (\<lambda>s1.
     Inr (update_nodes (\<lambda>n. jn_job n = job \<and> jn_node n \<in> set skipped \<and> jn_status n \<in> set queueable)
       (\<lambda>n. n\<lparr>jn_status := ''not_applicable'', jn_stale_reason := ''quality replay copy'', jn_finished := Some now\<rparr>) s1))"

text \<open>Deleting the job row cascades to every table that references it.\<close>

definition delete_job :: "string \<Rightarrow> db \<Rightarrow> mutation_error + db" where
  "delete_job job s =
     guardE (job_of s job = None) (JobNotFound job)
     (Inr (s\<lparr>t_jobs := delete_where (\<lambda>r. j_id r = job) (t_jobs s),
             t_nodes := delete_where (\<lambda>r. jn_job r = job) (t_nodes s),
             t_runs := delete_where (\<lambda>r. nr_job r = job) (t_runs s),
             t_leases := delete_where (\<lambda>r. le_job r = job) (t_leases s),
             t_shards := delete_where (\<lambda>r. sd_job r = job) (t_shards s),
             t_artifacts := delete_where (\<lambda>r. ar_job r = job) (t_artifacts s),
             t_requests := delete_where (\<lambda>r. rq_job r = job) (t_requests s)\<rparr>))"

definition list_node_run_logs :: "string \<Rightarrow> db \<Rightarrow> (string \<times> string) list" where
  "list_node_run_logs job s =
     map (\<lambda>r. (nr_node r, nr_log r)) (sort_key nr_id (filter (\<lambda>r. nr_job r = job) (t_runs s)))"

text \<open>
  \<open>resume_job\<close> takes no lock: another transaction may commit between its read (in \<open>s0\<close>) and its
  guarded update (in \<open>s\<close>). The update matches only a job that is still paused for the reason read.
\<close>

definition resume_update :: "string \<Rightarrow> string \<Rightarrow> int \<Rightarrow> db \<Rightarrow> mutation_error + db" where
  "resume_update job reason now s =
     (let p = (\<lambda>j. j_id j = job \<and> j_status j = ''paused'' \<and> j_pause_reason j = reason) in
      if count_where p (t_jobs s) = 0
      then (case job_of s job of None \<Rightarrow> Inl (JobNotFound job) | Some j \<Rightarrow> Inl (Conflict ''not_resumable'' (j_status j)))
      else Inr (s\<lparr>t_jobs := update_where p (\<lambda>j.
        if reason = ''target_reached''
        then j\<lparr>j_status := ''queued'', j_paused := False, j_mode := ''full'', j_target := None,
               j_pause_reason := [], j_updated := now\<rparr>
        else j\<lparr>j_status := ''queued'', j_paused := False, j_pause_reason := [], j_updated := now\<rparr>) (t_jobs s)\<rparr>))"

definition resume_job_between :: "string \<Rightarrow> int \<Rightarrow> db \<Rightarrow> db \<Rightarrow> mutation_error + db" where
  "resume_job_between job now s0 s =
     (case job_of s0 job of
        None \<Rightarrow> Inl (JobNotFound job)
      | Some j \<Rightarrow>
          guardE (j_status j \<noteq> ''paused'') (Conflict ''not_resumable'' (j_status j))
          (resume_update job (j_pause_reason j) now s))"

definition resume_job :: "string \<Rightarrow> int \<Rightarrow> db \<Rightarrow> mutation_error + db" where
  "resume_job job now s = resume_job_between job now s s"

text \<open>\<open>set_job_execution_mode\<close>, \<open>set_job_execution_target\<close>, \<open>clear_job_execution_target\<close>, \<open>pause_job\<close>.\<close>

definition require_job :: "string \<Rightarrow> db \<Rightarrow> db \<Rightarrow> mutation_error + db" where
  "require_job job s s' = guardE (job_of s job = None) (JobNotFound job) (Inr s')"

definition set_job_execution_mode :: "string \<Rightarrow> string \<Rightarrow> string option \<Rightarrow> int \<Rightarrow> db \<Rightarrow> mutation_error + db" where
  "set_job_execution_mode job mode target now s =
     (let clean = strip mode;
          t = (case target of None \<Rightarrow> None | Some x \<Rightarrow> if strip x = [] then None else Some (strip x)) in
      guardE (clean \<notin> {''full'', ''until_node''}) (BadMode mode)
      (guardE (clean = ''until_node'' \<and> t = None) MissingTarget
      (require_job job s (update_job job (\<lambda>j. j\<lparr>j_mode := clean, j_target := t, j_updated := now\<rparr>) s))))"

definition set_job_execution_target :: "string \<Rightarrow> string \<Rightarrow> int \<Rightarrow> db \<Rightarrow> mutation_error + db" where
  "set_job_execution_target job target now s =
     (let t = strip target in
      guardE (t = []) MissingTarget
      (guardE (job_of s job = None) (JobNotFound job)
      (guardE (node_of s job t = None) (UnknownNode job t)
      (set_job_execution_mode job ''until_node'' (Some t) now s))))"

definition clear_job_execution_target :: "string \<Rightarrow> int \<Rightarrow> db \<Rightarrow> mutation_error + db" where
  "clear_job_execution_target job now s =
     require_job job s (update_job job (\<lambda>j. j\<lparr>j_mode := ''full'', j_target := None, j_updated := now\<rparr>) s)"

definition pause_job :: "string \<Rightarrow> string \<Rightarrow> int \<Rightarrow> db \<Rightarrow> mutation_error + db" where
  "pause_job job reason now s =
     require_job job s (update_job job (\<lambda>j. j\<lparr>j_paused := True, j_pause_reason := strip reason, j_updated := now\<rparr>) s)"

definition mark_execution_paused :: "string \<Rightarrow> string \<Rightarrow> int \<Rightarrow> db \<Rightarrow> bool \<times> db" where
  "mark_execution_paused job reason now s =
     (let p = (\<lambda>j. j_id j = job \<and> \<not> j_paused j \<and> j_status j \<notin> set terminal_job_statuses) in
      (count_where p (t_jobs s) > 0,
       s\<lparr>t_jobs := update_where p (\<lambda>j. j\<lparr>j_paused := True, j_pause_reason := strip reason, j_updated := now\<rparr>) (t_jobs s)\<rparr>))"

definition clear_execution_paused :: "string \<Rightarrow> int \<Rightarrow> db \<Rightarrow> bool \<times> db" where
  "clear_execution_paused job now s =
     (let p = (\<lambda>j. j_id j = job \<and> j_paused j \<and> j_pause_reason j \<noteq> ''target_reached'') in
      (count_where p (t_jobs s) > 0,
       s\<lparr>t_jobs := update_where p (\<lambda>j. j\<lparr>j_paused := False, j_pause_reason := [],
            j_status := (if j_status j = ''paused'' then ''queued'' else j_status j), j_updated := now\<rparr>) (t_jobs s)\<rparr>))"

section \<open>Effect on the epoch\<close>

lemma job_generation_eq: "t_jobs s = t_jobs s' \<Longrightarrow> job_generation s job = job_generation s' job"
  by (simp add: job_generation_def job_of_def)

lemma bump_generation_Inr:
  assumes "bump_generation f job now s = Inr (g, s')" and "\<And>j. j_id (f j) = j_id j"
  shows "job_generation s job = Some (g - 1)" "job_generation s' job = Some g"
    "k \<noteq> job \<Longrightarrow> job_generation s' k = job_generation s k"
    "t_nodes s' = t_nodes s" "t_leases s' = t_leases s"
  using assms
  by (auto simp: bump_generation_def Let_def job_generation_def job_of_update_job split: option.splits)

lemma reset_target_tables:
  "reset_target job gen now node s = Inr s' \<Longrightarrow> t_jobs s' = t_jobs s \<and> t_leases s' = t_leases s"
  by (auto simp: reset_target_def err_simps)

lemma foldE_reset_tables:
  "foldE (reset_target job gen now) nodes s = Inr s' \<Longrightarrow> t_jobs s' = t_jobs s \<and> t_leases s' = t_leases s"
  by (induction nodes arbitrary: s) (auto simp: err_simps dest: reset_target_tables)

lemma stale_descendant_tables [simp]:
  "t_jobs (stale_descendant job gen now node s) = t_jobs s"
  "t_leases (stale_descendant job gen now node s) = t_leases s"
  by (simp_all add: stale_descendant_def)

lemma fold_stale_tables [simp]:
  "t_jobs (fold (stale_descendant job gen now) ds s) = t_jobs s"
  "t_leases (fold (stale_descendant job gen now) ds s) = t_leases s"
  by (induction ds arbitrary: s) simp_all

lemma cancel_queued_tables [simp]:
  "t_jobs (cancel_queued job nodes now s) = t_jobs s" "t_nodes (cancel_queued job nodes now s) = t_nodes s"
  "t_leases (cancel_queued job nodes now s) = t_leases s"
  by (simp_all add: cancel_queued_def)

lemma delete_shards_tables [simp]:
  "t_jobs (delete_shards job nodes s) = t_jobs s" "t_nodes (delete_shards job nodes s) = t_nodes s"
  "t_leases (delete_shards job nodes s) = t_leases s" "t_runs (delete_shards job nodes s) = t_runs s"
  by (simp_all add: delete_shards_def)

lemma clear_run_dirs_tables [simp]:
  "t_jobs (clear_run_dirs job nodes s) = t_jobs s" "t_nodes (clear_run_dirs job nodes s) = t_nodes s"
  "t_leases (clear_run_dirs job nodes s) = t_leases s"
  by (simp_all add: clear_run_dirs_def update_runs_def)

lemma retire_tables:
  "retire_artifact_rows_by_name job names s = (retired, s1) \<Longrightarrow>
    t_jobs s1 = t_jobs s \<and> t_nodes s1 = t_nodes s \<and> t_leases s1 = t_leases s"
  by (auto simp: retire_artifact_rows_by_name_def Let_def)

lemma mark_nodes_for_rerun_stages:
  assumes "mark_nodes_for_rerun job targets downstream staged now s = Inr (rows, s')"
  shows "\<exists>s2 gen s3 s4. bump_generation (\<lambda>j. j\<lparr>j_status := ''queued'', j_error := [], j_packed := False\<rparr>) job now s2 = Inr (gen, s3)
    \<and> t_jobs s2 = t_jobs s \<and> t_nodes s2 = t_nodes s \<and> t_leases s2 = t_leases s
    \<and> foldE (reset_target job gen now) targets s3 = Inr s4
    \<and> s' = cancel_queued job (dedup (targets @ rerun_descendants targets downstream)) now
        (fold (stale_descendant job gen now) (rerun_descendants targets downstream) s4)"
proof -
  obtain retired s1 where r: "retire_artifact_rows_by_name job staged s = (retired, s1)" by force
  let ?s2 = "delete_shards job (dedup (targets @ rerun_descendants targets downstream))
      (clear_run_dirs job (dedup (targets @ rerun_descendants targets downstream)) s1)"
  have "t_jobs ?s2 = t_jobs s \<and> t_nodes ?s2 = t_nodes s \<and> t_leases ?s2 = t_leases s"
    using retire_tables [OF r] by simp
  moreover from assms obtain gen s3 s4 where
    "bump_generation (\<lambda>j. j\<lparr>j_status := ''queued'', j_error := [], j_packed := False\<rparr>) job now ?s2 = Inr (gen, s3)"
    "foldE (reset_target job gen now) targets s3 = Inr s4"
    "s' = cancel_queued job (dedup (targets @ rerun_descendants targets downstream)) now
        (fold (stale_descendant job gen now) (rerun_descendants targets downstream) s4)"
    unfolding mark_nodes_for_rerun_def Let_def r by (auto simp: err_simps)
  ultimately show ?thesis by blast
qed

lemma rerun_bumps_once:
  assumes "mark_nodes_for_rerun job targets downstream staged now s = Inr (rows, s')"
    and "job_generation s job = Some g"
  shows "job_generation s' job = Some (g + 1) \<and> (\<forall>k. k \<noteq> job \<longrightarrow> job_generation s' k = job_generation s k)
    \<and> t_leases s' = t_leases s"
proof -
  from mark_nodes_for_rerun_stages [OF assms(1)] obtain s2 gen s3 s4 where
    b: "bump_generation (\<lambda>j. j\<lparr>j_status := ''queued'', j_error := [], j_packed := False\<rparr>) job now s2 = Inr (gen, s3)"
    and s2: "t_jobs s2 = t_jobs s" "t_leases s2 = t_leases s"
    and f: "foldE (reset_target job gen now) targets s3 = Inr s4"
    and s': "s' = cancel_queued job (dedup (targets @ rerun_descendants targets downstream)) now
        (fold (stale_descendant job gen now) (rerun_descendants targets downstream) s4)" by blast
  note bg = bump_generation_Inr [OF b, simplified]
  have j: "t_jobs s' = t_jobs s3" "t_leases s' = t_leases s"
    using foldE_reset_tables [OF f] bg(5) s2 by (simp_all add: s')
  have "gen = g + 1" using bg(1) assms(2) job_generation_eq [OF s2(1), of job] by simp
  then show ?thesis
    using bg(2,3) j job_generation_eq [OF j(1)] job_generation_eq [OF s2(1)] by auto
qed

end
