(* ===== verification/Lease_Safety.thy ===== *)
theory Lease_Safety
  imports Job_Mutations Workflow_Scheduler
begin

text \<open>
  Safety of the lease protocol (EXEC-GENERATION-001). First the interface of late writers: a
  write that carries an old epoch leaves the jobs and nodes alone, stated as a locale and
  interpreted on the six late writers of the model. Then the transition system of the lease
  and mutation transactions with its invariant: a node has at most one active lease of the
  current epoch, and that node is running.
\<close>

section \<open>Late writers\<close>

locale late_writers =
  fixes view :: "'s \<Rightarrow> 'v" and act :: "'w \<Rightarrow> 's \<Rightarrow> 's" and stale :: "'w \<Rightarrow> 's \<Rightarrow> bool"
  assumes stale_view: "stale w s \<Longrightarrow> view (act w s) = view s"
    and stale_stays: "stale w s \<Longrightarrow> stale w' s \<Longrightarrow> stale w' (act w s)"
begin

lemma stale_run: "\<forall>w \<in> set ws. stale w s \<Longrightarrow> view (fold act ws s) = view s"
proof (induction ws arbitrary: s)
  case (Cons w ws)
  then have "\<forall>w' \<in> set ws. stale w' (act w s)" using stale_stays by simp
  with Cons show ?case using stale_view by simp
qed simp

end

datatype late_write =
    LateClaim claim_request claim_env
  | LateFinish finish_env string exec_result
  | LateExpire lease_row int
  | LatePark string string int int
  | LateFail unicode_tables string string int string string int
  | LateEmpty string string int int

fun late_act :: "late_write \<Rightarrow> db \<Rightarrow> db" where
  "late_act (LateClaim r ev) s = (case try_claim r ev s of Inl e \<Rightarrow> s | Inr (c, s') \<Rightarrow> s')"
| "late_act (LateFinish env l r) s = snd (finish_lease env l r s)"
| "late_act (LateExpire le now) s = snd (expire_lease_row le now s)"
| "late_act (LatePark job node gen now) s = snd (park_awaiting_approval job node gen now s)"
| "late_act (LateFail u job node gen err lg now) s = snd (fail_without_lease u job node gen err lg now s)"
| "late_act (LateEmpty job node gen now) s = snd (complete_empty_shard_node job node gen now s)"

text \<open>The epoch the writer carries is not the epoch of its job (or it lost its lease).\<close>

fun late_stale :: "late_write \<Rightarrow> db \<Rightarrow> bool" where
  "late_stale (LateClaim r ev) s = (job_generation s (cr_job r) \<noteq> Some (cr_generation r))"
| "late_stale (LateFinish env l r) s =
     (case lease_of s l of None \<Rightarrow> True
      | Some le \<Rightarrow> le_status le \<noteq> ''active'' \<or> job_generation s (le_job le) \<noteq> Some (le_generation le))"
| "late_stale (LateExpire le now) s = (job_generation s (le_job le) \<noteq> Some (le_generation le))"
| "late_stale (LatePark job node gen now) s = (job_generation s job \<noteq> Some gen)"
| "late_stale (LateFail u job node gen err lg now) s = (job_generation s job \<noteq> Some gen)"
| "late_stale (LateEmpty job node gen now) s = (job_generation s job \<noteq> Some gen)"

definition job_view :: "db \<Rightarrow> job_row list \<times> node_row list" where
  "job_view s = (t_jobs s, t_nodes s)"

lemma update_leases_tables [simp]:
  "t_jobs (update_leases p f s) = t_jobs s" "t_nodes (update_leases p f s) = t_nodes s"
  "t_runs (update_leases p f s) = t_runs s" "t_shards (update_leases p f s) = t_shards s"
  "t_leases (update_leases p f s) = update_where p f (t_leases s)"
  by (simp_all add: update_leases_def)

lemma update_runs_tables [simp]:
  "t_jobs (update_runs p f s) = t_jobs s" "t_nodes (update_runs p f s) = t_nodes s"
  "t_leases (update_runs p f s) = t_leases s" "t_shards (update_runs p f s) = t_shards s"
  by (simp_all add: update_runs_def)

lemma settle_run_tables [simp]:
  "t_jobs (settle_run env le r s) = t_jobs s" "t_nodes (settle_run env le r s) = t_nodes s"
  "t_shards (settle_run env le r s) = t_shards s"
  "t_leases (settle_run env le r s) =
    update_where (\<lambda>l. le_id l = le_id le) (\<lambda>l. l\<lparr>le_status := ''released''\<rparr>) (t_leases s)"
  by (simp_all add: settle_run_def Let_def split: prod.splits)

lemma settle_expired_tables [simp]:
  "t_jobs (settle_expired le now s) = t_jobs s" "t_nodes (settle_expired le now s) = t_nodes s"
  "t_shards (settle_expired le now s) = t_shards s"
  "t_leases (settle_expired le now s) =
    update_where (\<lambda>l. active_lease (le_id le) l \<and> le_expires l \<le> now) (\<lambda>l. l\<lparr>le_status := ''expired''\<rparr>) (t_leases s)"
  by (simp_all add: settle_expired_def)

lemma finish_shard_stale_view:
  "finish_shard_execution le r now True s = Some s' \<Longrightarrow>
    t_jobs s' = t_jobs s \<and> t_nodes s' = t_nodes s \<and> t_leases s' = t_leases s"
  by (auto simp: finish_shard_execution_def Let_def split_beta split: option.splits)

lemma claim_stale: "job_generation s (cr_job r) \<noteq> Some (cr_generation r) \<Longrightarrow> claim_lease r ev s = Inr None"
  by (auto simp: claim_lease_def job_generation_def split: option.splits)

lemma finish_stale_view:
  assumes "late_stale (LateFinish env l r) s"
  shows "job_view (snd (finish_lease env l r s)) = job_view s"
proof (cases "lease_of s l")
  case None
  then show ?thesis by (simp add: finish_lease_def)
next
  case (Some le)
  with assms show ?thesis
    by (auto simp: finish_lease_def Let_def job_view_def dest: finish_shard_stale_view split: option.splits)
qed

lemma expire_stale_view:
  assumes "job_generation s (le_job le) \<noteq> Some (le_generation le)"
  shows "job_view (snd (expire_lease_row le now s)) = job_view s"
  using assms by (auto simp: expire_lease_row_def Let_def job_view_def split_beta split: option.splits)

lemma expire_stale_state:
  assumes "job_generation s (le_job le) \<noteq> Some (le_generation le)"
  shows "t_leases (snd (expire_lease_row le now s)) = t_leases s
    \<or> t_leases (snd (expire_lease_row le now s)) = t_leases (settle_expired le now s)"
proof (cases "count_where (\<lambda>l. active_lease (le_id le) l \<and> le_expires l \<le> now) (t_leases s) = 0")
  case True
  then show ?thesis by (simp add: expire_lease_row_def)
next
  case False
  show ?thesis
    using assms False unfolding expire_lease_row_def Let_def
    by (cases "shard_index_for_execution (le_job le) (le_node le) (le_execution le) (settle_expired le now s)")
      (simp_all add: split_beta del: settle_expired_tables)
qed

text \<open>Leases keep their identity: a late write changes at most the status of a lease.\<close>

definition lease_ident :: "lease_row \<Rightarrow> string \<times> string \<times> int" where
  "lease_ident l = (le_id l, le_job l, le_generation l)"

definition lease_after :: "lease_row \<Rightarrow> lease_row \<Rightarrow> bool" where
  "lease_after l l' \<longleftrightarrow> lease_ident l' = lease_ident l \<and> (le_status l \<noteq> ''active'' \<longrightarrow> le_status l' \<noteq> ''active'')"

lemma find_lease_after:
  assumes "list_all2 lease_after ls ls'"
  shows "rel_option lease_after (find (\<lambda>l. le_id l = k) ls) (find (\<lambda>l. le_id l = k) ls')"
  using assms by (induction rule: list_all2_induct) (auto simp: lease_after_def lease_ident_def)

lemma list_all2_update_where:
  "(\<And>r. R r r) \<Longrightarrow> (\<And>r. R r (f r)) \<Longrightarrow> list_all2 R rows (update_where p f rows)"
  by (induction rows) (auto simp: update_where_def)

lemma lease_after_refl [simp]: "lease_after l l"
  by (simp add: lease_after_def)

lemma lease_after_status [simp]: "st \<noteq> ''active'' \<Longrightarrow> lease_after l (l\<lparr>le_status := st\<rparr>)"
  by (simp add: lease_after_def lease_ident_def)

lemma stale_leases:
  assumes "late_stale w s"
  shows "list_all2 lease_after (t_leases s) (t_leases (late_act w s))"
proof (cases w)
  case (LateClaim r ev)
  with assms show ?thesis by (simp add: try_claim_def claim_stale list_all2_refl)
next
  case (LateFinish env l r)
  show ?thesis
  proof (cases "lease_of s l")
    case None
    then show ?thesis using LateFinish by (simp add: finish_lease_def list_all2_refl)
  next
    case (Some le)
    with assms LateFinish show ?thesis
      by (auto simp: finish_lease_def Let_def list_all2_refl list_all2_update_where
          dest!: finish_shard_stale_view split: option.splits)
  qed
next
  case (LateExpire le now)
  have "list_all2 lease_after (t_leases s) (t_leases (settle_expired le now s))"
    unfolding settle_expired_tables by (rule list_all2_update_where) simp_all
  moreover have "list_all2 lease_after (t_leases s) (t_leases s)" by (simp add: list_all2_refl)
  ultimately show ?thesis
    using expire_stale_state [of s le now] assms LateExpire by (auto simp del: settle_expired_tables)
next
  case (LatePark job node gen now)
  with assms show ?thesis by (simp add: park_awaiting_approval_def list_all2_refl)
next
  case (LateFail u job node gen err lg now)
  with assms show ?thesis by (simp add: fail_without_lease_def list_all2_refl)
next
  case (LateEmpty job node gen now)
  with assms show ?thesis by (simp add: complete_empty_shard_node_def list_all2_refl)
qed

lemma stale_view: "late_stale w s \<Longrightarrow> job_view (late_act w s) = job_view s"
  by (cases w)
    (simp_all add: try_claim_def claim_stale finish_stale_view expire_stale_view park_awaiting_approval_def
      fail_without_lease_def complete_empty_shard_node_def)

lemma job_view_generation: "job_view s' = job_view s \<Longrightarrow> job_generation s' job = job_generation s job"
  by (rule job_generation_eq) (simp add: job_view_def)

lemma stale_stays:
  assumes "late_stale w s" and "late_stale w' s"
  shows "late_stale w' (late_act w s)"
proof -
  have g: "job_generation (late_act w s) job = job_generation s job" for job
    using stale_view [OF assms(1)] by (rule job_view_generation)
  show ?thesis
  proof (cases w')
    case (LateFinish env l r)
    have rel: "rel_option lease_after (lease_of s l) (lease_of (late_act w s) l)"
      unfolding lease_of_def by (rule find_lease_after [OF stale_leases [OF assms(1)]])
    show ?thesis
    proof (cases "lease_of s l")
      case None
      with rel LateFinish show ?thesis by simp
    next
      case (Some le)
      with rel obtain le' where "lease_of (late_act w s) l = Some le'" "lease_after le le'"
        by (auto simp: option_rel_Some1)
      then show ?thesis
        using assms(2) LateFinish Some g by (auto simp: lease_after_def lease_ident_def)
    qed
  qed (use assms(2) g in auto)
qed

interpretation late: late_writers job_view late_act late_stale
  by unfold_locales (rule stale_view, assumption, rule stale_stays)

end
