(* ===== verification/Upgrade_Store.thy ===== *)
theory Upgrade_Store
  imports Job_Mutations Workflow_Scheduler
begin

text \<open>
  The database side of a workflow upgrade: the mutation that pins a job to a revision and resets
  its nodes (\<open>server/app/jobs/workflow_upgrade_mutation_inherit.py\<close>) and the manifest rows it
  deletes (\<open>workflow_upgrade_artifact_rows.py\<close>).
\<close>

section \<open>Manifest rows\<close>

definition delete_reset_artifact_rows ::
  "string \<Rightarrow> string list \<Rightarrow> string list \<Rightarrow> string list \<Rightarrow> db \<Rightarrow> artifact_row list \<times> db" where
  "delete_reset_artifact_rows job reset_nodes staged renamed_from s =
     (if reset_nodes @ renamed_from = [] \<or> staged = [] then ([], s)
      else retire_artifact_rows_by_name job staged s)"

definition delete_all_artifact_rows :: "string \<Rightarrow> string list \<Rightarrow> db \<Rightarrow> artifact_row list \<times> db" where
  "delete_all_artifact_rows job keep_names s =
     (let p = (\<lambda>r. ar_job r = job \<and> ar_name r \<notin> set keep_names) in
      (filter p (t_artifacts s), s\<lparr>t_artifacts := delete_where p (t_artifacts s)\<rparr>))"

section \<open>The mutation\<close>

record revision_pin =
  rv_id :: string
  rv_version :: int
  rv_hash :: string
  rv_snapshot :: string
  rv_frozen :: "string option"

definition fresh_node :: "string \<Rightarrow> int \<Rightarrow> int \<Rightarrow> string \<Rightarrow> node_row" where
  "fresh_node job gen now k = \<lparr>jn_job = job, jn_node = k, jn_status = ''pending'', jn_stale_reason = [], jn_error = [],
     jn_category = [], jn_detail = [], jn_started = None, jn_finished = None, jn_created = now, jn_generation = gen\<rparr>"

definition pin_job :: "revision_pin \<Rightarrow> string \<Rightarrow> job_row \<Rightarrow> job_row" where
  "pin_job pin status j = j\<lparr>j_status := status, j_error := [], j_revision := rv_id pin, j_version := rv_version pin,
     j_def_hash := rv_hash pin, j_snapshot := rv_snapshot pin, j_frozen := rv_frozen pin, j_mode := ''full'',
     j_target := None, j_paused := False, j_pause_reason := []\<rparr>"

definition existing_node_keys :: "string \<Rightarrow> db \<Rightarrow> string list" where
  "existing_node_keys job s = map jn_node (filter (\<lambda>n. jn_job n = job) (t_nodes s))"

text \<open>The rows of the job that are not kept go, a pending row per reset node comes.\<close>

definition rebuild_nodes :: "string \<Rightarrow> string list \<Rightarrow> string list \<Rightarrow> int \<Rightarrow> int \<Rightarrow> db \<Rightarrow> db" where
  "rebuild_nodes job kept reset gen now s =
     s\<lparr>t_nodes := delete_where (\<lambda>n. jn_job n = job \<and> jn_node n \<notin> set kept) (t_nodes s)
        @ map (fresh_node job gen now) reset\<rparr>"

text \<open>Shards and queued requests: of the reset and removed nodes, or of the whole job.\<close>

definition clean_executions :: "string \<Rightarrow> string list \<Rightarrow> string list \<Rightarrow> int \<Rightarrow> db \<Rightarrow> db" where
  "clean_executions job kept scope now s =
     (if kept \<noteq> [] then cancel_queued job scope now (delete_shards job scope s)
      else cancel_queued_requests_for_job job now (s\<lparr>t_shards := delete_where (\<lambda>r. sd_job r = job) (t_shards s)\<rparr>))"

definition kept_nodes :: "string \<Rightarrow> string list \<Rightarrow> string list \<Rightarrow> db \<Rightarrow> string list" where
  "kept_nodes job nkeys inherit s =
     filter (\<lambda>k. k \<in> set nkeys \<and> node_status_of job s k = Some ''completed'') inherit"

record upgrade_stats =
  us_kept :: nat
  us_rerun :: nat
  us_deleted :: "artifact_row list"

definition upgrade_job_workflow_inherit ::
  "string \<Rightarrow> revision_pin \<Rightarrow> string list \<Rightarrow> string list \<Rightarrow> string list \<Rightarrow> string list \<Rightarrow> bool \<Rightarrow>
   string list option \<Rightarrow> int \<Rightarrow> db \<Rightarrow> mutation_error + upgrade_stats \<times> db" where
  "upgrade_job_workflow_inherit job pin nkeys inherit staged keep_names full_cleanup removed now s =
     (let kept = kept_nodes job nkeys inherit s;
          reset = filter (\<lambda>k. k \<notin> set kept) nkeys;
          status = (if reset \<noteq> [] then ''queued'' else summarize_job_status (map (\<lambda>k. ''completed'') kept));
          renamed_from = (case removed of Some ks \<Rightarrow> ks
            | None \<Rightarrow> filter (\<lambda>k. k \<notin> set nkeys) (existing_node_keys job s));
          scope = reset @ renamed_from
      in bindE (bump_generation (pin_job pin status) job now s) (\<lambda>(gen, s1).
         let s2 = clean_executions job kept scope now (clear_run_dirs job scope (rebuild_nodes job kept reset gen now s1));
             (deleted, s3) = (if kept \<noteq> [] \<or> \<not> full_cleanup
                then delete_reset_artifact_rows job reset staged renamed_from s2
                else delete_all_artifact_rows job keep_names s2)
         in Inr (\<lparr>us_kept = length kept, us_rerun = length reset, us_deleted = deleted\<rparr>, s3)))"

section \<open>What it changes\<close>

lemma artifact_rows_tables:
  assumes "delete_reset_artifact_rows job reset staged renamed s = (rows, s') \<or> delete_all_artifact_rows job keep s = (rows, s')"
  shows "t_nodes s' = t_nodes s" "t_jobs s' = t_jobs s" "t_leases s' = t_leases s" "t_shards s' = t_shards s"
    "t_requests s' = t_requests s" "t_runs s' = t_runs s"
  using assms
  by (auto simp: delete_reset_artifact_rows_def delete_all_artifact_rows_def retire_artifact_rows_by_name_def Let_def
      split: if_splits)

lemma clean_executions_tables [simp]:
  "t_nodes (clean_executions job kept scope now s) = t_nodes s" "t_jobs (clean_executions job kept scope now s) = t_jobs s"
  "t_leases (clean_executions job kept scope now s) = t_leases s"
  "t_shards s = [] \<Longrightarrow> t_shards (clean_executions job kept scope now s) = []"
  by (simp_all add: clean_executions_def cancel_queued_def cancel_queued_requests_for_job_def delete_shards_def delete_where_def)

lemma upgrade_stages:
  assumes "upgrade_job_workflow_inherit job pin nkeys inherit staged keep_names full removed now s = Inr (st, s')"
  defines "kept \<equiv> kept_nodes job nkeys inherit s"
  defines "reset \<equiv> filter (\<lambda>k. k \<notin> set kept) nkeys"
  shows "\<exists>gen s1. bump_generation (pin_job pin (if reset \<noteq> [] then ''queued'' else summarize_job_status (map (\<lambda>k. ''completed'') kept))) job now s
      = Inr (gen, s1)
    \<and> t_nodes s' = delete_where (\<lambda>n. jn_job n = job \<and> jn_node n \<notin> set kept) (t_nodes s) @ map (fresh_node job gen now) reset
    \<and> t_jobs s' = t_jobs s1 \<and> t_leases s' = t_leases s \<and> (t_shards s = [] \<longrightarrow> t_shards s' = [])
    \<and> us_kept st = length kept \<and> us_rerun st = length reset"
proof -
  from assms(1) obtain gen s1 where
    b: "bump_generation (pin_job pin (if reset \<noteq> [] then ''queued'' else summarize_job_status (map (\<lambda>k. ''completed'') kept))) job now s
      = Inr (gen, s1)"
    unfolding upgrade_job_workflow_inherit_def Let_def kept_def [symmetric] reset_def [symmetric]
    by (auto simp: bindE_eq_Inr)
  have id: "j_id (pin_job pin x j) = j_id j" for x j by (simp add: pin_job_def)
  note bg = bump_generation_Inr [OF b id]
  obtain renamed where renamed: "renamed = (case removed of Some ks \<Rightarrow> ks
      | None \<Rightarrow> filter (\<lambda>k. k \<notin> set nkeys) (existing_node_keys job s))" by blast
  define s2 where "s2 = clean_executions job kept (reset @ renamed) now
      (clear_run_dirs job (reset @ renamed) (rebuild_nodes job kept reset gen now s1))"
  obtain rows s3 where art: "(if kept \<noteq> [] \<or> \<not> full then delete_reset_artifact_rows job reset staged renamed s2
      else delete_all_artifact_rows job keep_names s2) = (rows, s3)" by force
  have "upgrade_job_workflow_inherit job pin nkeys inherit staged keep_names full removed now s =
      Inr (\<lparr>us_kept = length kept, us_rerun = length reset, us_deleted = rows\<rparr>, s3)"
    unfolding upgrade_job_workflow_inherit_def Let_def kept_def [symmetric] reset_def [symmetric] renamed [symmetric] b
      bindE.simps split s2_def [symmetric] art by simp
  with assms(1) have s': "s' = s3" "st = \<lparr>us_kept = length kept, us_rerun = length reset, us_deleted = rows\<rparr>" by auto
  have sh: "t_shards s1 = t_shards s"
    using b by (auto simp: bump_generation_def Let_def split: option.splits)
  have art': "delete_reset_artifact_rows job reset staged renamed s2 = (rows, s3) \<or> delete_all_artifact_rows job keep_names s2 = (rows, s3)"
    using art by (auto split: if_splits)
  note tables = artifact_rows_tables [OF art']
  have "t_nodes s2 = delete_where (\<lambda>n. jn_job n = job \<and> jn_node n \<notin> set kept) (t_nodes s) @ map (fresh_node job gen now) reset"
    "t_jobs s2 = t_jobs s1" "t_leases s2 = t_leases s"
    using bg(4,5) by (simp_all add: s2_def rebuild_nodes_def clear_run_dirs_def update_runs_def)
  moreover have "t_shards s2 = []" if "t_shards s = []"
    unfolding s2_def by (rule clean_executions_tables(4)) (simp add: rebuild_nodes_def clear_run_dirs_def update_runs_def sh that)
  ultimately show ?thesis using b tables s' by (intro exI [of _ gen] exI [of _ s1]) simp
qed

text \<open>Reading one row after the rebuild.\<close>

lemma find_delete_where:
  "(\<And>r. p r \<Longrightarrow> q r) \<Longrightarrow> find p (delete_where q rows) = None"
  "(\<And>r. p r \<Longrightarrow> \<not> q r) \<Longrightarrow> find p (delete_where q rows) = find p rows"
  by (induction rows) (auto simp: delete_where_def find_None_iff)

lemma find_append_or: "find p (xs @ ys) = (case find p xs of None \<Rightarrow> find p ys | Some x \<Rightarrow> Some x)"
  by (induction xs) auto

lemma find_fresh_node:
  "find (\<lambda>r. jn_job r = j \<and> jn_node r = k) (map (fresh_node job gen now) ks)
     = (if j = job \<and> k \<in> set ks then Some (fresh_node job gen now k) else None)"
  by (induction ks) (auto simp: fresh_node_def)

lemma node_of_rebuilt:
  assumes "t_nodes s' = delete_where (\<lambda>n. jn_job n = job \<and> jn_node n \<notin> set kept) (t_nodes s) @ map (fresh_node job gen now) reset"
  shows "node_of s' j k = (if j \<noteq> job then node_of s j k
     else if k \<in> set kept then (case node_of s j k of Some r \<Rightarrow> Some r
         | None \<Rightarrow> (if k \<in> set reset then Some (fresh_node job gen now k) else None))
     else if k \<in> set reset then Some (fresh_node job gen now k) else None)"
proof -
  let ?p = "\<lambda>r. jn_job r = j \<and> jn_node r = k"
  let ?q = "\<lambda>n. jn_job n = job \<and> jn_node n \<notin> set kept"
  have del: "find ?p (delete_where ?q (t_nodes s)) = (if j = job \<and> k \<notin> set kept then None else find ?p (t_nodes s))"
    using find_delete_where(1) [of ?p ?q "t_nodes s"] find_delete_where(2) [of ?p ?q "t_nodes s"] by auto
  show ?thesis
    unfolding node_of_def assms find_append_or find_fresh_node del
    by (simp split: option.splits)
qed

lemma node_status_of_iff: "node_status_of job s k = Some st \<longleftrightarrow> (\<exists>r. node_of s job k = Some r \<and> jn_status r = st)"
  by (auto simp: node_status_of_def)

lemma upgrade_job_rows:
  assumes "upgrade_job_workflow_inherit job pin nkeys inherit staged keep_names full removed now s = Inr (st, s')"
  defines "kept \<equiv> kept_nodes job nkeys inherit s"
  defines "status \<equiv> if filter (\<lambda>k. k \<notin> set kept) nkeys \<noteq> [] then ''queued'' else summarize_job_status (map (\<lambda>k. ''completed'') kept)"
  shows "\<exists>j. job_of s job = Some j
    \<and> job_of s' job = Some ((pin_job pin status j)\<lparr>j_generation := j_generation j + 1, j_updated := now\<rparr>)
    \<and> (\<forall>other. other \<noteq> job \<longrightarrow> job_of s' other = job_of s other)
    \<and> (\<forall>o' k. node_of s' o' k = (if o' \<noteq> job then node_of s o' k
         else if k \<in> set kept then node_of s job k
         else if k \<in> set nkeys then Some (fresh_node job (j_generation j + 1) now k) else None))
    \<and> (\<forall>k \<in> set kept. node_status_of job s k = Some ''completed'')
    \<and> t_leases s' = t_leases s"
proof -
  from upgrade_stages [OF assms(1), folded kept_def, folded status_def] obtain gen s1 where
    b: "bump_generation (pin_job pin status) job now s = Inr (gen, s1)" and jobs: "t_jobs s' = t_jobs s1"
    and nodes: "t_nodes s' = delete_where (\<lambda>n. jn_job n = job \<and> jn_node n \<notin> set kept) (t_nodes s)
      @ map (fresh_node job gen now) (filter (\<lambda>k. k \<notin> set kept) nkeys)"
    and leases: "t_leases s' = t_leases s" by blast
  have id: "j_id (pin_job pin status j) = j_id j" for j by (simp add: pin_job_def)
  have id': "j_id ((pin_job pin status j)\<lparr>j_generation := j_generation j + 1, j_updated := now\<rparr>) = j_id j" for j
    by (simp add: pin_job_def)
  from b obtain j where j: "job_of s job = Some j" "gen = j_generation j + 1"
    "job_of s1 job = Some ((pin_job pin status j)\<lparr>j_generation := j_generation j + 1, j_updated := now\<rparr>)"
    "\<forall>other. other \<noteq> job \<longrightarrow> job_of s1 other = job_of s other"
    by (auto simp: bump_generation_def Let_def job_generation_def job_of_update_job [OF id'] split: option.splits)
  have same: "job_of s' o' = job_of s1 o'" for o' by (simp add: job_of_def jobs)
  have done': "\<forall>k \<in> set kept. node_status_of job s k = Some ''completed''"
    by (auto simp: kept_def kept_nodes_def)
  then have row: "\<exists>r. node_of s job k = Some r" if "k \<in> set kept" for k
    using that unfolding node_status_of_iff by blast
  have rows: "node_of s' o' k = (if o' \<noteq> job then node_of s o' k
         else if k \<in> set kept then node_of s job k
         else if k \<in> set nkeys then Some (fresh_node job (j_generation j + 1) now k) else None)" for o' k
    using row [of k] unfolding node_of_rebuilt [OF nodes] j(2) by (auto split: option.splits)
  show ?thesis using j same rows done' leases by simp
qed

end
