(* ===== verification/Lease_System.thy ===== *)
theory Lease_System
  imports Lease_Safety Upgrade_Store
begin

text \<open>
  The lease and mutation transactions as a transition system on the database, for jobs without
  sharded nodes (sharding is an experimental capability of the source), and its main invariant:
  an active lease of the current epoch is the only one of its node, and that node is running.
\<close>

section \<open>Transitions\<close>

inductive lease_step :: "db \<Rightarrow> db \<Rightarrow> bool" where
  step_claim: "claim_lease r ev s = Inr (Some (ce, s')) \<Longrightarrow> cr_shard r = None \<Longrightarrow>
    ev_lease ev \<notin> le_id ` set (t_leases s) \<Longrightarrow> lease_step s s'"
| step_heartbeat: "lease_step s (snd (heartbeat_lease l ttl now s))"
| step_finish: "lease_step s (snd (finish_lease env l r s))"
| step_expire: "le \<in> set (t_leases s) \<Longrightarrow> lease_step s (snd (expire_lease_row le now s))"
| step_recover: "lease_step s (snd (recover_orphaned_job job now s))"
| step_park: "lease_step s (snd (park_awaiting_approval job node gen now s))"
| step_fail: "lease_step s (snd (fail_without_lease u job node gen err lg now s))"
| step_empty: "lease_step s (snd (complete_empty_shard_node job node gen now s))"
| step_rerun: "lease_guarded job now rr (mark_nodes_for_rerun job targets downstream staged now) s = Inr (rows, s') \<Longrightarrow>
    lease_step s s'"
| step_run_to: "lease_guarded job now True (apply_run_to job target closure reset staged now) s = Inr (rows, s') \<Longrightarrow>
    lease_step s s'"
| step_resume: "resume_job_between job now s0 s = Inr s' \<Longrightarrow> lease_step s s'"
| step_pause: "lease_step s (snd (mark_execution_paused job reason now s))"
| step_unpause: "lease_step s (snd (clear_execution_paused job now s))"
| step_delete: "delete_job job s = Inr s' \<Longrightarrow> lease_step s s'"
| step_upgrade: "lease_guarded job now True (upgrade_job_workflow_inherit job pin nkeys inherit staged keep full removed now) s
      = Inr (st, s') \<Longrightarrow> distinct nkeys \<Longrightarrow> lease_step s s'"

section \<open>The invariant\<close>

definition current :: "db \<Rightarrow> lease_row \<Rightarrow> bool" where
  "current s l \<longleftrightarrow> le_status l = ''active'' \<and> job_generation s (le_job l) = Some (le_generation l)"

definition lease_place :: "lease_row \<Rightarrow> string \<times> string" where
  "lease_place l = (le_job l, le_node l)"

definition node_place :: "node_row \<Rightarrow> string \<times> string" where
  "node_place n = (jn_job n, jn_node n)"

definition busy :: "db \<Rightarrow> (string \<times> string) set" where
  "busy s = lease_place ` {l \<in> set (t_leases s). current s l}"

lemma busy_iff: "x \<in> busy s \<longleftrightarrow> (\<exists>l \<in> set (t_leases s). current s l \<and> lease_place l = x)"
  by (auto simp: busy_def)

definition keys_ok :: "db \<Rightarrow> bool" where
  "keys_ok s \<longleftrightarrow> t_shards s = [] \<and> distinct (map le_id (t_leases s)) \<and> distinct (map node_place (t_nodes s))"

definition epochs_ok :: "db \<Rightarrow> bool" where
  "epochs_ok s \<longleftrightarrow> (\<forall>l \<in> set (t_leases s). \<exists>g. job_generation s (le_job l) = Some g \<and> le_generation l \<le> g)"

definition running_ok :: "db \<Rightarrow> bool" where
  "running_ok s \<longleftrightarrow> (\<forall>n \<in> set (t_nodes s). node_place n \<in> busy s \<longrightarrow> jn_status n = ''running'')"

definition unique_ok :: "db \<Rightarrow> bool" where
  "unique_ok s \<longleftrightarrow> (\<forall>l \<in> set (t_leases s). \<forall>l' \<in> set (t_leases s).
     current s l \<and> current s l' \<and> lease_place l = lease_place l' \<longrightarrow> le_id l = le_id l')"

definition lease_inv :: "db \<Rightarrow> bool" where
  "lease_inv s \<longleftrightarrow> keys_ok s \<and> epochs_ok s \<and> running_ok s \<and> unique_ok s"

lemma inv_unique_id:
  "lease_inv s \<Longrightarrow> l \<in> set (t_leases s) \<Longrightarrow> l' \<in> set (t_leases s) \<Longrightarrow> current s l \<Longrightarrow> current s l' \<Longrightarrow>
    lease_place l = lease_place l' \<Longrightarrow> le_id l = le_id l'"
  unfolding lease_inv_def unique_ok_def by blast

lemma inv_unique:
  assumes "lease_inv s" "l \<in> set (t_leases s)" "l' \<in> set (t_leases s)" "current s l" "current s l'"
    "lease_place l = lease_place l'"
  shows "l = l'"
proof -
  have "inj_on le_id (set (t_leases s))" using assms(1) unfolding lease_inv_def keys_ok_def distinct_map by blast
  from inj_onD [OF this inv_unique_id [OF assms] assms(2,3)] show ?thesis .
qed

lemma inv_running: "lease_inv s \<Longrightarrow> n \<in> set (t_nodes s) \<Longrightarrow> node_place n \<in> busy s \<Longrightarrow> jn_status n = ''running''"
  unfolding lease_inv_def running_ok_def by blast

section \<open>Frames\<close>

definition lease_keeps :: "lease_row \<Rightarrow> lease_row \<Rightarrow> bool" where
  "lease_keeps l l' \<longleftrightarrow> le_id l' = le_id l \<and> le_execution l' = le_execution l \<and> lease_place l' = lease_place l \<and> le_generation l' = le_generation l
     \<and> (le_status l' = ''active'' \<longrightarrow> le_status l = ''active'')"

definition node_keeps :: "(string \<times> string) set \<Rightarrow> node_row \<Rightarrow> node_row \<Rightarrow> bool" where
  "node_keeps B n n' \<longleftrightarrow> node_place n' = node_place n
     \<and> (jn_status n = ''running'' \<longrightarrow> jn_status n' = ''running'' \<or> node_place n \<notin> B)"

text \<open>Epochs only grow.\<close>

definition epochs_grow :: "db \<Rightarrow> db \<Rightarrow> bool" where
  "epochs_grow s s' \<longleftrightarrow> (\<forall>job g. job_generation s job = Some g \<longrightarrow> (\<exists>g'. job_generation s' job = Some g' \<and> g \<le> g'))"

lemma lease_keeps_refl [simp, intro]: "lease_keeps l l"
  by (simp add: lease_keeps_def)

lemma node_keeps_refl [simp, intro]: "node_keeps B n n"
  by (simp add: node_keeps_def)

lemma node_keeps_trans: "node_keeps B n n1 \<Longrightarrow> node_keeps B n1 n2 \<Longrightarrow> node_keeps B n n2"
  by (auto simp: node_keeps_def)

lemma nodes_keep_trans:
  "list_all2 (node_keeps B) xs ys \<Longrightarrow> list_all2 (node_keeps B) ys zs \<Longrightarrow> list_all2 (node_keeps B) xs zs"
  by (rule list_all2_trans [of "node_keeps B" "node_keeps B"]) (auto intro: node_keeps_trans)

lemma nodes_keep_refl [simp, intro]: "list_all2 (node_keeps B) xs xs"
  by (simp add: list_all2_refl)

lemma leases_keep_refl [simp, intro]: "list_all2 lease_keeps xs xs"
  by (simp add: list_all2_refl)

lemma list_all2_update_where_if:
  "(\<And>r. R r r) \<Longrightarrow> (\<And>r. r \<in> set rows \<Longrightarrow> p r \<Longrightarrow> R r (f r)) \<Longrightarrow> list_all2 R rows (update_where p f rows)"
  by (induction rows) (auto simp: update_where_def)

lemma epochs_grow_eq: "(\<And>job. job_generation s' job = job_generation s job) \<Longrightarrow> epochs_grow s s'"
  by (simp add: epochs_grow_def)

lemma list_all2_map_eq: "list_all2 R xs ys \<Longrightarrow> (\<And>x y. R x y \<Longrightarrow> f y = f x) \<Longrightarrow> map f ys = map f xs"
  by (induction rule: list_all2_induct) auto

lemma list_all2_back: "list_all2 R xs ys \<Longrightarrow> y \<in> set ys \<Longrightarrow> \<exists>x \<in> set xs. R x y"
  by (induction rule: list_all2_induct) auto

lemma current_back:
  assumes "lease_inv s" and "epochs_grow s s'" and "l \<in> set (t_leases s)" and "lease_keeps l l'" and "current s' l'"
  shows "current s l"
proof -
  from assms(1,3) obtain g where g: "job_generation s (le_job l) = Some g" "le_generation l \<le> g"
    by (auto simp: lease_inv_def epochs_ok_def)
  with assms(2) obtain g' where "job_generation s' (le_job l) = Some g'" "g \<le> g'"
    unfolding epochs_grow_def by blast
  with assms(4,5) g show ?thesis by (auto simp: current_def lease_keeps_def lease_place_def)
qed

lemma busy_back:
  assumes "lease_inv s" and "epochs_grow s s'" and "list_all2 lease_keeps (t_leases s) (t_leases s')"
    and "x \<in> busy s'"
  shows "\<exists>l \<in> set (t_leases s). \<exists>l' \<in> set (t_leases s'). lease_keeps l l' \<and> current s l \<and> current s' l' \<and> lease_place l = x"
proof -
  from assms(4) obtain l' where l': "l' \<in> set (t_leases s')" "current s' l'" "lease_place l' = x"
    by (auto simp: busy_def)
  from list_all2_back [OF assms(3) l'(1)] obtain l where l: "l \<in> set (t_leases s)" "lease_keeps l l'" by auto
  with current_back [OF assms(1,2) l l'(2)] l' show ?thesis by (auto simp: lease_keeps_def)
qed

lemma inv_frame:
  assumes inv: "lease_inv s" and grow: "epochs_grow s s'"
    and leases: "list_all2 lease_keeps (t_leases s) (t_leases s')"
    and nodes: "list_all2 (node_keeps (busy s')) (t_nodes s) (t_nodes s')"
    and shards: "t_shards s' = []"
  shows "lease_inv s'"
proof -
  have keys: "keys_ok s'"
  proof -
    have "map le_id (t_leases s') = map le_id (t_leases s)"
      using leases by (rule list_all2_map_eq) (simp add: lease_keeps_def)
    moreover have "map node_place (t_nodes s') = map node_place (t_nodes s)"
      using nodes by (rule list_all2_map_eq) (simp add: node_keeps_def)
    ultimately show ?thesis using inv shards by (simp add: lease_inv_def keys_ok_def)
  qed
  moreover have "epochs_ok s'"
    unfolding epochs_ok_def
  proof
    fix l'
    assume "l' \<in> set (t_leases s')"
    from list_all2_back [OF leases this] obtain l where l: "l \<in> set (t_leases s)" "lease_keeps l l'" by auto
    with inv obtain g where "job_generation s (le_job l) = Some g" "le_generation l \<le> g"
      by (auto simp: lease_inv_def epochs_ok_def)
    moreover from this(1) grow obtain g' where "job_generation s' (le_job l) = Some g'" "g \<le> g'"
      unfolding epochs_grow_def by blast
    ultimately show "\<exists>g. job_generation s' (le_job l') = Some g \<and> le_generation l' \<le> g"
      using l(2) by (auto simp: lease_keeps_def lease_place_def)
  qed
  moreover have "running_ok s'"
    unfolding running_ok_def
  proof (intro ballI impI)
    fix n'
    assume n': "n' \<in> set (t_nodes s')" and b: "node_place n' \<in> busy s'"
    from list_all2_back [OF nodes n'] obtain n where n: "n \<in> set (t_nodes s)" "node_keeps (busy s') n n'" by auto
    from busy_back [OF inv grow leases b] n(2) have "node_place n \<in> busy s"
      unfolding busy_iff by (auto simp: node_keeps_def)
    with inv n(1) have "jn_status n = ''running''" by (auto simp: lease_inv_def running_ok_def)
    with n(2) b show "jn_status n' = ''running''" by (auto simp: node_keeps_def)
  qed
  moreover have "unique_ok s'"
    unfolding unique_ok_def
  proof (intro ballI impI)
    fix l1' l2'
    assume l': "l1' \<in> set (t_leases s')" "l2' \<in> set (t_leases s')"
      and c: "current s' l1' \<and> current s' l2' \<and> lease_place l1' = lease_place l2'"
    from list_all2_back [OF leases l'(1)] list_all2_back [OF leases l'(2)] obtain l1 l2 where
      l: "l1 \<in> set (t_leases s)" "lease_keeps l1 l1'" "l2 \<in> set (t_leases s)" "lease_keeps l2 l2'" by blast
    have "current s l1" "current s l2" using current_back [OF inv grow] l c by blast+
    moreover have "lease_place l1 = lease_place l2" using l c by (simp add: lease_keeps_def)
    ultimately have "le_id l1 = le_id l2" using inv_unique_id [OF inv l(1,3)] by blast
    then show "le_id l1' = le_id l2'" using l by (simp add: lease_keeps_def)
  qed
  ultimately show ?thesis by (simp add: lease_inv_def)
qed

text \<open>The usual case: leases and epochs as before, only idle nodes change.\<close>

lemma inv_idle_nodes:
  assumes "lease_inv s" and "\<And>job. job_generation s' job = job_generation s job" and "t_leases s' = t_leases s"
    and "t_nodes s' = update_where p f (t_nodes s)" and "\<And>n. node_place (f n) = node_place n"
    and "\<And>n. n \<in> set (t_nodes s) \<Longrightarrow> p n \<Longrightarrow> jn_status n \<noteq> ''running'' \<or> node_place n \<notin> busy s'"
    and "t_shards s' = []"
  shows "lease_inv s'"
proof (rule inv_frame [OF assms(1)])
  show "list_all2 (node_keeps (busy s')) (t_nodes s) (t_nodes s')"
    unfolding assms(4)
  proof (rule list_all2_update_where_if)
    fix n
    assume "n \<in> set (t_nodes s)" "p n"
    from assms(6) [OF this] assms(5) [of n] show "node_keeps (busy s') n (f n)"
      unfolding node_keeps_def by blast
  qed simp
qed (use assms epochs_grow_eq [of s' s] in auto)

text \<open>Only the jobs table changes, and not the epochs.\<close>

lemma inv_jobs_only:
  assumes "lease_inv s" and "\<And>job. job_generation s' job = job_generation s job" and "t_leases s' = t_leases s"
    and "t_nodes s' = t_nodes s" and "t_shards s' = t_shards s"
  shows "lease_inv s'"
  by (rule inv_frame [OF assms(1)])
    (use assms epochs_grow_eq [of s' s] in \<open>auto simp: lease_inv_def keys_ok_def\<close>)

lemma job_generation_jobs_update:
  assumes "t_jobs s' = update_where p f (t_jobs s)" and "\<And>j. j_id (f j) = j_id j"
    and "\<And>j. j_generation (f j) = j_generation j"
  shows "job_generation s' k = job_generation s k"
  unfolding job_generation_def job_of_def assms(1) by (rule find_update_view) (simp_all add: assms)

section \<open>Each transition\<close>

text \<open>A new lease of the current epoch on a node that was waiting and is running now.\<close>

lemma inv_new_lease:
  assumes inv: "lease_inv s" and gen: "\<And>k. job_generation s' k = job_generation s k"
    and leases: "t_leases s' = t_leases s @ [new]" and fresh: "le_id new \<notin> le_id ` set (t_leases s)"
    and epoch: "job_generation s (le_job new) = Some (le_generation new)"
    and nodes: "t_nodes s' = update_where (node_match (le_job new) (le_node new) queueable) f (t_nodes s)"
    and waiting: "\<exists>n \<in> set (t_nodes s). node_match (le_job new) (le_node new) queueable n"
    and f: "\<And>n. node_place (f n) = node_place n" "\<And>n. jn_status (f n) = ''running''"
    and shards: "t_shards s' = []"
  shows "lease_inv s'"
proof -
  let ?p = "node_match (le_job new) (le_node new) queueable"
  have cur: "current s' l \<longleftrightarrow> current s l" for l by (simp add: current_def gen)
  have idle: "lease_place new \<notin> busy s"
  proof
    assume b: "lease_place new \<in> busy s"
    from waiting obtain n where n: "n \<in> set (t_nodes s)" "?p n" by auto
    then have "node_place n = lease_place new" "jn_status n \<noteq> ''running''"
      by (auto simp: node_match_def node_place_def lease_place_def queueable_def)
    with inv b n(1) show False by (auto simp: lease_inv_def running_ok_def)
  qed
  have place_f: "node_place (if ?p n then f n else n) = node_place n" for n
    by (simp add: f)
  have "keys_ok s'"
    using inv fresh unfolding keys_ok_def leases nodes shards
    by (auto simp: lease_inv_def keys_ok_def update_where_def comp_def place_f)
  moreover have "epochs_ok s'"
    using inv epoch unfolding epochs_ok_def leases gen by (auto simp: lease_inv_def epochs_ok_def)
  moreover have "running_ok s'"
    unfolding running_ok_def
  proof (intro ballI impI)
    fix n'
    assume "n' \<in> set (t_nodes s')" and b: "node_place n' \<in> busy s'"
    then obtain n where n: "n \<in> set (t_nodes s)" "n' = (if ?p n then f n else n)"
      unfolding nodes set_update_where by blast
    show "jn_status n' = ''running''"
    proof (cases "?p n")
      case True
      then show ?thesis using n(2) f(2) by simp
    next
      case False
      then have nn: "n' = n" using n(2) by simp
      from b have "node_place n \<in> busy s \<or> node_place n = lease_place new"
        unfolding busy_def leases nn by (auto simp: cur)
      then show ?thesis
      proof
        assume "node_place n \<in> busy s"
        then show ?thesis using inv n(1) nn by (auto simp: lease_inv_def running_ok_def)
      next
        assume same: "node_place n = lease_place new"
        from waiting obtain m where m: "m \<in> set (t_nodes s)" "?p m" by auto
        then have "node_place m = node_place n" using same by (auto simp: node_match_def node_place_def lease_place_def)
        then have "m = n"
          using inv m(1) n(1) by (auto simp: lease_inv_def keys_ok_def distinct_map dest: inj_onD)
        with m False show ?thesis by simp
      qed
    qed
  qed
  moreover have "unique_ok s'"
  proof -
    have no: "lease_place l \<noteq> lease_place new" if "l \<in> set (t_leases s)" "current s l" for l
      using idle that unfolding busy_iff by metis
    show ?thesis
      using inv no unfolding unique_ok_def leases by (fastforce simp: cur lease_inv_def unique_ok_def)
  qed
  ultimately show ?thesis by (simp add: lease_inv_def)
qed

lemma inv_claim:
  assumes inv: "lease_inv s" and c: "claim_lease r ev s = Inr (Some (ce, s'))" and sh: "cr_shard r = None"
    and fresh: "ev_lease ev \<notin> le_id ` set (t_leases s)"
  shows "lease_inv s'"
proof -
  from claim_lease_Some [OF c] obtain j s1 lg where
    j: "job_of s (cr_job r) = Some j" "j_generation j = cr_generation r"
    and st: "start_node_run r ev (cr_generation r) s = Some s1" and s': "s' = snd (record_claim r ev lg s1)"
    by (metis snd_conv)
  let ?p = "node_match (cr_job r) (cr_node r) queueable"
  let ?f = "\<lambda>n. n\<lparr>jn_status := ''running'', jn_stale_reason := [], jn_error := [], jn_started := Some (ev_now ev),
      jn_finished := None, jn_generation := cr_generation r\<rparr>"
  let ?new = "new_lease r ev (t_next_run s1)"
  have s1: "s1 = update_nodes ?p ?f s" and ex: "\<exists>n \<in> set (t_nodes s). ?p n"
    using st sh by (auto simp: start_node_run_def Let_def count_where_0 split: if_splits)
  have new: "le_job ?new = cr_job r" "le_node ?new = cr_node r" "le_id ?new = ev_lease ev" "le_generation ?new = cr_generation r"
    by (simp_all add: new_lease_def)
  show ?thesis
  proof (rule inv_new_lease [OF inv, where new = ?new and f = ?f])
    show "job_generation s' k = job_generation s k" for k by (simp add: s' record_claim_generation s1)
    show "job_generation s (le_job ?new) = Some (le_generation ?new)" using j by (simp add: new job_generation_def)
  qed (use inv fresh ex in \<open>simp_all add: new_lease_def s' record_claim_tables s1 update_nodes_def lease_inv_def keys_ok_def node_place_def\<close>)
qed

lemma no_shards:
  "lease_inv s \<Longrightarrow> shard_index_for_execution job node e s = None"
  by (simp add: lease_inv_def keys_ok_def shard_index_for_execution_def)

lemma inv_heartbeat:
  assumes "lease_inv s"
  shows "lease_inv (snd (heartbeat_lease l ttl now s))"
proof -
  have keep: "list_all2 lease_keeps (t_leases s) (t_leases (snd (heartbeat_lease l ttl now s)))"
    by (auto simp: heartbeat_lease_def lease_keeps_def lease_place_def intro!: list_all2_update_where_if
        split: option.splits)
  have same: "t_jobs (snd (heartbeat_lease l ttl now s)) = t_jobs s" "t_nodes (snd (heartbeat_lease l ttl now s)) = t_nodes s"
    "t_shards (snd (heartbeat_lease l ttl now s)) = t_shards s"
    by (auto simp: heartbeat_lease_def split: option.splits)
  have gen: "job_generation (snd (heartbeat_lease l ttl now s)) job = job_generation s job" for job
    by (rule job_generation_eq) (rule same(1))
  have "list_all2 (node_keeps B) (t_nodes s) (t_nodes (snd (heartbeat_lease l ttl now s)))" for B
    by (simp add: same(2))
  moreover have "t_shards (snd (heartbeat_lease l ttl now s)) = []"
    using assms same(3) by (simp add: lease_inv_def keys_ok_def)
  ultimately show ?thesis by (rule inv_frame [OF assms epochs_grow_eq [OF gen] keep])
qed

text \<open>Once its lease is no longer active, a node is idle: no other current lease is on it.\<close>

lemma released_not_busy:
  assumes inv: "lease_inv s" and le: "le \<in> set (t_leases s)" "current s le"
    and gen: "\<And>job. job_generation s' job = job_generation s job"
    and leases: "t_leases s' = update_where p (\<lambda>l. l\<lparr>le_status := st\<rparr>) (t_leases s)" and st: "st \<noteq> ''active''"
    and p: "p le"
  shows "lease_place le \<notin> busy s'"
proof
  assume "lease_place le \<in> busy s'"
  then obtain l' where l': "l' \<in> set (t_leases s')" "current s' l'" "lease_place l' = lease_place le"
    by (auto simp: busy_def)
  then obtain l where l: "l \<in> set (t_leases s)" "l' = (if p l then l\<lparr>le_status := st\<rparr> else l)"
    unfolding leases set_update_where by blast
  with l'(2) st have "\<not> p l" "l' = l" by (auto simp: current_def split: if_splits)
  with l'(2,3) gen have "current s l" "lease_place l = lease_place le" by (auto simp: current_def)
  then have "l = le" using inv_unique [OF inv l(1) le(1)] le(2) by blast
  with \<open>\<not> p l\<close> p show False by simp
qed

lemma inv_settled:
  assumes inv: "lease_inv s" and le: "le \<in> set (t_leases s)" "current s le"
    and gen: "\<And>job. job_generation s' job = job_generation s job"
    and leases: "t_leases s' = update_where p (\<lambda>l. l\<lparr>le_status := st\<rparr>) (t_leases s)" and st: "st \<noteq> ''active''"
    and p: "p le"
    and nodes: "t_nodes s' = update_where (\<lambda>n. jn_job n = le_job le \<and> jn_node n = le_node le) f (t_nodes s)"
    and f: "\<And>n. node_place (f n) = node_place n" and shards: "t_shards s' = t_shards s"
  shows "lease_inv s'"
proof (rule inv_frame [OF inv epochs_grow_eq [OF gen]])
  show "list_all2 lease_keeps (t_leases s) (t_leases s')"
    unfolding leases by (rule list_all2_update_where_if) (simp_all add: lease_keeps_def lease_place_def st)
  have idle: "lease_place le \<notin> busy s'" by (rule released_not_busy [OF inv le gen leases st p])
  show "list_all2 (node_keeps (busy s')) (t_nodes s) (t_nodes s')"
    unfolding nodes
    by (rule list_all2_update_where_if) (use idle f in \<open>auto simp: node_keeps_def node_place_def lease_place_def\<close>)
  show "t_shards s' = []" using inv shards by (simp add: lease_inv_def keys_ok_def)
qed

lemma finish_cases:
  assumes "lease_inv s"
  obtains "snd (finish_lease env l r s) = s"
  | le r' where "lease_of s l = Some le" "le_status le = ''active''" "\<not> current s le"
      "snd (finish_lease env l r s) = settle_run env le r' s"
  | le r' where "lease_of s l = Some le" "current s le"
      "snd (finish_lease env l r s) = flip_node env le r' (settle_run env le r' s)"
proof (cases "lease_of s l")
  case None
  then show ?thesis using that(1) by (simp add: finish_lease_def)
next
  case (Some le)
  have ns: "finish_shard_execution le r' t stale (settle_run env le r' s) = None" for r' t stale
  proof -
    have "t_shards (settle_run env le r' s) = []" using assms by (simp add: lease_inv_def keys_ok_def)
    then show ?thesis by (simp add: finish_shard_execution_def shard_index_for_execution_def)
  qed
  show ?thesis
  proof (cases "le_status le = ''active''")
    case False
    then show ?thesis using Some that(1) by (simp add: finish_lease_def)
  next
    case True
    show ?thesis
    proof (cases "current s le")
      case False
      with True have "job_generation s (le_job le) \<noteq> Some (le_generation le)" by (simp add: current_def)
      then have "snd (finish_lease env l r s) = settle_run env le (effective_result env True r) s"
        using Some True by (simp add: finish_lease_def Let_def ns)
      with Some True False show ?thesis by (rule that(2))
    next
      case cur: True
      then have "job_generation s (le_job le) = Some (le_generation le)" by (simp add: current_def)
      then have "snd (finish_lease env l r s) =
          flip_node env le (effective_result env False r) (settle_run env le (effective_result env False r) s)"
        using Some True by (simp add: finish_lease_def Let_def ns)
      with Some cur show ?thesis by (rule that(3))
    qed
  qed
qed

lemma settle_run_generation [simp]: "job_generation (settle_run env le r s) k = job_generation s k"
  by (simp add: job_generation_def job_of_def)

lemma flip_node_generation [simp]: "job_generation (flip_node env le r s) k = job_generation s k"
  unfolding flip_node_def Let_def split_beta
  by (auto simp: try_return_node_to_pending_def split: option.splits if_splits)

lemma flip_node_tables:
  "t_leases (flip_node env le r s) = t_leases s" "t_shards (flip_node env le r s) = t_shards s"
  unfolding flip_node_def Let_def split_beta
  by (auto simp: try_return_node_to_pending_def split: option.splits if_splits)

lemma flip_node_nodes:
  "\<exists>f. (\<forall>n. node_place (f n) = node_place n) \<and>
    t_nodes (flip_node env le r s) = update_where (\<lambda>n. jn_job n = le_job le \<and> jn_node n = le_node le) f (t_nodes s)"
proof -
  obtain c d where cd: "classify_result (fe_unicode env) r = (c, d)" by force
  show ?thesis
  proof (cases "try_return_node_to_pending le r c d s")
    case None
    then show ?thesis
      by (intro exI [of _ "\<lambda>n. n\<lparr>jn_status := (if er_status r = ''completed'' then ''completed'' else ''failed''),
            jn_error := er_error r, jn_finished := Some (fe_now env), jn_category := c, jn_detail := d\<rparr>"])
        (simp add: flip_node_def cd update_nodes_def node_place_def)
  next
    case (Some s1)
    then have s1: "s1 = update_nodes (\<lambda>n. jn_job n = le_job le \<and> jn_node n = le_node le)
        (\<lambda>n. n\<lparr>jn_status := ''pending'', jn_error := er_error r, jn_finished := None, jn_category := c, jn_detail := d\<rparr>) s"
      by (auto simp: try_return_node_to_pending_def split: if_splits)
    show ?thesis
      by (intro exI [of _ "\<lambda>n. n\<lparr>jn_status := ''pending'', jn_error := er_error r, jn_finished := None,
            jn_category := c, jn_detail := d\<rparr>"])
        (simp add: flip_node_def cd Some s1 update_nodes_def node_place_def)
  qed
qed

lemma inv_settle_run: "lease_inv s \<Longrightarrow> lease_inv (settle_run env le r s)"
  by (rule inv_frame [of s])
    (auto simp: epochs_grow_def lease_inv_def keys_ok_def lease_keeps_def lease_place_def
      intro!: list_all2_update_where_if)

lemma inv_finish:
  assumes "lease_inv s"
  shows "lease_inv (snd (finish_lease env l r s))"
proof (rule finish_cases [OF assms, of env l r])
  fix le r'
  assume le: "lease_of s l = Some le" "current s le"
    and eq: "snd (finish_lease env l r s) = flip_node env le r' (settle_run env le r' s)"
  obtain f where f: "\<And>n. node_place (f n) = node_place n"
    "t_nodes (flip_node env le r' (settle_run env le r' s)) =
      update_where (\<lambda>n. jn_job n = le_job le \<and> jn_node n = le_node le) f (t_nodes (settle_run env le r' s))"
    using flip_node_nodes by blast
  have "le \<in> set (t_leases s)" using lease_of_SomeD [OF le(1)] by simp
  then show ?thesis unfolding eq
    by (rule inv_settled [OF assms _ le(2), where p = "\<lambda>x. le_id x = le_id le" and st = "''released''" and f = f])
      (simp_all add: flip_node_tables f)
qed (use assms inv_settle_run in auto)

lemma settle_expired_generation [simp]: "job_generation (settle_expired le now s) k = job_generation s k"
  by (simp add: job_generation_def job_of_def)

lemma inv_settle_expired: "lease_inv s \<Longrightarrow> lease_inv (settle_expired le now s)"
  by (rule inv_frame [of s])
    (auto simp: epochs_grow_def lease_inv_def keys_ok_def lease_keeps_def lease_place_def
      intro!: list_all2_update_where_if)

lemma expire_flip_tables:
  "t_leases (expire_flip_node le now s) = t_leases s" "t_shards (expire_flip_node le now s) = t_shards s"
  "t_nodes (expire_flip_node le now s) = update_where (\<lambda>n. jn_job n = le_job le \<and> jn_node n = le_node le)
     (\<lambda>n. n\<lparr>jn_status := ''failed'', jn_stale_reason := [], jn_error := ''lease expired'', jn_finished := Some now\<rparr>)
     (t_nodes s)"
  by (simp_all add: expire_flip_node_def Let_def update_nodes_def)

lemma expire_flip_generation [simp]: "job_generation (expire_flip_node le now s) k = job_generation s k"
proof -
  let ?s1 = "sync_job_status now (le_job le) (update_nodes (\<lambda>n. jn_job n = le_job le \<and> jn_node n = le_node le)
      (\<lambda>n. n\<lparr>jn_status := ''failed'', jn_stale_reason := [], jn_error := ''lease expired'', jn_finished := Some now\<rparr>) s)"
  have "job_generation (expire_flip_node le now s) k = job_generation ?s1 k"
    by (rule job_generation_jobs_update [where p = "\<lambda>j. j_id j = le_job le \<and> j_status j \<noteq> ''failed''"
          and f = "\<lambda>j. j\<lparr>j_status := ''failed'', j_updated := now\<rparr>"])
      (auto simp: expire_flip_node_def Let_def)
  then show ?thesis by simp
qed

lemma inv_expire:
  assumes inv: "lease_inv s" and le: "le \<in> set (t_leases s)"
  shows "lease_inv (snd (expire_lease_row le now s))"
proof (cases "count_where (\<lambda>l. active_lease (le_id le) l \<and> le_expires l \<le> now) (t_leases s) = 0")
  case True
  then show ?thesis using inv by (simp add: expire_lease_row_def)
next
  case False
  then obtain l where l: "l \<in> set (t_leases s)" "le_id l = le_id le" "le_status l = ''active''" "le_expires l \<le> now"
    by (auto simp: count_where_0 active_lease_def)
  have "inj_on le_id (set (t_leases s))" using inv unfolding lease_inv_def keys_ok_def distinct_map by blast
  from inj_onD [OF this l(2) l(1) le] have eq: "l = le" .
  have ns: "shard_index_for_execution (le_job le) (le_node le) (le_execution le) (settle_expired le now s) = None"
    by (rule no_shards [OF inv_settle_expired [OF inv]])
  show ?thesis
  proof (cases "job_generation s (le_job le) = Some (le_generation le)")
    case gen: False
    then have "snd (expire_lease_row le now s) = settle_expired le now s"
      using False by (simp add: expire_lease_row_def Let_def ns)
    then show ?thesis using inv_settle_expired [OF inv] by simp
  next
    case gen: True
    then have s': "snd (expire_lease_row le now s) = expire_flip_node le now (settle_expired le now s)"
      using False by (simp add: expire_lease_row_def Let_def ns)
    have cur: "current s le" using gen l(3) eq by (simp add: current_def)
    show ?thesis unfolding s'
      by (rule inv_settled [OF inv le cur, where p = "\<lambda>x. active_lease (le_id le) x \<and> le_expires x \<le> now"
            and st = "''expired''" and f = "\<lambda>n. n\<lparr>jn_status := ''failed'', jn_stale_reason := [],
              jn_error := ''lease expired'', jn_finished := Some now\<rparr>"])
        (use l eq in \<open>auto simp: expire_flip_tables active_lease_def node_place_def\<close>)
  qed
qed

lemma delete_shards_generation [simp]: "job_generation (delete_shards job ks s) k = job_generation s k"
  by (simp add: job_generation_def job_of_def)

lemma update_runs_generation [simp]: "job_generation (update_runs p f s) k = job_generation s k"
  by (simp add: job_generation_def job_of_def)

lemma inv_recover:
  assumes inv: "lease_inv s"
  shows "lease_inv (snd (recover_orphaned_job job now s))"
proof (cases "job_generation s job")
  case None
  then show ?thesis using inv by (simp add: recover_orphaned_job_def)
next
  case (Some gen)
  let ?p = "\<lambda>n. jn_job n = job \<and> jn_status n = ''running'' \<and> jn_generation n = gen \<and> \<not> job_has_active_lease job s"
  have sync: "lease_inv (sync_job_status now job s)"
    by (rule inv_jobs_only [OF inv]) simp_all
  show ?thesis
  proof (cases "map jn_node (filter ?p (t_nodes s)) = []")
    case True
    then show ?thesis using Some inv sync by (simp add: recover_orphaned_job_def)
  next
    case False
    let ?s' = "snd (recover_orphaned_job job now s)"
    have idle: "node_place n \<notin> busy ?s'" if "?p n" and leases: "t_leases ?s' = t_leases s" for n
    proof
      assume "node_place n \<in> busy ?s'"
      then obtain l where "l \<in> set (t_leases s)" "le_status l = ''active''" "lease_place l = node_place n"
        unfolding busy_iff leases by (auto simp: current_def)
      then show False using that(1) by (auto simp: job_has_active_lease_def exists_where_iff lease_place_def node_place_def)
    qed
    have leases: "t_leases ?s' = t_leases s" and shards: "t_shards ?s' = []"
      using Some False inv by (simp_all add: recover_orphaned_job_def Let_def delete_shards_def delete_where_def
          lease_inv_def keys_ok_def)
    show ?thesis
      by (rule inv_idle_nodes [OF inv, where p = ?p and f = "\<lambda>n. n\<lparr>jn_status := ''pending'', jn_stale_reason := [],
            jn_error := [], jn_started := None, jn_finished := None, jn_created := now\<rparr>"])
        (use Some False idle leases shards in \<open>simp_all add: recover_orphaned_job_def Let_def update_nodes_def node_place_def\<close>)
  qed
qed

text \<open>A write restricted to queueable nodes never touches a running node.\<close>

lemma inv_queueable:
  assumes inv: "lease_inv s" and "\<And>job. job_generation s' job = job_generation s job" and "t_leases s' = t_leases s"
    and "t_nodes s' = update_where (node_match job node queueable) f (t_nodes s)"
    and "\<And>n. node_place (f n) = node_place n" and "t_shards s' = t_shards s"
  shows "lease_inv s'"
  by (rule inv_idle_nodes [OF assms(1-5)])
    (use inv assms(6) in \<open>auto simp: node_match_def queueable_def lease_inv_def keys_ok_def\<close>)

lemma inv_park:
  assumes "lease_inv s"
  shows "lease_inv (snd (park_awaiting_approval job node gen now s))"
proof (cases "snd (park_awaiting_approval job node gen now s) = s")
  case False
  then have s': "snd (park_awaiting_approval job node gen now s) = sync_job_status now job
      (update_nodes (node_match job node queueable) (\<lambda>n. n\<lparr>jn_status := ''awaiting_approval'', jn_stale_reason := [],
         jn_error := [], jn_started := Some now, jn_finished := None, jn_generation := gen\<rparr>) s)"
    by (auto simp: park_awaiting_approval_def Let_def split: if_splits)
  show ?thesis
    unfolding s' by (rule inv_queueable [OF assms, where job = job and node = node and
      f = "\<lambda>n. n\<lparr>jn_status := ''awaiting_approval'', jn_stale_reason := [], jn_error := [], jn_started := Some now,
         jn_finished := None, jn_generation := gen\<rparr>"]) (simp_all add: update_nodes_def node_place_def)
qed (use assms in simp)

lemma inv_fail:
  assumes "lease_inv s"
  shows "lease_inv (snd (fail_without_lease u job node gen err lg now s))"
proof -
  obtain c d where cd: "resolve_failure_fields u ''failed'' None err [] [] = (c, d)" by force
  show ?thesis
  proof (cases "job_generation s job = Some gen \<and> count_where (node_match job node queueable) (t_nodes s) \<noteq> 0")
    case False
    then show ?thesis using assms by (auto simp: fail_without_lease_def record_failed_node_def Let_def)
  next
    case True
    let ?s' = "snd (fail_without_lease u job node gen err lg now s)"
    have gens: "job_generation ?s' k = job_generation s k" for k
      using True by (simp add: fail_without_lease_def record_failed_node_def Let_def cd)
    show ?thesis
      by (rule inv_queueable [OF assms gens, where job = job and node = node and
        f = "\<lambda>n. n\<lparr>jn_status := ''failed'', jn_stale_reason := [], jn_error := err, jn_finished := Some now,
           jn_category := c, jn_detail := d\<rparr>"])
        (use True in \<open>simp_all add: fail_without_lease_def record_failed_node_def Let_def cd update_nodes_def node_place_def\<close>)
  qed
qed

lemma inv_empty:
  assumes "lease_inv s"
  shows "lease_inv (snd (complete_empty_shard_node job node gen now s))"
proof (cases "job_generation s job = Some gen \<and> count_where (node_match job node queueable) (t_nodes s) \<noteq> 0")
  case False
  then show ?thesis using assms by (auto simp: complete_empty_shard_node_def Let_def)
next
  case True
  show ?thesis
    by (rule inv_queueable [OF assms, where job = job and node = node and
      f = "\<lambda>n. n\<lparr>jn_status := ''completed'', jn_error := [], jn_finished := Some now\<rparr>"])
      (use True in \<open>simp_all add: complete_empty_shard_node_def Let_def update_nodes_def node_place_def\<close>)
qed

section \<open>Resets bump the epoch\<close>

text \<open>After a bump no lease of the job is current, so its nodes may change freely.\<close>

lemma bumped_idle:
  assumes inv: "lease_inv s" and g: "job_generation s job = Some g" and g': "job_generation s' job = Some (g + 1)"
    and leases: "t_leases s' = t_leases s" and x: "x \<in> busy s'"
  shows "fst x \<noteq> job"
proof
  assume "fst x = job"
  with x leases obtain l where l: "l \<in> set (t_leases s)" "current s' l" "le_job l = job"
    by (auto simp: busy_iff lease_place_def)
  with g' have "le_generation l = g + 1" by (simp add: current_def)
  moreover from inv l(1,3) g have "le_generation l \<le> g" by (auto simp: lease_inv_def epochs_ok_def)
  ultimately show False by simp
qed

lemma nodes_keep_job:
  "\<forall>x \<in> B. fst x \<noteq> job \<Longrightarrow> (\<And>n. node_place (f n) = node_place n) \<Longrightarrow> (\<And>n. p n \<Longrightarrow> jn_job n = job) \<Longrightarrow>
    list_all2 (node_keeps B) ns (update_where p f ns)"
  by (rule list_all2_update_where_if) (force simp: node_keeps_def node_place_def)+

lemma reset_target_keeps:
  "reset_target job gen now node s = Inr s' \<Longrightarrow> \<forall>x \<in> B. fst x \<noteq> job \<Longrightarrow>
    list_all2 (node_keeps B) (t_nodes s) (t_nodes s') \<and> t_shards s' = t_shards s"
  by (auto simp: reset_target_def err_simps update_nodes_def at_node_def node_place_def intro!: nodes_keep_job)

lemma foldE_reset_keeps:
  assumes "\<forall>x \<in> B. fst x \<noteq> job"
  shows "foldE (reset_target job gen now) nodes s = Inr s' \<Longrightarrow>
    list_all2 (node_keeps B) (t_nodes s) (t_nodes s') \<and> t_shards s' = t_shards s"
proof (induction nodes arbitrary: s)
  case (Cons node nodes)
  then obtain s1 where r: "reset_target job gen now node s = Inr s1" "foldE (reset_target job gen now) nodes s1 = Inr s'"
    by (auto simp: err_simps)
  from reset_target_keeps [OF r(1) assms] Cons.IH [OF r(2)] show ?case
    using nodes_keep_trans by metis
qed simp

lemma stale_keeps:
  "\<forall>x \<in> B. fst x \<noteq> job \<Longrightarrow> list_all2 (node_keeps B) (t_nodes s) (t_nodes (stale_descendant job gen now node s))
    \<and> t_shards (stale_descendant job gen now node s) = t_shards s"
  by (auto simp: stale_descendant_def update_nodes_def at_node_def node_place_def intro!: nodes_keep_job)

lemma fold_stale_keeps:
  assumes "\<forall>x \<in> B. fst x \<noteq> job"
  shows "list_all2 (node_keeps B) (t_nodes s) (t_nodes (fold (stale_descendant job gen now) ds s))
    \<and> t_shards (fold (stale_descendant job gen now) ds s) = t_shards s"
proof (induction ds arbitrary: s)
  case (Cons d ds)
  from stale_keeps [OF assms, of s gen now d] Cons.IH [of "stale_descendant job gen now d s"] show ?case
    using nodes_keep_trans by (metis fold_simps(2))
qed simp

lemma lease_guarded_Inr: "lease_guarded job now rr body s = Inr x \<Longrightarrow> body s = Inr x"
  by (simp add: lease_guarded_def err_simps)

lemma bump_generation_shards:
  "bump_generation f job now s = Inr (g, s') \<Longrightarrow> t_shards s' = t_shards s"
  by (auto simp: bump_generation_def Let_def split: option.splits)

lemma epochs_grow_bump:
  assumes "job_generation s job = Some g" and "job_generation s' job = Some (g + 1)"
    and "\<And>k. k \<noteq> job \<Longrightarrow> job_generation s' k = job_generation s k"
  shows "epochs_grow s s'"
  unfolding epochs_grow_def
proof (intro allI impI)
  fix k h
  assume "job_generation s k = Some h"
  then show "\<exists>g'. job_generation s' k = Some g' \<and> h \<le> g'"
    using assms by (cases "k = job") auto
qed

lemma inv_rerun:
  assumes inv: "lease_inv s" and m: "mark_nodes_for_rerun job targets downstream staged now s = Inr (rows, s')"
  shows "lease_inv s'"
proof -
  from mark_nodes_for_rerun_stages [OF m] obtain s2 gen s3 s4 where
    b: "bump_generation (\<lambda>j. j\<lparr>j_status := ''queued'', j_error := [], j_packed := False\<rparr>) job now s2 = Inr (gen, s3)"
    and s2: "t_jobs s2 = t_jobs s" "t_nodes s2 = t_nodes s" "t_leases s2 = t_leases s"
    and f: "foldE (reset_target job gen now) targets s3 = Inr s4"
    and s': "s' = cancel_queued job (dedup (targets @ rerun_descendants targets downstream)) now
        (fold (stale_descendant job gen now) (rerun_descendants targets downstream) s4)" by blast
  note bg = bump_generation_Inr [OF b, simplified]
  have g: "job_generation s job = Some (gen - 1)"
    using bg(1) job_generation_eq [OF s2(1), of job] by simp
  from rerun_bumps_once [OF m g] have e: "job_generation s' job = Some (gen - 1 + 1)"
    "\<And>k. k \<noteq> job \<Longrightarrow> job_generation s' k = job_generation s k" and leases: "t_leases s' = t_leases s" by auto
  have B: "\<forall>x \<in> busy s'. fst x \<noteq> job" using bumped_idle [OF inv g e(1) leases] by blast
  have n0: "t_nodes s3 = t_nodes s" using bg(4) s2(2) by simp
  have "list_all2 (node_keeps (busy s')) (t_nodes s) (t_nodes s4)"
    using foldE_reset_keeps [OF B f] n0 by simp
  moreover have "list_all2 (node_keeps (busy s')) (t_nodes s4) (t_nodes s')"
    using fold_stale_keeps [OF B, of s4 gen now "rerun_descendants targets downstream"] by (simp add: s')
  ultimately have nodes: "list_all2 (node_keeps (busy s')) (t_nodes s) (t_nodes s')" by (rule nodes_keep_trans)
  have shards: "t_shards s' = []"
  proof -
    obtain retired s1 where r: "retire_artifact_rows_by_name job staged s = (retired, s1)" by force
    have s1: "t_shards s1 = []"
      using r inv by (auto simp: retire_artifact_rows_by_name_def Let_def lease_inv_def keys_ok_def)
    have "t_shards s' = []"
    proof -
      from m obtain gen' s3' s4' where
        b': "bump_generation (\<lambda>j. j\<lparr>j_status := ''queued'', j_error := [], j_packed := False\<rparr>) job now
          (delete_shards job (dedup (targets @ rerun_descendants targets downstream))
            (clear_run_dirs job (dedup (targets @ rerun_descendants targets downstream)) s1)) = Inr (gen', s3')"
        and f': "foldE (reset_target job gen' now) targets s3' = Inr s4'"
        and eq: "s' = cancel_queued job (dedup (targets @ rerun_descendants targets downstream)) now
          (fold (stale_descendant job gen' now) (rerun_descendants targets downstream) s4')"
        unfolding mark_nodes_for_rerun_def Let_def r by (auto simp: err_simps)
      have "t_shards s3' = []"
        using bump_generation_shards [OF b'] s1 by (simp add: delete_shards_def delete_where_def clear_run_dirs_def)
      moreover have "t_shards s4' = t_shards s3'" using foldE_reset_keeps [OF B f'] by blast
      moreover have "t_shards (fold (stale_descendant job gen' now) (rerun_descendants targets downstream) s4') = t_shards s4'"
        using fold_stale_keeps [OF B] by blast
      ultimately show ?thesis by (simp add: eq cancel_queued_def)
    qed
    then show ?thesis .
  qed
  show ?thesis
    by (rule inv_frame [OF inv epochs_grow_bump [OF g e] _ nodes shards]) (simp_all add: leases)
qed

lemma apply_run_to_stages:
  assumes "apply_run_to job target closure reset staged now s = Inr (rows, s')"
  shows "\<exists>s1 gen s2 resets. bump_generation (run_to_control target) job now s1 = Inr (gen, s2)
    \<and> t_jobs s1 = t_jobs s \<and> t_nodes s1 = t_nodes s \<and> t_leases s1 = t_leases s \<and> t_shards s1 = t_shards s
    \<and> t_jobs s' = t_jobs s2 \<and> t_leases s' = t_leases s2
    \<and> (t_shards s2 = [] \<longrightarrow> t_shards s' = [])
    \<and> t_nodes s' = update_where (\<lambda>n. jn_job n = job \<and> jn_node n \<in> set resets \<and> jn_node n \<notin> set closure)
        (\<lambda>n. n\<lparr>jn_status := ''stale'', jn_stale_reason := ''shared-name producer rerun'', jn_error := [],
             jn_created := now, jn_generation := gen\<rparr>)
        (update_where (\<lambda>n. jn_job n = job \<and> jn_node n \<in> set resets \<and> jn_node n \<in> set closure)
        (\<lambda>n. n\<lparr>jn_status := ''pending'', jn_stale_reason := [], jn_error := [], jn_started := None,
             jn_finished := None, jn_created := now, jn_generation := gen\<rparr>) (t_nodes s2))"
proof -
  define resets where "resets = (case reset of Some r \<Rightarrow> r | None \<Rightarrow> default_reset_nodes job closure s)"
  obtain retired s1 where r: "(if staged \<noteq> [] \<and> resets \<noteq> [] then retire_artifact_rows_by_name job staged s else ([], s)) = (retired, s1)"
    by force
  have s1: "t_jobs s1 = t_jobs s \<and> t_nodes s1 = t_nodes s \<and> t_leases s1 = t_leases s \<and> t_shards s1 = t_shards s"
    using r by (auto simp: retire_artifact_rows_by_name_def Let_def split: if_splits)
  obtain t where t: "node_of s job target = Some t" using assms by (auto simp: apply_run_to_def split: option.splits)
  from assms obtain gen s2 where b: "bump_generation (run_to_control target) job now s1 = Inr (gen, s2)"
    and s': "s' = delete_shards job resets (cancel_queued job (closure @ resets) now
      (update_nodes (\<lambda>n. jn_job n = job \<and> jn_node n \<in> set resets \<and> jn_node n \<notin> set closure)
        (\<lambda>n. n\<lparr>jn_status := ''stale'', jn_stale_reason := ''shared-name producer rerun'', jn_error := [],
             jn_created := now, jn_generation := gen\<rparr>)
      (update_nodes (\<lambda>n. jn_job n = job \<and> jn_node n \<in> set resets \<and> jn_node n \<in> set closure)
        (\<lambda>n. n\<lparr>jn_status := ''pending'', jn_stale_reason := [], jn_error := [], jn_started := None,
             jn_finished := None, jn_created := now, jn_generation := gen\<rparr>) s2)))"
    unfolding apply_run_to_def t option.case Let_def resets_def [symmetric] r
    by (auto simp: err_simps set_run_to_control_bump_def)
  show ?thesis
    by (intro exI [of _ s1] exI [of _ gen] exI [of _ s2] exI [of _ resets] conjI)
      (use b s1 in \<open>simp_all add: s' update_nodes_def cancel_queued_def delete_shards_def delete_where_def\<close>)
qed

lemma inv_run_to:
  assumes inv: "lease_inv s" and m: "apply_run_to job target closure reset staged now s = Inr (rows, s')"
  shows "lease_inv s'"
proof -
  from apply_run_to_stages [OF m] obtain s1 gen s2 resets where
    b: "bump_generation (run_to_control target) job now s1 = Inr (gen, s2)"
    and s1: "t_jobs s1 = t_jobs s" "t_nodes s1 = t_nodes s" "t_leases s1 = t_leases s" "t_shards s1 = t_shards s"
    and s': "t_jobs s' = t_jobs s2" "t_leases s' = t_leases s2" "t_shards s2 = [] \<longrightarrow> t_shards s' = []"
    and nodes: "t_nodes s' = update_where (\<lambda>n. jn_job n = job \<and> jn_node n \<in> set resets \<and> jn_node n \<notin> set closure)
        (\<lambda>n. n\<lparr>jn_status := ''stale'', jn_stale_reason := ''shared-name producer rerun'', jn_error := [],
             jn_created := now, jn_generation := gen\<rparr>)
        (update_where (\<lambda>n. jn_job n = job \<and> jn_node n \<in> set resets \<and> jn_node n \<in> set closure)
        (\<lambda>n. n\<lparr>jn_status := ''pending'', jn_stale_reason := [], jn_error := [], jn_started := None,
             jn_finished := None, jn_created := now, jn_generation := gen\<rparr>) (t_nodes s2))" by blast
  have id: "j_id (run_to_control target j) = j_id j" for j by (simp add: run_to_control_def)
  note bg = bump_generation_Inr [OF b id]
  have g: "job_generation s job = Some (gen - 1)" using bg(1) job_generation_eq [OF s1(1), of job] by simp
  have e: "job_generation s' job = Some (gen - 1 + 1)" "\<And>k. k \<noteq> job \<Longrightarrow> job_generation s' k = job_generation s k"
    using bg(2,3) job_generation_eq [OF s'(1)] job_generation_eq [OF s1(1)] by auto
  have leases: "t_leases s' = t_leases s" using s'(2) bg(5) s1(3) by simp
  have B: "\<forall>x \<in> busy s'. fst x \<noteq> job" using bumped_idle [OF inv g e(1) leases] by blast
  have n2: "t_nodes s2 = t_nodes s" using bg(4) s1(2) by simp
  have "list_all2 (node_keeps (busy s')) (t_nodes s) (t_nodes s')"
    unfolding nodes n2
    by (rule nodes_keep_trans; rule nodes_keep_job [OF B]) (auto simp: node_place_def)
  moreover have "t_shards s' = []"
    using s'(3) bump_generation_shards [OF b] s1(4) inv by (simp add: lease_inv_def keys_ok_def)
  ultimately show ?thesis
    by (intro inv_frame [OF inv epochs_grow_bump [OF g e]]) (simp_all add: leases)
qed

lemma distinct_map_delete: "distinct (map f xs) \<Longrightarrow> distinct (map f (delete_where p xs))"
  by (simp add: delete_where_def distinct_map_filter)

text \<open>A reset may also replace the rows of its job, as an upgrade does.\<close>

lemma inv_replaced_rows:
  assumes inv: "lease_inv s" and g: "job_generation s job = Some g" "job_generation s' job = Some (g + 1)"
      "\<And>k. k \<noteq> job \<Longrightarrow> job_generation s' k = job_generation s k"
    and leases: "t_leases s' = t_leases s" and shards: "t_shards s' = []"
    and places: "distinct (map node_place (t_nodes s'))"
    and others: "\<And>n. n \<in> set (t_nodes s') \<Longrightarrow> jn_job n \<noteq> job \<Longrightarrow> n \<in> set (t_nodes s)"
  shows "lease_inv s'"
proof -
  have grow: "epochs_grow s s'" by (rule epochs_grow_bump [OF g])
  have before: "current s l" if "l \<in> set (t_leases s')" "current s' l" for l
    using current_back [OF inv grow _ lease_keeps_refl] that leases by simp
  have busy: "x \<in> busy s" if "x \<in> busy s'" for x
    using that before leases unfolding busy_iff by auto
  have "keys_ok s'" using inv leases shards places by (simp add: lease_inv_def keys_ok_def)
  moreover have "epochs_ok s'"
    unfolding epochs_ok_def leases
  proof
    fix l
    assume "l \<in> set (t_leases s)"
    with inv obtain h where "job_generation s (le_job l) = Some h" "le_generation l \<le> h"
      by (auto simp: lease_inv_def epochs_ok_def)
    with grow show "\<exists>h. job_generation s' (le_job l) = Some h \<and> le_generation l \<le> h"
      unfolding epochs_grow_def by (meson order_trans)
  qed
  moreover have "running_ok s'"
    unfolding running_ok_def
  proof (intro ballI impI)
    fix n
    assume n: "n \<in> set (t_nodes s')" and b: "node_place n \<in> busy s'"
    from bumped_idle [OF inv g(1,2) leases b] have "n \<in> set (t_nodes s)"
      using others n by (simp add: node_place_def)
    then show "jn_status n = ''running''" using inv_running [OF inv] busy b by blast
  qed
  moreover have "unique_ok s'"
    unfolding unique_ok_def
  proof (intro ballI impI)
    fix l l'
    assume "l \<in> set (t_leases s')" "l' \<in> set (t_leases s')"
      "current s' l \<and> current s' l' \<and> lease_place l = lease_place l'"
    then show "le_id l = le_id l'" using inv_unique_id [OF inv, of l l'] before leases by auto
  qed
  ultimately show ?thesis by (simp add: lease_inv_def)
qed

lemma inv_upgrade:
  assumes inv: "lease_inv s" and dist: "distinct nkeys"
    and m: "upgrade_job_workflow_inherit job pin nkeys inherit staged keep full removed now s = Inr (st, s')"
  shows "lease_inv s'"
proof -
  let ?kept = "kept_nodes job nkeys inherit s"
  let ?reset = "filter (\<lambda>k. k \<notin> set ?kept) nkeys"
  from upgrade_stages [OF m] obtain status gen s1 where
    b: "bump_generation (pin_job pin status) job now s = Inr (gen, s1)"
    and nodes: "t_nodes s' = delete_where (\<lambda>n. jn_job n = job \<and> jn_node n \<notin> set ?kept) (t_nodes s)
        @ map (fresh_node job gen now) ?reset"
    and jobs: "t_jobs s' = t_jobs s1" and leases: "t_leases s' = t_leases s"
    and shards: "t_shards s = [] \<longrightarrow> t_shards s' = []" by blast
  have id: "j_id (pin_job pin status j) = j_id j" for j by (simp add: pin_job_def)
  note bg = bump_generation_Inr [OF b id]
  have g: "job_generation s job = Some (gen - 1)" "job_generation s' job = Some (gen - 1 + 1)"
    "\<And>k. k \<noteq> job \<Longrightarrow> job_generation s' k = job_generation s k"
    using bg(1-3) job_generation_eq [OF jobs] by auto
  show ?thesis
  proof (rule inv_replaced_rows [OF inv g leases])
    show "t_shards s' = []" using shards inv by (simp add: lease_inv_def keys_ok_def)
    let ?rest = "delete_where (\<lambda>n. jn_job n = job \<and> jn_node n \<notin> set ?kept) (t_nodes s)"
    have fresh: "distinct (map node_place (map (fresh_node job gen now) ?reset))"
      using dist by (simp add: distinct_map inj_on_def fresh_node_def node_place_def)
    have rest: "distinct (map node_place ?rest)"
      using inv by (intro distinct_map_delete) (simp add: lease_inv_def keys_ok_def)
    have apart: "node_place n \<noteq> node_place (fresh_node job gen now k)" if "n \<in> set ?rest" "k \<in> set ?reset" for n k
      using that by (auto simp: set_delete_where node_place_def fresh_node_def)
    have "set (map node_place ?rest) \<inter> set (map node_place (map (fresh_node job gen now) ?reset)) = {}"
      using apart by (intro equals0I) (elim IntE, unfold list.set_map, elim imageE, simp)
    then show "distinct (map node_place (t_nodes s'))"
      unfolding nodes map_append distinct_append using fresh rest by simp
    show "n \<in> set (t_nodes s)" if "n \<in> set (t_nodes s')" "jn_job n \<noteq> job" for n
      using that by (auto simp: nodes set_delete_where fresh_node_def)
  qed
qed

section \<open>Control flags and deletion\<close>

lemma inv_job_update:
  assumes "lease_inv s" and s': "s' = s\<lparr>t_jobs := update_where p f (t_jobs s)\<rparr>"
    and "\<And>j. j_id (f j) = j_id j" and "\<And>j. j_generation (f j) = j_generation j"
  shows "lease_inv s'"
  by (rule inv_jobs_only [OF assms(1)])
    (use job_generation_jobs_update [of s' p f s] assms in auto)

lemma resume_update_Inr:
  assumes "resume_update job reason now s = Inr s'"
  shows "\<exists>p f. s' = s\<lparr>t_jobs := update_where p f (t_jobs s)\<rparr> \<and> (\<forall>j. j_id (f j) = j_id j)
    \<and> (\<forall>j. j_generation (f j) = j_generation j)"
proof -
  let ?p = "\<lambda>j. j_id j = job \<and> j_status j = ''paused'' \<and> j_pause_reason j = reason"
  let ?f = "\<lambda>j. if reason = ''target_reached''
        then j\<lparr>j_status := ''queued'', j_paused := False, j_mode := ''full'', j_target := None,
               j_pause_reason := [], j_updated := now\<rparr>
        else j\<lparr>j_status := ''queued'', j_paused := False, j_pause_reason := [], j_updated := now\<rparr>"
  have "count_where ?p (t_jobs s) \<noteq> 0"
    using assms unfolding resume_update_def Let_def by (cases "count_where ?p (t_jobs s) = 0") (auto split: option.splits)
  then have "s' = s\<lparr>t_jobs := update_where ?p ?f (t_jobs s)\<rparr>"
    using assms by (simp add: resume_update_def Let_def)
  then show ?thesis by (intro exI [of _ ?p] exI [of _ ?f]) simp
qed

lemma inv_resume: 
  assumes "lease_inv s" and "resume_job_between job now s0 s = Inr s'"
  shows "lease_inv s'"
proof -
  from assms(2) obtain reason where "resume_update job reason now s = Inr s'"
    by (auto simp: resume_job_between_def err_simps split: option.splits)
  from resume_update_Inr [OF this] show ?thesis using inv_job_update [OF assms(1)] by blast
qed

lemma inv_pause: "lease_inv s \<Longrightarrow> lease_inv (snd (mark_execution_paused job reason now s))"
  by (rule inv_job_update [where p = "\<lambda>j. j_id j = job \<and> \<not> j_paused j \<and> j_status j \<notin> set terminal_job_statuses"
        and f = "\<lambda>j. j\<lparr>j_paused := True, j_pause_reason := strip reason, j_updated := now\<rparr>"])
    (simp_all add: mark_execution_paused_def Let_def)

lemma inv_unpause: "lease_inv s \<Longrightarrow> lease_inv (snd (clear_execution_paused job now s))"
  by (rule inv_job_update [where p = "\<lambda>j. j_id j = job \<and> j_paused j \<and> j_pause_reason j \<noteq> ''target_reached''"
        and f = "\<lambda>j. j\<lparr>j_paused := False, j_pause_reason := [],
          j_status := (if j_status j = ''paused'' then ''queued'' else j_status j), j_updated := now\<rparr>"])
    (simp_all add: clear_execution_paused_def Let_def)

lemma find_filter_other: "(\<And>x. q x \<Longrightarrow> p x) \<Longrightarrow> find q (filter p xs) = find q xs"
  by (induction xs) auto

lemma delete_job_generation:
  assumes "delete_job job s = Inr s'" and "k \<noteq> job"
  shows "job_generation s' k = job_generation s k"
proof -
  have "t_jobs s' = filter (\<lambda>r. j_id r \<noteq> job) (t_jobs s)"
    using assms(1) by (auto simp: delete_job_def err_simps delete_where_def)
  then show ?thesis
    using find_filter_other [of "\<lambda>r. j_id r = k" "\<lambda>r. j_id r \<noteq> job" "t_jobs s"] assms(2)
    by (auto simp: job_generation_def job_of_def)
qed

lemma inv_delete:
  assumes inv: "lease_inv s" and d: "delete_job job s = Inr s'"
  shows "lease_inv s'"
proof -
  have t: "t_leases s' = delete_where (\<lambda>r. le_job r = job) (t_leases s)"
    "t_nodes s' = delete_where (\<lambda>r. jn_job r = job) (t_nodes s)" "t_shards s' = []"
    using d inv by (auto simp: delete_job_def err_simps lease_inv_def keys_ok_def delete_where_def)
  note gen = delete_job_generation [OF d]
  have cur: "current s' l \<longleftrightarrow> current s l" if "le_job l \<noteq> job" for l
    using gen that by (simp add: current_def)
  have "keys_ok s'" using inv unfolding keys_ok_def t by (simp add: lease_inv_def keys_ok_def distinct_map_delete)
  moreover have "epochs_ok s'"
    using inv gen unfolding epochs_ok_def t by (auto simp: lease_inv_def epochs_ok_def set_delete_where)
  moreover have "running_ok s'"
    unfolding running_ok_def
  proof (intro ballI impI)
    fix n
    assume n: "n \<in> set (t_nodes s')" and "node_place n \<in> busy s'"
    then have "node_place n \<in> busy s" by (auto simp: busy_iff t set_delete_where cur)
    with n show "jn_status n = ''running''" using inv_running [OF inv] by (auto simp: t set_delete_where)
  qed
  moreover have "unique_ok s'"
    unfolding unique_ok_def
  proof (intro ballI impI)
    fix l l'
    assume l: "l \<in> set (t_leases s')" "l' \<in> set (t_leases s')"
      and c: "current s' l \<and> current s' l' \<and> lease_place l = lease_place l'"
    then show "le_id l = le_id l'" using inv_unique_id [OF inv, of l l'] by (auto simp: t set_delete_where cur)
  qed
  ultimately show ?thesis by (simp add: lease_inv_def)
qed

section \<open>Reachable states\<close>

text \<open>A transition system with an inductive invariant: what holds at the start holds for ever.\<close>

locale invariant_system =
  fixes inv :: "'s \<Rightarrow> bool" and step :: "'s \<Rightarrow> 's \<Rightarrow> bool"
  assumes step_inv: "inv s \<Longrightarrow> step s s' \<Longrightarrow> inv s'"
begin

lemma reach_inv: "step\<^sup>*\<^sup>* s s' \<Longrightarrow> inv s \<Longrightarrow> inv s'"
  by (induction rule: rtranclp_induct) (auto intro: step_inv)

end

lemma lease_step_inv:
  assumes inv: "lease_inv s" and step: "lease_step s s'"
  shows "lease_inv s'"
  using step
proof cases
  case (step_claim r ev ce)
  then show ?thesis using inv_claim [OF inv] by blast
next
  case (step_heartbeat l ttl now)
  then show ?thesis using inv_heartbeat [OF inv] by simp
next
  case (step_finish env l r)
  then show ?thesis using inv_finish [OF inv] by simp
next
  case (step_expire le now)
  then show ?thesis using inv_expire [OF inv] by simp
next
  case (step_recover job now)
  then show ?thesis using inv_recover [OF inv] by simp
next
  case (step_park job node gen now)
  then show ?thesis using inv_park [OF inv] by simp
next
  case (step_fail u job node gen err lg now)
  then show ?thesis using inv_fail [OF inv] by simp
next
  case (step_empty job node gen now)
  then show ?thesis using inv_empty [OF inv] by simp
next
  case (step_rerun job now rr targets downstream staged rows)
  then show ?thesis using inv_rerun [OF inv] lease_guarded_Inr by metis
next
  case (step_run_to job now target closure reset staged rows)
  then show ?thesis using inv_run_to [OF inv] lease_guarded_Inr by metis
next
  case (step_resume job now s0)
  then show ?thesis using inv_resume [OF inv] by blast
next
  case (step_pause job reason now)
  then show ?thesis using inv_pause [OF inv] by simp
next
  case (step_unpause job now)
  then show ?thesis using inv_unpause [OF inv] by simp
next
  case (step_delete job)
  then show ?thesis using inv_delete [OF inv] by blast
next
  case (step_upgrade job now pin nkeys inherit staged keep full removed st)
  then show ?thesis using inv_upgrade [OF inv] lease_guarded_Inr by metis
qed

interpretation leases: invariant_system lease_inv lease_step
  by unfold_locales (rule lease_step_inv)

lemma no_leases_inv:
  "t_leases s = [] \<Longrightarrow> t_shards s = [] \<Longrightarrow> distinct (map node_place (t_nodes s)) \<Longrightarrow> lease_inv s"
  by (simp add: lease_inv_def keys_ok_def epochs_ok_def running_ok_def unique_ok_def busy_def)

end
