(* ===== verification/Lease_Properties.thy ===== *)
theory Lease_Properties
  imports Lease_System
begin

text \<open>
  What the lease protocol, the sharding and the job mutations promise, with a small database as
  the concrete input: one job of three nodes, one of them claimed.
\<close>

section \<open>A sample database\<close>

definition sample_job :: job_row where
  "sample_job = \<lparr>j_id = ''job'', j_workspace = ''ws'', j_status = ''queued'', j_mode = ''full'', j_target = None,
     j_paused = False, j_pause_reason = [], j_error = [], j_packed = False, j_generation = 0, j_updated = 0,
     j_revision = ''r1'', j_version = 1, j_def_hash = [], j_snapshot = [], j_frozen = None\<rparr>"

definition sample_row :: "string \<Rightarrow> node_row" where
  "sample_row k = \<lparr>jn_job = ''job'', jn_node = k, jn_status = ''pending'', jn_stale_reason = [], jn_error = [],
     jn_category = [], jn_detail = [], jn_started = None, jn_finished = None, jn_created = 0, jn_generation = 0\<rparr>"

definition sample_db :: db where
  "sample_db = \<lparr>t_jobs = [sample_job], t_nodes = map sample_row [''a'', ''b'', ''c''], t_runs = [], t_leases = [],
     t_shards = [], t_artifacts = [], t_requests = [], t_limits = [], t_next_run = 1,
     t_workers = [], t_agent_caps = []\<rparr>"

definition sample_request :: "string \<Rightarrow> claim_request" where
  "sample_request k = \<lparr>cr_executor = ''code'', cr_capacity = 1, cr_workspace = ''ws'', cr_job = ''job'',
     cr_workflow = ''ws'', cr_node = k, cr_capability = ''run'', cr_node_limit = None, cr_ttl = 30, cr_log = ''log'',
     cr_mode = ''full'', cr_target = None, cr_allowed = [], cr_shard = None, cr_config = [], cr_definition = [],
     cr_generation = 0\<rparr>"

definition sample_env :: "string \<Rightarrow> int \<Rightarrow> claim_env" where
  "sample_env l t = \<lparr>ev_lease = l, ev_execution = l, ev_now = t, ev_log_path = Some ''log''\<rparr>"

definition after_claim :: "claim_request \<Rightarrow> claim_env \<Rightarrow> db \<Rightarrow> db" where
  "after_claim r ev s = (case claim_lease r ev s of Inr (Some (ce, s')) \<Rightarrow> s' | _ \<Rightarrow> s)"

definition claimed_db :: db where
  "claimed_db = after_claim (sample_request ''a'') (sample_env ''l1'' 0) sample_db"

lemma sample_claims: "\<exists>ce. claim_lease (sample_request ''a'') (sample_env ''l1'' 0) sample_db = Inr (Some (ce, claimed_db))"
proof -
  have "case claim_lease (sample_request ''a'') (sample_env ''l1'' 0) sample_db of Inr (Some x) \<Rightarrow> True | _ \<Rightarrow> False"
    by code_simp
  then show ?thesis
    by (auto simp: claimed_db_def after_claim_def split: sum.splits option.splits)
qed

lemma sample_db_inv: "lease_inv sample_db"
  by (rule no_leases_inv) code_simp+

lemma claimed_db_reachable: "lease_step\<^sup>*\<^sup>* sample_db claimed_db"
proof -
  from sample_claims obtain ce where "claim_lease (sample_request ''a'') (sample_env ''l1'' 0) sample_db = Inr (Some (ce, claimed_db))" ..
  then have "lease_step sample_db claimed_db"
    by (rule step_claim) code_simp+
  then show ?thesis by blast
qed

lemma claimed_db_inv: "lease_inv claimed_db"
  by (rule leases.reach_inv [OF claimed_db_reachable sample_db_inv])

section \<open>Claims\<close>

text \<open>
  C9. A claim never takes the executor over its capacity nor the node over its limit: counted
  right after the claim, the live leases are within both bounds.
\<close>

theorem claim_respects_capacity:
  assumes "claim_lease r ev s = Inr (Some (ce, s'))"
  shows "int (executor_load (cr_executor r) (ev_now ev) s') \<le> cr_capacity r
    \<and> (\<forall>limit. cr_node_limit r = Some limit \<longrightarrow> int (node_load (cr_workspace r) (cr_node r) (ev_now ev) s') \<le> limit)"
  using claim_within_capacity [OF assms] by blast

theorem claim_respects_capacity_witness: "executor_load ''code'' 0 claimed_db \<le> 1"
proof -
  from sample_claims obtain ce where
    c: "claim_lease (sample_request ''a'') (sample_env ''l1'' 0) sample_db = Inr (Some (ce, claimed_db))" ..
  from claim_respects_capacity [OF c] show ?thesis by (simp add: sample_request_def sample_env_def)
qed

text \<open>
  C10. A successful claim means: the job is in the epoch the request was computed in, it is
  neither paused nor terminal and still in the requested mode; the node was waiting and now runs in
  that epoch, or, for the claim of a shard, the shard was pending and now runs for this execution while
  its node was waiting or running and now runs; and exactly one new lease exists, active, of that epoch.
\<close>

theorem claim_meaning:
  assumes "claim_lease r ev s = Inr (Some (ce, s'))"
  shows "(\<exists>j. job_of s (cr_job r) = Some j \<and> j_generation j = cr_generation r \<and> \<not> j_paused j
      \<and> j_mode j = cr_mode r \<and> j_status j \<notin> {''completed'', ''failed''})
    \<and> node_started (cr_job r) (cr_node r) (cr_shard r) (cr_generation r) (ev_execution ev) s s'
    \<and> (\<exists>l. t_leases s' = t_leases s @ [l] \<and> le_id l = ev_lease ev \<and> le_job l = cr_job r \<and> le_node l = cr_node r
        \<and> le_status l = ''active'' \<and> le_generation l = cr_generation r)"
proof -
  from claim_lease_Some [OF assms] obtain j s1 lg where
    j: "job_of s (cr_job r) = Some j" "j_generation j = cr_generation r" "\<not> control_rejects_claim r j"
      "j_status j \<notin> set terminal_job_statuses"
    and n: "start_node_run r ev (cr_generation r) s = Some s1" and s': "s' = snd (record_claim r ev lg s1)"
    by (metis snd_conv)
  have "node_started (cr_job r) (cr_node r) (cr_shard r) (cr_generation r) (ev_execution ev) s s'"
    using start_node_run_started [OF n] unfolding s' node_started_def node_of_def record_claim_tables .
  moreover have "t_leases s' = t_leases s @ [new_lease r ev (t_next_run s1)]"
    by (simp add: s' record_claim_tables start_node_run_Some [OF n])
  moreover have "\<not> j_paused j" "j_mode j = cr_mode r" using j(3) by (auto simp: control_rejects_claim_def split: if_splits)
  ultimately show ?thesis using j by (auto simp: terminal_job_statuses_def new_lease_def)
qed

theorem claim_meaning_witness:
  "\<exists>n \<in> set (t_nodes claimed_db). node_match ''job'' ''a'' [''running''] n \<and> jn_generation n = 0"
proof -
  from sample_claims obtain ce where
    c: "claim_lease (sample_request ''a'') (sample_env ''l1'' 0) sample_db = Inr (Some (ce, claimed_db))" ..
  from claim_meaning [OF c] show ?thesis by (simp add: sample_request_def node_started_def)
qed

section \<open>Epochs\<close>

text \<open>
  C11. Late writers are harmless: any sequence of claims, finishes, expiries, parks, failures and
  empty completions that carry an outdated epoch (or have lost their lease) leaves every job row
  and every node row as it was.
\<close>

theorem late_writers_harmless:
  assumes "\<forall>w \<in> set ws. late_stale w s"
  shows "job_view (fold late_act ws s) = job_view s"
  by (rule late.stale_run [OF assms])

theorem late_writers_harmless_witness:
  "job_view (fold late_act [LateEmpty ''job'' ''b'' 7 0, LatePark ''job'' ''c'' 9 0] claimed_db) = job_view claimed_db"
  by (rule late_writers_harmless) code_simp

text \<open>
  In every state the transactions can reach from a database without leases, a node has at
  most one active lease of the current epoch of its job, and while it has one it is running.
\<close>

theorem one_current_lease:
  assumes "lease_step\<^sup>*\<^sup>* s0 s" and "t_leases s0 = []" and "t_shards s0 = []"
    and "distinct (map node_place (t_nodes s0))"
    and "l \<in> set (t_leases s)" and "current s l"
  shows "(\<forall>l' \<in> set (t_leases s). current s l' \<and> lease_place l' = lease_place l \<longrightarrow> l' = l)
    \<and> (\<forall>n \<in> set (t_nodes s). node_place n = lease_place l \<longrightarrow> jn_status n = ''running'')"
proof -
  have inv: "lease_inv s" by (rule leases.reach_inv [OF assms(1) no_leases_inv [OF assms(2-4)]])
  have "lease_place l \<in> busy s" using assms(5,6) by (auto simp: busy_iff)
  with inv_running [OF inv] inv_unique [OF inv] assms(5,6) show ?thesis by metis
qed

theorem one_current_lease_witness:
  "jn_status (hd (t_nodes claimed_db)) = ''running'' \<and> node_place (hd (t_nodes claimed_db)) = (''job'', ''a'')"
proof -
  have l: "hd (t_leases claimed_db) \<in> set (t_leases claimed_db)" by code_simp
  have c: "current claimed_db (hd (t_leases claimed_db))" unfolding current_def by code_simp
  have p: "lease_place (hd (t_leases claimed_db)) = (''job'', ''a'')" by code_simp
  have "t_leases sample_db = []" "t_shards sample_db = []" "distinct (map node_place (t_nodes sample_db))" by code_simp+
  note o = one_current_lease [OF claimed_db_reachable this l c]
  have "hd (t_nodes claimed_db) \<in> set (t_nodes claimed_db)" "node_place (hd (t_nodes claimed_db)) = (''job'', ''a'')"
    by code_simp+
  with o p show ?thesis by simp
qed

lemma run_to_bumps_once:
  assumes "apply_run_to job target closure reset staged now s = Inr (rows, s')"
    and "job_generation s job = Some g"
  shows "job_generation s' job = Some (g + 1) \<and> (\<forall>k. k \<noteq> job \<longrightarrow> job_generation s' k = job_generation s k)
    \<and> t_leases s' = t_leases s"
proof -
  from apply_run_to_stages [OF assms(1)] obtain s1 gen s2 where
    b: "bump_generation (run_to_control target) job now s1 = Inr (gen, s2)"
    and s1: "t_jobs s1 = t_jobs s" "t_leases s1 = t_leases s"
    and s2: "t_jobs s' = t_jobs s2" "t_leases s' = t_leases s2" by blast
  note bg = bump_generation_Inr [OF b, unfolded run_to_control_def, simplified]
  have "gen = g + 1" using bg(1) assms(2) job_generation_eq [OF s1(1), of job] by simp
  then show ?thesis
    using bg(2,3,5) s1(2) s2(2) job_generation_eq [OF s2(1)] job_generation_eq [OF s1(1)] by auto
qed

text \<open>
  A rerun and a run-to raise the epoch of their job by exactly one, and touch neither the
  epoch of another job nor any lease row.
\<close>

theorem reset_bumps_epoch_once:
  assumes "mark_nodes_for_rerun job targets downstream staged now s = Inr (rows, s')
      \<or> apply_run_to job target closure reset staged now s = Inr (rows, s')"
    and "job_generation s job = Some g"
  shows "job_generation s' job = Some (g + 1) \<and> (\<forall>k. k \<noteq> job \<longrightarrow> job_generation s' k = job_generation s k)
    \<and> t_leases s' = t_leases s"
  using assms rerun_bumps_once run_to_bumps_once by blast

definition rerun_db :: db where
  "rerun_db = (case mark_nodes_for_rerun ''job'' [''a''] [(''a'', [''b''])] [] 5 claimed_db of Inr (rows, s') \<Rightarrow> s' | Inl _ \<Rightarrow> claimed_db)"

lemma sample_rerun: "\<exists>rows. mark_nodes_for_rerun ''job'' [''a''] [(''a'', [''b''])] [] 5 claimed_db = Inr (rows, rerun_db)"
proof -
  have "case mark_nodes_for_rerun ''job'' [''a''] [(''a'', [''b''])] [] 5 claimed_db of Inr x \<Rightarrow> True | _ \<Rightarrow> False"
    by code_simp
  then show ?thesis by (auto simp: rerun_db_def split: sum.splits)
qed

theorem reset_bumps_epoch_once_witness: "job_generation rerun_db ''job'' = Some 1 \<and> t_leases rerun_db = t_leases claimed_db"
proof -
  from sample_rerun obtain rows where
    r: "mark_nodes_for_rerun ''job'' [''a''] [(''a'', [''b''])] [] 5 claimed_db = Inr (rows, rerun_db)" ..
  have "job_generation claimed_db ''job'' = Some 0" by code_simp
  from reset_bumps_epoch_once [OF disjI1 [OF r] this] show ?thesis by simp
qed

text \<open>A lease that was there before the epoch moved on is outdated afterwards.\<close>

lemma old_lease_outdated:
  assumes "lease_inv s" and "l \<in> set (t_leases s)" and "job_generation s (le_job l) = Some g"
    and "job_generation s' (le_job l) = Some (g + 1)" and "t_leases s' = t_leases s"
  shows "lease_of s' (le_id l) = Some l \<and> job_generation s' (le_job l) \<noteq> Some (le_generation l)"
proof -
  have "distinct (map le_id (t_leases s))" using assms(1) by (simp add: lease_inv_def keys_ok_def)
  then have "find (\<lambda>r. le_id r = le_id l) (t_leases s) = Some l" using assms(2)
    by (induction "t_leases s" arbitrary: s) (auto simp: find_Some_iff in_set_conv_nth distinct_conv_nth)
  moreover have "le_generation l \<le> g" using assms(1-3) by (auto simp: lease_inv_def epochs_ok_def)
  ultimately show ?thesis using assms(4,5) by (simp add: lease_of_def)
qed

text \<open>
  C25. A rerun fences off the executions it interrupts: no lease of the job from before it may
  write artifacts any more, and finishing one changes no job row and no node row.
\<close>

theorem rerun_fences_old_leases:
  assumes "lease_inv s" and "mark_nodes_for_rerun job targets downstream staged now s = Inr (rows, s')"
    and "l \<in> set (t_leases s)" and "le_job l = job"
  shows "\<not> lease_artifact_write_current (le_id l) job s'
    \<and> job_view (snd (finish_lease env (le_id l) r s')) = job_view s'"
proof -
  obtain g where g: "job_generation s job = Some g" using assms(1,3,4) by (auto simp: lease_inv_def epochs_ok_def)
  from rerun_bumps_once [OF assms(2) g] have s': "job_generation s' job = Some (g + 1)" "t_leases s' = t_leases s" by auto
  from old_lease_outdated [OF assms(1,3)] g s' assms(4)
  have l: "lease_of s' (le_id l) = Some l" "job_generation s' (le_job l) \<noteq> Some (le_generation l)" by auto
  have "distinct (map le_id (t_leases s'))" using assms(1) s'(2) by (simp add: lease_inv_def keys_ok_def)
  then have "find (\<lambda>x. le_id x = le_id l \<and> le_job x = job \<and> le_status x = ''active'') (t_leases s') = Some x \<Longrightarrow> x = l" for x
    using lease_of_SomeD [OF l(1)] by (auto simp: find_Some_iff distinct_map inj_on_def)
  then have "\<not> lease_artifact_write_current (le_id l) job s'"
    using l(2) s'(1) assms(4) by (auto simp: lease_artifact_write_current_def split: option.splits)
  moreover have "late_stale (LateFinish env (le_id l) r) s'" using l by simp
  ultimately show ?thesis using finish_stale_view by blast
qed

theorem rerun_fences_old_leases_witness: "\<not> lease_artifact_write_current ''l1'' ''job'' rerun_db"
proof -
  from sample_rerun obtain rows where
    r: "mark_nodes_for_rerun ''job'' [''a''] [(''a'', [''b''])] [] 5 claimed_db = Inr (rows, rerun_db)" ..
  have l: "hd (t_leases claimed_db) \<in> set (t_leases claimed_db)" "le_job (hd (t_leases claimed_db)) = ''job''"
    "le_id (hd (t_leases claimed_db)) = ''l1''" by code_simp+
  from rerun_fences_old_leases [OF claimed_db_inv r l(1,2)] l(3) show ?thesis by simp
qed

end
