(* ===== verification/Job_Properties.thy ===== *)
theory Job_Properties
  imports Lease_Properties
begin

text \<open>
  Properties of fan-out nodes, of the job status, of finishing, expiry and recovery, and of the
  job mutations that do not reset nodes.
\<close>

section \<open>Fan-out\<close>

text \<open>
  Materialising the shards of a node is idempotent, and afterwards the shard table has
  exactly the old keys and one shard per input.
\<close>

theorem materialize_idempotent:
  assumes "materialize_shards job node inputs ms s = Inr (n, s')"
  shows "materialize_shards job node inputs ms s' = Inr (n, s')
    \<and> shard_key ` set (t_shards s') = (\<lambda>i. (job, node, i)) ` {..< length inputs} \<union> shard_key ` set (t_shards s)"
  using materialize_fixpoint [OF assms] materialize_keys [OF assms] by blast

definition shards_db :: db where
  "shards_db = (case materialize_shards ''job'' ''a'' [''1'', ''2''] 10 sample_db of Inr (n, s') \<Rightarrow> s' | Inl _ \<Rightarrow> sample_db)"

lemma sample_materialize: "materialize_shards ''job'' ''a'' [''1'', ''2''] 10 sample_db = Inr (2, shards_db)"
proof -
  have "case materialize_shards ''job'' ''a'' [''1'', ''2''] 10 sample_db of Inr (n, s') \<Rightarrow> n = 2 | _ \<Rightarrow> False" by code_simp
  then show ?thesis by (auto simp: shards_db_def split: sum.splits prod.splits)
qed

theorem materialize_idempotent_witness: "materialize_shards ''job'' ''a'' [''1'', ''2''] 10 shards_db = Inr (2, shards_db)"
  using materialize_idempotent [OF sample_materialize] by simp

text \<open>
  The finish of the last open shard always reports a terminal aggregate, whatever the order
  in which the shards finish, so a fan-out node cannot hang.
\<close>

theorem last_shard_settles_node:
  assumes "r \<in> set (t_shards s)" and "shard_at job node i r" and "status \<in> {''completed'', ''failed''}"
    and "\<forall>r \<in> set (t_shards s). shard_of_node job node r \<and> sd_index r \<noteq> i
      \<longrightarrow> sd_status r \<in> {''completed'', ''failed''}"
  shows "fst (on_shard_finished job node i status output err now s) \<in> {''completed'', ''failed''}"
  by (rule last_shard_terminal [OF assms])

theorem last_shard_settles_node_witness:
  "fst (on_shard_finished ''job'' ''a'' 1 ''completed'' [] [] 9
     (snd (on_shard_finished ''job'' ''a'' 0 ''failed'' [] [] 8 shards_db))) \<in> {''completed'', ''failed''}"
proof -
  let ?s = "snd (on_shard_finished ''job'' ''a'' 0 ''failed'' [] [] 8 shards_db)"
  have "t_shards ?s ! 1 \<in> set (t_shards ?s)" by code_simp
  moreover have "shard_at ''job'' ''a'' 1 (t_shards ?s ! 1)" by code_simp
  moreover have "''completed'' \<in> {''completed'', ''failed''}" by simp
  moreover have "\<forall>r \<in> set (t_shards ?s). shard_of_node ''job'' ''a'' r \<and> sd_index r \<noteq> 1
      \<longrightarrow> sd_status r \<in> {''completed'', ''failed''}" by code_simp
  ultimately show ?thesis by (rule last_shard_settles_node)
qed

text \<open>
  The aggregate of a fan-out node is completed exactly when it has shards and all of them
  completed, and failed exactly when one of them failed.
\<close>

theorem aggregate_meaning:
  "(aggregate_shard_state job node s = ''completed'' \<longleftrightarrow>
      (\<exists>r \<in> set (t_shards s). shard_of_node job node r)
      \<and> {r \<in> set (t_shards s). shard_of_node job node r} \<subseteq> {r. sd_status r = ''completed''})
    \<and> (aggregate_shard_state job node s = ''failed'' \<longleftrightarrow>
      (\<exists>r \<in> set (t_shards s). shard_of_node job node r \<and> sd_status r = ''failed''))"
  using aggregate_completed_iff [of job node s] aggregate_failed_iff [of job node s] by blast

section \<open>Job status\<close>

definition statuses_of :: "string \<Rightarrow> db \<Rightarrow> string list" where
  "statuses_of job s = map jn_status (filter (\<lambda>n. jn_job n = job) (t_nodes s))"

text \<open>
  The SQL that recomputes a job's status agrees with the scheduler's summary of the node
  statuses, for a job that is not paused and has nodes.
\<close>

theorem job_status_agrees:
  assumes "\<not> (\<exists>j \<in> set (t_jobs s). j_id j = job \<and> j_paused j)" and "statuses_of job s \<noteq> []"
  shows "synced_status job s = summarize_job_status (statuses_of job s)"
proof -
  have ex: "exists_where (node_in job st) (t_nodes s) \<longleftrightarrow> st \<in> set (statuses_of job s)" for st
    by (auto simp: exists_where_iff node_in_def statuses_of_def)
  have rest: "exists_where (\<lambda>r. jn_job r = job \<and> jn_status r \<notin> {''completed'', ''not_applicable''}) (t_nodes s)
      \<longleftrightarrow> \<not> list_all (\<lambda>st. st \<in> set terminal_success_statuses) (statuses_of job s)"
    by (auto simp: exists_where_iff statuses_of_def terminal_success_statuses_def list_all_iff)
  have "\<not> exists_where (\<lambda>j. j_id j = job \<and> j_paused j) (t_jobs s)" using assms(1) by (simp add: exists_where_iff)
  then show ?thesis unfolding synced_status_def summarize_job_status_def ex rest using assms(2) by simp
qed

theorem job_status_agrees_witness: "synced_status ''job'' claimed_db = summarize_job_status [''running'', ''pending'', ''pending'']"
proof -
  have "\<not> (\<exists>j \<in> set (t_jobs claimed_db). j_id j = ''job'' \<and> j_paused j)" by code_simp
  moreover have "statuses_of ''job'' claimed_db = [''running'', ''pending'', ''pending'']" by code_simp
  ultimately show ?thesis using job_status_agrees by force
qed

section \<open>Finishing, expiry, recovery\<close>

lemma finish_lease_leases:
  assumes "lease_of s l = Some le" and "le_status le = ''active''"
  shows "t_leases (snd (finish_lease env l r s)) =
    update_where (\<lambda>x. le_id x = l) (\<lambda>x. x\<lparr>le_status := ''released''\<rparr>) (t_leases s)"
proof -
  have k: "le_id le = l" using lease_of_SomeD [OF assms(1)] by simp
  have sh: "t_leases s2 = t_leases s1" if "finish_shard_execution le r' now st s1 = Some s2" for r' now st s1 s2
    using that by (auto simp: finish_shard_execution_def Let_def split_beta split: option.splits if_splits)
  show ?thesis
    using assms k by (auto simp: finish_lease_def Let_def flip_node_tables dest: sh split: option.splits)
qed

text \<open>
  A lease is finished at most once: a second finish of the same lease is not applied and
  writes nothing, whatever result it reports.
\<close>

theorem finish_applies_once:
  assumes "fv_applied (fst (finish_lease env l r s))"
  shows "finish_lease env' l r' (snd (finish_lease env l r s))
    = (\<lparr>fv_applied = False, fv_stale = False\<rparr>, snd (finish_lease env l r s))"
proof -
  from assms obtain le where le: "lease_of s l = Some le" "le_status le = ''active''"
    by (auto simp: finish_lease_def split: option.splits if_splits)
  have "lease_of (snd (finish_lease env l r s)) l = Some (le\<lparr>le_status := ''released''\<rparr>)"
    using le(1) unfolding lease_of_def finish_lease_leases [OF le] by (subst find_update_key) auto
  then show ?thesis by (simp add: finish_lease_def)
qed

definition sample_result :: exec_result where
  "sample_result = \<lparr>er_status = ''completed'', er_exit = 0, er_error = [], er_command = [], er_log = [],
     er_run_dir = [], er_session_dir = [], er_session_ref = [], er_skill_version = [], er_skill = [], er_runner = [],
     er_category = [], er_detail = [], er_output = [], er_moves = []\<rparr>"

definition sample_finish :: finish_env where
  "sample_finish = \<lparr>fe_now = 7, fe_promote = (\<lambda>r. r), fe_paths = (\<lambda>r lg. (lg, [], [])),
     fe_unicode = \<lparr>uc_digit = \<lambda>_. False, uc_word = \<lambda>_. False\<rparr>\<rparr>"

theorem finish_applies_once_witness:
  "\<not> fv_applied (fst (finish_lease sample_finish ''l1'' sample_result
      (snd (finish_lease sample_finish ''l1'' sample_result claimed_db))))"
proof -
  have "fv_applied (fst (finish_lease sample_finish ''l1'' sample_result claimed_db))" by code_simp
  from finish_applies_once [OF this] show ?thesis by simp
qed

text \<open>The expiry sweep, one lease after another.\<close>

definition expired_row :: "lease_row \<Rightarrow> lease_row" where
  "expired_row l = l\<lparr>le_status := ''expired''\<rparr>"

lemma expire_lease_row_due:
  assumes "distinct (map le_id (t_leases s))" and "le \<in> set (t_leases s)"
    and "le_status le = ''active''" and "le_expires le \<le> now"
  shows "fst (expire_lease_row le now s)"
    and "t_leases (snd (expire_lease_row le now s)) = map (\<lambda>l. if l = le then expired_row l else l) (t_leases s)"
proof -
  have c: "count_where (\<lambda>l. active_lease (le_id le) l \<and> le_expires l \<le> now) (t_leases s) \<noteq> 0"
    using assms by (auto simp: count_where_0 active_lease_def)
  have "active_lease (le_id le) l \<and> le_expires l \<le> now \<longleftrightarrow> l = le" if "l \<in> set (t_leases s)" for l
    using assms that by (auto simp: active_lease_def distinct_map inj_on_def)
  then have u: "update_where (\<lambda>l. active_lease (le_id le) l \<and> le_expires l \<le> now) (\<lambda>l. l\<lparr>le_status := ''expired''\<rparr>) (t_leases s)
      = map (\<lambda>l. if l = le then expired_row l else l) (t_leases s)"
    by (auto simp: update_where_def expired_row_def)
  show "fst (expire_lease_row le now s)" using c by (simp add: expire_lease_row_def Let_def)
  have flip: "t_leases (expire_flip_node le now s1) = t_leases s1" for s1 by (simp add: expire_flip_tables)
  have "t_leases (snd (expire_lease_row le now s)) = t_leases (settle_expired le now s)"
    using c unfolding expire_lease_row_def Let_def
    by (auto simp: split_beta flip simp del: settle_expired_tables split: option.splits)
  then show "t_leases (snd (expire_lease_row le now s)) = map (\<lambda>l. if l = le then expired_row l else l) (t_leases s)"
    by (simp add: u)
qed

lemma sweep_rows:
  assumes "distinct (map le_id (t_leases s))" and "distinct xs" and "set xs \<subseteq> set (t_leases s)"
    and "\<forall>l \<in> set xs. le_status l = ''active'' \<and> le_expires l \<le> now"
  shows "fst (fold (expire_one now) xs (acc, s)) = acc @ map le_id xs
    \<and> t_leases (snd (fold (expire_one now) xs (acc, s))) = map (\<lambda>l. if l \<in> set xs then expired_row l else l) (t_leases s)"
  using assms
proof (induction xs arbitrary: acc s)
  case (Cons le xs)
  let ?s = "snd (expire_lease_row le now s)"
  have le: "le \<in> set (t_leases s)" "le_status le = ''active''" "le_expires le \<le> now" using Cons.prems by auto
  note d = expire_lease_row_due [OF Cons.prems(1) le]
  have one: "expire_one now le (acc, s) = (acc @ [le_id le], ?s)"
    using d(1) by (auto simp: expire_one_def split: prod.splits bool.splits)
  have ids: "map le_id (t_leases ?s) = map le_id (t_leases s)" by (simp add: d(2) expired_row_def)
  have sub: "set xs \<subseteq> set (t_leases ?s)"
    using Cons.prems(2,3) by (auto simp: d(2) image_iff)
  have "fst (fold (expire_one now) xs (acc @ [le_id le], ?s)) = (acc @ [le_id le]) @ map le_id xs
    \<and> t_leases (snd (fold (expire_one now) xs (acc @ [le_id le], ?s))) = map (\<lambda>l. if l \<in> set xs then expired_row l else l) (t_leases ?s)"
    by (rule Cons.IH) (use Cons.prems ids sub in auto)
  moreover have "expired_row le \<notin> set xs" using Cons.prems(4) by (auto simp: expired_row_def)
  ultimately show ?case by (auto simp: one d(2))
qed simp

lemma set_lock_order [simp]: "set (lock_order f g xs) = set xs"
  by (simp add: lock_order_def)

lemma distinct_lock_order: "distinct xs \<Longrightarrow> distinct (lock_order f g xs)"
  by (simp add: lock_order_def)

definition before_in_lock_order :: "(string \<Rightarrow> int) \<Rightarrow> lease_row \<Rightarrow> lease_row \<Rightarrow> bool" where
  "before_in_lock_order lock_key x y \<longleftrightarrow> lock_key (le_job x) < lock_key (le_job y)
     \<or> lock_key (le_job x) = lock_key (le_job y) \<and> le_job x \<le> le_job y"

lemma insort_before:
  assumes "sorted_wrt (before_in_lock_order h) ys" and "\<forall>y \<in> set ys. le_job x \<le> le_job y"
  shows "sorted_wrt (before_in_lock_order h) (insort_key (\<lambda>x. h (le_job x)) x ys)"
  using assms by (induction ys) (auto simp: before_in_lock_order_def set_insort_key)

lemma lock_order_before: "sorted_wrt (before_in_lock_order h) (lock_order h le_job xs)"
proof -
  have "sorted (map le_job ys) \<Longrightarrow> sorted_wrt (before_in_lock_order h) (sort_key (\<lambda>x. h (le_job x)) ys)" for ys
    by (induction ys) (simp_all add: insort_before)
  then show ?thesis by (simp add: lock_order_def)
qed

lemma agent_lease_form: "starts_with ''agent:'' e \<longleftrightarrow> take 6 e = ''agent:''"
  by (simp add: starts_with_def numeral_eq_Suc)

lemma due_leases_iff:
  "l \<in> set (due_leases now s) \<longleftrightarrow> l \<in> set (t_leases s) \<and> le_status l = ''active'' \<and> le_expires l \<le> now
     \<and> take 6 (le_executor l) \<noteq> ''agent:'' \<and> (\<exists>j \<in> set (t_jobs s). j_id j = le_job l)"
  by (auto simp: due_leases_def agent_lease_form job_of_def find_None_iff)

text \<open>
  C32. The expiry sweep expires exactly the active leases whose time has passed, whose executor is not
  one of the Agent broker's (those named \<open>agent:\<close>) and whose job exists: it reports each of their ids once, in
  the order of the advisory lock key and the id of the job, and leaves every other lease untouched.
\<close>

theorem sweep_exact:
  assumes "distinct (map le_id (t_leases s))"
    and "\<And>l. due l \<longleftrightarrow> le_status l = ''active'' \<and> le_expires l \<le> now \<and> take 6 (le_executor l) \<noteq> ''agent:''
      \<and> (\<exists>j \<in> set (t_jobs s). j_id j = le_job l)"
  shows "(\<exists>xs. fst (expire_stale_leases lock_key now s) = map le_id xs \<and> distinct xs
        \<and> set xs = {l \<in> set (t_leases s). due l} \<and> sorted_wrt (before_in_lock_order lock_key) xs)
    \<and> t_leases (snd (expire_stale_leases lock_key now s))
        = map (\<lambda>l. if due l then l\<lparr>le_status := ''expired''\<rparr> else l) (t_leases s)"
proof -
  let ?xs = "lock_order lock_key le_job (due_leases now s)"
  have "distinct (due_leases now s)" using assms(1) by (simp add: due_leases_def distinct_map)
  then have d: "distinct ?xs" by (rule distinct_lock_order)
  have s: "set ?xs = {l \<in> set (t_leases s). due l}" by (auto simp: due_leases_iff assms(2))
  have sub: "set ?xs \<subseteq> set (t_leases s)" "\<forall>l \<in> set ?xs. le_status l = ''active'' \<and> le_expires l \<le> now"
    unfolding s by (auto simp: assms(2))
  note rows = sweep_rows [OF assms(1) d sub, of "[]"]
  have "fst (expire_stale_leases lock_key now s) = map le_id ?xs" using rows by (simp add: expire_stale_leases_def)
  moreover have "t_leases (snd (expire_stale_leases lock_key now s))
      = map (\<lambda>l. if due l then l\<lparr>le_status := ''expired''\<rparr> else l) (t_leases s)"
    using rows unfolding s by (simp add: expire_stale_leases_def expired_row_def)
  ultimately show ?thesis using d s lock_order_before by blast
qed

definition mixed_leases :: db where
  "mixed_leases = claimed_db\<lparr>t_leases := t_leases claimed_db
     @ map (\<lambda>l. l\<lparr>le_id := ''l2'', le_executor := ''agent:w''\<rparr>) (t_leases claimed_db)\<rparr>"

theorem sweep_exact_witness:
  "map (\<lambda>l. (le_id l, le_status l)) (t_leases (snd (expire_stale_leases (\<lambda>_. 0) 99000000 mixed_leases)))
     = [(''l1'', ''expired''), (''l2'', ''active'')]"
proof -
  let ?due = "\<lambda>l. le_status l = ''active'' \<and> le_expires l \<le> 99000000 \<and> take 6 (le_executor l) \<noteq> ''agent:''
    \<and> (\<exists>j \<in> set (t_jobs mixed_leases). j_id j = le_job l)"
  have d: "distinct (map le_id (t_leases mixed_leases))" by code_simp
  show ?thesis
    unfolding sweep_exact [OF d, where due = ?due and now = 99000000 and lock_key = "\<lambda>_. 0", OF refl, THEN conjunct2]
    by code_simp
qed

text \<open>
  Recovery never touches a job on which a lease is still active, so an execution that is
  still under way is not started a second time.
\<close>

theorem recovery_respects_leases:
  assumes "job_has_active_lease job s"
  shows "recover_orphaned_job job now s = (False, s)"
  using assms by (simp add: recover_orphaned_job_def split: option.splits)

theorem recovery_respects_leases_witness: "recover_orphaned_job ''job'' 5 claimed_db = (False, claimed_db)"
proof -
  have "job_has_active_lease ''job'' claimed_db" by code_simp
  then show ?thesis by (rule recovery_respects_leases)
qed

section \<open>Control of a job\<close>

text \<open>
  In run-to mode, the successful finish of the target node pauses the job with the reason
  \<open>target_reached\<close>, unless the job is completed by it.
\<close>

theorem target_finish_pauses:
  assumes "job_of s (le_job le) = Some j" and "j_mode j = ''until_node''" and "j_target j = Some (le_node le)"
    and "er_status r = ''completed''" and "job_of (flip_node env le r s) (le_job le) = Some j'"
  shows "j_status j' = ''completed'' \<or> (j_status j' = ''paused'' \<and> j_paused j' \<and> j_pause_reason j' = ''target_reached'')"
proof -
  let ?s1 = "sync_job_status (fe_now env) (le_job le) (update_nodes (\<lambda>n. jn_job n = le_job le \<and> jn_node n = le_node le)
      (\<lambda>n. n\<lparr>jn_status := ''completed'', jn_error := er_error r, jn_finished := Some (fe_now env),
             jn_category := fst (classify_result (fe_unicode env) r), jn_detail := snd (classify_result (fe_unicode env) r)\<rparr>) s)"
  have f: "flip_node env le r s = pause_job_on_target_completion (le_job le) (le_node le) (fe_now env) ?s1"
    using assms(4) by (simp add: flip_node_def try_return_node_to_pending_def split_beta)
  define st where "st = j_status (the (job_of ?s1 (le_job le)))"
  have "job_of (update_nodes p f s) (le_job le) = Some j" for p f using assms(1) by (simp add: job_of_def)
  then have j1: "job_of ?s1 (le_job le) = Some (j\<lparr>j_status := st, j_updated := fe_now env\<rparr>)"
    by (simp add: job_of_sync st_def)
  show ?thesis
    using assms(2,3,5) unfolding f pause_job_on_target_completion_def j1
    by (auto simp: job_of_update_job j1 split: if_splits)
qed

definition target_db :: db where
  "target_db = claimed_db\<lparr>t_jobs := map (\<lambda>j. j\<lparr>j_mode := ''until_node'', j_target := Some ''a''\<rparr>) (t_jobs claimed_db)\<rparr>"

theorem target_finish_pauses_witness:
  "\<exists>j'. job_of (flip_node sample_finish (hd (t_leases target_db)) sample_result target_db) ''job'' = Some j'
    \<and> (j_status j' = ''completed'' \<or> (j_status j' = ''paused'' \<and> j_paused j' \<and> j_pause_reason j' = ''target_reached''))"
proof -
  let ?le = "hd (t_leases target_db)"
  have le: "le_job ?le = ''job''" "le_node ?le = ''a''" by code_simp+
  have h: "job_of target_db ''job'' = Some (hd (t_jobs target_db))" "j_mode (hd (t_jobs target_db)) = ''until_node''"
    "j_target (hd (t_jobs target_db)) = Some ''a''" "er_status sample_result = ''completed''" by code_simp+
  have "job_of (flip_node sample_finish ?le sample_result target_db) ''job''
      = Some (hd (t_jobs (flip_node sample_finish ?le sample_result target_db)))" by code_simp
  with target_finish_pauses [of target_db ?le, unfolded le, OF h] show ?thesis by blast
qed

text \<open>
  A resume that races with another transaction never overwrites it: when it succeeds, the
  job was at the time of its write still paused for the very reason that was read before.
\<close>

theorem resume_guarded:
  assumes "resume_job_between job now s0 s = Inr s'"
  shows "\<exists>j0 j. job_of s0 job = Some j0 \<and> j \<in> set (t_jobs s) \<and> j_id j = job \<and> j_status j = ''paused''
    \<and> j_pause_reason j = j_pause_reason j0 \<and> t_nodes s' = t_nodes s \<and> t_leases s' = t_leases s"
proof -
  from assms obtain j0 where j0: "job_of s0 job = Some j0" "resume_update job (j_pause_reason j0) now s = Inr s'"
    by (auto simp: resume_job_between_def err_simps split: option.splits)
  let ?p = "\<lambda>j. j_id j = job \<and> j_status j = ''paused'' \<and> j_pause_reason j = j_pause_reason j0"
  from j0(2) have n: "count_where ?p (t_jobs s) \<noteq> 0" and s': "t_nodes s' = t_nodes s" "t_leases s' = t_leases s"
    by (auto simp: resume_update_def Let_def split: if_splits option.splits)
  from n obtain j where "j \<in> set (t_jobs s)" "?p j" by (auto simp: count_where_0)
  with j0(1) s' show ?thesis by blast
qed

definition paused_db :: db where
  "paused_db = sample_db\<lparr>t_jobs := [sample_job\<lparr>j_status := ''paused'', j_paused := True, j_pause_reason := ''manual''\<rparr>]\<rparr>"

theorem resume_guarded_witness: "\<exists>s'. resume_job_between ''job'' 5 paused_db paused_db = Inr s' \<and> t_nodes s' = t_nodes paused_db"
proof -
  have "case resume_job_between ''job'' 5 paused_db paused_db of Inr s' \<Rightarrow> True | Inl e \<Rightarrow> False" by code_simp
  then obtain s' where r: "resume_job_between ''job'' 5 paused_db paused_db = Inr s'" by (auto split: sum.splits)
  from resume_guarded [OF r] r show ?thesis by blast
qed

section \<open>A limit of the capacity check\<close>

definition second_claim_db :: db where
  "second_claim_db = after_claim (sample_request ''b'') (sample_env ''l2'' 40000000) claimed_db"

text \<open>
  The capacity check counts leases that are active and not past their deadline, but a
  heartbeat revives an active lease that is past its deadline and not yet swept. A claim in
  between is admitted, and the executor of capacity one ends up with two live leases.
\<close>

theorem heartbeat_can_exceed_capacity:
  "cr_capacity (sample_request ''b'') = 1
    \<and> executor_load ''code'' 41000000 (snd (heartbeat_lease ''l1'' 30 41000000 second_claim_db)) = 2"
  by code_simp

end
