(* ===== verification/Job_Ids.thy ===== *)
theory Job_Ids
  imports Py_Value
begin

text \<open>
  Two text formats of the job views. Job ids (\<open>server/app/jobs/job_id_encoding.py\<close>): three
  segments are escaped and joined, and the decoder is the exact inverse. The Range header of the
  raw artifact endpoints (\<open>server/app/http_range.py\<close>): the lenient and the strict parser.
\<close>

section \<open>Job ids\<close>

text \<open>\<open>s.replace(c, t)\<close> for a one-character pattern; \<open>sep.join(parts)\<close>.\<close>

definition replace_char :: "char \<Rightarrow> string \<Rightarrow> string \<Rightarrow> string" where
  "replace_char c t s = concat (map (\<lambda>x. if x = c then t else [x]) s)"

fun join_with :: "string \<Rightarrow> string list \<Rightarrow> string" where
  "join_with sep [] = []"
| "join_with sep [w] = w"
| "join_with sep (w # v # ws) = w @ sep @ join_with sep (v # ws)"

definition encode_segment :: "string \<Rightarrow> string" where
  "encode_segment segment =
     (let out = replace_char CHR ''~'' ''~~'' segment in
      replace_char CHR ''/'' ''~s'' (replace_char CHR ''_'' ''~u'' out))"

definition encode_job_id :: "string \<Rightarrow> string \<Rightarrow> string \<Rightarrow> string" where
  "encode_job_id workspace_id workflow_key source_id =
     join_with ''_'' [encode_segment workspace_id, encode_segment workflow_key, encode_segment source_id]"

datatype job_id_error = BadSegment string | BadSegmentCount string

definition decode_digraph :: "(char, char) dict" where
  "decode_digraph = [(CHR ''~'', CHR ''~''), (CHR ''u'', CHR ''_''), (CHR ''s'', CHR ''/'')]"

text \<open>The loop over the index: \<open>whole\<close> is the segment, for the message; a lone escape at the end
  looks up the empty string, which is no key.\<close>

fun decode_from :: "string \<Rightarrow> string \<Rightarrow> job_id_error + string" where
  "decode_from whole [] = Inr []"
| "decode_from whole (ch # rest) =
     (if ch = CHR ''~'' then
        (case rest of
           [] \<Rightarrow> Inl (BadSegment whole)
         | nxt # rest' \<Rightarrow>
             (case dget decode_digraph nxt of
                None \<Rightarrow> Inl (BadSegment whole)
              | Some decoded \<Rightarrow> bindE (decode_from whole rest') (\<lambda>out. Inr (decoded # out))))
      else bindE (decode_from whole rest) (\<lambda>out. Inr (ch # out)))"

definition decode_segment :: "string \<Rightarrow> job_id_error + string" where
  "decode_segment encoded = decode_from encoded encoded"

definition decode_job_id :: "string \<Rightarrow> job_id_error + string \<times> string \<times> string" where
  "decode_job_id job_id =
     (case split_on CHR ''_'' job_id of
        [a, b, c] \<Rightarrow>
          bindE (decode_segment a) (\<lambda>x. bindE (decode_segment b) (\<lambda>y.
          bindE (decode_segment c) (\<lambda>z. Inr (x, y, z))))
      | _ \<Rightarrow> Inl (BadSegmentCount job_id))"

subsection \<open>The escape as a character-wise map\<close>

definition escape :: "char \<Rightarrow> string" where
  "escape c = (if c = CHR ''~'' then ''~~'' else if c = CHR ''_'' then ''~u''
     else if c = CHR ''/'' then ''~s'' else [c])"

lemma replace_char_simps [simp]:
  "replace_char c t [] = []"
  "replace_char c t (x # s) = (if x = c then t else [x]) @ replace_char c t s"
  "replace_char c t (s @ s') = replace_char c t s @ replace_char c t s'"
  by (simp_all add: replace_char_def)

lemma encode_segment_simps [simp]:
  "encode_segment [] = []"
  "encode_segment (c # s) = escape c @ encode_segment s"
  by (simp_all add: encode_segment_def escape_def)

lemma segment_chars: "CHR ''_'' \<notin> set (encode_segment s)" "CHR ''/'' \<notin> set (encode_segment s)"
  by (induction s) (auto simp: escape_def)

lemma decode_escape: "decode_from w (escape c @ s) = bindE (decode_from w s) (\<lambda>out. Inr (c # out))"
  by (simp add: escape_def decode_digraph_def)

lemma decode_encode_segment: "decode_segment (encode_segment s) = Inr s"
proof -
  have "decode_from w (encode_segment s) = Inr s" for w
    by (induction s) (simp_all add: decode_escape)
  then show ?thesis by (simp add: decode_segment_def)
qed

lemma decode_from_inverse:
  "CHR ''_'' \<notin> set t \<Longrightarrow> CHR ''/'' \<notin> set t \<Longrightarrow> decode_from w t = Inr s \<Longrightarrow> encode_segment s = t"
proof (induction w t arbitrary: s rule: decode_from.induct)
  case (2 whole ch rest)
  show ?case
  proof (cases "ch = CHR ''~''")
    case True
    with 2 show ?thesis
      by (auto simp: err_simps decode_digraph_def escape_def split: list.splits option.splits if_splits)
  next
    case False
    with 2 show ?thesis by (auto simp: err_simps escape_def)
  qed
qed simp

lemma decode_segment_inverse:
  "CHR ''_'' \<notin> set t \<Longrightarrow> CHR ''/'' \<notin> set t \<Longrightarrow> decode_segment t = Inr s \<longleftrightarrow> t = encode_segment s"
  using decode_from_inverse [of t] decode_encode_segment by (auto simp: decode_segment_def)

subsection \<open>Splitting is the inverse of joining\<close>

lemma split_on_append:
  "c \<notin> set w \<Longrightarrow> split_on c (w @ c # s) = w # split_on c s"
  by (induction w) auto

lemma join_split: "join_with [c] (split_on c s) = s"
proof (induction s)
  case (Cons x s)
  obtain p ps where "split_on c s = p # ps"
    using split_on_nonempty [of c s] by (cases "split_on c s") auto
  then show ?case using Cons by (cases ps) auto
qed simp

lemma split_job_id:
  "split_on CHR ''_'' (encode_job_id w k s) = [encode_segment w, encode_segment k, encode_segment s]"
  by (simp add: encode_job_id_def split_on_append split_on_no_sep segment_chars)

lemma encode_job_id_chars: "CHR ''/'' \<notin> set (encode_job_id w k s)"
  by (simp add: encode_job_id_def segment_chars)

lemma split_three_chars:
  assumes "split_on c t = [x, y, z]"
  shows "t = x @ c # y @ c # z" "c \<notin> set x" "c \<notin> set y" "c \<notin> set z"
  using join_split [of c t] split_on_pieces [of _ c t] assms by auto

lemma decode_job_id_inverse:
  assumes "decode_job_id t = Inr (w, k, s)" and "CHR ''/'' \<notin> set t"
  shows "t = encode_job_id w k s"
proof -
  from assms(1) obtain x y z where parts: "split_on CHR ''_'' t = [x, y, z]"
    "decode_segment x = Inr w" "decode_segment y = Inr k" "decode_segment z = Inr s"
    by (auto simp: decode_job_id_def err_simps split: list.splits)
  note t = split_three_chars [OF parts(1)]
  have "CHR ''/'' \<notin> set x" "CHR ''/'' \<notin> set y" "CHR ''/'' \<notin> set z"
    using assms(2) t(1) by auto
  then show ?thesis
    using t parts(2-4) by (simp add: decode_segment_inverse encode_job_id_def)
qed

lemma decode_encode_job_id: "decode_job_id (encode_job_id w k s) = Inr (w, k, s)"
  by (simp add: decode_job_id_def split_job_id decode_encode_segment)

section \<open>Range headers\<close>

text \<open>The regular expression \<open>^bytes=(\d+)-(\d*)$\<close> on a stripped header. Header text is Latin-1,
  so the decimal digits are the ASCII ones. \<open>int\<close> refuses more than 4300 digits.\<close>

definition digit :: "char \<Rightarrow> bool" where
  "digit c = ((48 :: int) \<le> of_char c \<and> of_char c \<le> (57 :: int))"

definition digit_value :: "string \<Rightarrow> int" where
  "digit_value s = foldl (\<lambda>n c. 10 * n + (of_char c - 48)) 0 s"

definition max_int_digits :: nat where
  "max_int_digits = 4300"

datatype range_error = IntegerTooLong

definition to_int :: "string \<Rightarrow> range_error + int" where
  "to_int s = guardE (length s > max_int_digits) IntegerTooLong (Inr (digit_value s))"

definition match_range :: "string \<Rightarrow> (string \<times> string) option" where
  "match_range header =
     (if \<not> starts_with ''bytes='' header then None
      else (let rest = drop 6 header; a = takeWhile digit rest; b = dropWhile digit rest in
        case b of
          [] \<Rightarrow> None
        | c # d \<Rightarrow> if a \<noteq> [] \<and> c = CHR ''-'' \<and> list_all digit d then Some (a, d) else None))"

definition range_bounds :: "string \<Rightarrow> int \<Rightarrow> range_error + (int \<times> int) option" where
  "range_bounds header size_bytes =
     (case match_range (strip header) of
        None \<Rightarrow> Inr None
      | Some (a, b) \<Rightarrow>
          bindE (to_int a) (\<lambda>start.
          bindE (if b \<noteq> [] then to_int b else Inr (size_bytes - 1)) (\<lambda>end'. Inr (Some (start, end')))))"

text \<open>\<open>Inr None\<close>: no range, the full answer.\<close>

definition parse_range_header :: "string option \<Rightarrow> int option \<Rightarrow> range_error + (int \<times> int) option" where
  "parse_range_header range_header size_bytes =
     (case (range_header, size_bytes) of
        (Some h, Some n) \<Rightarrow>
          if h = [] \<or> n \<le> 0 then Inr None
          else bindE (range_bounds h n) (\<lambda>m. case m of
                 None \<Rightarrow> Inr None
               | Some (start, end') \<Rightarrow>
                   if start \<ge> n then Inr None else Inr (Some (start, min end' (n - 1))))
      | _ \<Rightarrow> Inr None)"

datatype strict_range = FullAnswer | Unsatisfiable | Part int int

definition parse_range_header_strict :: "string option \<Rightarrow> int option \<Rightarrow> range_error + strict_range" where
  "parse_range_header_strict range_header size_bytes =
     (case (range_header, size_bytes) of
        (Some h, Some n) \<Rightarrow>
          if h = [] then Inr FullAnswer
          else bindE (range_bounds h n) (\<lambda>m. case m of
                 None \<Rightarrow> Inr FullAnswer
               | Some (start, end') \<Rightarrow>
                   if start \<ge> n \<or> end' < start then Inr Unsatisfiable
                   else Inr (Part start (min end' (n - 1))))
      | _ \<Rightarrow> Inr FullAnswer)"

lemma digit_value_nonneg: "list_all digit s \<Longrightarrow> 0 \<le> digit_value s"
  by (induction s rule: rev_induct) (auto simp: digit_value_def digit_def)

lemma match_range_digits: "match_range h = Some (a, b) \<Longrightarrow> list_all digit a \<and> list_all digit b"
  by (auto simp: match_range_def Let_def list_all_iff dest!: set_takeWhileD split: if_splits list.splits)

lemma range_bounds_nonneg: "range_bounds h n = Inr (Some (start, end')) \<Longrightarrow> 0 \<le> start"
  by (auto simp: range_bounds_def to_int_def err_simps dest!: match_range_digits
      intro: digit_value_nonneg split: option.splits)

lemma range_of_strict:
  assumes "parse_range_header_strict h (Some n) = Inr (Part a b)"
  shows "parse_range_header h (Some n) = Inr (Some (a, b)) \<and> 0 \<le> a \<and> a \<le> b \<and> b < n"
proof -
  from assms obtain t m where t: "h = Some t" "t \<noteq> []" and m: "range_bounds t n = Inr m"
    by (cases h) (auto simp: parse_range_header_strict_def err_simps split: if_splits)
  with assms obtain s e where m': "m = Some (s, e)"
    by (cases m) (auto simp: parse_range_header_strict_def)
  with assms t m have "s < n" "s \<le> e" "a = s" "b = min e (n - 1)"
    by (auto simp: parse_range_header_strict_def split: if_splits)
  moreover from m m' have "0 \<le> s" by (simp add: range_bounds_nonneg)
  ultimately show ?thesis using t m m' by (simp add: parse_range_header_def)
qed

lemma lenient_of_bounds:
  "parse_range_header h (Some n) = Inr (Some (a, b)) \<longleftrightarrow>
   (\<exists>t e. h = Some t \<and> t \<noteq> [] \<and> 0 < n \<and> range_bounds t n = Inr (Some (a, e)) \<and> a < n \<and> b = min e (n - 1))"
  (is "_ = ?R")
proof
  assume l: "parse_range_header h (Some n) = Inr (Some (a, b))"
  then obtain t m where t: "h = Some t" "t \<noteq> []" "0 < n" and m: "range_bounds t n = Inr m"
    by (cases h) (auto simp: parse_range_header_def err_simps split: if_splits)
  with l obtain s e where m': "m = Some (s, e)"
    by (cases m) (auto simp: parse_range_header_def)
  with l t m show ?R by (auto simp: parse_range_header_def split: if_splits)
qed (auto simp: parse_range_header_def)

section \<open>Properties\<close>

text \<open>C33. Decoding is the exact inverse of encoding: a text without a slash decodes to three
  segments exactly when it is the encoding of those three segments, so the encoding is injective,
  and an encoded id is a single path component.\<close>

theorem job_id_codec_exact:
  "(decode_job_id t = Inr (w, k, s) \<and> CHR ''/'' \<notin> set t) = (t = encode_job_id w k s)"
  using decode_job_id_inverse [of t w k s] decode_encode_job_id [of w k s]
    encode_job_id_chars [of w k s] by auto

text \<open>A range the lenient parser returns starts inside the object and ends inside it; either it
  is a proper interval and the strict parser returns the same one, or it is inverted and the strict
  parser calls it unsatisfiable (the lenient one hands the inverted interval to its caller).\<close>

theorem lenient_range_compared:
  assumes "parse_range_header h (Some n) = Inr (Some (a, b))"
  shows "0 \<le> a \<and> a < n \<and> b < n
    \<and> parse_range_header_strict h (Some n) = Inr (if a \<le> b then Part a b else Unsatisfiable)"
proof -
  from assms obtain t e where t: "h = Some t" "t \<noteq> []" "0 < n" "a < n" "b = min e (n - 1)"
    and bounds: "range_bounds t n = Inr (Some (a, e))"
    by (auto simp: lenient_of_bounds)
  from bounds have "0 \<le> a" by (rule range_bounds_nonneg)
  with t bounds show ?thesis by (auto simp: parse_range_header_strict_def)
qed

theorem lenient_range_compared_witness:
  "parse_range_header (Some ''bytes=5-3'') (Some 10) = Inr (Some (5, 3))
   \<and> parse_range_header_strict (Some ''bytes=5-3'') (Some 10) = Inr Unsatisfiable"
proof -
  have l: "parse_range_header (Some ''bytes=5-3'') (Some 10) = Inr (Some (5, 3))" by code_simp
  from lenient_range_compared [OF l] l show ?thesis by simp
qed

end
