(* ===== verification/Node_Ordering.thy ===== *)
theory Node_Ordering
  imports Workflow_Schema "HOL-Library.Multiset"
begin

text \<open>
  The order in which a job view lists its nodes
  (\<open>server/app/services/job_node_ordering.py\<close>): a topological order of the explicit edges between
  the rows that the definition knows, ties by the position in the definition, followed by the rows
  the definition does not know. A row is its node key with the rest of the row as a payload.
\<close>

section \<open>The predecessors of a node\<close>

text \<open>\<open>definition.nodes[edge.source]\<close> raises \<open>KeyError\<close> (\<open>Inl\<close>) for an undeclared source.\<close>

definition visible_source :: "workflow_definition \<Rightarrow> workflow_edge \<Rightarrow> string + string list" where
  "visible_source d e =
     (case dget (d_nodes d) (e_source e) of
        None \<Rightarrow> Inl (e_source e)
      | Some n \<Rightarrow> Inr (if n_type n \<noteq> ''start'' then [e_source e] else []))"

definition effective_after :: "workflow_definition \<Rightarrow> string \<Rightarrow> string + string list" where
  "effective_after d k =
     bindE (mapE (visible_source d) (filter (\<lambda>e. e_target e = k) (d_edges d))) (\<lambda>parts.
       let edge_sources = concat parts in
       if edge_sources \<noteq> [] then Inr edge_sources
       else (case dget (d_nodes d) k of Some n \<Rightarrow> Inr (n_after n) | None \<Rightarrow> Inr []))"

section \<open>The ordering\<close>

type_synonym 'r view_row = "string \<times> 'r"

fun position :: "'a list \<Rightarrow> 'a \<Rightarrow> nat" where
  "position [] x = 0"
| "position (y # ys) x = (if y = x then 0 else Suc (position ys x))"

text \<open>\<open>{node["node_key"]: node for node in nodes if ...}\<close>: the last row of a key at the place of the
  first.\<close>

definition known_nodes :: "'r view_row list \<Rightarrow> workflow_definition \<Rightarrow> (string, 'r) dict" where
  "known_nodes rows d = fold (\<lambda>(k, r). dset k r) (filter (\<lambda>(k, r). k \<in> set (node_keys d)) rows) []"

definition remaining_nodes :: "'r view_row list \<Rightarrow> workflow_definition \<Rightarrow> 'r view_row list" where
  "remaining_nodes rows d = filter (\<lambda>(k, r). k \<notin> set (node_keys d)) rows"

definition known_edges :: "string list \<Rightarrow> workflow_definition \<Rightarrow> workflow_edge list" where
  "known_edges ks d = filter (\<lambda>e. e_source e \<in> set ks \<and> e_target e \<in> set ks) (d_edges d)"

definition children_of_known :: "workflow_edge list \<Rightarrow> string \<Rightarrow> string list" where
  "children_of_known es k = map e_target (filter (\<lambda>e. e_source e = k) es)"

definition indegrees :: "string list \<Rightarrow> workflow_edge list \<Rightarrow> (string, int) dict" where
  "indegrees ks es = map (\<lambda>k. (k, int (length (filter (\<lambda>e. e_target e = k) es)))) ks"

text \<open>One decrement: a child whose last predecessor is listed becomes ready.\<close>

definition release :: "string \<Rightarrow> (string, int) dict \<times> string list \<Rightarrow> (string, int) dict \<times> string list" where
  "release child st =
     (let indegree = dset child (dget_default 0 (fst st) child - 1) (fst st) in
      (indegree, if dget_default 0 indegree child = 0 then snd st @ [child] else snd st))"

definition release_all :: "(string \<Rightarrow> string list) \<Rightarrow> (string \<Rightarrow> nat) \<Rightarrow> string \<Rightarrow>
    (string, int) dict \<Rightarrow> string list \<Rightarrow> (string, int) dict \<times> string list" where
  "release_all children index k indegree ready =
     (let (indegree', ready') = fold release (sort_key index (children k)) (indegree, ready) in
      (indegree', sort_key index ready'))"

text \<open>Termination: every turn takes a key off the ready list, and puts one on only by bringing a
  positive in-degree to zero.\<close>

definition positives :: "(string, int) dict \<Rightarrow> nat" where
  "positives indegree = length (filter (\<lambda>(k, n). n > 0) indegree)"

lemma positives_dset:
  "positives (dset k (dget_default 0 d k - 1) d) + (if dget_default 0 d k = 1 then 1 else 0) \<le> positives d"
  by (induction d) (auto simp: positives_def dget_default_def split: option.splits)

lemma release_measure:
  "2 * positives (fst (release c st)) + length (snd (release c st))
    \<le> 2 * positives (fst st) + length (snd st)"
  using positives_dset [of c "fst st"] by (auto simp: release_def Let_def dget_default_def)

lemma release_fold_measure:
  "2 * positives (fst (fold release cs st)) + length (snd (fold release cs st))
    \<le> 2 * positives (fst st) + length (snd st)"
proof (induction cs arbitrary: st)
  case (Cons c cs)
  show ?case using Cons [of "release c st"] release_measure [of c st] by simp
qed simp

lemma release_all_measure:
  "2 * positives (fst (release_all ch ix k d r)) + length (snd (release_all ch ix k d r))
    \<le> 2 * positives d + length r"
  using release_fold_measure [of "sort_key ix (ch k)" "(d, r)"]
  by (simp add: release_all_def split_beta)

function kahn_loop :: "(string \<Rightarrow> string list) \<Rightarrow> (string \<Rightarrow> nat) \<Rightarrow> (string, int) dict \<Rightarrow>
    string list \<Rightarrow> string list \<Rightarrow> string list" where
  "kahn_loop children index indegree [] ordered = ordered"
| "kahn_loop children index indegree (k # ready) ordered =
     kahn_loop children index (fst (release_all children index k indegree ready))
       (snd (release_all children index k indegree ready)) (ordered @ [k])"
  by pat_completeness auto
termination
  by (relation "measure (\<lambda>(ch, ix, d, r, out). 2 * positives d + length r)")
    (auto simp: le_imp_less_Suc [OF release_all_measure])

definition initial_ready :: "(string \<Rightarrow> nat) \<Rightarrow> (string, int) dict \<Rightarrow> string list" where
  "initial_ready index indegree = sort_key index (map fst (filter (\<lambda>(k, n). n = 0) indegree))"

definition ordered_keys :: "string list \<Rightarrow> workflow_definition \<Rightarrow> string list" where
  "ordered_keys ks d =
     (let es = known_edges ks d; index = position (node_keys d); indegree = indegrees ks es;
          out = kahn_loop (children_of_known es) index indegree (initial_ready index indegree) [] in
      if length out < length ks then out @ filter (\<lambda>k. k \<notin> set out) ks else out)"

definition ordered_job_nodes :: "'r view_row list \<Rightarrow> workflow_definition \<Rightarrow> 'r view_row list" where
  "ordered_job_nodes rows d =
     (let known = known_nodes rows d in
      map (\<lambda>k. (k, the (dget known k))) (ordered_keys (keys known) d) @ remaining_nodes rows d)"

section \<open>What a turn of the loop does\<close>

abbreviation degree :: "(string, int) dict \<Rightarrow> string \<Rightarrow> int" where
  "degree d k \<equiv> dget_default 0 d k"

lemma degree_dset [simp]: "degree (dset c v d) x = (if x = c then v else degree d x)"
  by (simp add: dget_default_def)

lemma fold_release:
  assumes "\<And>x. int (count (mset cs) x) \<le> degree d x" and "distinct r" and "set r \<inter> set cs = {}"
    and "fold release cs (d, r) = (d', r')"
  shows "degree d' x = degree d x - int (count (mset cs) x)
    \<and> set r' = set r \<union> {y \<in> set cs. degree d y = int (count (mset cs) y)} \<and> distinct r'"
  using assms
proof (induction cs arbitrary: d r)
  case (Cons c cs)
  define d1 where "d1 = dset c (degree d c - 1) d"
  define r1 where "r1 = (if degree d c = 1 then r @ [c] else r)"
  have step: "fold release cs (d1, r1) = (d', r')"
    using Cons.prems(4) by (cases "degree d c = 1") (simp_all add: release_def [of c] d1_def r1_def Let_def)
  have deg1: "degree d1 x = degree d x - (if x = c then 1 else 0)" for x
    by (simp add: d1_def)
  have bound: "int (count (mset cs) x) \<le> degree d1 x" for x
    using Cons.prems(1) [of x] by (auto simp: deg1 split: if_splits)
  have last: "c \<notin> set cs" if "degree d c = 1"
    using bound [of c] that by (simp add: deg1 not_in_iff)
  have "degree d' x = degree d1 x - int (count (mset cs) x)
      \<and> set r' = set r1 \<union> {y \<in> set cs. degree d1 y = int (count (mset cs) y)} \<and> distinct r'"
    using Cons.prems(2,3) last by (intro Cons.IH [OF bound _ _ step]) (auto simp: r1_def)
  moreover have "set r1 \<union> {y \<in> set cs. degree d1 y = int (count (mset cs) y)}
      = set r \<union> {y \<in> set (c # cs). degree d y = int (count (mset (c # cs)) y)}"
    using last bound [of c] by (auto simp: r1_def deg1 not_in_iff)
  ultimately show ?case by (auto simp: deg1)
qed auto

text \<open>In-edges whose source is not listed yet.\<close>

definition waiting :: "workflow_edge list \<Rightarrow> string list \<Rightarrow> string \<Rightarrow> nat" where
  "waiting es out k = length (filter (\<lambda>e. e_target e = k \<and> e_source e \<notin> set out) es)"

lemma waiting_listed:
  "k \<notin> set out \<Longrightarrow> waiting es out x = waiting es (out @ [k]) x + count (mset (children_of_known es k)) x"
  by (induction es) (auto simp: waiting_def children_of_known_def)

lemma waiting_zero: "waiting es out k = 0 \<longleftrightarrow> (\<forall>e \<in> set es. e_target e = k \<longrightarrow> e_source e \<in> set out)"
  by (auto simp: waiting_def filter_empty_conv)

definition sources_first :: "workflow_edge list \<Rightarrow> string list \<Rightarrow> bool" where
  "sources_first es out \<longleftrightarrow>
     (\<forall>a k b. out = a @ k # b \<longrightarrow> (\<forall>e \<in> set es. e_target e = k \<longrightarrow> e_source e \<in> set a))"

lemma sources_first_snoc:
  assumes "sources_first es out" and "waiting es out k = 0"
  shows "sources_first es (out @ [k])"
  unfolding sources_first_def
proof (intro allI impI)
  fix a x b assume split: "out @ [k] = a @ x # b"
  show "\<forall>e \<in> set es. e_target e = x \<longrightarrow> e_source e \<in> set a"
  proof (cases b rule: rev_cases)
    case Nil
    with split assms(2) show ?thesis by (simp add: waiting_zero)
  next
    case (snoc b' y)
    with split have "out = a @ x # b'" by simp
    with assms(1) show ?thesis by (simp add: sources_first_def)
  qed
qed

definition kahn_inv :: "string list \<Rightarrow> workflow_edge list \<Rightarrow> (string, int) dict \<Rightarrow> string list \<Rightarrow> string list \<Rightarrow> bool" where
  "kahn_inv ks es d ready out \<longleftrightarrow>
     (\<forall>x. degree d x = int (waiting es out x)) \<and> distinct (out @ ready)
     \<and> set (out @ ready) = {k \<in> set ks. waiting es out k = 0} \<and> sources_first es out"

lemma kahn_inv_step:
  assumes inv: "kahn_inv ks es d (k # ready) out"
    and ends: "\<And>e. e \<in> set es \<Longrightarrow> e_source e \<in> set ks \<and> e_target e \<in> set ks"
    and step: "release_all (children_of_known es) ix k d ready = (d', ready')"
  shows "kahn_inv ks es d' ready' (out @ [k])"
proof -
  let ?cs = "children_of_known es k"
  obtain r where fold: "fold release (sort_key ix ?cs) (d, ready) = (d', r)" and r: "ready' = sort_key ix r"
    using step by (auto simp: release_all_def split: prod.splits)
  have k: "k \<notin> set out" "waiting es out k = 0" and deg: "\<And>x. degree d x = int (waiting es out x)"
    and dist: "distinct ready" and sf: "sources_first es out"
    and all: "set out \<union> insert k (set ready) = {k \<in> set ks. waiting es out k = 0}"
    and fresh: "set ready \<inter> set out = {}" "k \<notin> set ready"
    using inv by (auto simp: kahn_inv_def)
  note listed = waiting_listed [OF k(1), of es]
  have child_waits: "waiting es out x \<noteq> 0" if "x \<in> set ?cs" for x
    using that k(1) by (auto simp: waiting_zero children_of_known_def)
  have disj: "set ready \<inter> set ?cs = {}" "set out \<inter> set ?cs = {}" "k \<notin> set ?cs"
    using all child_waits by (blast, blast, blast)
  have cnt: "int (count (mset (sort_key ix ?cs)) x) \<le> degree d x" for x
    using listed [of x] by (simp add: deg)
  have post: "degree d' x = int (waiting es (out @ [k]) x)
      \<and> set r = set ready \<union> {y \<in> set ?cs. waiting es (out @ [k]) y = 0} \<and> distinct r" for x
    using fold_release [OF cnt dist _ fold, of x] disj(1) listed by (auto simp: deg)
  have "waiting es (out @ [k]) x = 0 \<longleftrightarrow> waiting es out x = 0 \<or> (x \<in> set ?cs \<and> waiting es (out @ [k]) x = 0)" for x
    using listed [of x] by (auto simp: not_in_iff)
  moreover have "set ?cs \<subseteq> set ks"
    using ends by (auto simp: children_of_known_def)
  ultimately have "set ((out @ [k]) @ ready') = {y \<in> set ks. waiting es (out @ [k]) y = 0}"
    using all post r by auto
  moreover have "distinct ((out @ [k]) @ ready')"
    using inv post r fresh disj by (auto simp: kahn_inv_def)
  ultimately show ?thesis
    using post sources_first_snoc [OF sf k(2)] by (simp add: kahn_inv_def)
qed

lemma kahn_loop_inv:
  assumes "kahn_inv ks es d ready out"
    and ends: "\<And>e. e \<in> set es \<Longrightarrow> e_source e \<in> set ks \<and> e_target e \<in> set ks"
  shows "\<exists>d'. kahn_inv ks es d' [] (kahn_loop (children_of_known es) ix d ready out)"
  using assms(1)
proof (induction "children_of_known es" ix d ready out rule: kahn_loop.induct)
  case (1 ix d out)
  then show ?case by auto
next
  case (2 ix d k ready out)
  then show ?case using kahn_inv_step [OF 2(2) ends] by (simp add: prod_eq_iff)
qed

section \<open>The result of the loop\<close>

lemma degree_indegrees:
  "degree (indegrees ks es) x = (if x \<in> set ks then int (length (filter (\<lambda>e. e_target e = x) es)) else 0)"
  by (simp add: indegrees_def dget_default_def dget_map_keys)

lemma known_edge_ends: "e \<in> set (known_edges ks d) \<Longrightarrow> e_source e \<in> set ks \<and> e_target e \<in> set ks"
  by (simp add: known_edges_def)

lemma kahn_inv_initial:
  assumes "distinct ks"
  shows "kahn_inv ks (known_edges ks d) (indegrees ks (known_edges ks d))
    (initial_ready ix (indegrees ks (known_edges ks d))) []"
proof -
  have "waiting (known_edges ks d) [] x = 0" if "x \<notin> set ks" for x
    using that by (auto simp: waiting_zero known_edges_def)
  then have "degree (indegrees ks (known_edges ks d)) x = int (waiting (known_edges ks d) [] x)" for x
    by (simp add: degree_indegrees waiting_def)
  moreover have "map fst (filter (\<lambda>(k, n). n = 0) (indegrees ks es)) = filter (\<lambda>k. waiting es [] k = 0) ks" for es
    unfolding indegrees_def by (induction ks) (auto simp: waiting_def)
  ultimately show ?thesis
    using assms by (simp add: kahn_inv_def initial_ready_def sources_first_def)
qed

lemma edge_minimal:
  assumes "acyclic (edge_graph d)" and "K \<noteq> {}"
  shows "\<exists>k \<in> K. \<forall>e \<in> set (d_edges d). e_target e = k \<longrightarrow> e_source e \<notin> K"
proof -
  have "wf (edge_graph d)"
    using assms(1) by (intro finite_acyclic_wf) (simp_all add: edge_graph_def)
  from wfE_min' [OF this assms(2)] obtain k where "k \<in> K" "\<And>y. (y, k) \<in> edge_graph d \<Longrightarrow> y \<notin> K" by blast
  then show ?thesis by (auto simp: edge_graph_iff)
qed

lemma kahn_complete:
  assumes inv: "kahn_inv ks (known_edges ks d) dg [] out" and acyc: "acyclic (edge_graph d)"
  shows "set out = set ks"
proof (rule ccontr)
  assume "set out \<noteq> set ks"
  with inv have "set ks - set out \<noteq> {}" by (auto simp: kahn_inv_def)
  from edge_minimal [OF acyc this] obtain k where k: "k \<in> set ks" "k \<notin> set out"
    and low: "\<And>e. e \<in> set (d_edges d) \<Longrightarrow> e_target e = k \<Longrightarrow> e_source e \<notin> set ks - set out" by blast
  then have "waiting (known_edges ks d) out k = 0" by (auto simp: waiting_zero known_edges_def)
  with inv k show False by (auto simp: kahn_inv_def)
qed

lemma ordered_keys_spec:
  assumes "distinct ks"
  shows "distinct (ordered_keys ks d) \<and> set (ordered_keys ks d) = set ks
    \<and> (acyclic (edge_graph d) \<longrightarrow> sources_first (known_edges ks d) (ordered_keys ks d))"
proof -
  let ?es = "known_edges ks d"
  define out where "out = kahn_loop (children_of_known ?es) (position (node_keys d)) (indegrees ks ?es)
    (initial_ready (position (node_keys d)) (indegrees ks ?es)) []"
  have "\<exists>dg. kahn_inv ks ?es dg [] out"
    unfolding out_def by (rule kahn_loop_inv [OF kahn_inv_initial [OF assms]]) (rule known_edge_ends)
  then obtain dg where inv: "kahn_inv ks ?es dg [] out" by blast
  then have out: "distinct out" "set out \<subseteq> set ks" "sources_first ?es out" by (auto simp: kahn_inv_def)
  have keys: "ordered_keys ks d = (if length out < length ks then out @ filter (\<lambda>k. k \<notin> set out) ks else out)"
    by (simp add: ordered_keys_def out_def Let_def)
  have full: "set out = set ks \<longleftrightarrow> \<not> length out < length ks"
    using out(2) card_seteq [OF finite_set out(2)]
    by (auto simp flip: distinct_card [OF out(1)] distinct_card [OF assms])
  show ?thesis
  proof (cases "set out = set ks")
    case True
    with full keys out show ?thesis by simp
  next
    case False
    with kahn_complete [OF inv] full keys out assms show ?thesis by auto
  qed
qed

section \<open>Rows\<close>

lemma fold_dset_new:
  "distinct (map fst rows) \<Longrightarrow> set (map fst rows) \<inter> set (keys acc) = {} \<Longrightarrow>
    fold (\<lambda>(k, r). dset k r) rows acc = acc @ rows"
proof (induction rows arbitrary: acc)
  case (Cons row rows)
  then show ?case by (cases row) (auto simp: dset_new keys_def)
qed simp

lemma known_nodes_distinct:
  "distinct (map fst rows) \<Longrightarrow> known_nodes rows d = filter (\<lambda>(k, r). k \<in> set (node_keys d)) rows"
  unfolding known_nodes_def by (subst fold_dset_new) (auto simp: distinct_map_filter)

lemma rows_of_keys:
  assumes "distinct (keys rows)" and "distinct ks" and "set ks = set (keys rows)"
  shows "mset (map (\<lambda>k. (k, the (dget rows k))) ks) = mset rows"
proof -
  have "mset ks = mset (keys rows)" using assms by (simp add: set_eq_iff_mset_eq_distinct)
  then have "mset (map (\<lambda>k. (k, the (dget rows k))) ks) = mset (map (\<lambda>k. (k, the (dget rows k))) (keys rows))"
    by simp
  also have "map (\<lambda>k. (k, the (dget rows k))) (keys rows) = rows"
    using assms(1) by (auto simp: keys_def intro!: map_idI dest: dget_distinct)
  finally show ?thesis .
qed

section \<open>Properties\<close>

lemma ordered_split:
  assumes rows: "distinct (map fst rows)" and wf: "wf_shape d" and acyc: "acyclic (edge_graph d)"
    and split: "ordered_job_nodes rows d = a @ (e_target e, r) # b"
    and e: "e \<in> set (d_edges d)" "e_source e \<in> set (map fst rows)"
  shows "e_source e \<in> set (map fst a)"
proof -
  define known where "known = known_nodes rows d"
  let ?ks = "ordered_keys (keys known) d"
  have known: "known = filter (\<lambda>(k, r). k \<in> set (node_keys d)) rows"
    using rows by (simp add: known_def known_nodes_distinct)
  have dist: "distinct (keys known)" using rows by (simp add: known keys_def distinct_map_filter)
  have spec: "sources_first (known_edges (keys known) d) ?ks" "set ?ks = set (keys known)"
    using ordered_keys_spec [OF dist, of d] acyc by blast+
  have ends: "e_source e \<in> set (node_keys d)" "e_target e \<in> set (node_keys d)"
    using wf_shape_edge [OF wf e(1)] by auto
  have order: "ordered_job_nodes rows d
      = map (\<lambda>k. (k, the (dget known k))) ?ks @ remaining_nodes rows d"
    by (simp add: ordered_job_nodes_def known_def Let_def)
  have "(e_target e, r) \<notin> set (remaining_nodes rows d)"
    using ends by (auto simp: remaining_nodes_def)
  with split order obtain b' where "map (\<lambda>k. (k, the (dget known k))) ?ks = a @ (e_target e, r) # b'"
    by (auto simp: append_eq_append_conv2 append_eq_Cons_conv)
  then have ks: "?ks = map fst a @ e_target e # map fst b'"
    by (auto dest: arg_cong [where f = "map fst"] simp: comp_def)
  then have "e_target e \<in> set (keys known)" using spec(2) by (metis in_set_conv_decomp)
  moreover have "e_source e \<in> set (keys known)"
    using e(2) ends by (force simp: known keys_def)
  ultimately have "e \<in> set (known_edges (keys known) d)"
    using e(1) by (simp add: known_edges_def)
  with spec(1) ks e(1) have "\<forall>e' \<in> set (known_edges (keys known) d).
      e_target e' = e_target e \<longrightarrow> e_source e' \<in> set (map fst a)"
    unfolding sources_first_def by blast
  with \<open>e \<in> set (known_edges (keys known) d)\<close> show ?thesis by blast
qed

text \<open>The job view lists every row exactly once, and when the explicit edges are acyclic every
  row comes after the rows of its predecessors.\<close>

theorem job_view_order:
  assumes "distinct (map fst rows)" and "wf_shape d" and "acyclic (edge_graph d)"
  shows "mset (ordered_job_nodes rows d) = mset rows
    \<and> (\<forall>a r b. \<forall>e \<in> set (d_edges d). ordered_job_nodes rows d = a @ (e_target e, r) # b
        \<and> e_source e \<in> set (map fst rows) \<longrightarrow> e_source e \<in> set (map fst a))"
proof -
  define known where "known = filter (\<lambda>(k, r). k \<in> set (node_keys d)) rows"
  have dist: "distinct (keys known)" using assms(1) by (simp add: known_def keys_def distinct_map_filter)
  have "mset (ordered_job_nodes rows d) = mset known + mset (remaining_nodes rows d)"
    using rows_of_keys [OF dist] ordered_keys_spec [OF dist, of d] assms(1)
    by (simp add: ordered_job_nodes_def known_nodes_distinct known_def Let_def)
  also have "\<dots> = mset rows"
    unfolding known_def remaining_nodes_def by (induction rows) auto
  finally show ?thesis using ordered_split [OF assms] by blast
qed

definition order_sample :: workflow_definition where
  "order_sample = mk_definition ''flow'' ''Flow'' [] [(''cut'', mk_node ''cut'' [] []), (''join'', mk_node ''join'' [] [])]
     [plain_edge ''join'' ''cut''] 2 empty_execution"

theorem job_view_order_witness:
  "mset (ordered_job_nodes [(''cut'', 1 :: nat), (''old'', 2), (''join'', 3)] order_sample)
     = mset [(''cut'', 1), (''old'', 2), (''join'', 3)]
   \<and> ordered_job_nodes [(''cut'', 1 :: nat), (''old'', 2), (''join'', 3)] order_sample
     = [(''join'', 3), (''cut'', 1), (''old'', 2)]"
proof -
  have "distinct (map fst [(''cut'', 1 :: nat), (''old'', 2), (''join'', 3)])" by simp
  moreover have "wf_shape order_sample" by code_simp
  moreover have "acyclic (edge_graph order_sample)"
    using acyclic_def [of "{} :: (string \<times> string) set"]
    by (simp add: order_sample_def mk_definition_def edge_graph_def plain_edge_def acyclic_insert)
  moreover have "ordered_job_nodes [(''cut'', 1 :: nat), (''old'', 2), (''join'', 3)] order_sample
     = [(''join'', 3), (''cut'', 1), (''old'', 2)]" by code_simp
  ultimately show ?thesis using job_view_order by blast
qed

end
