(* ===== verification/Worker_Config.thy ===== *)
theory Worker_Config
  imports Py_Value
begin

text \<open>
  The hot-reloaded controls of the worker, read from its configuration mapping:
  \<open>worker/runtime/controls.py\<close>, \<open>worker/transfer_controls.py\<close>, \<open>worker/claim_batch.py\<close> (the
  batch limit), \<open>worker/ramp_up.py\<close> (the \<open>ramp_up\<close> block), \<open>worker/worker_declarations.py\<close> (node
  limits) and \<open>worker/runtime/resource_preflight.py\<close>. The mapping itself is the result of
  \<open>load_config\<close>, which reads the YAML file.
\<close>

section \<open>Errors and constants\<close>

text \<open>\<open>BadControl key\<close> is the \<open>ValueError\<close> that names the key; \<open>NotANumber\<close> is the \<open>TypeError\<close> of
  \<open>float\<close> on a list, a mapping or \<open>None\<close>.\<close>

datatype worker_control_error = BadControl string | NotANumber

definition max_dynamic_concurrency :: int where
  "max_dynamic_concurrency = 2048"

definition default_claim_batch_limit :: int where
  "default_claim_batch_limit = 32"

definition max_claim_batch_limit :: int where
  "max_claim_batch_limit = 256"

text \<open>\<open>isinstance(value, bool) or not isinstance(value, int) or not lo <= value <= hi\<close>, negated.\<close>

fun int_between :: "int \<Rightarrow> int \<Rightarrow> pyval \<Rightarrow> bool" where
  "int_between lo hi (PInt i) = (lo \<le> i \<and> i \<le> hi)"
| "int_between lo hi _ = False"

definition bounded_control :: "string \<Rightarrow> int \<Rightarrow> int \<Rightarrow> pyval \<Rightarrow> worker_control_error + int" where
  "bounded_control key lo hi v =
     guardE (\<not> int_between lo hi v) (BadControl key) (case v of PInt i \<Rightarrow> Inr i | _ \<Rightarrow> Inl (BadControl key))"

lemma bounded_control_Inr [simp]:
  "bounded_control key lo hi v = Inr i \<longleftrightarrow> v = PInt i \<and> lo \<le> i \<and> i \<le> hi"
  by (cases v) (auto simp: bounded_control_def err_simps)

section \<open>Claim controls\<close>

definition validate_claim_controls :: "pyval \<Rightarrow> pyval \<Rightarrow> worker_control_error + int \<times> bool" where
  "validate_claim_controls capacity enabled =
     bindE (bounded_control ''max_concurrency'' 1 max_dynamic_concurrency capacity) (\<lambda>c.
       case enabled of PBool b \<Rightarrow> Inr (c, b) | _ \<Rightarrow> Inl (BadControl ''claim_enabled''))"

definition load_claim_controls :: "pydict \<Rightarrow> worker_control_error + int \<times> bool \<times> pyval" where
  "load_claim_controls config =
     bindE (validate_claim_controls (pget config ''max_concurrency'')
              (pget_or config ''claim_enabled'' (PBool False)))
       (\<lambda>(c, b). Inr (c, b, pget config ''ramp_up''))"

definition load_code_concurrency :: "pydict \<Rightarrow> worker_control_error + int" where
  "load_code_concurrency config =
     bounded_control ''max_code_concurrency'' 0 max_dynamic_concurrency
       (pget_or config ''max_code_concurrency'' (PInt 0))"

definition load_claim_batch_limit :: "pydict \<Rightarrow> worker_control_error + int" where
  "load_claim_batch_limit config =
     bounded_control ''claim_batch_limit'' 1 max_claim_batch_limit
       (pget_or config ''claim_batch_limit'' (PInt default_claim_batch_limit))"

text \<open>\<open>resolvable\<close>: a sandbox binary was found. The result is the capacity and whether the value was
  rejected.\<close>

definition hot_code_concurrency :: "bool \<Rightarrow> int \<Rightarrow> int \<Rightarrow> int \<times> bool" where
  "hot_code_concurrency resolvable current loaded =
     (if loaded > 0 \<and> current = 0 \<and> \<not> resolvable then (current, True) else (loaded, False))"

section \<open>Node limits\<close>

fun node_limit_entries :: "pydict \<Rightarrow> (string, int) dict \<Rightarrow> worker_control_error + (string, int) dict" where
  "node_limit_entries [] acc = Inr acc"
| "node_limit_entries ((k, v) # rest) acc =
     (case k of
        PStr key \<Rightarrow>
          guardE (key = [] \<or> py_len key > 128) (BadControl ''node_concurrency_limits'')
            (bindE (bounded_control ''node_concurrency_limits'' 1 max_dynamic_concurrency v) (\<lambda>i.
               node_limit_entries rest (dset key i acc)))
      | _ \<Rightarrow> Inl (BadControl ''node_concurrency_limits''))"

definition normalize_node_concurrency_limits :: "pyval \<Rightarrow> worker_control_error + (string, int) dict" where
  "normalize_node_concurrency_limits limits =
     (case limits of
        PDict d \<Rightarrow> guardE (length d > 256) (BadControl ''node_concurrency_limits'') (node_limit_entries d [])
      | _ \<Rightarrow> Inl (BadControl ''node_concurrency_limits''))"

definition load_node_concurrency_limits :: "pydict \<Rightarrow> worker_control_error + (string, int) dict" where
  "load_node_concurrency_limits config =
     normalize_node_concurrency_limits (pget_or config ''node_concurrency_limits'' (PDict []))"

section \<open>Transfer controls\<close>

record transfer_controls =
  tc_upload :: int
  tc_download :: int
  tc_backlog :: "int option"
  tc_timeout :: rat

text \<open>\<open>float(value)\<close>; \<open>parse\<close> is \<open>float\<close> on text (\<open>None\<close> for a \<open>ValueError\<close>).\<close>

definition to_float :: "(string \<Rightarrow> rat option) \<Rightarrow> string \<Rightarrow> pyval \<Rightarrow> worker_control_error + rat" where
  "to_float parse key v =
     (case v of
        PStr s \<Rightarrow> (case parse s of Some q \<Rightarrow> Inr q | None \<Rightarrow> Inl (BadControl key))
      | _ \<Rightarrow> (case py_num v of Some q \<Rightarrow> Inr q | None \<Rightarrow> Inl NotANumber))"

definition load_backlog :: "pyval \<Rightarrow> worker_control_error + int option" where
  "load_backlog v =
     (if v = PNone then Inr None
      else bindE (bounded_control ''upload_backlog_limit'' 1 (2 * max_dynamic_concurrency) v) (\<lambda>i. Inr (Some i)))"

definition load_transfer_controls :: "(string \<Rightarrow> rat option) \<Rightarrow> pydict \<Rightarrow> worker_control_error + transfer_controls" where
  "load_transfer_controls parse config =
     bindE (load_backlog (pget config ''upload_backlog_limit'')) (\<lambda>backlog.
     bindE (to_float parse ''transfer_timeout_seconds'' (pget_or config ''transfer_timeout_seconds'' (PInt 120))) (\<lambda>timeout.
     guardE (timeout \<le> 0) (BadControl ''transfer_timeout_seconds'')
     (bindE (bounded_control ''upload_max_concurrency'' 1 max_dynamic_concurrency
               (pget_or config ''upload_max_concurrency'' (PInt 4))) (\<lambda>up.
      bindE (bounded_control ''download_max_concurrency'' 1 max_dynamic_concurrency
               (pget_or config ''download_max_concurrency'' (PInt 8))) (\<lambda>down.
      Inr \<lparr>tc_upload = up, tc_download = down, tc_backlog = backlog, tc_timeout = timeout\<rparr>)))))"

section \<open>The ramp-up block\<close>

record ramp_controls =
  rc_enabled :: bool
  rc_initial :: int
  rc_step :: int
  rc_interval :: rat

definition ramp_disabled :: ramp_controls where
  "ramp_disabled = \<lparr>rc_enabled = False, rc_initial = 1, rc_step = 1, rc_interval = 60\<rparr>"

definition ramp_interval :: "pyval \<Rightarrow> worker_control_error + rat" where
  "ramp_interval v =
     (let bad = Inl (BadControl ''ramp_up.interval_seconds'') in
      if is_pbool v then bad
      else (case py_num v of
              Some q \<Rightarrow> if 1 / 5 \<le> q \<and> q \<le> 3600 then Inr q else bad
            | None \<Rightarrow> bad))"

definition validate_ramp_up :: "pyval \<Rightarrow> worker_control_error + ramp_controls" where
  "validate_ramp_up block =
     (case block of
        PNone \<Rightarrow> Inr ramp_disabled
      | PBool False \<Rightarrow> Inr ramp_disabled
      | PDict d \<Rightarrow>
          bindE (bounded_control ''ramp_up.initial'' 1 max_dynamic_concurrency (pget_or d ''initial'' (PInt 1))) (\<lambda>initial.
          bindE (bounded_control ''ramp_up.step'' 1 max_dynamic_concurrency (pget_or d ''step'' (PInt 1))) (\<lambda>step.
          bindE (ramp_interval (pget_or d ''interval_seconds'' (PInt 60))) (\<lambda>interval.
          Inr \<lparr>rc_enabled = True, rc_initial = initial, rc_step = step, rc_interval = interval\<rparr>)))
      | _ \<Rightarrow> Inl (BadControl ''ramp_up''))"

definition load_ramp_up_controls :: "pydict \<Rightarrow> worker_control_error + ramp_controls" where
  "load_ramp_up_controls config = validate_ramp_up (pget config ''ramp_up'')"

definition normalized_ramp_up_block :: "ramp_controls \<Rightarrow> pyval" where
  "normalized_ramp_up_block c =
     (if \<not> rc_enabled c then PNone
      else PDict [(PStr ''initial'', PInt (rc_initial c)), (PStr ''step'', PInt (rc_step c)),
                  (PStr ''interval_seconds'', PFloat (rc_interval c))])"

definition ramp_controls_ok :: "ramp_controls \<Rightarrow> bool" where
  "ramp_controls_ok c \<longleftrightarrow> 1 \<le> rc_initial c \<and> rc_initial c \<le> max_dynamic_concurrency
     \<and> 1 \<le> rc_step c \<and> rc_step c \<le> max_dynamic_concurrency \<and> 1 / 5 \<le> rc_interval c \<and> rc_interval c \<le> 3600"

lemma ramp_interval_Inr: "ramp_interval v = Inr q \<Longrightarrow> 1 / 5 \<le> q \<and> q \<le> 3600"
  by (auto simp: ramp_interval_def Let_def split: if_splits option.splits)

lemma validate_ramp_up_ok: "validate_ramp_up b = Inr c \<Longrightarrow> if rc_enabled c then ramp_controls_ok c else c = ramp_disabled"
  by (auto simp: validate_ramp_up_def ramp_controls_ok_def ramp_disabled_def err_simps
      dest: ramp_interval_Inr split: pyval.splits bool.splits)

lemma ramp_interval_float: "1 / 5 \<le> q \<Longrightarrow> q \<le> 3600 \<Longrightarrow> ramp_interval (PFloat q) = Inr q"
  by (simp add: ramp_interval_def)

lemma validate_normalized:
  "ramp_controls_ok c \<Longrightarrow> rc_enabled c \<Longrightarrow> validate_ramp_up (normalized_ramp_up_block c) = Inr c"
  by (cases c) (auto simp: validate_ramp_up_def normalized_ramp_up_block_def ramp_controls_ok_def
      pget_or_def dget_default_def ramp_interval_float bounded_control_def)

section \<open>The measured envelope of default resource limits\<close>

text \<open>\<open>Some keys\<close>: rejected, with the exceeded keys (none for an unknown mode).\<close>

definition reference_envelope :: "(string \<times> int) list" where
  "reference_envelope = [(''max_concurrency'', 10), (''max_code_concurrency'', 0), (''upload_max_concurrency'', 4)]"

definition resource_envelope_error :: "string \<Rightarrow> int \<Rightarrow> int \<Rightarrow> int \<Rightarrow> string list option" where
  "resource_envelope_error mode agent code upload =
     (if mode \<notin> set [[], ''default'', ''explicit''] then Some []
      else if mode \<noteq> ''default'' then None
      else (let values = [(''max_concurrency'', agent), (''max_code_concurrency'', code),
                         (''upload_max_concurrency'', upload)];
                exceeded = filter (\<lambda>(key, limit). dget_default 0 values key > limit) reference_envelope in
            if exceeded \<noteq> [] then Some (map fst exceeded) else None))"

end
