(* ===== verification/Worker_Admission.thy ===== *)
theory Worker_Admission
  imports Worker_Config
begin

text \<open>
  How much one pass of the worker's claim loop may take: upload backpressure
  (\<open>worker/transfer_controls.py\<close>), the two pool budgets with the cross-pool suppression
  (\<open>worker/claim_budget.py\<close>), load shedding (\<open>worker/load_shedding.py\<close>) and the batch rounds
  (\<open>worker/claim_batch.py\<close>). The Host, the stop flag, the clock and the thread pool are the functions
  of a record \<open>worker_env\<close> over a world state.
\<close>

section \<open>Backpressure and load shedding\<close>

definition claim_availability :: "int \<Rightarrow> int \<Rightarrow> int \<Rightarrow> int option \<Rightarrow> int" where
  "claim_availability base depth worker_capacity backlog_limit =
     (let hard = (case backlog_limit of None \<Rightarrow> 2 * worker_capacity | Some l \<Rightarrow> l);
          soft = min (hard div 2) (hard - 1) in
      if depth \<ge> hard then 0
      else if depth \<le> soft then base else (base * (hard - depth)) div (hard - soft))"

definition load_floor_ratio :: rat where
  "load_floor_ratio = 3"

definition load_floor_factor :: rat where
  "load_floor_factor = 1 / 4"

definition load_budget_factor :: "rat \<Rightarrow> int \<Rightarrow> rat" where
  "load_budget_factor load1 cores =
     (if cores \<le> 0 then 1
      else (let ratio = load1 / of_int cores in
        if ratio \<le> 1 then 1
        else (let span = load_floor_ratio - 1 in
          max load_floor_factor (1 - (1 - load_floor_factor) * (ratio - 1) / span))))"

definition shed_value :: "int \<Rightarrow> rat \<Rightarrow> int" where
  "shed_value v factor = (if v \<le> 0 then v else max 1 \<lceil>of_int v * factor\<rceil>)"

lemma availability_bounds:
  assumes "0 \<le> base"
  shows "0 \<le> claim_availability base depth cap backlog" "claim_availability base depth cap backlog \<le> base"
proof -
  let ?hard = "case backlog of None \<Rightarrow> 2 * cap | Some l \<Rightarrow> l" let ?soft = "min (?hard div 2) (?hard - 1)"
  have frac: "(base * (?hard - depth)) div (?hard - ?soft) \<le> base"
    if "\<not> depth \<ge> ?hard" "\<not> depth \<le> ?soft"
  proof -
    have "base * (?hard - depth) \<le> base * (?hard - ?soft)"
      using assms that by (intro mult_left_mono) auto
    then have "(base * (?hard - depth)) div (?hard - ?soft) \<le> (base * (?hard - ?soft)) div (?hard - ?soft)"
      by (intro zdiv_mono1) auto
    then show ?thesis by simp
  qed
  have "0 \<le> (base * (?hard - depth)) div (?hard - ?soft)" if "\<not> depth \<ge> ?hard"
    using assms that by (intro pos_imp_zdiv_nonneg_iff [THEN iffD2] mult_nonneg_nonneg) auto
  then show "0 \<le> claim_availability base depth cap backlog"
    using assms unfolding claim_availability_def Let_def by auto
  from frac show "claim_availability base depth cap backlog \<le> base"
    using assms unfolding claim_availability_def Let_def by auto
qed

lemma availability_antitone:
  assumes "0 \<le> base" and "depth \<le> depth'"
  shows "claim_availability base depth' cap backlog \<le> claim_availability base depth cap backlog"
proof -
  let ?hard = "case backlog of None \<Rightarrow> 2 * cap | Some l \<Rightarrow> l" let ?soft = "min (?hard div 2) (?hard - 1)"
  show ?thesis
  proof (cases "depth' \<ge> ?hard \<or> depth \<le> ?soft")
    case True
    then show ?thesis
      using availability_bounds [OF assms(1), of depth cap backlog]
        availability_bounds [OF assms(1), of depth' cap backlog] assms(2)
      by (auto simp: claim_availability_def [of base depth'] claim_availability_def [of base depth] Let_def
          split: if_splits)
  next
    case False
    have "base * (?hard - depth') \<le> base * (?hard - depth)"
      using assms by (intro mult_left_mono) auto
    then have "(base * (?hard - depth')) div (?hard - ?soft) \<le> (base * (?hard - depth)) div (?hard - ?soft)"
      by (intro zdiv_mono1) auto
    with False assms show ?thesis unfolding claim_availability_def Let_def by auto
  qed
qed

lemma load_factor_range: "load_floor_factor \<le> load_budget_factor l c \<and> load_budget_factor l c \<le> 1"
proof (cases "c \<le> 0 \<or> l / of_int c \<le> 1")
  case True
  then show ?thesis by (auto simp: load_budget_factor_def load_floor_factor_def)
next
  case False
  then have "load_budget_factor l c = max load_floor_factor
      (1 - (1 - load_floor_factor) * (l / of_int c - 1) / (load_floor_ratio - 1))"
    unfolding load_budget_factor_def Let_def by meson
  moreover have "0 \<le> (1 - load_floor_factor) * (l / of_int c - 1) / (load_floor_ratio - 1)"
    using False unfolding load_floor_factor_def load_floor_ratio_def
    by (intro divide_nonneg_nonneg mult_nonneg_nonneg) auto
  ultimately show ?thesis by (simp add: load_floor_factor_def)
qed

lemma shed_value_bounds:
  assumes "0 < v" and "f \<le> 1"
  shows "1 \<le> shed_value v f" "shed_value v f \<le> v"
proof -
  have "of_int v * f \<le> of_int v * 1" using assms by (intro mult_left_mono) auto
  then show "1 \<le> shed_value v f" "shed_value v f \<le> v"
    using assms by (auto simp: shed_value_def ceiling_le_iff)
qed

lemma shed_value_nonpos [simp]: "v \<le> 0 \<Longrightarrow> shed_value v f = v"
  by (simp add: shed_value_def)

section \<open>Samples of the load average\<close>

record load_sampler =
  ls_cached :: "(rat \<times> int) option"
  ls_sampled_at :: rat

text \<open>\<open>probe\<close> is \<open>os.getloadavg()[0]\<close> (\<open>None\<close> for an \<open>OSError\<close>), \<open>cpus\<close> is \<open>os.cpu_count() or 1\<close>.\<close>

definition load_sample :: "rat \<Rightarrow> rat \<Rightarrow> rat option \<Rightarrow> int \<Rightarrow> load_sampler \<Rightarrow> (rat \<times> int) option \<times> load_sampler" where
  "load_sample cache_seconds now probe cpus s =
     (if ls_cached s \<noteq> None \<and> now - ls_sampled_at s < cache_seconds then (ls_cached s, s)
      else (case probe of
              None \<Rightarrow> (None, s)
            | Some load1 \<Rightarrow> (Some (load1, cpus), \<lparr>ls_cached = Some (load1, cpus), ls_sampled_at = now\<rparr>)))"

section \<open>Pool budgets\<close>

record pool_counts =
  pc_agent :: int
  pc_code :: int

text \<open>The shedder's state is whether it reported shedding.\<close>

definition shed :: "(rat \<times> int) option \<Rightarrow> pool_counts \<Rightarrow> bool \<Rightarrow> pool_counts \<times> bool" where
  "shed sampled budget shedding =
     (case sampled of
        None \<Rightarrow> (budget, shedding)
      | Some (load1, cores) \<Rightarrow>
          (let factor = load_budget_factor load1 cores in
           if factor \<ge> 1 then (budget, False)
           else (\<lparr>pc_agent = shed_value (pc_agent budget) factor, pc_code = shed_value (pc_code budget) factor\<rparr>, True)))"

text \<open>The active executions: future identities with their pool.\<close>

type_synonym active = "(nat \<times> string) list"

definition agent_active :: "active \<Rightarrow> int" where
  "agent_active act = int (length (filter (\<lambda>(i, kind). kind = ''agent'') act))"

definition code_active :: "active \<Rightarrow> int" where
  "code_active act = int (length act) - agent_active act"

definition discard :: "string \<Rightarrow> string list \<Rightarrow> string list" where
  "discard k ks = filter (\<lambda>x. x \<noteq> k) ks"

text \<open>The suppressed pools are a set, kept as a list. Result: budget, declaration, suppressed pools.\<close>

definition pass_budget ::
  "active \<Rightarrow> int \<Rightarrow> int \<times> int \<Rightarrow> bool \<Rightarrow> string list \<Rightarrow> int \<Rightarrow> int option \<Rightarrow>
   (pool_counts \<times> pool_counts) \<times> string list" where
  "pass_budget act effective targets claim_enabled deferred upload_depth backlog =
     (let (agent_target, code_target) = targets;
          agent_base = (if claim_enabled then max 0 (effective - agent_active act) else 0);
          code_base = (if claim_enabled then max 0 (code_target - code_active act) else 0);
          agent_avail = claim_availability agent_base upload_depth effective backlog;
          code_avail = claim_availability code_base upload_depth (max code_target 1) backlog;
          deferred1 = (if agent_avail > 0 then discard ''agent'' deferred else deferred);
          deferred2 = (if code_avail > 0 then discard ''code'' deferred1 else deferred1);
          agent_held = (''agent'' \<in> set deferred2); code_held = (''code'' \<in> set deferred2) in
      ((\<lparr>pc_agent = (if agent_held then 0 else agent_avail), pc_code = (if code_held then 0 else code_avail)\<rparr>,
        \<lparr>pc_agent = (if agent_held then min (agent_active act) agent_target else agent_target),
         pc_code = (if code_held then min (code_active act) code_target else code_target)\<rparr>),
       deferred2))"

lemma agent_active_nonneg: "0 \<le> agent_active act" "0 \<le> code_active act"
  using length_filter_le [of "\<lambda>(i, kind). kind = ''agent''" act]
  by (auto simp: agent_active_def code_active_def)

lemma agent_active_simps [simp]:
  "agent_active (act @ [(i, k)]) = agent_active act + (if k = ''agent'' then 1 else 0)"
  "code_active (act @ [(i, k)]) = code_active act + (if k = ''agent'' then 0 else 1)"
  by (simp_all add: agent_active_def code_active_def)

end
