(* ===== verification/Claim_Rounds.thy ===== *)
theory Claim_Rounds
  imports Worker_Admission
begin

text \<open>
  The batch rounds of one claim pass (\<open>worker/claim_batch.py\<close>) and the pass as the executor
  composes it from budget, load shedding and rounds (\<open>worker/executor.py\<close>). The Host answers a
  request with a list of claims; a claim is submitted to a lane thread, which may fail to start.
\<close>

section \<open>Requests and the outside world\<close>

record pool_request =
  rq_agent :: int
  rq_code :: int
  rq_limit :: int
  rq_agent_limit :: int
  rq_code_limit :: int
  rq_node_limits :: "(string, int) dict"

type_synonym claim = pydict

record ('w, 'x) worker_env =
  env_stop :: "'w \<Rightarrow> bool \<times> 'w"
  env_clock :: "'w \<Rightarrow> rat \<times> 'w"
  env_claim :: "pool_request \<Rightarrow> 'w \<Rightarrow> ('x + claim list) \<times> 'w"
  env_spawn :: "claim \<Rightarrow> 'w \<Rightarrow> bool \<times> 'w"

record claim_ctx =
  cx_active :: active
  cx_next :: nat
  cx_deferred :: "string list"
  cx_lane_probe :: bool
  cx_node_limits :: "(string, int) dict"

text \<open>The exceptions of a round: the Host call failed, or no lane thread could be started and the
  listed executions were left to lease expiry.\<close>

datatype 'x claim_exc = HostFailed 'x | LaneSpawn "pyval list"

type_synonym 'w round_state = "pool_counts \<times> claim_ctx \<times> 'w"

definition claim_kind :: "claim \<Rightarrow> string" where
  "claim_kind c = (if pget c ''kind'' = PStr ''code'' then ''code'' else ''agent'')"

definition batch_request :: "pool_counts \<Rightarrow> int \<Rightarrow> int \<times> int \<times> int" where
  "batch_request budget batch_limit =
     (let agent = min (max (pc_agent budget) 0) batch_limit; code = min (max (pc_code budget) 0) batch_limit in
      (min (agent + code) batch_limit, agent, code))"

section \<open>Submitting a batch\<close>

definition spend :: "string \<Rightarrow> pool_counts \<Rightarrow> pool_counts" where
  "spend kind b = (if kind = ''agent'' then b\<lparr>pc_agent := pc_agent b - 1\<rparr> else b\<lparr>pc_code := pc_code b - 1\<rparr>)"

definition lane_started :: "string \<Rightarrow> claim_ctx \<Rightarrow> claim_ctx" where
  "lane_started kind cx = cx\<lparr>cx_active := cx_active cx @ [(cx_next cx, kind)], cx_next := Suc (cx_next cx)\<rparr>"

text \<open>\<open>submit_claim\<close>: the budget is spent before the lane thread is asked for.\<close>

definition submit_claim :: "('w, 'x) worker_env \<Rightarrow> claim \<Rightarrow> 'w round_state \<Rightarrow> bool \<times> 'w round_state" where
  "submit_claim env c st =
     (case st of (b, cx, w) \<Rightarrow>
        (let kind = claim_kind c; (ok, w') = env_spawn env c w in
         if ok then (True, spend kind b, lane_started kind cx, w') else (False, spend kind b, cx, w')))"

text \<open>The loop over the delivered batch; the first component is the undelivered rest after a failure.\<close>

fun submit_all :: "('w, 'x) worker_env \<Rightarrow> claim list \<Rightarrow> 'w round_state \<Rightarrow> claim list \<times> 'w round_state" where
  "submit_all env [] st = ([], st)"
| "submit_all env (c # cs) st =
     (case submit_claim env c st of
        (True, b, cx, w) \<Rightarrow> submit_all env cs (b, cx\<lparr>cx_lane_probe := False\<rparr>, w)
      | (False, b, cx, w) \<Rightarrow> (c # cs, b, cx\<lparr>cx_lane_probe := True\<rparr>, w))"

definition round_request :: "pool_counts \<Rightarrow> pool_counts \<Rightarrow> int \<Rightarrow> claim_ctx \<Rightarrow> pool_request" where
  "round_request b declared batch_limit cx =
     (let (limit, agent_limit, code_limit) = batch_request b (if cx_lane_probe cx then 1 else batch_limit) in
      \<lparr>rq_agent = pc_agent declared, rq_code = pc_code declared, rq_limit = limit,
       rq_agent_limit = agent_limit, rq_code_limit = code_limit, rq_node_limits = cx_node_limits cx\<rparr>)"

definition claim_batch_pass ::
  "('w, 'x) worker_env \<Rightarrow> pool_counts \<Rightarrow> int \<Rightarrow> 'w round_state \<Rightarrow>
   ('x claim_exc + bool \<times> rat) \<times> 'w round_state" where
  "claim_batch_pass env declared batch_limit st =
     (case st of (b, cx, w) \<Rightarrow>
        (let (started, w1) = env_clock env w in
         case env_claim env (round_request b declared batch_limit cx) w1 of
           (Inl x, w2) \<Rightarrow> (Inl (HostFailed x), b, cx, w2)
         | (Inr claims, w2) \<Rightarrow>
             if claims = [] then (Inr (False, 0), b, cx, w2)
             else (let (ended, w3) = env_clock env w2;
                       rtt = (ended - started) / of_nat (length claims);
                       (lost, st') = submit_all env claims (b, cx, w3) in
                   if lost \<noteq> [] then (Inl (LaneSpawn (map (\<lambda>c. pget c ''execution_id'') lost)), st')
                   else (Inr (True, rtt), st'))))"

section \<open>Accounting\<close>

definition kinds :: "string \<Rightarrow> claim list \<Rightarrow> int" where
  "kinds k cs = int (length (filter (\<lambda>c. claim_kind c = k) cs))"

lemma kinds_simps [simp]:
  "kinds k [] = 0" "kinds k (c # cs) = (if claim_kind c = k then 1 else 0) + kinds k cs" "0 \<le> kinds k cs"
  "kinds k (cs @ cs') = kinds k cs + kinds k cs'"
  by (simp_all add: kinds_def)

lemma kinds_total: "kinds ''agent'' cs + kinds ''code'' cs = int (length cs)"
  by (induction cs) (auto simp: claim_kind_def)

lemma claim_kind_cases: "claim_kind c = ''agent'' \<or> claim_kind c = ''code''"
  by (simp add: claim_kind_def)

text \<open>Budget plus active executions of a pool: what the pass may reach at most.\<close>

definition agent_reach :: "'w round_state \<Rightarrow> int" where
  "agent_reach st = (case st of (b, cx, w) \<Rightarrow> pc_agent b + agent_active (cx_active cx))"

definition code_reach :: "'w round_state \<Rightarrow> int" where
  "code_reach st = (case st of (b, cx, w) \<Rightarrow> pc_code b + code_active (cx_active cx))"

lemma submit_all_account:
  assumes "submit_all env cs (b, cx, w) = (lost, b', cx', w')"
  shows "\<exists>taken. cs = taken @ lost
    \<and> agent_active (cx_active cx') = agent_active (cx_active cx) + kinds ''agent'' taken
    \<and> code_active (cx_active cx') = code_active (cx_active cx) + kinds ''code'' taken
    \<and> pc_agent b' = pc_agent b - kinds ''agent'' (taken @ take 1 lost)
    \<and> pc_code b' = pc_code b - kinds ''code'' (taken @ take 1 lost)"
  using assms
proof (induction cs arbitrary: b cx w)
  case (Cons c cs)
  obtain ok w1 where spawn: "env_spawn env c w = (ok, w1)" by force
  show ?case
  proof (cases ok)
    case True
    with spawn Cons.prems
    have "submit_all env cs (spend (claim_kind c) b, (lane_started (claim_kind c) cx)\<lparr>cx_lane_probe := False\<rparr>, w1)
        = (lost, b', cx', w')"
      by (simp add: submit_claim_def Let_def)
    from Cons.IH [OF this] obtain d where d: "cs = d @ lost"
      "agent_active (cx_active cx') = agent_active (cx_active (lane_started (claim_kind c) cx)) + kinds ''agent'' d"
      "code_active (cx_active cx') = code_active (cx_active (lane_started (claim_kind c) cx)) + kinds ''code'' d"
      "pc_agent b' = pc_agent (spend (claim_kind c) b) - kinds ''agent'' (d @ take 1 lost)"
      "pc_code b' = pc_code (spend (claim_kind c) b) - kinds ''code'' (d @ take 1 lost)"
      by auto
    show ?thesis
      by (rule exI [of _ "c # d"])
        (use d claim_kind_cases [of c] in \<open>auto simp: lane_started_def spend_def\<close>)
  next
    case False
    with spawn Cons.prems show ?thesis
      using claim_kind_cases [of c] by (auto simp: submit_claim_def Let_def spend_def)
  qed
qed simp

lemma submit_all_reach:
  assumes "submit_all env cs (b, cx, w) = (lost, st')"
  shows "agent_reach st' \<le> agent_reach (b, cx, w)" "code_reach st' \<le> code_reach (b, cx, w)"
  using submit_all_account [of env cs b cx w lost] assms
  by (auto simp: agent_reach_def code_reach_def split: prod.splits)

text \<open>A round spends the budget by what it submits and by at most one failed submission, and a
  successful one submits the whole batch.\<close>

lemma round_account:
  assumes "claim_batch_pass env declared limit (b, cx, w) = (res, b', cx', w')"
  shows "agent_reach (b', cx', w') \<le> agent_reach (b, cx, w)" "code_reach (b', cx', w') \<le> code_reach (b, cx, w)"
    "pc_agent b' \<le> pc_agent b" "pc_code b' \<le> pc_code b"
    "res = Inr (True, rtt) \<Longrightarrow> pc_agent b' + pc_code b' < pc_agent b + pc_code b"
    "res = Inr (False, rtt) \<Longrightarrow> b' = b \<and> cx' = cx \<and> rtt = 0"
proof -
  obtain t0 w1 where clock: "env_clock env w = (t0, w1)" by force
  obtain ans w2 where call: "env_claim env (round_request b declared limit cx) w1 = (ans, w2)" by force
  have "agent_reach (b', cx', w') \<le> agent_reach (b, cx, w) \<and> code_reach (b', cx', w') \<le> code_reach (b, cx, w)
    \<and> pc_agent b' \<le> pc_agent b \<and> pc_code b' \<le> pc_code b
    \<and> (\<forall>rtt. res = Inr (True, rtt) \<longrightarrow> pc_agent b' + pc_code b' < pc_agent b + pc_code b)
    \<and> (\<forall>rtt. res = Inr (False, rtt) \<longrightarrow> b' = b \<and> cx' = cx \<and> rtt = 0)"
  proof (cases ans)
    case (Inl x)
    with assms clock call show ?thesis by (auto simp: claim_batch_pass_def agent_reach_def code_reach_def)
  next
    case (Inr claims)
    show ?thesis
    proof (cases "claims = []")
      case True
      with Inr assms clock call show ?thesis
        by (auto simp: claim_batch_pass_def agent_reach_def code_reach_def)
    next
      case False
      obtain t3 w3 where clock2: "env_clock env w2 = (t3, w3)" by force
      obtain lost b2 cx2 w4 where sub: "submit_all env claims (b, cx, w3) = (lost, b2, cx2, w4)"
        by (metis surj_pair)
      have st: "b' = b2" "cx' = cx2" and res: "\<And>rtt. res = Inr (True, rtt) \<Longrightarrow> lost = []" "\<And>rtt. res \<noteq> Inr (False, rtt)"
        using assms clock call clock2 sub Inr False by (auto simp: claim_batch_pass_def Let_def split: if_splits)
      from submit_all_account [OF sub] obtain taken where "claims = taken @ lost"
        "agent_active (cx_active cx') = agent_active (cx_active cx) + kinds ''agent'' taken"
        "code_active (cx_active cx') = code_active (cx_active cx) + kinds ''code'' taken"
        "pc_agent b' = pc_agent b - kinds ''agent'' (taken @ take 1 lost)"
        "pc_code b' = pc_code b - kinds ''code'' (taken @ take 1 lost)"
        unfolding st by blast
      moreover have "0 < kinds ''agent'' claims + kinds ''code'' claims" using False by (simp add: kinds_total)
      moreover have "0 \<le> kinds k xs" for k xs by simp
      note this [of "''agent''" taken] this [of "''agent''" "take 1 lost"]
        this [of "''code''" taken] this [of "''code''" "take 1 lost"]
      ultimately show ?thesis
        using res
        by (auto simp: agent_reach_def code_reach_def simp del: kinds_simps(3))
    qed
  qed
  then show "agent_reach (b', cx', w') \<le> agent_reach (b, cx, w)" "code_reach (b', cx', w') \<le> code_reach (b, cx, w)"
    "pc_agent b' \<le> pc_agent b" "pc_code b' \<le> pc_code b"
    "res = Inr (True, rtt) \<Longrightarrow> pc_agent b' + pc_code b' < pc_agent b + pc_code b"
    "res = Inr (False, rtt) \<Longrightarrow> b' = b \<and> cx' = cx \<and> rtt = 0" by blast+
qed

section \<open>The loop of a pass\<close>

definition over_claimed :: "pool_counts \<Rightarrow> string list" where
  "over_claimed b = (if pc_agent b < 0 then [''agent''] else []) @ (if pc_code b < 0 then [''code''] else [])"

definition defer_pools :: "string list \<Rightarrow> claim_ctx \<Rightarrow> claim_ctx" where
  "defer_pools ks cx = cx\<lparr>cx_deferred := cx_deferred cx @ filter (\<lambda>k. k \<notin> set (cx_deferred cx)) ks\<rparr>"

text \<open>\<open>drain_budget\<close>: rounds until the budget is spent, the queue drains, a pool is over-claimed or the
  stop flag is set. A round that claims something without over-claiming lowers a budget that stays
  non-negative, so the loop ends.\<close>

function drain_budget ::
  "('w, 'x) worker_env \<Rightarrow> pool_counts \<Rightarrow> int \<Rightarrow> bool \<times> rat \<Rightarrow> 'w round_state \<Rightarrow>
   ('x claim_exc + bool \<times> rat) \<times> 'w round_state" where
  "drain_budget env declared limit (claimed, rtt) (b, cx, w) =
     (if \<not> (pc_agent b > 0 \<or> pc_code b > 0) then (Inr (claimed, rtt), b, cx, w)
      else (case env_stop env w of
        (True, w1) \<Rightarrow> (Inr (claimed, rtt), b, cx, w1)
      | (False, w1) \<Rightarrow>
          (case claim_batch_pass env declared limit (b, cx, w1) of
             (Inl e, st) \<Rightarrow> (Inl e, st)
           | (Inr (False, rtt'), st) \<Rightarrow> (Inr (claimed, rtt'), st)
           | (Inr (True, rtt'), b', cx', w') \<Rightarrow>
               if over_claimed b' \<noteq> [] then (Inr (True, rtt'), b', defer_pools (over_claimed b') cx', w')
               else drain_budget env declared limit (True, rtt') (b', cx', w'))))"
  by pat_completeness auto
termination
proof (relation "measure (\<lambda>(env, declared, limit, res, b, cx, w). nat (pc_agent b) + nat (pc_code b))", goal_cases)
  case (2 env declared limit claimed rtt b cx w stop w1 res st ba got rtt' b' yc cx' w')
  then have "claim_batch_pass env declared limit (b, cx, w1) = (Inr (True, rtt'), b', cx', w')" by simp
  note acc = round_account(3,4) [OF this] round_account(5) [OF this refl]
  have "0 \<le> pc_agent b'" "0 \<le> pc_code b'" using 2 by (auto simp: over_claimed_def split: if_splits)
  with acc show ?case by auto
qed simp

declare drain_budget.simps [simp del]

text \<open>The executor's pass: budget, shedding, rounds. The second component is the shedder's state.\<close>

record pass_input =
  pi_effective :: int
  pi_targets :: "int \<times> int"
  pi_enabled :: bool
  pi_depth :: int
  pi_backlog :: "int option"
  pi_load :: "(rat \<times> int) option"
  pi_batch_limit :: int

definition budget_of_pass :: "pass_input \<Rightarrow> claim_ctx \<Rightarrow> (pool_counts \<times> pool_counts) \<times> string list" where
  "budget_of_pass i cx =
     pass_budget (cx_active cx) (pi_effective i) (pi_targets i) (pi_enabled i) (cx_deferred cx) (pi_depth i) (pi_backlog i)"

definition claim_pass ::
  "('w, 'x) worker_env \<Rightarrow> pass_input \<Rightarrow> bool \<Rightarrow> claim_ctx \<Rightarrow> 'w \<Rightarrow>
   (('x claim_exc + bool \<times> rat) \<times> 'w round_state) \<times> bool" where
  "claim_pass env i shedding cx w =
     (let ((budget, declared), deferred) = budget_of_pass i cx;
          (budget', shedding') = shed (pi_load i) budget shedding in
      (drain_budget env declared (pi_batch_limit i) (False, 0) (budget', cx\<lparr>cx_deferred := deferred\<rparr>, w), shedding'))"

section \<open>What the loop guarantees\<close>

lemma defer_pools_simps [simp]:
  "cx_active (defer_pools ks cx) = cx_active cx"
  "set (cx_deferred (defer_pools ks cx)) = set (cx_deferred cx) \<union> set ks"
  by (auto simp: defer_pools_def)

text \<open>One turn of the loop: it stops where it is, after a failed or an empty round, after an over-claimed
  batch, or goes on with a smaller budget.\<close>

lemma drain_step:
  assumes "drain_budget env declared limit cr (b, cx, w) = (res, st')"
  obtains (here) c w1 where "res = Inr c" "st' = (b, cx, w1)"
  | (failed) e w1 where "claim_batch_pass env declared limit (b, cx, w1) = (Inl e, st')" "res = Inl e"
  | (empty) c q w1 where "claim_batch_pass env declared limit (b, cx, w1) = (Inr (False, q), st')" "res = Inr (c, q)"
  | (over) q w1 b1 cx1 w2 where "claim_batch_pass env declared limit (b, cx, w1) = (Inr (True, q), b1, cx1, w2)"
      "st' = (b1, defer_pools (over_claimed b1) cx1, w2)"
  | (again) q w1 b1 cx1 w2 where "claim_batch_pass env declared limit (b, cx, w1) = (Inr (True, q), b1, cx1, w2)"
      "over_claimed b1 = []" "nat (pc_agent b1) + nat (pc_code b1) < nat (pc_agent b) + nat (pc_code b)"
      "drain_budget env declared limit (True, q) (b1, cx1, w2) = (res, st')"
proof -
  obtain claimed rtt where cr: "cr = (claimed, rtt)" by force
  obtain stop w1 where stop: "env_stop env w = (stop, w1)" by force
  obtain r b1 cx1 w2 where round: "claim_batch_pass env declared limit (b, cx, w1) = (r, b1, cx1, w2)"
    by (metis surj_pair)
  note unfolded = assms [unfolded cr drain_budget.simps [of env declared limit claimed rtt b cx w] stop]
  show thesis
  proof (cases "\<exists>q. r = Inr (True, q) \<and> over_claimed b1 = [] \<and> (pc_agent b > 0 \<or> pc_code b > 0) \<and> \<not> stop")
    case True
    then obtain q where r: "r = Inr (True, q)" "over_claimed b1 = []" "pc_agent b > 0 \<or> pc_code b > 0" "\<not> stop"
      by blast
    have "0 \<le> pc_agent b1" "0 \<le> pc_code b1" using r(2) by (auto simp: over_claimed_def split: if_splits)
    then have "nat (pc_agent b1) + nat (pc_code b1) < nat (pc_agent b) + nat (pc_code b)"
      using round_account(3-5) [OF round] r(1) by fastforce
    with unfolded r round show thesis by (intro again) simp_all
  next
    case False
    with unfolded round show thesis
      by (auto split: if_splits sum.splits bool.splits intro: here failed empty over)
  qed
qed

lemma drain_invariant:
  assumes "drain_budget env declared limit cr (b, cx, w) = (res, b', cx', w')" and "I b cx"
    and step: "\<And>b cx w res b' cx' w'. I b cx \<Longrightarrow> claim_batch_pass env declared limit (b, cx, w) = (res, b', cx', w') \<Longrightarrow> I b' cx'"
    and postpone: "\<And>b cx ks. I b cx \<Longrightarrow> I b (defer_pools ks cx)"
  shows "I b' cx'"
  using assms(1,2)
proof (induction "nat (pc_agent b) + nat (pc_code b)" arbitrary: cr b cx w rule: less_induct)
  case less
  from less.prems(1) show ?case
    by (cases rule: drain_step) (use less step postpone in \<open>blast | simp\<close>)+
qed

lemma drain_reach:
  assumes "drain_budget env declared limit cr (b, cx, w) = (res, b', cx', w')"
  shows "agent_reach (b', cx', w') \<le> agent_reach (b, cx, w)" "code_reach (b', cx', w') \<le> code_reach (b, cx, w)"
  using drain_invariant [OF assms, where I = "\<lambda>b' cx'. agent_reach (b', cx', w) \<le> agent_reach (b, cx, w)"]
    drain_invariant [OF assms, where I = "\<lambda>b' cx'. code_reach (b', cx', w) \<le> code_reach (b, cx, w)"]
    round_account(1,2)
  by (fastforce simp: agent_reach_def code_reach_def)+

text \<open>The Host serves at most what the request asks for in each pool.\<close>

definition honours_request :: "('w, 'x) worker_env \<Rightarrow> bool" where
  "honours_request env \<longleftrightarrow> (\<forall>rq w cs w'. env_claim env rq w = (Inr cs, w') \<longrightarrow>
     kinds ''agent'' cs \<le> max 0 (rq_agent_limit rq) \<and> kinds ''code'' cs \<le> max 0 (rq_code_limit rq))"

lemma kinds_prefix: "kinds k (xs @ take 1 ys) \<le> kinds k (xs @ ys)"
  by (cases ys) simp_all

lemma round_nonneg:
  assumes hon: "honours_request env" and nn: "0 \<le> pc_agent b" "0 \<le> pc_code b"
    and round: "claim_batch_pass env declared limit (b, cx, w) = (res, b', cx', w')"
  shows "0 \<le> pc_agent b' \<and> 0 \<le> pc_code b'"
proof -
  obtain t0 w1 where clock: "env_clock env w = (t0, w1)" by force
  obtain ans w2 where call: "env_claim env (round_request b declared limit cx) w1 = (ans, w2)" by force
  show ?thesis
  proof (cases "\<exists>cs. ans = Inr cs \<and> cs \<noteq> []")
    case False
    with round clock call nn show ?thesis
      by (cases ans) (auto simp: claim_batch_pass_def)
  next
    case True
    then obtain cs where cs: "ans = Inr cs" "cs \<noteq> []" by blast
    obtain t3 w3 where clock2: "env_clock env w2 = (t3, w3)" by force
    obtain lost b2 cx2 w4 where sub: "submit_all env cs (b, cx, w3) = (lost, b2, cx2, w4)" by (metis surj_pair)
    have b': "b' = b2"
      using round clock call clock2 sub cs by (auto simp: claim_batch_pass_def Let_def split: if_splits)
    have "kinds ''agent'' cs \<le> pc_agent b" "kinds ''code'' cs \<le> pc_code b"
      using hon call cs nn unfolding honours_request_def
      by (fastforce simp: round_request_def batch_request_def Let_def split: if_splits)+
    with submit_all_account [OF sub] kinds_prefix show ?thesis
      unfolding b' by (smt (verit, best))
  qed
qed

lemma drain_defers:
  assumes "drain_budget env declared limit cr (b, cx, w) = (Inr res, b', cx', w')" and "over_claimed b = []"
  shows "set (over_claimed b') \<subseteq> set (cx_deferred cx')"
  using assms
proof (induction "nat (pc_agent b) + nat (pc_code b)" arbitrary: cr b cx w rule: less_induct)
  case less
  from less.prems(1) show ?case
  proof (cases rule: drain_step)
    case (empty c q w1)
    with round_account(6) [OF empty(1)] less.prems(2) show ?thesis by simp
  next
    case (again q w1 b1 cx1 w2)
    with less.hyps show ?thesis by blast
  qed (use less.prems(2) in auto)
qed

lemma discard_simps [simp]: "set (discard k ks) = set ks - {k}"
  by (auto simp: discard_def)

lemma pass_budget_exact:
  assumes "pass_budget act effective (tga, tgc) enabled deferred depth backlog = ((budget, declared), deferred')"
  defines "agent_avail \<equiv> claim_availability (if enabled then max 0 (effective - agent_active act) else 0) depth effective backlog"
    and "code_avail \<equiv> claim_availability (if enabled then max 0 (tgc - code_active act) else 0) depth (max tgc 1) backlog"
  shows "pc_agent budget = agent_avail" "pc_code budget = code_avail"
    "pc_agent declared = (if ''agent'' \<in> set deferred \<and> agent_avail = 0 then min (agent_active act) tga else tga)"
    "pc_code declared = (if ''code'' \<in> set deferred \<and> code_avail = 0 then min (code_active act) tgc else tgc)"
proof -
  have nn: "0 \<le> agent_avail" "0 \<le> code_avail"
    unfolding agent_avail_def code_avail_def by (simp_all add: availability_bounds(1))
  have "pass_budget act effective (tga, tgc) enabled deferred depth backlog =
      (let deferred1 = (if agent_avail > 0 then discard ''agent'' deferred else deferred);
           deferred2 = (if code_avail > 0 then discard ''code'' deferred1 else deferred1);
           agent_held = (''agent'' \<in> set deferred2); code_held = (''code'' \<in> set deferred2) in
      ((\<lparr>pc_agent = (if agent_held then 0 else agent_avail), pc_code = (if code_held then 0 else code_avail)\<rparr>,
        \<lparr>pc_agent = (if agent_held then min (agent_active act) tga else tga),
         pc_code = (if code_held then min (code_active act) tgc else tgc)\<rparr>),
       deferred2))"
    unfolding pass_budget_def agent_avail_def code_avail_def Let_def prod.case by (rule refl)
  note this [unfolded assms(1)]
  with nn show "pc_agent budget = agent_avail" "pc_code budget = code_avail"
    "pc_agent declared = (if ''agent'' \<in> set deferred \<and> agent_avail = 0 then min (agent_active act) tga else tga)"
    "pc_code declared = (if ''code'' \<in> set deferred \<and> code_avail = 0 then min (code_active act) tgc else tgc)"
    by (auto simp: Let_def split: if_splits)
qed

lemma shed_bounds:
  assumes "0 \<le> pc_agent b" "0 \<le> pc_code b" and "shed sampled b flag = (b', flag')"
  shows "0 \<le> pc_agent b'" "pc_agent b' \<le> pc_agent b" "0 \<le> pc_code b'" "pc_code b' \<le> pc_code b"
proof -
  have v: "0 \<le> shed_value v (load_budget_factor l c) \<and> shed_value v (load_budget_factor l c) \<le> v" if "0 \<le> v" for v l c
    using that shed_value_bounds [of v "load_budget_factor l c"] load_factor_range [of l c] by (cases "v = 0") auto
  show "0 \<le> pc_agent b'" "pc_agent b' \<le> pc_agent b" "0 \<le> pc_code b'" "pc_code b' \<le> pc_code b"
    using assms v by (auto simp: shed_def Let_def split: option.splits prod.splits if_splits)
qed

text \<open>The budget of a pass and what it leaves of the capacity.\<close>

lemma budget_of_pass_bounds:
  assumes "budget_of_pass i cx = ((budget, declared), deferred)"
  shows "0 \<le> pc_agent budget" "0 \<le> pc_code budget"
    "pc_agent budget + agent_active (cx_active cx) \<le> max (agent_active (cx_active cx)) (pi_effective i)"
    "pc_code budget + code_active (cx_active cx) \<le> max (code_active (cx_active cx)) (snd (pi_targets i))"
    "\<not> pi_enabled i \<Longrightarrow> pc_agent budget = 0 \<and> pc_code budget = 0"
proof -
  obtain tga tgc where targets: "pi_targets i = (tga, tgc)" by force
  note exact = pass_budget_exact(1,2) [OF assms [unfolded budget_of_pass_def targets]]
  let ?a = "if pi_enabled i then max 0 (pi_effective i - agent_active (cx_active cx)) else 0"
  let ?c = "if pi_enabled i then max 0 (tgc - code_active (cx_active cx)) else 0"
  have "0 \<le> ?a" "0 \<le> ?c" by simp_all
  note bounds = availability_bounds [OF this(1)] availability_bounds [OF this(2)]
  show "0 \<le> pc_agent budget" "0 \<le> pc_code budget" unfolding exact using bounds by blast+
  have "pc_agent budget \<le> ?a" "pc_code budget \<le> ?c" unfolding exact using bounds by blast+
  then show "pc_agent budget + agent_active (cx_active cx) \<le> max (agent_active (cx_active cx)) (pi_effective i)"
    "pc_code budget + code_active (cx_active cx) \<le> max (code_active (cx_active cx)) (snd (pi_targets i))"
    "\<not> pi_enabled i \<Longrightarrow> pc_agent budget = 0 \<and> pc_code budget = 0"
    using \<open>0 \<le> pc_agent budget\<close> \<open>0 \<le> pc_code budget\<close> by (auto simp: targets split: if_splits)
qed

lemma pass_reach:
  assumes "claim_pass env i shedding cx w = ((res, b', cx', w'), shedding')"
  obtains b declared deferred where "budget_of_pass i cx = ((b, declared), deferred)"
    "0 \<le> pc_agent (fst (shed (pi_load i) b shedding))" "0 \<le> pc_code (fst (shed (pi_load i) b shedding))"
    "pc_agent (fst (shed (pi_load i) b shedding)) \<le> pc_agent b" "pc_code (fst (shed (pi_load i) b shedding)) \<le> pc_code b"
    "drain_budget env declared (pi_batch_limit i) (False, 0)
       (fst (shed (pi_load i) b shedding), cx\<lparr>cx_deferred := deferred\<rparr>, w) = (res, b', cx', w')"
proof -
  obtain b declared deferred where budget: "budget_of_pass i cx = ((b, declared), deferred)" by (metis surj_pair)
  obtain b1 flag where shed: "shed (pi_load i) b shedding = (b1, flag)" by force
  from assms budget shed that shed_bounds [OF budget_of_pass_bounds(1,2) [OF budget] shed]
  show thesis by (simp add: claim_pass_def)
qed

section \<open>Properties\<close>

text \<open>C34. With a Host that serves no more than a request asks for, a claim pass never takes a pool
  above its capacity: the running executions stay within the effective (ramped) agent capacity and
  the code capacity, or where they were before, and a pass with claiming disabled submits nothing.\<close>

theorem pass_within_capacity:
  assumes "honours_request env"
    and "claim_pass env i shedding cx w = ((res, b', cx', w'), shedding')"
  shows "agent_active (cx_active cx') \<le> max (agent_active (cx_active cx)) (pi_effective i)
    \<and> code_active (cx_active cx') \<le> max (code_active (cx_active cx)) (snd (pi_targets i))
    \<and> (pi_enabled i \<or> cx_active cx' = cx_active cx)"
proof -
  from assms(2) obtain b declared deferred where
    budget: "budget_of_pass i cx = ((b, declared), deferred)"
    and shed: "0 \<le> pc_agent (fst (shed (pi_load i) b shedding))" "0 \<le> pc_code (fst (shed (pi_load i) b shedding))"
      "pc_agent (fst (shed (pi_load i) b shedding)) \<le> pc_agent b" "pc_code (fst (shed (pi_load i) b shedding)) \<le> pc_code b"
    and drain: "drain_budget env declared (pi_batch_limit i) (False, 0)
       (fst (shed (pi_load i) b shedding), cx\<lparr>cx_deferred := deferred\<rparr>, w) = (res, b', cx', w')"
    by (rule pass_reach)
  have "0 \<le> pc_agent b' \<and> 0 \<le> pc_code b'"
    by (rule drain_invariant [OF drain, where I = "\<lambda>b cx. 0 \<le> pc_agent b \<and> 0 \<le> pc_code b"])
      (use shed round_nonneg [OF assms(1)] in blast)+
  moreover note drain_reach [OF drain] budget_of_pass_bounds(3,4) [OF budget]
  moreover have "pi_enabled i \<or> cx_active cx' = cx_active cx"
  proof (cases "pi_enabled i")
    case False
    with budget_of_pass_bounds(5) [OF budget] shed
    have "pc_agent (fst (shed (pi_load i) b shedding)) = 0" "pc_code (fst (shed (pi_load i) b shedding)) = 0"
      by simp_all
    with drain show ?thesis by (auto simp: drain_budget.simps)
  qed simp
  ultimately show ?thesis using shed(3,4) by (auto simp: agent_reach_def code_reach_def)
qed

text \<open>Whatever the Host delivers: when a pass ends with an over-claimed pool, the next pass
  either has a positive budget for that pool again or declares no more capacity than the pool is
  already running, so a Host that issues only below the declared capacity issues nothing to it.\<close>

theorem overclaim_closes_gate:
  assumes "claim_pass env i shedding cx w = ((Inr out, b', cx', w'), shedding')"
    and "budget_of_pass j cx' = ((budget, declared), deferred)"
  shows "(0 \<le> pc_agent b' \<or> 0 < pc_agent budget \<or> pc_agent declared \<le> agent_active (cx_active cx'))
    \<and> (0 \<le> pc_code b' \<or> 0 < pc_code budget \<or> pc_code declared \<le> code_active (cx_active cx'))"
proof -
  from assms(1) obtain b0 decl0 defer0 where
    shed: "0 \<le> pc_agent (fst (shed (pi_load i) b0 shedding))" "0 \<le> pc_code (fst (shed (pi_load i) b0 shedding))"
    and drain: "drain_budget env decl0 (pi_batch_limit i) (False, 0)
       (fst (shed (pi_load i) b0 shedding), cx\<lparr>cx_deferred := defer0\<rparr>, w) = (Inr out, b', cx', w')"
    by (rule pass_reach)
  from shed have "over_claimed (fst (shed (pi_load i) b0 shedding)) = []" by (simp add: over_claimed_def)
  from drain_defers [OF drain this]
  have held: "pc_agent b' < 0 \<Longrightarrow> ''agent'' \<in> set (cx_deferred cx')" "pc_code b' < 0 \<Longrightarrow> ''code'' \<in> set (cx_deferred cx')"
    by (auto simp: over_claimed_def)
  obtain tga tgc where targets: "pi_targets j = (tga, tgc)" by force
  note exact = pass_budget_exact [OF assms(2) [unfolded budget_of_pass_def targets]]
  have "pc_agent declared \<le> agent_active (cx_active cx')" if "pc_agent b' < 0" "pc_agent budget = 0"
    using held(1) [OF that(1)] exact(3) exact(1) [symmetric] that(2) by simp
  moreover have "pc_code declared \<le> code_active (cx_active cx')" if "pc_code b' < 0" "pc_code budget = 0"
    using held(2) [OF that(1)] exact(4) exact(2) [symmetric] that(2) by simp
  moreover have "0 \<le> pc_agent budget" "0 \<le> pc_code budget"
    using budget_of_pass_bounds(1,2) [OF assms(2)] by blast+
  ultimately show ?thesis by linarith
qed

subsection \<open>Witnesses\<close>

text \<open>A Host with a queue of agent work: \<open>obeys\<close> tells whether it stops at the limit of the request.\<close>

definition sample_worker_env :: "bool \<Rightarrow> (nat, string) worker_env" where
  "sample_worker_env obeys = \<lparr>env_stop = (\<lambda>w. (False, w)), env_clock = (\<lambda>w. (0, w)),
     env_claim = (\<lambda>rq w. let k = (if obeys then min w (nat (rq_agent_limit rq)) else w) in
        (Inr (replicate k [(PStr ''kind'', PStr ''agent'')]), w - k)),
     env_spawn = (\<lambda>c w. (True, w))\<rparr>"

definition sample_input :: pass_input where
  "sample_input = \<lparr>pi_effective = 3, pi_targets = (5, 0), pi_enabled = True, pi_depth = 0, pi_backlog = None,
     pi_load = Some (1, 2), pi_batch_limit = 2\<rparr>"

definition sample_ctx :: claim_ctx where
  "sample_ctx = \<lparr>cx_active = [(0, ''agent'')], cx_next = 1, cx_deferred = [], cx_lane_probe = False, cx_node_limits = []\<rparr>"

definition running_after :: "bool \<Rightarrow> nat \<Rightarrow> int" where
  "running_after obeys queued =
     (case claim_pass (sample_worker_env obeys) sample_input False sample_ctx queued of
        ((res, b, cx, w), flag) \<Rightarrow> agent_active (cx_active cx))"

definition declared_after :: "bool \<Rightarrow> nat \<Rightarrow> int" where
  "declared_after obeys queued =
     (case claim_pass (sample_worker_env obeys) sample_input False sample_ctx queued of
        ((res, b, cx, w), flag) \<Rightarrow> pc_agent (snd (fst (budget_of_pass sample_input cx))))"

lemma sample_honours: "honours_request (sample_worker_env True)"
  by (auto simp: honours_request_def sample_worker_env_def Let_def kinds_def claim_kind_def pget_def dget_default_def)

theorem pass_within_capacity_witness: "running_after True 9 \<le> 3 \<and> running_after True 9 = 3"
proof -
  obtain res b cx w flag where pass: "claim_pass (sample_worker_env True) sample_input False sample_ctx 9 = ((res, b, cx, w), flag)"
    by (metis surj_pair)
  have "running_after True 9 = agent_active (cx_active cx)" by (simp add: running_after_def pass)
  moreover have "agent_active (cx_active sample_ctx) = 1" "pi_effective sample_input = 3" by code_simp+
  ultimately have "running_after True 9 \<le> 3"
    using pass_within_capacity [OF sample_honours pass] by simp
  moreover have "running_after True 9 = 3" by code_simp
  ultimately show ?thesis by simp
qed

theorem overclaim_closes_gate_witness: "running_after False 4 = 5 \<and> declared_after False 4 \<le> 5"
proof -
  have "(case claim_pass (sample_worker_env False) sample_input False sample_ctx 4 of
      ((res, b, cx, w), flag) \<Rightarrow> (case res of Inl e \<Rightarrow> False | Inr out \<Rightarrow>
        pc_agent b < 0 \<and> pc_agent (fst (fst (budget_of_pass sample_input cx))) = 0 \<and> agent_active (cx_active cx) = 5))"
    by code_simp
  then obtain out b cx w flag where pass: "claim_pass (sample_worker_env False) sample_input False sample_ctx 4 = ((Inr out, b, cx, w), flag)"
    and neg: "pc_agent b < 0" "pc_agent (fst (fst (budget_of_pass sample_input cx))) = 0" "agent_active (cx_active cx) = 5"
    by (auto split: prod.splits sum.splits)
  obtain budget declared deferred where next_pass: "budget_of_pass sample_input cx = ((budget, declared), deferred)"
    by (metis surj_pair)
  from overclaim_closes_gate [OF pass next_pass] neg next_pass pass show ?thesis
    by (simp add: running_after_def declared_after_def)
qed

end
