(* ===== verification/Worker_Ramp.thy ===== *)
theory Worker_Ramp
  imports Worker_Config
begin

text \<open>
  The capacity ramp of a cold start (\<open>worker/ramp_up.py\<close>): the state machine behind
  \<open>RampUpState.observe\<close> with its virtual claiming clock, the per-pass policy \<open>ramp_pass\<close> and the
  hot reload. Clock readings are exact rationals. Log lines are events kept in the state.
\<close>

section \<open>State and observation\<close>

datatype ramp_event = RampComplete int | RampTier int int int rat

record ramp_state =
  rs_controls :: ramp_controls
  rs_last :: "rat option"
  rs_clock :: rat
  rs_active :: bool
  rs_reported :: "int option"
  rs_completed_logged :: bool
  rs_log :: "ramp_event list"

record ramp_snapshot =
  sn_effective :: int
  sn_target :: int
  sn_next_tier :: "rat option"

definition new_ramp :: "ramp_controls \<Rightarrow> ramp_state" where
  "new_ramp c = \<lparr>rs_controls = c, rs_last = None, rs_clock = 0, rs_active = rc_enabled c,
     rs_reported = None, rs_completed_logged = False, rs_log = []\<rparr>"

definition reconfigure :: "ramp_controls \<Rightarrow> ramp_state \<Rightarrow> ramp_state" where
  "reconfigure c s =
     (let s' = (if rc_enabled c \<and> \<not> rs_active s \<and> \<not> rc_enabled (rs_controls s) then
                  s\<lparr>rs_clock := 0, rs_last := None, rs_reported := None, rs_completed_logged := False,
                    rs_active := True\<rparr>
                else if \<not> rc_enabled c then s\<lparr>rs_active := False\<rparr>
                else s) in
      s'\<lparr>rs_controls := c\<rparr>)"

definition reported_or_zero :: "ramp_state \<Rightarrow> int" where
  "reported_or_zero s = (case rs_reported s of None \<Rightarrow> 0 | Some r \<Rightarrow> r)"

text \<open>The first statements of \<open>observe\<close>: the elapsed time is folded into the virtual clock only
  while claiming is enabled.\<close>

definition fold_elapsed :: "rat \<Rightarrow> bool \<Rightarrow> rat \<Rightarrow> ramp_state \<Rightarrow> ramp_state" where
  "fold_elapsed now claim_enabled pause_seconds s =
     (let clock = (case rs_last s of
                     Some prev \<Rightarrow>
                       if claim_enabled then rs_clock s + max 0 (now - prev - max pause_seconds 0) else rs_clock s
                   | None \<Rightarrow> rs_clock s) in
      s\<lparr>rs_clock := clock, rs_last := Some now\<rparr>)"

definition tiers :: "rat \<Rightarrow> rat \<Rightarrow> int" where
  "tiers clock interval = (if interval > 0 then \<lfloor>clock / interval\<rfloor> else 2 ^ 30)"

definition observe :: "int \<Rightarrow> rat \<Rightarrow> bool \<Rightarrow> rat \<Rightarrow> ramp_state \<Rightarrow> ramp_snapshot \<times> ramp_state" where
  "observe target now claim_enabled pause_seconds s0 =
     (let s = fold_elapsed now claim_enabled pause_seconds s0; c = rs_controls s in
      if \<not> rc_enabled c then (\<lparr>sn_effective = target, sn_target = target, sn_next_tier = None\<rparr>, s)
      else if \<not> claim_enabled then
        (\<lparr>sn_effective = reported_or_zero s, sn_target = target, sn_next_tier = None\<rparr>, s)
      else
        (let interval = rc_interval c; n = tiers (rs_clock s) interval;
             effective = max (reported_or_zero s) (min target (rc_initial c + n * rc_step c)) in
         if effective \<ge> target then
           (\<lparr>sn_effective = target, sn_target = target, sn_next_tier = None\<rparr>,
            s\<lparr>rs_active := False, rs_completed_logged := True, rs_reported := Some target,
              rs_log := (if rs_completed_logged s then rs_log s else rs_log s @ [RampComplete target])\<rparr>)
         else
           (let remaining = interval - (rs_clock s - interval * of_int \<lfloor>rs_clock s / interval\<rfloor>) in
            (\<lparr>sn_effective = effective, sn_target = target, sn_next_tier = Some remaining\<rparr>,
             if rs_reported s \<noteq> Some effective then
               s\<lparr>rs_reported := Some effective,
                 rs_log := rs_log s @ [RampTier effective target (rc_step c) remaining]\<rparr>
             else s))))"

definition snapshot_completed :: "ramp_snapshot \<Rightarrow> bool" where
  "snapshot_completed v \<longleftrightarrow> sn_effective v \<ge> sn_target v"

section \<open>The policy of a pass and the hot reload\<close>

text \<open>No view means that the budget uses the target.\<close>

definition ramp_pass ::
  "ramp_state option \<Rightarrow> rat option \<Rightarrow> int \<Rightarrow> rat \<Rightarrow> bool \<Rightarrow>
   (ramp_snapshot option \<times> rat option) \<times> ramp_state option" where
  "ramp_pass state paused_since target now claim_enabled =
     (case state of
        None \<Rightarrow> ((None, paused_since), None)
      | Some s \<Rightarrow>
          if \<not> rs_active s then ((None, paused_since), Some s)
          else if \<not> claim_enabled then
            (let stamp = (case paused_since of None \<Rightarrow> now | Some p \<Rightarrow> p); (v, s') = observe target now False 0 s in
             ((Some v, Some stamp), Some s'))
          else
            (let pause = (case paused_since of None \<Rightarrow> 0 | Some p \<Rightarrow> now - p); (v, s') = observe target now True pause s in
             ((Some v, None), Some s')))"

definition apply_ramp_hot_reload :: "ramp_state option \<Rightarrow> ramp_controls \<Rightarrow> ramp_state option" where
  "apply_ramp_hot_reload state c =
     (case state of
        Some s \<Rightarrow> Some (reconfigure c s)
      | None \<Rightarrow> if \<not> rc_enabled c then None else Some (new_ramp c))"

text \<open>\<open>effective = max_concurrency if ramp_view is None else ramp_view.effective\<close> (\<open>executor.py\<close>).\<close>

definition effective_capacity :: "int \<Rightarrow> ramp_snapshot option \<Rightarrow> int" where
  "effective_capacity max_concurrency view = (case view of None \<Rightarrow> max_concurrency | Some v \<Rightarrow> sn_effective v)"

section \<open>Only up\<close>

lemma fold_elapsed_simps [simp]:
  "rs_controls (fold_elapsed t e p s) = rs_controls s"
  "rs_active (fold_elapsed t e p s) = rs_active s"
  "rs_reported (fold_elapsed t e p s) = rs_reported s"
  "rs_last (fold_elapsed t e p s) = Some t"
  "rs_completed_logged (fold_elapsed t e p s) = rs_completed_logged s"
  "reported_or_zero (fold_elapsed t e p s) = reported_or_zero s"
  by (simp_all add: fold_elapsed_def Let_def reported_or_zero_def)

lemma clock_grows: "rs_clock s \<le> rs_clock (fold_elapsed t e p s)"
  by (auto simp: fold_elapsed_def Let_def split: option.splits)

text \<open>Whatever was reconfigured in between, an open window never falls below the tier it reported,
  unless the target does, and it never exceeds the target.\<close>

lemma observe_bounds:
  assumes "observe target now True p s = (v, s')" and "rc_enabled (rs_controls s)"
  shows "min target (reported_or_zero s) \<le> sn_effective v" "sn_effective v \<le> target"
    "reported_or_zero s' = sn_effective v"
  using assms by (cases "rs_reported s"; auto simp: observe_def Let_def reported_or_zero_def split: if_splits)+

lemma reconfigure_keeps_tier:
  "rs_active s \<Longrightarrow> rc_enabled c \<Longrightarrow>
    rs_reported (reconfigure c s) = rs_reported s \<and> rs_clock (reconfigure c s) = rs_clock s
      \<and> rs_active (reconfigure c s)"
  by (simp add: reconfigure_def)

lemma disabled_is_direct: "ramp_pass (apply_ramp_hot_reload None ramp_disabled) q t now e = ((None, q), None)"
  by (simp add: apply_ramp_hot_reload_def ramp_disabled_def ramp_pass_def)

section \<open>Exactness against the claiming time\<close>

text \<open>A run of passes: \<open>(now, claim_enabled)\<close> each, at a constant target; the capacity of each pass is
  collected.\<close>

fun ramp_run :: "int \<Rightarrow> (rat \<times> bool) list \<Rightarrow> ramp_state option \<times> rat option \<Rightarrow>
    (ramp_state option \<times> rat option) \<times> int list" where
  "ramp_run target [] st = (st, [])"
| "ramp_run target ((now, e) # ps) (s, paused) =
     (let ((view, paused'), s') = ramp_pass s paused target now e;
          (st, caps) = ramp_run target ps (s', paused') in
      (st, effective_capacity target view # caps))"

text \<open>The reference: the time between two consecutive passes counts when claiming is enabled at both
  of them.\<close>

fun claiming_time :: "(rat \<times> bool) option \<Rightarrow> (rat \<times> bool) list \<Rightarrow> rat" where
  "claiming_time prev [] = 0"
| "claiming_time prev ((t, e) # ps) =
     (case prev of Some (t', e') \<Rightarrow> (if e \<and> e' then t - t' else 0) | None \<Rightarrow> 0)
       + claiming_time (Some (t, e)) ps"

definition ramp_level :: "ramp_controls \<Rightarrow> int \<Rightarrow> rat \<Rightarrow> int" where
  "ramp_level c target time = min target (rc_initial c + \<lfloor>time / rc_interval c\<rfloor> * rc_step c)"

lemma ramp_level_mono:
  assumes "ramp_controls_ok c" and "a \<le> b"
  shows "ramp_level c target a \<le> ramp_level c target b"
proof -
  have "\<lfloor>a / rc_interval c\<rfloor> \<le> \<lfloor>b / rc_interval c\<rfloor>"
    using assms by (intro floor_mono divide_right_mono) (auto simp: ramp_controls_ok_def)
  then have "\<lfloor>a / rc_interval c\<rfloor> * rc_step c \<le> \<lfloor>b / rc_interval c\<rfloor> * rc_step c"
    using assms by (intro mult_right_mono) (auto simp: ramp_controls_ok_def)
  then show ?thesis by (simp add: ramp_level_def)
qed

definition ramp_inv ::
  "ramp_controls \<Rightarrow> int \<Rightarrow> (rat \<times> bool) option \<Rightarrow> rat \<Rightarrow> ramp_state option \<times> rat option \<Rightarrow> bool" where
  "ramp_inv c target prev a st =
     (case st of
        (None, paused) \<Rightarrow> False
      | (Some s, paused) \<Rightarrow>
          if \<not> rs_active s then ramp_level c target a = target
          else rs_controls s = c \<and> rs_clock s = a \<and> reported_or_zero s \<le> ramp_level c target a
            \<and> (case prev of
                 None \<Rightarrow> rs_last s = None \<and> paused = None
               | Some (t, e) \<Rightarrow> rs_last s = Some t
                   \<and> (case paused of None \<Rightarrow> e | Some q \<Rightarrow> \<not> e \<and> q \<le> t)))"

definition gap :: "(rat \<times> bool) option \<Rightarrow> rat \<times> bool \<Rightarrow> rat" where
  "gap prev ps = (case prev of Some (t', e') \<Rightarrow> (if snd ps \<and> e' then fst ps - t' else 0) | None \<Rightarrow> 0)"

definition not_before :: "(rat \<times> bool) option \<Rightarrow> rat \<Rightarrow> bool" where
  "not_before prev t = (case prev of None \<Rightarrow> True | Some (t', e') \<Rightarrow> t' \<le> t)"

lemma gap_nonneg: "not_before prev t \<Longrightarrow> 0 \<le> gap prev (t, e)"
  by (auto simp: gap_def not_before_def split: option.splits)

text \<open>The clock after an enabled pass, with the pause folded out.\<close>

lemma clock_after_pass:
  assumes "ramp_inv c target prev a (Some s, paused)" and "rs_active s" and "not_before prev t"
  shows "rs_clock (fold_elapsed t True (case paused of None \<Rightarrow> 0 | Some q \<Rightarrow> t - q) s) = a + gap prev (t, True)"
  using assms by (auto simp: ramp_inv_def fold_elapsed_def gap_def not_before_def Let_def split: option.splits)

lemma observe_level:
  assumes "ramp_controls_ok c" and "rs_controls s = c" and "rc_enabled c"
    and "reported_or_zero s \<le> ramp_level c target a" and "rs_clock (fold_elapsed t True p s) = a"
    and "observe target t True p s = (v, s')"
  shows "sn_effective v = ramp_level c target a"
    "if ramp_level c target a = target then \<not> rs_active s'
     else rs_active s' = rs_active s \<and> rs_controls s' = c \<and> rs_clock s' = a \<and> rs_last s' = Some t
       \<and> reported_or_zero s' = ramp_level c target a"
proof -
  have "max (reported_or_zero s) (ramp_level c target a) = ramp_level c target a"
    using assms(4) by simp
  moreover have "0 < rc_interval c" using assms(1) by (auto simp: ramp_controls_ok_def)
  moreover have "ramp_level c target a \<le> target" by (simp add: ramp_level_def)
  ultimately show "sn_effective v = ramp_level c target a"
    "if ramp_level c target a = target then \<not> rs_active s'
     else rs_active s' = rs_active s \<and> rs_controls s' = c \<and> rs_clock s' = a \<and> rs_last s' = Some t
       \<and> reported_or_zero s' = ramp_level c target a"
    using assms(2,3,5,6)
    by (cases "rs_reported s"; auto simp: observe_def Let_def tiers_def ramp_level_def reported_or_zero_def
        split: if_splits)+
qed

lemma ramp_pass_inv:
  assumes ok: "ramp_controls_ok c" "rc_enabled c" and inv: "ramp_inv c target prev a (s, paused)"
    and time: "not_before prev t"
    and pass: "ramp_pass s paused target t e = ((view, paused'), s')"
  shows "ramp_inv c target (Some (t, e)) (a + gap prev (t, e)) (s', paused')"
    "e \<Longrightarrow> effective_capacity target view = ramp_level c target (a + gap prev (t, e))"
proof -
  let ?a = "a + gap prev (t, e)"
  obtain r where r: "s = Some r" using inv by (cases s) (auto simp: ramp_inv_def)
  have mono: "ramp_level c target a \<le> ramp_level c target ?a"
    using gap_nonneg [OF time] by (intro ramp_level_mono [OF ok(1)]) simp
  have top: "ramp_level c target x \<le> target" for x by (simp add: ramp_level_def)
  have "ramp_inv c target (Some (t, e)) ?a (s', paused')
    \<and> (e \<longrightarrow> effective_capacity target view = ramp_level c target ?a)"
  proof (cases "rs_active r")
    case False
    with inv r mono top [of ?a] pass show ?thesis
      by (auto simp: ramp_inv_def ramp_pass_def effective_capacity_def)
  next
    case active: True
    show ?thesis
    proof (cases e)
      case False
      with active inv r pass time ok(2) show ?thesis
        by (auto simp: ramp_inv_def ramp_pass_def observe_def Let_def fold_elapsed_def gap_def not_before_def
            reported_or_zero_def split: option.splits)
    next
      case True
      let ?p = "case paused of None \<Rightarrow> 0 | Some q \<Rightarrow> t - q"
      obtain v q where ob: "observe target t True ?p r = (v, q)" by force
      have rep: "rs_controls r = c" "reported_or_zero r \<le> ramp_level c target ?a"
        using inv r active mono by (auto simp: ramp_inv_def)
      have clock: "rs_clock (fold_elapsed t True ?p r) = ?a"
        using clock_after_pass [of c target prev a r paused t] inv r active time True by simp
      note level = observe_level [OF ok(1) rep(1) ok(2) rep(2) clock ob]
      have "view = Some v" "s' = Some q" "paused' = None"
        using pass r active True ob by (auto simp: ramp_pass_def Let_def)
      with level active True show ?thesis
        by (auto simp: ramp_inv_def effective_capacity_def split: if_splits)
    qed
  qed
  then show "ramp_inv c target (Some (t, e)) ?a (s', paused')"
    "e \<Longrightarrow> effective_capacity target view = ramp_level c target ?a" by blast+
qed

lemma ramp_run_exact:
  assumes ok: "ramp_controls_ok c" "rc_enabled c"
  shows "ramp_inv c target prev a st \<Longrightarrow> list_all (\<lambda>p. not_before prev (fst p)) ps \<Longrightarrow> sorted (map fst ps) \<Longrightarrow>
    ramp_run target ps st = (st', caps) \<Longrightarrow> i < length ps \<Longrightarrow> snd (ps ! i) \<Longrightarrow>
    caps ! i = ramp_level c target (a + claiming_time prev (take (Suc i) ps))"
proof (induction ps arbitrary: prev a st caps st' i)
  case (Cons pr ps)
  obtain t e s paused where pr: "pr = (t, e)" and st: "st = (s, paused)" by (metis surj_pair)
  obtain view paused' s' where pass: "ramp_pass s paused target t e = ((view, paused'), s')" by (metis surj_pair)
  obtain st2 caps2 where rest: "ramp_run target ps (s', paused') = (st2, caps2)" by (metis surj_pair)
  have caps: "caps = effective_capacity target view # caps2"
    using Cons.prems(4) by (simp add: pr st pass rest)
  have time: "not_before prev t" using Cons.prems(2) by (simp add: pr)
  note step = ramp_pass_inv [OF ok Cons.prems(1) [unfolded st] time pass]
  have next_gap: "claiming_time prev (take (Suc i) (pr # ps))
      = gap prev (t, e) + claiming_time (Some (t, e)) (take i ps)" for i
    by (simp add: pr gap_def split: option.splits)
  show ?case
  proof (cases i)
    case 0
    with step(2) Cons.prems(6) show ?thesis by (simp add: caps pr gap_def split: option.splits)
  next
    case (Suc j)
    have "list_all (\<lambda>p. not_before (Some (t, e)) (fst p)) ps"
      using Cons.prems(3) by (auto simp: list_all_iff not_before_def pr)
    from Cons.IH [OF step(1) this _ rest, of j] Cons.prems(3,5,6) next_gap [of i]
    show ?thesis by (simp add: caps Suc add.assoc)
  qed
qed simp

section \<open>Properties\<close>

text \<open>C35. Under constant controls and a constant target the capacity of every claiming pass is the
  initial tier plus one step per full interval of claiming time, capped by the target; time around
  a pause does not count. In particular the ramp starts at the initial tier and only rises.\<close>

theorem ramp_capacity_exact:
  assumes "ramp_controls_ok c" and "rc_enabled c" and "0 \<le> target" and "sorted (map fst passes)"
    and "ramp_run target passes (Some (new_ramp c), None) = (st, caps)"
    and "i < length passes" and "snd (passes ! i)"
  shows "caps ! i = min target (rc_initial c
    + \<lfloor>claiming_time None (take (Suc i) passes) / rc_interval c\<rfloor> * rc_step c)"
proof -
  have "ramp_inv c target None 0 (Some (new_ramp c), None)"
    using assms(1-3) by (simp add: ramp_inv_def new_ramp_def reported_or_zero_def ramp_level_def ramp_controls_ok_def)
  moreover have "list_all (\<lambda>p. not_before None (fst p)) passes" by (simp add: list_all_iff not_before_def)
  ultimately show ?thesis
    using ramp_run_exact [OF assms(1,2) _ _ assms(4-7)] by (simp add: ramp_level_def)
qed

definition sample_ramp :: ramp_controls where
  "sample_ramp = \<lparr>rc_enabled = True, rc_initial = 2, rc_step = 3, rc_interval = 10\<rparr>"

definition sample_passes :: "(rat \<times> bool) list" where
  "sample_passes = [(0, True), (8, True), (9, False), (30, False), (31, True), (34, True), (60, True)]"

theorem ramp_capacity_exact_witness:
  "snd (ramp_run 9 sample_passes (Some (new_ramp sample_ramp), None)) ! 5 = 5"
proof -
  obtain st caps where run: "ramp_run 9 sample_passes (Some (new_ramp sample_ramp), None) = (st, caps)" by (metis surj_pair)
  have "caps ! 5 = min 9 (rc_initial sample_ramp
      + \<lfloor>claiming_time None (take (Suc 5) sample_passes) / rc_interval sample_ramp\<rfloor> * rc_step sample_ramp)"
    by (rule ramp_capacity_exact [OF _ _ _ _ run])
      (simp_all add: sample_ramp_def sample_passes_def ramp_controls_ok_def max_dynamic_concurrency_def)
  moreover have "\<lfloor>11 / 10 :: rat\<rfloor> = 1" by (simp add: floor_eq_iff)
  ultimately have "caps ! 5 = 5" by (simp add: sample_ramp_def sample_passes_def)
  then show ?thesis by (simp only: run snd_conv)
qed

end
