(* ===== verification/Worker_Pacing.thy ===== *)
theory Worker_Pacing
  imports Prelude
begin

text \<open>
  The waits of the worker: claim failures (\<open>worker/claim_backoff.py\<close>), successful claim passes
  (\<open>worker/claim_pacing.py\<close>) and Host calls with retries (\<open>worker/_retry.py\<close>). Seconds are exact
  rationals; a power of two that a Python float cannot hold is an error value.
\<close>

section \<open>Claim failures\<close>

datatype float_error = FloatOverflow

text \<open>\<open>2.0 ** n\<close> for a natural exponent: the largest finite double is below \<open>2.0 ** 1024\<close>.\<close>

definition float_pow2 :: "int \<Rightarrow> float_error + rat" where
  "float_pow2 n = guardE (n \<ge> 1024) FloatOverflow (Inr (2 ^ nat n))"

record backoff_config =
  bc_first :: rat
  bc_cap :: rat
  bc_jitter :: rat

definition default_backoff :: backoff_config where
  "default_backoff = \<lparr>bc_first = 1, bc_cap = 60, bc_jitter = 1 / 5\<rparr>"

text \<open>\<open>draw\<close> is the value of the random generator, between 0 and 1.\<close>

definition jittered_claim_backoff :: "backoff_config \<Rightarrow> int \<Rightarrow> rat \<Rightarrow> float_error + rat" where
  "jittered_claim_backoff c failures draw =
     (if failures \<le> 0 then Inr (bc_first c)
      else bindE (float_pow2 (failures - 1)) (\<lambda>pw.
        let deterministic = min (bc_first c * pw) (bc_cap c);
            jittered = deterministic * (1 + (draw * 2 - 1) * bc_jitter c) in
        Inr (max (deterministic * (1 - bc_jitter c)) (min jittered (bc_cap c)))))"

record backoff_sequence =
  bs_config :: backoff_config
  bs_failures :: int

definition next_wait :: "rat \<Rightarrow> backoff_sequence \<Rightarrow> float_error + rat \<times> backoff_sequence" where
  "next_wait draw s =
     bindE (jittered_claim_backoff (bs_config s) (bs_failures s) draw) (\<lambda>w.
       Inr (w, s\<lparr>bs_failures := bs_failures s + 1\<rparr>))"

definition reset_backoff :: "backoff_sequence \<Rightarrow> backoff_sequence" where
  "reset_backoff s = s\<lparr>bs_failures := 0\<rparr>"

text \<open>The waits of consecutive failures, one random value each.\<close>

fun failure_waits :: "rat list \<Rightarrow> backoff_sequence \<Rightarrow> float_error + rat list" where
  "failure_waits [] s = Inr []"
| "failure_waits (d # ds) s =
     bindE (next_wait d s) (\<lambda>(w, s'). bindE (failure_waits ds s') (\<lambda>ws. Inr (w # ws)))"

lemma backoff_defined: "(\<exists>w. jittered_claim_backoff c f d = Inr w) \<longleftrightarrow> f \<le> 1024"
  by (auto simp: jittered_claim_backoff_def float_pow2_def err_simps Let_def)

lemma jitter_bounds:
  assumes "0 \<le> d" "d \<le> 1" "0 \<le> j" "j \<le> 1" "0 \<le> m" "m \<le> (cap :: rat)"
  shows "m * (1 - j) \<le> max (m * (1 - j)) (min (m * (1 + (d * 2 - 1) * j)) cap)"
    "max (m * (1 - j)) (min (m * (1 + (d * 2 - 1) * j)) cap) \<le> cap"
proof -
  have "m * (1 - j) \<le> m * 1" using assms by (intro mult_left_mono) auto
  with assms show "m * (1 - j) \<le> max (m * (1 - j)) (min (m * (1 + (d * 2 - 1) * j)) cap)"
    "max (m * (1 - j)) (min (m * (1 + (d * 2 - 1) * j)) cap) \<le> cap" by auto
qed

lemma default_backoff_bounds:
  assumes "0 \<le> d" "d \<le> 1" and "jittered_claim_backoff default_backoff f d = Inr w"
  shows "4 / 5 \<le> w \<and> w \<le> 60"
proof (cases "f \<le> 0")
  case True
  with assms(3) show ?thesis by (simp add: jittered_claim_backoff_def default_backoff_def)
next
  case False
  define m where "m = min (2 ^ nat (f - 1)) (60 :: rat)"
  have "1 \<le> m" "m \<le> 60" by (simp_all add: m_def)
  moreover have "w = max (m * (1 - 1 / 5)) (min (m * (1 + (d * 2 - 1) * (1 / 5))) 60)"
    using False assms(3)
    by (auto simp: jittered_claim_backoff_def float_pow2_def err_simps default_backoff_def m_def Let_def)
  ultimately show ?thesis using jitter_bounds [of d "1 / 5" m 60] assms(1,2) by simp
qed

lemma failure_waits_shift:
  assumes "\<forall>d \<in> set ds. 0 \<le> d \<and> d \<le> 1" and "bs_config s = default_backoff" and "0 \<le> bs_failures s"
  shows "case failure_waits ds s of
      Inl e \<Rightarrow> bs_failures s + int (length ds) > 1025 \<and> ds \<noteq> []
    | Inr ws \<Rightarrow> (ds = [] \<or> bs_failures s + int (length ds) \<le> 1025) \<and> length ws = length ds
        \<and> (\<forall>w \<in> set ws. 4 / 5 \<le> w \<and> w \<le> 60)"
  using assms
proof (induction ds arbitrary: s)
  case (Cons d ds)
  show ?case
  proof (cases "jittered_claim_backoff (bs_config s) (bs_failures s) d")
    case (Inl e)
    then have "\<not> bs_failures s \<le> 1024" using backoff_defined [of "bs_config s" "bs_failures s" d] by auto
    with Inl show ?thesis by (simp add: next_wait_def)
  next
    case (Inr w)
    then have "bs_failures s \<le> 1024" using backoff_defined [of "bs_config s" "bs_failures s" d] by auto
    moreover have "4 / 5 \<le> w \<and> w \<le> 60"
      using Inr Cons.prems default_backoff_bounds [of d "bs_failures s" w] by simp
    ultimately show ?thesis
      using Inr Cons.IH [of "s\<lparr>bs_failures := bs_failures s + 1\<rparr>"] Cons.prems
      by (auto simp: next_wait_def split: sum.splits)
  qed
qed simp

section \<open>Successful passes\<close>

text \<open>\<open>round\<close> rounds half to even.\<close>

definition py_round :: "rat \<Rightarrow> int" where
  "py_round x =
     (let f = \<lfloor>x\<rfloor>; r = x - of_int f in
      if r < 1 / 2 then f else if r > 1 / 2 then f + 1 else if even f then f else f + 1)"

record claim_pacing =
  cp_floor :: rat
  cp_ceil :: rat
  cp_current :: rat
  cp_opened :: bool
  cp_log :: "rat list"

definition pacing_target_ratio :: rat where
  "pacing_target_ratio = 1 / 2"

definition new_pacing :: claim_pacing where
  "new_pacing = \<lparr>cp_floor = 1 / 100, cp_ceil = 1 / 10, cp_current = 1 / 100, cp_opened = False, cp_log = []\<rparr>"

definition clamp_pacing :: "claim_pacing \<Rightarrow> rat \<Rightarrow> rat" where
  "clamp_pacing p round_trip =
     (let target = max round_trip 0 * pacing_target_ratio in min (max target (cp_floor p)) (cp_ceil p))"

definition set_pacing :: "rat \<Rightarrow> claim_pacing \<Rightarrow> claim_pacing" where
  "set_pacing wait p =
     (if cp_opened p \<and> py_round (wait * 1000) = py_round (cp_current p * 1000) then p
      else p\<lparr>cp_current := wait, cp_opened := True, cp_log := cp_log p @ [wait]\<rparr>)"

definition pacing_wait :: "rat option \<Rightarrow> claim_pacing \<Rightarrow> rat \<times> claim_pacing" where
  "pacing_wait round_trip p =
     (case round_trip of
        None \<Rightarrow> (cp_current p, p)
      | Some r \<Rightarrow> (let target = clamp_pacing p r in (target, set_pacing target p)))"

definition wait_after_pass :: "bool \<Rightarrow> rat \<Rightarrow> rat \<Rightarrow> claim_pacing \<Rightarrow> rat \<times> claim_pacing" where
  "wait_after_pass claimed round_trip empty_wait p =
     (if \<not> claimed then (empty_wait, set_pacing (cp_floor p) p) else pacing_wait (Some round_trip) p)"

definition pacing_ok :: "claim_pacing \<Rightarrow> bool" where
  "pacing_ok p \<longleftrightarrow> cp_floor p \<le> cp_ceil p \<and> cp_floor p \<le> cp_current p \<and> cp_current p \<le> cp_ceil p"

lemma clamp_pacing_band: "cp_floor p \<le> cp_ceil p \<Longrightarrow> cp_floor p \<le> clamp_pacing p r \<and> clamp_pacing p r \<le> cp_ceil p"
  by (auto simp: clamp_pacing_def Let_def)

lemma set_pacing_ok: "pacing_ok p \<Longrightarrow> cp_floor p \<le> w \<Longrightarrow> w \<le> cp_ceil p \<Longrightarrow> pacing_ok (set_pacing w p)"
  by (auto simp: pacing_ok_def set_pacing_def)

text \<open>The kept value always displays like the wait in effect.\<close>

lemma set_pacing_display: "py_round (cp_current (set_pacing w p) * 1000) = py_round (w * 1000)"
  by (simp add: set_pacing_def)

lemma wait_after_pass_ok:
  assumes "pacing_ok p" and "wait_after_pass claimed r idle p = (w, p')"
  shows "pacing_ok p' \<and> (if claimed then cp_floor p \<le> w \<and> w \<le> cp_ceil p else w = idle)"
proof (cases claimed)
  case True
  with assms clamp_pacing_band [of p r] set_pacing_ok [OF assms(1)] show ?thesis
    by (auto simp: wait_after_pass_def pacing_wait_def Let_def pacing_ok_def)
next
  case False
  with assms set_pacing_ok [OF assms(1), of "cp_floor p"] show ?thesis
    by (auto simp: wait_after_pass_def pacing_ok_def)
qed

section \<open>Host calls with retries\<close>

text \<open>What one call of the operation did: a value, a verdict, a failure to retry, or an exception the
  loop does not catch.\<close>

datatype ('a, 'e) attempt = Value 'a | Terminal 'e | Retriable 'e | Uncaught 'e

record ('a, 'e, 'w) retry_env =
  re_stop :: "'w \<Rightarrow> bool \<times> 'w"
  re_op :: "'w \<Rightarrow> ('a, 'e) attempt \<times> 'w"
  re_draw :: "'w \<Rightarrow> rat \<times> 'w"
  re_wait :: "rat \<Rightarrow> 'w \<Rightarrow> 'w"

definition next_backoff :: "rat option \<Rightarrow> rat \<Rightarrow> rat" where
  "next_backoff cap backoff = (case cap of None \<Rightarrow> backoff * 2 | Some c \<Rightarrow> min (backoff * 2) c)"

text \<open>Without \<open>max_attempts\<close> the loop may run until it is stopped, so it is a partial function. The
  delays are collected. \<open>Inr None\<close>: stopped.\<close>

partial_function (option) run_with_retry ::
  "('a, 'e, 'w) retry_env \<Rightarrow> rat option \<Rightarrow> int option \<Rightarrow> rat \<Rightarrow> int \<Rightarrow> rat list \<Rightarrow> 'w \<Rightarrow>
   (('e + 'a option) \<times> rat list \<times> 'w) option" where
  "run_with_retry env cap max_attempts backoff attempts delays w =
     (if fst (re_stop env w) then Some (Inr None, delays, snd (re_stop env w))
      else (case re_op env (snd (re_stop env w)) of (outcome, w2) \<Rightarrow>
          (case outcome of
             Value v \<Rightarrow> Some (Inr (Some v), delays, w2)
           | Terminal e \<Rightarrow> Some (Inl e, delays, w2)
           | Uncaught e \<Rightarrow> Some (Inl e, delays, w2)
           | Retriable e \<Rightarrow>
               if (case max_attempts of Some m \<Rightarrow> attempts + 1 \<ge> m | None \<Rightarrow> False) then Some (Inl e, delays, w2)
               else run_with_retry env cap max_attempts (next_backoff cap backoff) (attempts + 1)
                   (delays @ [fst (re_draw env w2) * backoff])
                   (re_wait env (fst (re_draw env w2) * backoff) (snd (re_draw env w2))))))"

definition draws_unit :: "('a, 'e, 'w) retry_env \<Rightarrow> bool" where
  "draws_unit env \<longleftrightarrow> (\<forall>w. 0 \<le> fst (re_draw env w) \<and> fst (re_draw env w) \<le> 1)"

lemma run_with_retry_bounded:
  assumes "draws_unit env" and "0 \<le> backoff" and "backoff \<le> cap" and "\<forall>d \<in> set delays. 0 \<le> d \<and> d \<le> cap"
    and "attempts = int (length delays)" and "attempts < m"
  shows "\<exists>res ds w'. run_with_retry env (Some cap) (Some m) backoff attempts delays w = Some (res, ds, w')
    \<and> int (length ds) < m \<and> (\<forall>d \<in> set ds. 0 \<le> d \<and> d \<le> cap)"
  using assms
proof (induction "nat (m - attempts)" arbitrary: backoff attempts delays w rule: less_induct)
  case less
  obtain stop w1 where stop: "re_stop env w = (stop, w1)" by force
  obtain a w2 where attempt: "re_op env w1 = (a, w2)" by force
  obtain d w3 where draw: "re_draw env w2 = (d, w3)" by force
  have d: "0 \<le> d" "d \<le> 1" using less.prems(1) draw unfolding draws_unit_def by (metis fst_conv)+
  have delay: "0 \<le> d * backoff" "d * backoff \<le> cap"
    using d less.prems(2,3) mult_right_mono [of d 1 backoff] by auto
  show ?case
  proof (cases "\<not> stop \<and> (\<exists>e. a = Retriable e) \<and> attempts + 1 < m")
    case True
    have "\<exists>res ds w'. run_with_retry env (Some cap) (Some m) (next_backoff (Some cap) backoff) (attempts + 1)
        (delays @ [d * backoff]) (re_wait env (d * backoff) w3) = Some (res, ds, w')
      \<and> int (length ds) < m \<and> (\<forall>d \<in> set ds. 0 \<le> d \<and> d \<le> cap)"
      using less.prems delay True by (intro less.hyps) (auto simp: next_backoff_def)
    with True stop attempt draw show ?thesis
      by (subst run_with_retry.simps) auto
  next
    case False
    with less.prems(4-6) stop attempt show ?thesis
      by (subst run_with_retry.simps) (auto split: attempt.splits bool.splits)
  qed
qed

section \<open>Properties\<close>

text \<open>C36. Up to 1025 consecutive claim failures every wait lies between 0.8 and 60 seconds; the next
  failure does not produce a wait but an overflow error, which the claim loop does not catch.\<close>

theorem claim_backoff_bounds:
  assumes "\<forall>d \<in> set draws. 0 \<le> d \<and> d \<le> 1"
  shows "case failure_waits draws \<lparr>bs_config = default_backoff, bs_failures = 0\<rparr> of
      Inl e \<Rightarrow> 1025 < length draws
    | Inr ws \<Rightarrow> length draws \<le> 1025 \<and> length ws = length draws \<and> (\<forall>w \<in> set ws. 4 / 5 \<le> w \<and> w \<le> 60)"
  using failure_waits_shift [OF assms, of "\<lparr>bs_config = default_backoff, bs_failures = 0\<rparr>"]
  by (auto split: sum.splits)

theorem claim_backoff_bounds_witness:
  "(case failure_waits (replicate 1026 0) \<lparr>bs_config = default_backoff, bs_failures = 0\<rparr> of
      Inl e \<Rightarrow> True | Inr ws \<Rightarrow> False)"
proof -
  have "\<forall>d \<in> set (replicate 1026 0). 0 \<le> d \<and> d \<le> (1 :: rat)" by simp
  from claim_backoff_bounds [OF this] show ?thesis by (auto split: sum.splits)
qed


text \<open>C37. A retried call of the Host with a bound on its attempts always returns, after fewer waits than
  the bound allows attempts, and no wait is longer than the cap.\<close>

theorem retry_loop_returns:
  assumes "draws_unit env" and "0 \<le> backoff" and "backoff \<le> cap" and "1 \<le> m"
  shows "\<exists>res ds w'. run_with_retry env (Some cap) (Some m) backoff 0 [] w = Some (res, ds, w')
    \<and> int (length ds) < m \<and> (\<forall>d \<in> set ds. 0 \<le> d \<and> d \<le> cap)"
  using assms by (intro run_with_retry_bounded) auto

text \<open>A world that counts the calls, all of which fail.\<close>

definition failing_env :: "(unit, string, nat) retry_env" where
  "failing_env = \<lparr>re_stop = (\<lambda>w. (False, w)), re_op = (\<lambda>w. (Retriable ''503'', w + 1)), re_draw = (\<lambda>w. (1, w)),
     re_wait = (\<lambda>d w. w)\<rparr>"

theorem retry_loop_returns_witness:
  "\<exists>res ds w'. run_with_retry failing_env (Some 4) (Some 3) 1 0 [] 0 = Some (res, ds, w') \<and> length ds < 3"
proof -
  have "draws_unit failing_env" by (simp add: draws_unit_def failing_env_def)
  from retry_loop_returns [OF this, of 1 4 3 0] show ?thesis by auto
qed

end
