(* ===== verification/Worker_Restart.thy ===== *)
theory Worker_Restart
  imports Worker_Pacing
begin

text \<open>
  Crash restarts of the executor process (\<open>worker/restart_policy.py\<close> and the restart paths of
  \<open>worker/supervisor.py\<close>): the backoff of automatic restarts, and when a restart keeps the
  operator's claim switch. The supervisor is a transition system over its restart state; the
  processes themselves, the panel log and the configuration store are outside.
\<close>

section \<open>The policy\<close>

definition claim_resume_limit :: nat where
  "claim_resume_limit = 3"

definition claim_resume_window :: rat where
  "claim_resume_window = 3600"

definition exit_refused :: int where
  "exit_refused = 2"

definition stable_after :: rat where
  "stable_after = 60"

text \<open>\<open>initial * (2 ** (restart_count - 1))\<close>: the integer power is converted to a float.\<close>

definition restart_delay :: "int \<Rightarrow> rat \<Rightarrow> rat \<Rightarrow> float_error + rat" where
  "restart_delay restart_count initial cap =
     bindE (float_pow2 (restart_count - 1)) (\<lambda>pw. Inr (min (initial * pw) cap))"

definition recent_resumes :: "rat \<Rightarrow> rat list \<Rightarrow> rat list" where
  "recent_resumes now resumes = filter (\<lambda>stamp. now - stamp < claim_resume_window) resumes"

text \<open>Whether the restart keeps the claim switch; the panel line is left out.\<close>

definition claim_resume_verdict :: "bool \<Rightarrow> int \<Rightarrow> rat list \<Rightarrow> rat \<Rightarrow> bool" where
  "claim_resume_verdict claim_enabled restart_count resumes now =
     (if \<not> claim_enabled then False
      else if restart_count \<noteq> 1 then False
      else if length (recent_resumes now resumes) \<ge> claim_resume_limit then False
      else True)"

section \<open>The supervisor\<close>

record supervisor =
  sv_claim_enabled :: bool
  sv_running :: bool
  sv_restart_count :: int
  sv_next_delay :: "rat option"
  sv_failed :: bool
  sv_resumes :: "rat list"

definition last_eight :: "'a list \<Rightarrow> 'a list" where
  "last_eight xs = drop (length xs - 8) xs"

text \<open>\<open>_start\<close>: \<open>now\<close> is the clock at the verdict, \<open>stamp\<close> the second reading when it is recorded;
  \<open>configured\<close> and \<open>tokens\<close> are the answers of the configuration store. The second component tells
  whether the claim switch was kept.\<close>

definition start_executor :: "bool \<Rightarrow> bool \<Rightarrow> bool \<Rightarrow> rat \<Rightarrow> rat \<Rightarrow> supervisor \<Rightarrow> supervisor \<times> bool" where
  "start_executor crash_restart configured tokens now stamp s =
     (if sv_running s \<or> \<not> configured then (s, False)
      else (let keep = claim_resume_verdict (crash_restart \<and> sv_claim_enabled s) (sv_restart_count s) (sv_resumes s) now;
                s1 = (if keep then s\<lparr>sv_resumes := last_eight (sv_resumes s @ [stamp])\<rparr>
                      else s\<lparr>sv_claim_enabled := False\<rparr>) in
            (if \<not> tokens then s1 else s1\<lparr>sv_running := True\<rparr>, keep)))"

text \<open>The end of \<open>_collect_logs\<close>: \<open>ran_for\<close> is the life time of the process. An overflow of the delay
  ends the collector thread.\<close>

definition executor_exited :: "int \<Rightarrow> rat \<Rightarrow> supervisor \<Rightarrow> float_error + supervisor" where
  "executor_exited exit_code ran_for s =
     (let s1 = s\<lparr>sv_running := False\<rparr> in
      if exit_code = exit_refused then Inr (s1\<lparr>sv_failed := True\<rparr>)
      else (let base = (if ran_for \<ge> stable_after then 0 else sv_restart_count s); n = base + 1 in
            bindE (restart_delay n 5 300) (\<lambda>delay.
              Inr (s1\<lparr>sv_restart_count := n, sv_next_delay := Some delay\<rparr>))))"

definition restart_manually :: "bool \<Rightarrow> bool \<Rightarrow> rat \<Rightarrow> supervisor \<Rightarrow> supervisor" where
  "restart_manually configured tokens now s =
     fst (start_executor False configured tokens now now
       (s\<lparr>sv_running := False, sv_failed := False, sv_restart_count := 0, sv_next_delay := None\<rparr>))"

definition start_manually :: "bool \<Rightarrow> bool \<Rightarrow> rat \<Rightarrow> supervisor \<Rightarrow> supervisor" where
  "start_manually configured tokens now s =
     fst (start_executor False configured tokens now now (s\<lparr>sv_failed := False, sv_next_delay := None\<rparr>))"

definition stop_supervisor :: "supervisor \<Rightarrow> supervisor" where
  "stop_supervisor s = s\<lparr>sv_running := False\<rparr>"

text \<open>One step, with the clock and the ghost history of all kept resumes.\<close>

type_synonym sup_state = "supervisor \<times> rat \<times> rat list"

inductive sup_step :: "sup_state \<Rightarrow> sup_state \<Rightarrow> bool" where
  crash: "sv_running s \<Longrightarrow> executor_exited code life s = Inr s' \<Longrightarrow> sup_step (s, t, h) (s', t, h)"
| auto_restart: "sv_next_delay s = Some delay \<Longrightarrow> t \<le> now \<Longrightarrow> now \<le> stamp \<Longrightarrow>
    start_executor True configured tokens now stamp s = (s', keep) \<Longrightarrow>
    sup_step (s, t, h) (s', stamp, if keep then h @ [stamp] else h)"
| manual_restart: "sup_step (s, t, h) (restart_manually configured tokens t s, t, h)"
| manual_start: "sup_step (s, t, h) (start_manually configured tokens t s, t, h)"
| stop: "sup_step (s, t, h) (stop_supervisor s, t, h)"
| toggle: "sup_step (s, t, h) (s\<lparr>sv_claim_enabled := b\<rparr>, t, h)"
| pass_time: "t \<le> t' \<Longrightarrow> sup_step (s, t, h) (s, t', h)"

inductive_cases sup_step_cases: "sup_step (s, t, h) (s', t', h')"

definition fresh_supervisor :: supervisor where
  "fresh_supervisor = \<lparr>sv_claim_enabled = False, sv_running = False, sv_restart_count = 0, sv_next_delay = None,
     sv_failed = False, sv_resumes = []\<rparr>"

definition sup_reachable :: "sup_state \<Rightarrow> bool" where
  "sup_reachable st \<longleftrightarrow> (\<exists>t0. sup_step\<^sup>*\<^sup>* (fresh_supervisor, t0, []) st)"

section \<open>The invariant\<close>

text \<open>The recorded stamps are the last ones of the history, the history is in time order, and before
  every kept resume fewer than three earlier ones were recent.\<close>

definition spaced :: "rat list \<Rightarrow> bool" where
  "spaced h \<longleftrightarrow> (\<forall>a r b. h = a @ r # b \<longrightarrow> length (recent_resumes r a) < claim_resume_limit)"

definition sup_inv :: "sup_state \<Rightarrow> bool" where
  "sup_inv st \<longleftrightarrow> (case st of (s, t, h) \<Rightarrow>
     sv_resumes s = last_eight h \<and> sorted h \<and> (\<forall>q \<in> set h. q \<le> t) \<and> spaced h)"

lemma start_executor_resumes:
  assumes "start_executor c configured tokens now stamp s = (s', keep)"
  shows "sv_resumes s' = (if keep then last_eight (sv_resumes s @ [stamp]) else sv_resumes s)"
    "keep \<Longrightarrow> c \<and> length (recent_resumes now (sv_resumes s)) < claim_resume_limit"
  using assms by (auto simp: start_executor_def claim_resume_verdict_def Let_def split: if_splits)

lemma start_without_crash [simp]: "sv_resumes (fst (start_executor False c k now stamp s)) = sv_resumes s"
  by (simp add: start_executor_def claim_resume_verdict_def Let_def)

lemma last_eight_snoc: "last_eight (last_eight h @ [x]) = last_eight (h @ [x])"
proof (cases "length h \<le> 8")
  case False
  then have "Suc (length h - 8) = length h - 7" by simp
  with False show ?thesis by (simp add: last_eight_def)
qed (simp add: last_eight_def)

lemma recent_antimono: "now \<le> now' \<Longrightarrow> length (recent_resumes now' h) \<le> length (recent_resumes now h)"
  unfolding recent_resumes_def by (induction h) auto

text \<open>In a sorted history the recent stamps are at the end, so the last eight decide.\<close>

lemma recent_last_eight:
  assumes "sorted h" and "length (recent_resumes now (last_eight h)) < claim_resume_limit"
  shows "length (recent_resumes now h) < claim_resume_limit"
proof (cases "length h \<le> 8")
  case True
  with assms(2) show ?thesis by (simp add: last_eight_def)
next
  case False
  define old where "old = take (length h - 8) h"
  have h: "h = old @ last_eight h" by (simp add: old_def last_eight_def)
  have len: "length (last_eight h) = 8" using False by (simp add: last_eight_def)
  have "\<exists>q \<in> set (last_eight h). \<not> now - q < claim_resume_window"
  proof (rule ccontr)
    assume "\<not> ?thesis"
    then have "recent_resumes now (last_eight h) = last_eight h"
      by (simp add: recent_resumes_def filter_id_conv)
    with assms(2) len show False by (simp add: claim_resume_limit_def)
  qed
  then obtain q where q: "q \<in> set (last_eight h)" "\<not> now - q < claim_resume_window" by blast
  have "p \<le> q" if "p \<in> set old" for p
    using assms(1) that q(1) by (subst (asm) h) (auto simp: sorted_append)
  with q(2) have "recent_resumes now old = []"
    by (fastforce simp: recent_resumes_def filter_empty_conv)
  then have "recent_resumes now h = recent_resumes now (last_eight h)"
    by (subst h) (simp add: recent_resumes_def)
  with assms(2) show ?thesis by simp
qed

lemma spaced_snoc:
  assumes "spaced h" and "length (recent_resumes x h) < claim_resume_limit"
  shows "spaced (h @ [x])"
  unfolding spaced_def
proof (intro allI impI)
  fix a r b assume split: "h @ [x] = a @ r # b"
  show "length (recent_resumes r a) < claim_resume_limit"
  proof (cases b rule: rev_cases)
    case Nil
    with split assms(2) show ?thesis by simp
  next
    case (snoc b' y)
    with split have "h = a @ r # b'" by simp
    with assms(1) show ?thesis by (simp add: spaced_def)
  qed
qed

lemma sup_step_inv: "sup_step st st' \<Longrightarrow> sup_inv st \<Longrightarrow> sup_inv st'"
proof (induction rule: sup_step.induct)
  case (crash s code life s' t h)
  then have "sv_resumes s' = sv_resumes s"
    by (auto simp: executor_exited_def Let_def err_simps split: if_splits)
  with crash(3) show ?case by (simp add: sup_inv_def)
next
  case (auto_restart s delay t now stamp configured tokens s' keep h)
  note start = start_executor_resumes [OF auto_restart(4)]
  show ?case
  proof (cases keep)
    case True
    with start(2) auto_restart(5) have "length (recent_resumes now (last_eight h)) < claim_resume_limit"
      by (simp add: sup_inv_def)
    with auto_restart(5) have "length (recent_resumes now h) < claim_resume_limit"
      by (auto simp: sup_inv_def intro: recent_last_eight)
    with recent_antimono [OF auto_restart(3), of h]
    have "length (recent_resumes stamp h) < claim_resume_limit" by simp
    moreover have "\<forall>q \<in> set h. q \<le> stamp" using auto_restart(2,3,5) by (fastforce simp: sup_inv_def)
    ultimately show ?thesis
      using True start(1) auto_restart(5) spaced_snoc
      by (auto simp: sup_inv_def last_eight_snoc sorted_append)
  next
    case False
    with start(1) auto_restart(2,3,5) show ?thesis by (fastforce simp: sup_inv_def)
  qed
qed (fastforce simp: sup_inv_def restart_manually_def start_manually_def stop_supervisor_def)+

lemma sup_reachable_inv: "sup_reachable st \<Longrightarrow> sup_inv st"
proof -
  have "sup_step\<^sup>*\<^sup>* st0 st \<Longrightarrow> sup_inv st0 \<Longrightarrow> sup_inv st" for st0
    by (induction rule: rtranclp_induct) (auto intro: sup_step_inv)
  moreover have "sup_inv (fresh_supervisor, t0, [])" for t0
    by (simp add: sup_inv_def fresh_supervisor_def last_eight_def spaced_def)
  ultimately show "sup_reachable st \<Longrightarrow> sup_inv st" unfolding sup_reachable_def by blast
qed

section \<open>Properties\<close>

lemma spaced_window:
  "spaced h \<Longrightarrow> sorted h \<Longrightarrow> length (filter (\<lambda>q. x \<le> q \<and> q < x + claim_resume_window) h) \<le> claim_resume_limit"
proof (induction h rule: rev_induct)
  case (snoc r h)
  have sp: "spaced h" unfolding spaced_def
  proof (intro allI impI)
    fix a y b assume "h = a @ y # b"
    then have "h @ [r] = a @ y # (b @ [r])" by simp
    with snoc.prems(1) show "length (recent_resumes y a) < claim_resume_limit" unfolding spaced_def by blast
  qed
  have few: "length (recent_resumes r h) < claim_resume_limit"
    using snoc.prems(1) unfolding spaced_def by blast
  show ?case
  proof (cases "x \<le> r \<and> r < x + claim_resume_window")
    case True
    have "length (filter (\<lambda>q. x \<le> q \<and> q < x + claim_resume_window) h) \<le> length (recent_resumes r h)"
      unfolding recent_resumes_def using True by (induction h) auto
    with True few show ?thesis by simp
  next
    case False
    with snoc.IH sp snoc.prems(2) show ?thesis by (auto simp: sorted_append)
  qed
qed simp

text \<open>C40. In every reachable state of the supervisor, at most three automatic restarts kept the claim
  switch within any window of an hour, although only the last eight stamps are stored.\<close>

theorem claim_resumes_bounded:
  assumes "sup_reachable (s, t, h)"
  shows "length (filter (\<lambda>q. x \<le> q \<and> q < x + claim_resume_window) h) \<le> claim_resume_limit
    \<and> sv_resumes s = last_eight h"
  using sup_reachable_inv [OF assms] spaced_window by (auto simp: sup_inv_def)

text \<open>A stable executor that crashes once and resumes claiming.\<close>

definition resumed_supervisor :: supervisor where
  "resumed_supervisor = \<lparr>sv_claim_enabled = True, sv_running = True, sv_restart_count = 1, sv_next_delay = Some 5,
     sv_failed = False, sv_resumes = [105]\<rparr>"

lemma resumed_reachable: "sup_reachable (resumed_supervisor, 105, [105])"
proof -
  let ?s1 = "fresh_supervisor\<lparr>sv_running := True\<rparr>" let ?s2 = "?s1\<lparr>sv_claim_enabled := True\<rparr>"
  let ?s3 = "?s2\<lparr>sv_running := False, sv_restart_count := 1, sv_next_delay := Some 5\<rparr>"
  have "start_manually True True 0 fresh_supervisor = ?s1"
    by (simp add: start_manually_def start_executor_def claim_resume_verdict_def fresh_supervisor_def Let_def)
  then have 1: "sup_step (fresh_supervisor, 0, []) (?s1, 0, [])" by (metis manual_start)
  have 2: "sup_step (?s1, 0, []) (?s2, 0, [])" by (rule toggle)
  have "executor_exited 1 100 ?s2 = Inr ?s3"
    by (simp add: executor_exited_def exit_refused_def stable_after_def restart_delay_def float_pow2_def
        fresh_supervisor_def Let_def)
  then have 3: "sup_step (?s2, 0, []) (?s3, 0, [])" by (intro crash) (simp_all add: fresh_supervisor_def)
  have "start_executor True True True 105 105 ?s3 = (resumed_supervisor, True)"
    by (simp add: start_executor_def claim_resume_verdict_def fresh_supervisor_def resumed_supervisor_def
        recent_resumes_def claim_resume_limit_def last_eight_def Let_def)
  then have "sup_step (?s3, 0, []) (resumed_supervisor, 105, if True then [] @ [105] else [])"
    by (intro auto_restart [where delay = 5]) (simp_all add: fresh_supervisor_def)
  then have 4: "sup_step (?s3, 0, []) (resumed_supervisor, 105, [105])" by simp
  have "sup_step\<^sup>*\<^sup>* (fresh_supervisor, 0, []) (resumed_supervisor, 105, [105])"
    using 1 2 3 4 by (meson converse_rtranclp_into_rtranclp rtranclp.rtrancl_refl)
  then show ?thesis unfolding sup_reachable_def by blast
qed

theorem claim_resumes_bounded_witness:
  "length (filter (\<lambda>q. 0 \<le> q \<and> q < 0 + claim_resume_window) [105]) \<le> claim_resume_limit"
  using claim_resumes_bounded [OF resumed_reachable, of 0] by blast

end
