(* ===== verification/Upload_Lanes.thy ===== *)
theory Upload_Lanes
  imports Prelude
begin

text \<open>
  The two-lane upload scheduler (\<open>worker/upload/scheduler.py\<close>) as a transition system. Every method
  of the code runs under one lock, so it is one step.
\<close>

section \<open>The scheduler\<close>

text \<open>The fields of \<open>LaneScheduler\<close>; the thread pool is the flag whether it still accepts work.\<close>

record 'j lanes =
  ln_bulk :: "'j list"
  ln_priority :: "'j list"
  ln_in_flight :: int
  ln_limit :: int
  ln_shutdown :: bool
  ln_pool_open :: bool

datatype lane_error = BadLimit | ShutDown

definition new_lanes :: "int \<Rightarrow> lane_error + 'j lanes" where
  "new_lanes limit =
     guardE (limit < 1) BadLimit
       (Inr \<lparr>ln_bulk = [], ln_priority = [], ln_in_flight = 0, ln_limit = limit, ln_shutdown = False,
             ln_pool_open = True\<rparr>)"

text \<open>\<open>_pump_locked\<close>: the started jobs are returned in order. A closed pool refuses the job, which goes
  back to the head of its lane.\<close>

function pump :: "'j lanes \<Rightarrow> 'j lanes \<times> 'j list" where
  "pump s =
     (if \<not> ln_in_flight s < ln_limit s then (s, [])
      else (case ln_priority s of
        fn # rest \<Rightarrow>
          (let s1 = s\<lparr>ln_priority := rest, ln_in_flight := ln_in_flight s + 1\<rparr> in
           if ln_pool_open s then (let (s2, started) = pump s1 in (s2, fn # started))
           else (s1\<lparr>ln_in_flight := ln_in_flight s1 - 1, ln_priority := fn # ln_priority s1\<rparr>, []))
      | [] \<Rightarrow>
          (case ln_bulk s of
             fn # rest \<Rightarrow>
               (let s1 = s\<lparr>ln_bulk := rest, ln_in_flight := ln_in_flight s + 1\<rparr> in
                if ln_pool_open s then (let (s2, started) = pump s1 in (s2, fn # started))
                else (s1\<lparr>ln_in_flight := ln_in_flight s1 - 1, ln_bulk := fn # ln_bulk s1\<rparr>, []))
           | [] \<Rightarrow> (s, []))))"
  by pat_completeness auto
termination by (relation "measure (\<lambda>s. length (ln_priority s) + length (ln_bulk s))") auto

declare pump.simps [simp del]

definition set_limit :: "int \<Rightarrow> 'j lanes \<Rightarrow> lane_error + 'j lanes \<times> 'j list" where
  "set_limit limit s = guardE (limit < 1) BadLimit (Inr (pump (s\<lparr>ln_limit := limit\<rparr>)))"

definition submit_job :: "'j \<Rightarrow> bool \<Rightarrow> 'j lanes \<Rightarrow> lane_error + 'j lanes \<times> 'j list" where
  "submit_job fn priority s =
     guardE (ln_shutdown s) ShutDown
       (Inr (pump (if priority then s\<lparr>ln_priority := ln_priority s @ [fn]\<rparr>
                   else s\<lparr>ln_bulk := ln_bulk s @ [fn]\<rparr>)))"

text \<open>The end of \<open>_run\<close>; \<open>shutdown\<close> returns from its wait only when everything is drained.\<close>

definition run_finished :: "'j lanes \<Rightarrow> 'j lanes \<times> 'j list" where
  "run_finished s = pump (s\<lparr>ln_in_flight := ln_in_flight s - 1\<rparr>)"

definition drained :: "'j lanes \<Rightarrow> bool" where
  "drained s \<longleftrightarrow> ln_in_flight s = 0 \<and> ln_bulk s = [] \<and> ln_priority s = []"

definition close_lanes :: "'j lanes \<Rightarrow> 'j lanes" where
  "close_lanes s = s\<lparr>ln_shutdown := True, ln_pool_open := False\<rparr>"

section \<open>What a pump does\<close>

text \<open>It starts a prefix of the priority lane, and bulk jobs only once that lane is empty; it never
  starts a job beyond the limit and leaves no room unused.\<close>

definition pumped :: "'j lanes \<Rightarrow> 'j lanes \<Rightarrow> 'j list \<Rightarrow> 'j list \<Rightarrow> bool" where
  "pumped s s' p b \<longleftrightarrow> ln_priority s = p @ ln_priority s' \<and> ln_bulk s = b @ ln_bulk s'
     \<and> (b = [] \<or> ln_priority s' = [])
     \<and> ln_in_flight s' = ln_in_flight s + int (length p) + int (length b)
     \<and> ln_in_flight s' \<le> max (ln_in_flight s) (ln_limit s)
     \<and> (\<not> ln_pool_open s \<or> ln_limit s \<le> ln_in_flight s' \<or> (ln_priority s' = [] \<and> ln_bulk s' = []))
     \<and> ln_limit s' = ln_limit s \<and> ln_shutdown s' = ln_shutdown s \<and> ln_pool_open s' = ln_pool_open s"

lemma pumped_priority:
  assumes "ln_in_flight s < ln_limit s" and "ln_priority s = fn # rest"
    and "pumped (s\<lparr>ln_priority := rest, ln_in_flight := ln_in_flight s + 1\<rparr>) s' p b"
  shows "pumped s s' (fn # p) b"
  using assms by (auto simp: pumped_def)

lemma pumped_bulk:
  assumes "ln_in_flight s < ln_limit s" and "ln_priority s = []" and "ln_bulk s = fn # rest"
    and "pumped (s\<lparr>ln_bulk := rest, ln_in_flight := ln_in_flight s + 1\<rparr>) s' p b"
  shows "pumped s s' p (fn # b)"
  using assms by (auto simp: pumped_def)

lemma pump_spec:
  assumes "pump s = (s', started)"
  shows "\<exists>p b. started = p @ b \<and> pumped s s' p b"
  using assms
proof (induction s arbitrary: s' started rule: pump.induct)
  case (1 s)
  show ?case
  proof (cases "ln_in_flight s < ln_limit s \<and> ln_pool_open s \<and> (ln_priority s \<noteq> [] \<or> ln_bulk s \<noteq> [])")
    case False
    with 1(3) have "s' = s \<and> started = []"
      by (subst (asm) pump.simps) (auto split: list.splits if_splits)
    moreover have "pumped s s [] []" using False by (auto simp: pumped_def)
    ultimately show ?thesis by blast
  next
    case room: True
    show ?thesis
    proof (cases "ln_priority s")
      case (Cons fn rest)
      let ?s1 = "s\<lparr>ln_priority := rest, ln_in_flight := ln_in_flight s + 1\<rparr>"
      obtain s2 st where rec: "pump ?s1 = (s2, st)" by force
      with 1(3) room Cons have res: "s' = s2" "started = fn # st"
        by (subst (asm) pump.simps, simp)+
      from 1(2) [OF _ Cons refl _ rec] room obtain p b where "st = p @ b" "pumped ?s1 s2 p b" by blast
      with pumped_priority [OF _ Cons] room res have "started = (fn # p) @ b \<and> pumped s s' (fn # p) b" by simp
      then show ?thesis by blast
    next
      case Nil
      then obtain fn rest where bulk: "ln_bulk s = fn # rest" using room by (cases "ln_bulk s") auto
      let ?s1 = "s\<lparr>ln_bulk := rest, ln_in_flight := ln_in_flight s + 1\<rparr>"
      obtain s2 st where rec: "pump ?s1 = (s2, st)" by force
      with 1(3) room Nil bulk have res: "s' = s2" "started = fn # st"
        by (subst (asm) pump.simps, simp)+
      from 1(1) [OF _ Nil bulk refl _ rec] room obtain p b where "st = p @ b" "pumped ?s1 s2 p b" by blast
      moreover from this(2) Nil have "p = []" by (simp add: pumped_def)
      ultimately have "started = [] @ (fn # b) \<and> pumped s s' [] (fn # b)"
        using pumped_bulk [OF _ Nil bulk] room res by simp
      then show ?thesis by blast
    qed
  qed
qed

section \<open>Runs of the scheduler\<close>

text \<open>A job carries its lane as a tag. The ghost components are the jobs submitted and started so far,
  in order, the number of finished ones and the largest limit so far.\<close>

type_synonym 'j job = "bool \<times> 'j"

record 'j lane_run =
  lr_lanes :: "'j job lanes"
  lr_submitted :: "'j job list"
  lr_started :: "'j job list"
  lr_finished :: nat
  lr_peak :: int

inductive lane_step :: "'j lane_run \<Rightarrow> 'j lane_run \<Rightarrow> bool" where
  submit: "submit_job (pr, fn) pr (lr_lanes r) = Inr (s', st) \<Longrightarrow>
    lane_step r (r\<lparr>lr_lanes := s', lr_submitted := lr_submitted r @ [(pr, fn)], lr_started := lr_started r @ st\<rparr>)"
| limit: "set_limit l (lr_lanes r) = Inr (s', st) \<Longrightarrow>
    lane_step r (r\<lparr>lr_lanes := s', lr_started := lr_started r @ st, lr_peak := max (lr_peak r) l\<rparr>)"
| finish: "lr_finished r < length (lr_started r) \<Longrightarrow> run_finished (lr_lanes r) = (s', st) \<Longrightarrow>
    lane_step r (r\<lparr>lr_lanes := s', lr_started := lr_started r @ st, lr_finished := Suc (lr_finished r)\<rparr>)"
| shut: "drained (lr_lanes r) \<Longrightarrow> lane_step r (r\<lparr>lr_lanes := close_lanes (lr_lanes r)\<rparr>)"
| pool_gone: "lane_step r (r\<lparr>lr_lanes := (lr_lanes r)\<lparr>ln_pool_open := False\<rparr>\<rparr>)"

inductive_cases lane_step_cases: "lane_step r r'"

definition lane_start :: "'j job lanes \<Rightarrow> 'j lane_run" where
  "lane_start s = \<lparr>lr_lanes = s, lr_submitted = [], lr_started = [], lr_finished = 0, lr_peak = ln_limit s\<rparr>"

definition lane_reachable :: "'j lane_run \<Rightarrow> bool" where
  "lane_reachable r \<longleftrightarrow> (\<exists>limit s. new_lanes limit = Inr s \<and> lane_step\<^sup>*\<^sup>* (lane_start s) r)"

definition of_lane :: "bool \<Rightarrow> 'j job list \<Rightarrow> 'j job list" where
  "of_lane pr js = filter (\<lambda>j. fst j = pr) js"

lemma of_lane_simps [simp]:
  "of_lane pr [] = []" "of_lane pr (xs @ ys) = of_lane pr xs @ of_lane pr ys"
  "of_lane pr ((q, x) # ys) = (if q = pr then (q, x) # of_lane pr ys else of_lane pr ys)"
  by (simp_all add: of_lane_def)

definition lane_inv :: "'j lane_run \<Rightarrow> bool" where
  "lane_inv r \<longleftrightarrow> (let s = lr_lanes r in
     of_lane True (ln_priority s) = ln_priority s \<and> of_lane False (ln_bulk s) = ln_bulk s
     \<and> of_lane True (lr_submitted r) = of_lane True (lr_started r) @ ln_priority s
     \<and> of_lane False (lr_submitted r) = of_lane False (lr_started r) @ ln_bulk s
     \<and> ln_in_flight s + int (lr_finished r) = int (length (lr_started r)) \<and> 0 \<le> ln_in_flight s
     \<and> ln_in_flight s \<le> lr_peak r \<and> ln_limit s \<le> lr_peak r
     \<and> (\<not> ln_pool_open s \<or> ln_limit s \<le> ln_in_flight s \<or> (ln_priority s = [] \<and> ln_bulk s = [])))"

lemma of_lane_all: "of_lane pr xs = xs \<longleftrightarrow> (\<forall>j \<in> set xs. fst j = pr)"
  by (simp add: of_lane_def filter_id_conv)

lemma of_lane_other: "of_lane pr xs = xs \<Longrightarrow> pr \<noteq> qr \<Longrightarrow> of_lane qr xs = []"
  unfolding of_lane_all by (auto simp: of_lane_def filter_empty_conv)

lemma of_lane_append: "of_lane pr (xs @ ys) = xs @ ys \<longleftrightarrow> of_lane pr xs = xs \<and> of_lane pr ys = ys"
  unfolding of_lane_all by auto

text \<open>A pump keeps the invariant whatever changed in flight, limit and queues before it, as long as
  the accounts of the changed state are right.\<close>

lemma lane_inv_pump:
  assumes "pump s = (s', st)"
    and "of_lane True (ln_priority s) = ln_priority s" "of_lane False (ln_bulk s) = ln_bulk s"
    and "of_lane True sub = of_lane True started @ ln_priority s"
    and "of_lane False sub = of_lane False started @ ln_bulk s"
    and "ln_in_flight s + int fin = int (length started)" "0 \<le> ln_in_flight s"
    and "ln_in_flight s \<le> peak" "ln_limit s \<le> peak"
  shows "lane_inv \<lparr>lr_lanes = s', lr_submitted = sub, lr_started = started @ st, lr_finished = fin, lr_peak = peak\<rparr>"
proof -
  from pump_spec [OF assms(1)] obtain p b where st: "st = p @ b" and pb: "pumped s s' p b" by blast
  have q: "ln_priority s = p @ ln_priority s'" "ln_bulk s = b @ ln_bulk s'"
    using pb unfolding pumped_def by blast+
  have tags: "of_lane True p = p" "of_lane True (ln_priority s') = ln_priority s'"
    "of_lane False b = b" "of_lane False (ln_bulk s') = ln_bulk s'"
    using assms(2,3) unfolding q of_lane_append by blast+
  have "of_lane False p = []" "of_lane True b = []"
    using of_lane_other [OF tags(1), of False] of_lane_other [OF tags(3), of True] by simp_all
  with tags q st assms(4-9) pb show ?thesis
    by (auto simp: lane_inv_def pumped_def)
qed

lemma lane_step_inv: "lane_step r r' \<Longrightarrow> lane_inv r \<Longrightarrow> lane_inv r'"
proof (induction rule: lane_step.induct)
  case (submit pr fn r s' st)
  have "pump (if pr then (lr_lanes r)\<lparr>ln_priority := ln_priority (lr_lanes r) @ [(pr, fn)]\<rparr>
      else (lr_lanes r)\<lparr>ln_bulk := ln_bulk (lr_lanes r) @ [(pr, fn)]\<rparr>) = (s', st)"
    using submit(1) by (simp add: submit_job_def err_simps split: if_splits)
  from lane_inv_pump [OF this, of "lr_submitted r @ [(pr, fn)]" "lr_started r" "lr_finished r" "lr_peak r"] submit(2)
  show ?case by (cases r) (auto simp: lane_inv_def Let_def)
next
  case (limit l r s' st)
  have "pump ((lr_lanes r)\<lparr>ln_limit := l\<rparr>) = (s', st)"
    using limit(1) by (simp add: set_limit_def err_simps split: if_splits)
  from lane_inv_pump [OF this, of "lr_submitted r" "lr_started r" "lr_finished r" "max (lr_peak r) l"] limit(2)
  show ?case by (cases r) (auto simp: lane_inv_def Let_def)
next
  case (finish r s' st)
  have "pump ((lr_lanes r)\<lparr>ln_in_flight := ln_in_flight (lr_lanes r) - 1\<rparr>) = (s', st)"
    using finish(2) by (simp add: run_finished_def)
  from lane_inv_pump [OF this, of "lr_submitted r" "lr_started r" "Suc (lr_finished r)" "lr_peak r"] finish(1,3)
  show ?case by (cases r) (auto simp: lane_inv_def Let_def)
qed (auto simp: lane_inv_def Let_def close_lanes_def drained_def)

lemma lane_reachable_inv: "lane_reachable r \<Longrightarrow> lane_inv r"
proof -
  have "lane_step\<^sup>*\<^sup>* r0 r \<Longrightarrow> lane_inv r0 \<Longrightarrow> lane_inv r" for r0
    by (induction rule: rtranclp_induct) (auto intro: lane_step_inv)
  moreover have "new_lanes limit = Inr s \<Longrightarrow> lane_inv (lane_start s)" for limit s
    by (auto simp: new_lanes_def err_simps lane_start_def lane_inv_def Let_def)
  ultimately show "lane_reachable r \<Longrightarrow> lane_inv r" unfolding lane_reachable_def by blast
qed

section \<open>Properties\<close>

text \<open>C38. In every reachable state of the upload scheduler the jobs of each lane start in the order of
  their submission, none lost and none started twice; the running jobs are within the largest limit
  so far; and unless the pool was closed, jobs wait only while the limit is used up.\<close>

theorem lanes_exact:
  assumes "lane_reachable r"
  shows "of_lane True (lr_submitted r) = of_lane True (lr_started r) @ ln_priority (lr_lanes r)
    \<and> of_lane False (lr_submitted r) = of_lane False (lr_started r) @ ln_bulk (lr_lanes r)
    \<and> ln_in_flight (lr_lanes r) = int (length (lr_started r)) - int (lr_finished r)
    \<and> 0 \<le> ln_in_flight (lr_lanes r) \<and> ln_in_flight (lr_lanes r) \<le> lr_peak r
    \<and> (ln_limit (lr_lanes r) \<le> ln_in_flight (lr_lanes r)
       \<or> ln_priority (lr_lanes r) @ ln_bulk (lr_lanes r) = [] \<or> ln_pool_open (lr_lanes r) = False)"
  using lane_reachable_inv [OF assms] unfolding lane_inv_def Let_def by auto

definition sample_lanes :: "string job lanes" where
  "sample_lanes = \<lparr>ln_bulk = [], ln_priority = [], ln_in_flight = 0, ln_limit = 1, ln_shutdown = False, ln_pool_open = True\<rparr>"

definition sample_lane_run :: "string lane_run" where
  "sample_lane_run = \<lparr>lr_lanes = sample_lanes\<lparr>ln_bulk := [(False, ''b'')], ln_in_flight := 1\<rparr>,
     lr_submitted = [(False, ''a''), (False, ''b'')], lr_started = [(False, ''a'')], lr_finished = 0, lr_peak = 1\<rparr>"

lemma sample_lane_reachable: "lane_reachable sample_lane_run"
proof -
  let ?r0 = "lane_start sample_lanes"
  let ?r1 = "\<lparr>lr_lanes = sample_lanes\<lparr>ln_in_flight := 1\<rparr>, lr_submitted = [(False, ''a'')],
    lr_started = [(False, ''a'')], lr_finished = 0, lr_peak = 1\<rparr>"
  have "submit_job (False, ''a'') False sample_lanes = Inr (sample_lanes\<lparr>ln_in_flight := 1\<rparr>, [(False, ''a'')])"
    by (simp add: submit_job_def sample_lanes_def pump.simps)
  then have "submit_job (False, ''a'') False (lr_lanes ?r0) = Inr (sample_lanes\<lparr>ln_in_flight := 1\<rparr>, [(False, ''a'')])"
    by (simp add: lane_start_def)
  from lane_step.submit [OF this] have 1: "lane_step ?r0 ?r1" by (simp add: lane_start_def sample_lanes_def)
  have "submit_job (False, ''b'') False (lr_lanes ?r1)
      = Inr (sample_lanes\<lparr>ln_bulk := [(False, ''b'')], ln_in_flight := 1\<rparr>, [])"
    by (simp add: submit_job_def sample_lanes_def pump.simps)
  from lane_step.submit [OF this] have 2: "lane_step ?r1 sample_lane_run" by (simp add: sample_lane_run_def)
  have "new_lanes 1 = Inr sample_lanes" by (simp add: new_lanes_def sample_lanes_def)
  with 1 2 show ?thesis
    unfolding lane_reachable_def by (meson converse_rtranclp_into_rtranclp rtranclp.rtrancl_refl)
qed

theorem lanes_exact_witness:
  "of_lane False (lr_submitted sample_lane_run)
     = of_lane False (lr_started sample_lane_run) @ ln_bulk (lr_lanes sample_lane_run)
   \<and> ln_limit (lr_lanes sample_lane_run) = 1"
  using lanes_exact [OF sample_lane_reachable] by (simp add: sample_lane_run_def sample_lanes_def)

end
