(* ===== verification/Upload_Handoff.thy ===== *)
theory Upload_Handoff
  imports Prelude
begin

text \<open>
  The barrier between uploads that share an execution directory
  (\<open>worker/upload/handoff.py\<close>): at most one upload of an execution is open, and the depth that the
  claim loop reads for backpressure counts the open uploads.
\<close>

section \<open>Tasks and the barrier\<close>

text \<open>The flags of \<open>UploadTask\<close> the barrier reads and writes; tasks are addressed by a number.\<close>

record up_task =
  ut_execution :: string
  ut_lease :: string
  ut_lost :: bool
  ut_done :: bool
  ut_finalize_started :: bool

record handoff =
  hf_depth :: int
  hf_active :: "(string, nat) dict"
  hf_tasks :: "nat \<Rightarrow> up_task option"

datatype handoff_error = AlreadyActive string | NegativeDepth

definition set_task :: "nat \<Rightarrow> up_task \<Rightarrow> handoff \<Rightarrow> handoff" where
  "set_task i u s = s\<lparr>hf_tasks := (hf_tasks s)(i \<mapsto> u)\<rparr>"

definition new_task :: "string \<Rightarrow> string \<Rightarrow> up_task" where
  "new_task execution lease = \<lparr>ut_execution = execution, ut_lease = lease, ut_lost = False, ut_done = False,
     ut_finalize_started = False\<rparr>"

text \<open>The task that holds the directory of an execution and is not through yet.\<close>

definition open_upload :: "handoff \<Rightarrow> string \<Rightarrow> up_task option" where
  "open_upload s execution =
     (case dget (hf_active s) execution of
        None \<Rightarrow> None
      | Some i \<Rightarrow> (case hf_tasks s i of Some u \<Rightarrow> if ut_done u then None else Some u | None \<Rightarrow> None))"

definition begin_upload :: "nat \<Rightarrow> up_task \<Rightarrow> handoff \<Rightarrow> handoff_error + handoff" where
  "begin_upload i u s =
     (case open_upload s (ut_execution u) of
        Some current \<Rightarrow> Inl (AlreadyActive (ut_lease current))
      | None \<Rightarrow> Inr ((set_task i u s)\<lparr>hf_active := dset (ut_execution u) i (hf_active s), hf_depth := hf_depth s + 1\<rparr>))"

definition cancel_begin :: "nat \<Rightarrow> up_task \<Rightarrow> handoff \<Rightarrow> handoff" where
  "cancel_begin i u s =
     (let s1 = (if dget (hf_active s) (ut_execution u) = Some i
                then s\<lparr>hf_active := filter (\<lambda>(k, j). k \<noteq> ut_execution u) (hf_active s), hf_depth := hf_depth s - 1\<rparr>
                else s) in
      set_task i (u\<lparr>ut_finalize_started := True, ut_done := True\<rparr>) s1)"

text \<open>The locked part of \<open>wait_for_prior\<close>: another lease's upload is condemned; the result is the task
  to wait for.\<close>

definition condemn_prior :: "string \<Rightarrow> string \<Rightarrow> handoff \<Rightarrow> nat option \<times> handoff" where
  "condemn_prior execution lease s =
     (case dget (hf_active s) execution of
        None \<Rightarrow> (None, s)
      | Some i \<Rightarrow> (case hf_tasks s i of
            None \<Rightarrow> (Some i, s)
          | Some u \<Rightarrow> (Some i, if ut_lease u \<noteq> lease then set_task i (u\<lparr>ut_lost := True\<rparr>) s else s)))"

definition start_finalize :: "nat \<Rightarrow> up_task \<Rightarrow> handoff \<Rightarrow> bool \<times> handoff" where
  "start_finalize i u s =
     (if ut_finalize_started u then (False, s) else (True, set_task i (u\<lparr>ut_finalize_started := True\<rparr>) s))"

definition complete_finalize :: "nat \<Rightarrow> up_task \<Rightarrow> handoff \<Rightarrow> handoff_error + handoff" where
  "complete_finalize i u s =
     (let s1 = (if dget (hf_active s) (ut_execution u) = Some i
                then s\<lparr>hf_active := filter (\<lambda>(k, j). k \<noteq> ut_execution u) (hf_active s)\<rparr> else s);
          s2 = s1\<lparr>hf_depth := hf_depth s1 - 1\<rparr>;
          s3 = set_task i (u\<lparr>ut_done := True\<rparr>) s2 in
      guardE (hf_depth s3 < 0) NegativeDepth (Inr s3))"

section \<open>Runs\<close>

text \<open>A task is begun once; it is cancelled when the submission fails, or finalized by the lane.\<close>

inductive handoff_step :: "handoff \<Rightarrow> handoff \<Rightarrow> bool" where
  begin_task: "hf_tasks s i = None \<Longrightarrow> begin_upload i (new_task ex le) s = Inr s' \<Longrightarrow> handoff_step s s'"
| cancel: "hf_tasks s i = Some u \<Longrightarrow> \<not> ut_finalize_started u \<Longrightarrow> handoff_step s (cancel_begin i u s)"
| condemn: "condemn_prior ex le s = (prior, s') \<Longrightarrow> handoff_step s s'"
| finalize: "hf_tasks s i = Some u \<Longrightarrow> start_finalize i u s = (True, s') \<Longrightarrow> handoff_step s s'"
| complete: "hf_tasks s i = Some u \<Longrightarrow> ut_finalize_started u \<Longrightarrow> \<not> ut_done u \<Longrightarrow>
    complete_finalize i u s = Inr s' \<Longrightarrow> handoff_step s s'"

definition new_handoff :: handoff where
  "new_handoff = \<lparr>hf_depth = 0, hf_active = [], hf_tasks = (\<lambda>i. None)\<rparr>"

definition handoff_inv :: "handoff \<Rightarrow> bool" where
  "handoff_inv s \<longleftrightarrow> hf_depth s = int (length (hf_active s)) \<and> distinct (keys (hf_active s))
     \<and> (\<forall>ex i. dget (hf_active s) ex = Some i \<longleftrightarrow>
          (\<exists>u. hf_tasks s i = Some u \<and> ut_execution u = ex \<and> \<not> ut_done u))
     \<and> (\<forall>i u. hf_tasks s i = Some u \<longrightarrow> ut_done u \<longrightarrow> ut_finalize_started u)"

lemma dget_filter_key: "dget (filter (\<lambda>(k, j). k \<noteq> x) d) y = (if y = x then None else dget d y)"
  by (induction d) auto

lemma distinct_keys_filter: "distinct (keys d) \<Longrightarrow> distinct (keys (filter p d))"
  by (simp add: keys_def distinct_map_filter)

lemma length_filter_key:
  "distinct (keys d) \<Longrightarrow> dget d x = Some i \<Longrightarrow> Suc (length (filter (\<lambda>(k, j). k \<noteq> x) d)) = length d"
proof (induction d)
  case (Cons p d)
  obtain k v where p: "p = (k, v)" by force
  show ?case
  proof (cases "k = x")
    case True
    then have "filter (\<lambda>(k, j). k \<noteq> x) d = d" using Cons.prems(1) p
      by (force simp: filter_id_conv keys_def)
    with True p show ?thesis by simp
  next
    case False
    with Cons p show ?thesis by simp
  qed
qed simp

lemma open_upload_None:
  "handoff_inv s \<Longrightarrow> open_upload s ex = None \<longleftrightarrow> dget (hf_active s) ex = None"
  by (fastforce simp: handoff_inv_def open_upload_def split: option.splits)

text \<open>Closing the task that holds its execution.\<close>

lemma close_task:
  assumes inv: "handoff_inv s" and u: "hf_tasks s i = Some u" "\<not> ut_done u"
  shows "dget (hf_active s) (ut_execution u) = Some i"
    "handoff_inv (set_task i (u\<lparr>ut_finalize_started := True, ut_done := True\<rparr>)
       (s\<lparr>hf_active := filter (\<lambda>(k, j). k \<noteq> ut_execution u) (hf_active s), hf_depth := hf_depth s - 1\<rparr>))"
proof -
  show own: "dget (hf_active s) (ut_execution u) = Some i" using inv u unfolding handoff_inv_def by blast
  have dist: "distinct (keys (hf_active s))" and depth: "hf_depth s = int (length (hf_active s))"
    using inv unfolding handoff_inv_def by blast+
  let ?d = "filter (\<lambda>(k, j). k \<noteq> ut_execution u) (hf_active s)"
  have "hf_depth s - 1 = int (length ?d)"
    using length_filter_key [OF dist own] depth by linarith
  moreover have "dget ?d ex = Some j \<longleftrightarrow>
      (\<exists>v. ((hf_tasks s)(i \<mapsto> u\<lparr>ut_finalize_started := True, ut_done := True\<rparr>)) j = Some v \<and> ut_execution v = ex \<and> \<not> ut_done v)"
    for ex j
  proof -
    have "j = i" if "hf_tasks s j = Some v" "ut_execution v = ut_execution u" "\<not> ut_done v" for v
      using inv own that unfolding handoff_inv_def by (metis option.inject)
    moreover have "dget (hf_active s) ex = Some j \<longleftrightarrow> (\<exists>v. hf_tasks s j = Some v \<and> ut_execution v = ex \<and> \<not> ut_done v)"
      using inv unfolding handoff_inv_def by blast
    ultimately show ?thesis using u own by (cases "j = i") (auto simp: dget_filter_key)
  qed
  moreover have "\<forall>j v. hf_tasks s j = Some v \<longrightarrow> ut_done v \<longrightarrow> ut_finalize_started v"
    using inv unfolding handoff_inv_def by blast
  ultimately show "handoff_inv (set_task i (u\<lparr>ut_finalize_started := True, ut_done := True\<rparr>)
       (s\<lparr>hf_active := ?d, hf_depth := hf_depth s - 1\<rparr>))"
    using distinct_keys_filter [OF dist] by (simp add: handoff_inv_def set_task_def)
qed

lemma handoff_inv_flags:
  assumes "handoff_inv s" and "hf_tasks s i = Some u" and "ut_execution v = ut_execution u" "ut_done v = ut_done u"
    and "ut_done v \<longrightarrow> ut_finalize_started v"
  shows "handoff_inv (set_task i v s)"
  using assms by (auto simp: handoff_inv_def set_task_def)

lemma begin_inv:
  assumes inv: "handoff_inv s" and new: "hf_tasks s i = None" and "begin_upload i (new_task ex le) s = Inr s'"
  shows "handoff_inv s'"
proof -
  have none: "open_upload s ex = None"
    and s': "s' = (set_task i (new_task ex le) s)\<lparr>hf_active := dset ex i (hf_active s), hf_depth := hf_depth s + 1\<rparr>"
    using assms(3) by (auto simp: begin_upload_def new_task_def split: option.splits)
  have free: "ex \<notin> set (keys (hf_active s))"
    using none open_upload_None [OF inv, of ex] by (simp add: dget_None_iff)
  have "dget (hf_active s) ex' = Some j \<longleftrightarrow> (\<exists>u. hf_tasks s j = Some u \<and> ut_execution u = ex' \<and> \<not> ut_done u)" for ex' j
    using inv unfolding handoff_inv_def by blast
  moreover have "ut_done v" if "hf_tasks s j = Some v" "ut_execution v = ex" for j v
    using inv none [unfolded open_upload_None [OF inv]] that unfolding handoff_inv_def by (metis option.distinct(1))
  moreover have "length (dset ex i (hf_active s)) = Suc (length (hf_active s))"
    by (simp add: dset_new [OF free])
  ultimately show ?thesis
    using inv new none [unfolded open_upload_None [OF inv]]
    unfolding s' by (auto simp: handoff_inv_def set_task_def new_task_def)
qed

lemma handoff_step_inv: "handoff_step s s' \<Longrightarrow> handoff_inv s \<Longrightarrow> handoff_inv s'"
proof (induction rule: handoff_step.induct)
  case (begin_task s i ex le s')
  then show ?case by (blast intro: begin_inv)
next
  case (cancel s i u)
  then have "\<not> ut_done u" unfolding handoff_inv_def by blast
  from close_task [OF cancel(3,1) this] show ?case by (simp add: cancel_begin_def)
next
  case (condemn ex le s prior s')
  have "s' = s \<or> (\<exists>i u. hf_tasks s i = Some u \<and> s' = set_task i (u\<lparr>ut_lost := True\<rparr>) s)"
    using condemn(1) by (auto simp: condemn_prior_def split: option.splits if_splits)
  moreover have "ut_done u \<longrightarrow> ut_finalize_started u" if "hf_tasks s i = Some u" for i u
    using condemn(2) that unfolding handoff_inv_def by blast
  ultimately show ?case using condemn(2) by (auto intro!: handoff_inv_flags [OF condemn(2)])
next
  case (finalize s i u s')
  then show ?case by (auto simp: start_finalize_def split: if_splits intro!: handoff_inv_flags)
next
  case (complete s i u s')
  have "u\<lparr>ut_done := True\<rparr> = u\<lparr>ut_finalize_started := True, ut_done := True\<rparr>"
    using complete(2) by (cases u) simp
  with close_task [OF complete(5,1,3)] complete(4) show ?case
    by (auto simp: complete_finalize_def Let_def err_simps)
qed

text \<open>The depth never goes negative: the assertion of \<open>complete_finalize\<close> cannot fail.\<close>

lemma complete_never_negative:
  assumes "handoff_inv s" "hf_tasks s i = Some u" "\<not> ut_done u"
  shows "\<exists>s'. complete_finalize i u s = Inr s'"
proof -
  have "hf_active s \<noteq> []" using close_task(1) [OF assms] by auto
  with assms(1) have "0 < hf_depth s" by (simp add: handoff_inv_def)
  then show ?thesis by (auto simp: complete_finalize_def Let_def guardE_def set_task_def)
qed

lemma handoff_exclusive:
  assumes "handoff_step\<^sup>*\<^sup>* new_handoff s"
    and "hf_tasks s i = Some u" "hf_tasks s j = Some v" "\<not> ut_done u" "\<not> ut_done v"
    and "ut_execution u = ut_execution v"
  shows "i = j"
proof -
  have "handoff_inv new_handoff" by (simp add: handoff_inv_def new_handoff_def)
  with assms(1) have "handoff_inv s" by (induction rule: rtranclp_induct) (blast intro: handoff_step_inv)+
  with assms(2-6) show ?thesis unfolding handoff_inv_def by (metis option.inject)
qed

end
