(* ===== verification/Upload_Report.thy ===== *)
theory Upload_Report
  imports Py_Value
begin

text \<open>
  Delivery of one execution's result: the task record with its persisted marker
  (\<open>worker/upload/task.py\<close>), the classes of Host answers and the one-time honest-failure downgrade
  (\<open>worker/upload/report_policy.py\<close>), and the report loop (\<open>worker/upload/report.py\<close>). Archive
  rewrites are file operations; the model keeps whether they succeeded and under which ceiling.
\<close>

section \<open>The task and its marker\<close>

text \<open>The persisted fields of \<open>UploadTask\<close> with the two runtime fields the verdicts read. Mappings
  inside are JSON values.\<close>

record upload_task =
  up_execution_id :: string
  up_lease_id :: string
  up_node_key :: string
  up_status_fields :: "(string, string) dict"
  up_kind :: string
  up_exec_kind :: string
  up_code_result :: pyval
  up_exit_code :: int
  up_expected_outputs :: "string list"
  up_command :: "string list"
  up_prebuilt_metadata :: pyval
  up_artifact_uploads :: "(string, pyval) dict"
  up_max_archive_bytes :: int
  up_restored :: bool

definition min_result_archive_bytes :: int where
  "min_result_archive_bytes = 1024"

definition degrade_ceiling :: "upload_task \<Rightarrow> bool \<Rightarrow> int" where
  "degrade_ceiling t snapshot_stale =
     (if snapshot_stale \<or> up_restored t then min_result_archive_bytes
      else if up_max_archive_bytes t \<noteq> 0 then up_max_archive_bytes t else min_result_archive_bytes)"

definition precheck_ceiling :: "upload_task \<Rightarrow> int" where
  "precheck_ceiling t = (if up_restored t then 0 else up_max_archive_bytes t)"

definition is_direct_upload :: "upload_task \<Rightarrow> string list \<Rightarrow> bool" where
  "is_direct_upload t outputs \<longleftrightarrow>
     up_artifact_uploads t \<noteq> [] \<and> list_all (\<lambda>n. n \<in> set (keys (up_artifact_uploads t))) outputs"

definition pending_version :: int where
  "pending_version = 1"

definition to_json :: "upload_task \<Rightarrow> pydict" where
  "to_json t =
     [(PStr ''version'', PInt pending_version),
      (PStr ''execution_id'', PStr (up_execution_id t)),
      (PStr ''lease_id'', PStr (up_lease_id t)),
      (PStr ''node_key'', PStr (up_node_key t)),
      (PStr ''status_fields'', PDict (map (\<lambda>(k, v). (PStr k, PStr v)) (up_status_fields t))),
      (PStr ''kind'', PStr (up_kind t)),
      (PStr ''exec_kind'', PStr (up_exec_kind t)),
      (PStr ''code_result'', up_code_result t),
      (PStr ''exit_code'', PInt (up_exit_code t)),
      (PStr ''expected_outputs'', PList (map PStr (up_expected_outputs t))),
      (PStr ''command'', PList (map PStr (up_command t))),
      (PStr ''prebuilt_metadata'', up_prebuilt_metadata t),
      (PStr ''max_archive_bytes'', PInt (up_max_archive_bytes t))]"

text \<open>\<open>str(v)\<close> and \<open>int(v)\<close> where the value is not already a string or an integer are parameters:
  \<open>text_of\<close> and \<open>number_of\<close> (\<open>None\<close> for an exception). \<open>None\<close> of the parser: the marker is
  unreadable and its directory is discarded.\<close>

record py_conversions =
  text_of :: "pyval \<Rightarrow> string"
  number_of :: "pyval \<Rightarrow> int option"

definition py_str :: "py_conversions \<Rightarrow> pyval \<Rightarrow> string" where
  "py_str cv v = (case v of PStr s \<Rightarrow> s | _ \<Rightarrow> text_of cv v)"

definition py_int :: "py_conversions \<Rightarrow> pyval \<Rightarrow> int option" where
  "py_int cv v = (case v of PInt i \<Rightarrow> Some i | PBool b \<Rightarrow> Some (if b then 1 else 0) | _ \<Rightarrow> number_of cv v)"

definition required :: "pydict \<Rightarrow> string \<Rightarrow> pyval option" where
  "required d k = dget d (PStr k)"

text \<open>\<open>{str(k): str(v) for k, v in dict(...).items()}\<close>: \<open>dict\<close> takes a mapping or an iterable of pairs
  with hashable first components. Equal numbers as keys are one key.\<close>

definition hashable :: "pyval \<Rightarrow> bool" where
  "hashable v \<longleftrightarrow> \<not> is_plist v \<and> \<not> is_pdict v"

definition pair_of :: "pyval \<Rightarrow> (pyval \<times> pyval) option" where
  "pair_of v =
     (case v of
        PList [a, b] \<Rightarrow> if hashable a then Some (a, b) else None
      | PDict [(a, _), (b, _)] \<Rightarrow> Some (a, b)
      | PStr s \<Rightarrow> (case code_points s of [a, b] \<Rightarrow> Some (PStr a, PStr b) | _ \<Rightarrow> None)
      | _ \<Rightarrow> None)"

fun py_dset :: "pyval \<Rightarrow> pyval \<Rightarrow> pydict \<Rightarrow> pydict" where
  "py_dset k v [] = [(k, v)]"
| "py_dset k v ((k', v') # d) = (if py_eq k' k then (k', v) # d else (k', v') # py_dset k v d)"

fun pairs_of :: "pyval list \<Rightarrow> pydict \<Rightarrow> pydict option" where
  "pairs_of [] acc = Some acc"
| "pairs_of (v # vs) acc = (case pair_of v of None \<Rightarrow> None | Some (k, w) \<Rightarrow> pairs_of vs (py_dset k w acc))"

definition py_dict :: "pyval \<Rightarrow> pydict option" where
  "py_dict v =
     (case v of
        PDict d \<Rightarrow> Some d
      | PList xs \<Rightarrow> pairs_of xs []
      | PStr [] \<Rightarrow> Some []
      | _ \<Rightarrow> None)"

definition string_fields :: "py_conversions \<Rightarrow> pyval \<Rightarrow> (string, string) dict option" where
  "string_fields cv v =
     map_option (\<lambda>d. fold (\<lambda>(k, w) acc. dset (py_str cv k) (py_str cv w) acc) d []) (py_dict v)"

text \<open>\<open>tuple(str(x) for x in value)\<close>: iterating a mapping gives its keys, a text its code points.\<close>

definition string_tuple :: "py_conversions \<Rightarrow> pyval \<Rightarrow> string list option" where
  "string_tuple cv v =
     (case v of
        PList xs \<Rightarrow> Some (map (py_str cv) xs)
      | PDict d \<Rightarrow> Some (map (py_str cv) (keys d))
      | PStr s \<Rightarrow> Some (code_points s)
      | _ \<Rightarrow> None)"

definition from_json :: "py_conversions \<Rightarrow> pydict \<Rightarrow> upload_task option" where
  "from_json cv p =
     Option.bind (py_int cv (pget_or p ''version'' (PInt 0))) (\<lambda>version.
     if version \<noteq> pending_version then None else
     Option.bind (required p ''execution_id'') (\<lambda>execution.
     Option.bind (required p ''lease_id'') (\<lambda>lease.
     Option.bind (required p ''node_key'') (\<lambda>node.
     Option.bind (Option.bind (required p ''status_fields'') (string_fields cv)) (\<lambda>status.
     Option.bind (required p ''kind'') (\<lambda>kind.
     Option.bind (py_int cv (pget_or p ''exit_code'' (PInt 1))) (\<lambda>exit_code.
     Option.bind (string_tuple cv (pget_or p ''expected_outputs'' (PList []))) (\<lambda>outputs.
     Option.bind (string_tuple cv (pget_or p ''command'' (PList []))) (\<lambda>command.
     Option.bind (py_int cv (py_or (pget p ''max_archive_bytes'') (PInt 0))) (\<lambda>max_bytes.
     Some \<lparr>up_execution_id = py_str cv execution, up_lease_id = py_str cv lease, up_node_key = py_str cv node,
       up_status_fields = status, up_kind = py_str cv kind,
       up_exec_kind = py_str cv (py_or (pget p ''exec_kind'') (PStr ''agent'')),
       up_code_result = pget p ''code_result'', up_exit_code = exit_code, up_expected_outputs = outputs,
       up_command = command, up_prebuilt_metadata = pget p ''prebuilt_metadata'',
       up_artifact_uploads = [], up_max_archive_bytes = max_bytes, up_restored = True\<rparr>))))))))))"

text \<open>What a restart keeps: the upload specifications are dropped and the ceiling is marked restored.\<close>

definition restored_task :: "upload_task \<Rightarrow> upload_task" where
  "restored_task t = t\<lparr>up_artifact_uploads := [], up_restored := True\<rparr>"

lemma string_fields_text:
  assumes "distinct (keys d)"
  shows "string_fields cv (PDict (map (\<lambda>(k, v). (PStr k, PStr v)) d)) = Some d"
proof -
  have "fold (\<lambda>(k, w) acc. dset (py_str cv k) (py_str cv w) acc) (map (\<lambda>(k, v). (PStr k, PStr v)) d) acc = acc @ d"
    if "distinct (keys (acc @ d))" for acc
    using that
  proof (induction d arbitrary: acc)
    case (Cons p d)
    obtain k v where p: "p = (k, v)" by force
    have "k \<notin> set (keys acc)" using Cons.prems by (auto simp: p keys_def)
    then have "dset k v acc = acc @ [(k, v)]" by (rule dset_new)
    with Cons.IH [of "acc @ [(k, v)]"] Cons.prems show ?case by (simp add: p py_str_def)
  qed simp
  from this [of "[]"] assms show ?thesis by (simp add: string_fields_def py_dict_def)
qed

lemma marker_fields:
  "pget_or (to_json t) ''version'' z = PInt pending_version"
  "required (to_json t) ''execution_id'' = Some (PStr (up_execution_id t))"
  "required (to_json t) ''lease_id'' = Some (PStr (up_lease_id t))"
  "required (to_json t) ''node_key'' = Some (PStr (up_node_key t))"
  "required (to_json t) ''status_fields'' = Some (PDict (map (\<lambda>(k, v). (PStr k, PStr v)) (up_status_fields t)))"
  "required (to_json t) ''kind'' = Some (PStr (up_kind t))"
  "pget (to_json t) ''exec_kind'' = PStr (up_exec_kind t)"
  "pget (to_json t) ''code_result'' = up_code_result t"
  "pget_or (to_json t) ''exit_code'' z = PInt (up_exit_code t)"
  "pget_or (to_json t) ''expected_outputs'' z = PList (map PStr (up_expected_outputs t))"
  "pget_or (to_json t) ''command'' z = PList (map PStr (up_command t))"
  "pget (to_json t) ''prebuilt_metadata'' = up_prebuilt_metadata t"
  "pget (to_json t) ''max_archive_bytes'' = PInt (up_max_archive_bytes t)"
  by (simp_all add: to_json_def required_def pget_def pget_or_def dget_default_def)

lemma marker_roundtrip:
  assumes "distinct (keys (up_status_fields t))" and "up_exec_kind t \<noteq> []"
  shows "from_json cv (to_json t) = Some (restored_task t)"
proof -
  have tuple: "string_tuple cv (PList (map PStr xs)) = Some xs" for xs
    by (simp add: string_tuple_def py_str_def comp_def)
  show ?thesis
    unfolding from_json_def marker_fields
    using assms(2) string_fields_text [OF assms(1)] tuple
    by (simp add: py_int_def py_or_def py_str_def restored_task_def)
qed

section \<open>Classes of Host answers\<close>

definition retryable_client_statuses :: "int list" where
  "retryable_client_statuses = [408, 425, 429]"

definition auth_lost_status :: int where
  "auth_lost_status = 401"

definition is_transient_status :: "int \<Rightarrow> bool" where
  "is_transient_status c \<longleftrightarrow> c \<ge> 500 \<or> c \<in> set retryable_client_statuses"

definition is_verdict_rejection :: "int \<Rightarrow> bool" where
  "is_verdict_rejection c \<longleftrightarrow> 400 \<le> c \<and> c < 500 \<and> c \<noteq> 409 \<and> c \<noteq> auth_lost_status
     \<and> c \<notin> set retryable_client_statuses"

lemma status_classes:
  "400 \<le> c \<Longrightarrow> is_transient_status c \<or> is_verdict_rejection c \<or> c = 409 \<or> c = auth_lost_status"
  by (auto simp: is_transient_status_def is_verdict_rejection_def)

lemma status_classes_exclusive:
  "is_verdict_rejection c \<Longrightarrow> \<not> is_transient_status c \<and> c \<noteq> 409 \<and> c \<noteq> auth_lost_status \<and> c \<noteq> 204"
  by (auto simp: is_transient_status_def is_verdict_rejection_def retryable_client_statuses_def)

section \<open>The downgrade gate\<close>

text \<open>
  A rewrite of the archive: only the failed metadata under a ceiling, or the failed metadata in place of
  the old one. The gate carries the rewrites so far; the archive it leaves is the last of them, and the
  prepared archive (\<open>None\<close>) as long as there is none: both writers replace the file at their very end, so one that
  raises leaves the archive as it was.
\<close>

datatype rewrite = MetadataOnly int | Embedded

record degrade_gate =
  dg_degraded :: bool
  dg_recycled :: bool
  dg_rewrites :: "rewrite list"

definition new_gate :: degrade_gate where
  "new_gate = \<lparr>dg_degraded = False, dg_recycled = False, dg_rewrites = []\<rparr>"

definition archive_of :: "degrade_gate \<Rightarrow> rewrite option" where
  "archive_of g = (if dg_rewrites g = [] then None else Some (last (dg_rewrites g)))"

text \<open>
  What the file operations do: replacing the metadata member succeeds, is given up with one of the
  exceptions the code catches, or raises another one; writing the metadata-only archive succeeds or raises;
  and so does measuring the new archive for the timer.
\<close>

datatype embed_result = Embed_Done | Embed_Given_Up | Embed_Raises

record archive_effects =
  ae_embed :: embed_result
  ae_rewritten :: bool
  ae_measured :: bool

text \<open>\<open>True\<close> is \<open>Report_Again\<close>, \<open>False\<close> is \<open>Terminal\<close>; \<open>Escapes\<close> is an exception out of the gate.\<close>

datatype gate_verdict = Report_Again | Terminal | Escapes

definition rewrite_archive :: "upload_task \<Rightarrow> int \<Rightarrow> archive_effects \<Rightarrow> degrade_gate \<Rightarrow> degrade_gate option" where
  "rewrite_archive t c e g =
     (let only = (\<lambda>stale. if ae_rewritten e
            then Some (g\<lparr>dg_recycled := True, dg_rewrites := dg_rewrites g @ [MetadataOnly (degrade_ceiling t stale)]\<rparr>)
            else None) in
      if c = 413 then only True
      else (case ae_embed e of
              Embed_Done \<Rightarrow> Some (g\<lparr>dg_rewrites := dg_rewrites g @ [Embedded]\<rparr>)
            | Embed_Given_Up \<Rightarrow> only False
            | Embed_Raises \<Rightarrow> None))"

definition on_rejection :: "upload_task \<Rightarrow> int \<Rightarrow> archive_effects \<Rightarrow> degrade_gate \<Rightarrow> gate_verdict \<times> degrade_gate" where
  "on_rejection t c e g =
     (if \<not> is_verdict_rejection c then (Terminal, g)
      else if dg_degraded g \<and> (c \<noteq> 413 \<or> dg_recycled g) then (Terminal, g)
      else (case rewrite_archive t c e g of
              None \<Rightarrow> (Escapes, g)
            | Some g1 \<Rightarrow> if ae_measured e then (Report_Again, g1\<lparr>dg_degraded := True\<rparr>) else (Escapes, g1)))"

definition gate_inv :: "degrade_gate \<Rightarrow> bool" where
  "gate_inv g \<longleftrightarrow> length (dg_rewrites g) \<le> (if dg_recycled g then 2 else if dg_degraded g then 1 else 0)
     \<and> (dg_recycled g \<longrightarrow> dg_degraded g) \<and> (dg_degraded g \<longrightarrow> dg_rewrites g \<noteq> [])"

lemma gate_inv_two: "gate_inv g \<Longrightarrow> length (dg_rewrites g) \<le> 2"
  by (auto simp: gate_inv_def split: if_splits)

lemma on_rejection_inv: "on_rejection t c e g = (Report_Again, g') \<Longrightarrow> gate_inv g \<Longrightarrow> gate_inv g'"
  by (auto simp: on_rejection_def rewrite_archive_def gate_inv_def Let_def split: if_splits option.splits embed_result.splits)

lemma on_rejection_again: "on_rejection t c e g = (Report_Again, g') \<Longrightarrow> is_verdict_rejection c"
  by (auto simp: on_rejection_def split: if_splits)

lemma on_rejection_two: "on_rejection t c e g = (v, g') \<Longrightarrow> gate_inv g \<Longrightarrow> length (dg_rewrites g') \<le> 2"
  by (auto simp: on_rejection_def rewrite_archive_def gate_inv_def Let_def split: if_splits option.splits embed_result.splits)

lemma on_rejection_refuses:
  "on_rejection t c e g = (Terminal, g') \<Longrightarrow> is_verdict_rejection c \<Longrightarrow> g' = g \<and> dg_degraded g"
  by (auto simp: on_rejection_def split: if_splits option.splits)

text \<open>After a size verdict the ceiling of the rewritten archive is the smallest any Host accepts.\<close>

lemma size_verdict_floor:
  "on_rejection t 413 e g = (Report_Again, g') \<Longrightarrow> archive_of g' = Some (MetadataOnly min_result_archive_bytes)"
  by (auto simp: on_rejection_def rewrite_archive_def archive_of_def degrade_ceiling_def Let_def split: if_splits)

section \<open>The report loop\<close>

text \<open>\<open>Report_Raises\<close>: the archive could not be opened, or another exception the loop does not catch.\<close>

datatype answer = Status int | Network_Failure | Transfer_Stopped | Report_Raises

text \<open>One turn: the shutdown flag and the lost-lease flag at its start, the answer, the lost-lease flag
  when the transfer was stopped, and what a rewrite of the archive would do.\<close>

record report_round =
  rr_shutdown :: bool
  rr_lost :: bool
  rr_answer :: answer
  rr_lost_after :: bool
  rr_effects :: archive_effects

text \<open>\<open>Raised\<close>: an exception leaves \<open>report_task\<close>; its caller logs it and counts the attempt as aborted.\<close>

datatype report_outcome = Delivered | Rejected | Lease_Lost | Aborted | Raised | Still_Retrying

text \<open>\<open>rp_reports\<close>: for each call of \<open>client.report\<close> the archive it sent and the answer.\<close>

record report_result =
  rp_outcome :: report_outcome
  rp_reports :: "(rewrite option \<times> answer) list"
  rp_waits :: "rat list"
  rp_gate :: degrade_gate

definition report_end ::
  "report_outcome \<Rightarrow> (rewrite option \<times> answer) list \<Rightarrow> rat list \<Rightarrow> degrade_gate \<Rightarrow> report_result" where
  "report_end out seen waits g = \<lparr>rp_outcome = out, rp_reports = seen, rp_waits = waits, rp_gate = g\<rparr>"

fun transient_answer :: "answer \<Rightarrow> bool" where
  "transient_answer (Status c) = is_transient_status c"
| "transient_answer Network_Failure = True"
| "transient_answer _ = False"

fun report_loop ::
  "upload_task \<Rightarrow> rat \<Rightarrow> report_round list \<Rightarrow> rat \<Rightarrow> (rewrite option \<times> answer) list \<Rightarrow> rat list \<Rightarrow> degrade_gate \<Rightarrow>
   report_result" where
  "report_loop t cap [] backoff seen waits g = report_end Still_Retrying seen waits g"
| "report_loop t cap (r # rs) backoff seen waits g =
     (if rr_shutdown r then report_end Aborted seen waits g
      else if rr_lost r then report_end Lease_Lost seen waits g
      else (let seen' = seen @ [(archive_of g, rr_answer r)] in
        if transient_answer (rr_answer r) then
          report_loop t cap rs (min (backoff * 2) cap) seen' (waits @ [backoff]) g
        else (case rr_answer r of
          Status c \<Rightarrow>
            if c = 204 then report_end Delivered seen' waits g
            else if c = auth_lost_status then report_end Aborted seen' waits g
            else (case on_rejection t c (rr_effects r) g of
                    (Report_Again, g') \<Rightarrow> report_loop t cap rs backoff seen' waits g'
                  | (Terminal, g') \<Rightarrow> report_end Rejected seen' waits g'
                  | (Escapes, g') \<Rightarrow> report_end Raised seen' waits g')
        | Report_Raises \<Rightarrow> report_end Raised seen' waits g
        | _ \<Rightarrow> report_end (if rr_lost_after r then Lease_Lost else Aborted) seen' waits g)))"

definition report_task :: "upload_task \<Rightarrow> report_round list \<Rightarrow> report_result" where
  "report_task t rounds = report_loop t 60 rounds 2 [] [] new_gate"

text \<open>\<open>drop_marker\<close> runs exactly for these outcomes.\<close>

definition marker_dropped :: "report_outcome \<Rightarrow> bool" where
  "marker_dropped out \<longleftrightarrow> out = Delivered \<or> out = Rejected \<or> out = Lease_Lost"

section \<open>What a finished loop promises\<close>

definition verdict_answer :: "answer \<Rightarrow> bool" where
  "verdict_answer a \<longleftrightarrow> (\<exists>c. a = Status c \<and> is_verdict_rejection c)"

text \<open>A failure is reported only after an answer that was a verdict.\<close>

definition honest_reports :: "(rewrite option \<times> answer) list \<Rightarrow> bool" where
  "honest_reports xs \<longleftrightarrow>
     (\<forall>i < length xs. fst (xs ! i) \<noteq> None \<longrightarrow> (\<exists>x \<in> set (take i xs). verdict_answer (snd x)))"

definition report_ok :: "report_result \<Rightarrow> bool" where
  "report_ok res \<longleftrightarrow> length (dg_rewrites (rp_gate res)) \<le> 2 \<and> honest_reports (rp_reports res)
     \<and> (rp_outcome res = Delivered \<longrightarrow> (\<exists>xs a. rp_reports res = xs @ [(a, Status 204)]))
     \<and> (rp_outcome res = Rejected \<longrightarrow> (\<exists>xs a c. rp_reports res = xs @ [(a, Status c)]
          \<and> \<not> is_transient_status c \<and> c \<noteq> 204 \<and> c \<noteq> auth_lost_status \<and> (is_verdict_rejection c \<longrightarrow> a \<noteq> None)))"

lemma honest_snoc:
  "honest_reports (xs @ [x]) \<longleftrightarrow> honest_reports xs \<and> (fst x \<noteq> None \<longrightarrow> (\<exists>y \<in> set xs. verdict_answer (snd y)))"
  by (simp add: honest_reports_def less_Suc_eq imp_conjL all_conj_distrib nth_append cong: imp_cong)

definition loop_inv :: "(rewrite option \<times> answer) list \<Rightarrow> degrade_gate \<Rightarrow> bool" where
  "loop_inv seen g \<longleftrightarrow> gate_inv g \<and> honest_reports seen
     \<and> (archive_of g \<noteq> None \<longrightarrow> (\<exists>x \<in> set seen. verdict_answer (snd x)))"

lemma loop_inv_report: "loop_inv seen g \<Longrightarrow> loop_inv (seen @ [(archive_of g, a)]) g"
  by (auto simp: loop_inv_def honest_snoc)

lemma loop_inv_again:
  assumes "loop_inv seen g" and "on_rejection t c e g = (Report_Again, g')"
  shows "loop_inv (seen @ [(archive_of g, Status c)]) g'"
  using assms on_rejection_inv [OF assms(2)] on_rejection_again [OF assms(2)]
  by (auto simp: loop_inv_def honest_snoc verdict_answer_def)

lemma report_end_ok:
  "length (dg_rewrites g) \<le> 2 \<Longrightarrow> honest_reports seen \<Longrightarrow> out \<noteq> Delivered \<Longrightarrow> out \<noteq> Rejected \<Longrightarrow>
    report_ok (report_end out seen waits g)"
  by (simp add: report_ok_def report_end_def)

lemma loop_inv_parts: "loop_inv seen g \<Longrightarrow> length (dg_rewrites g) \<le> 2" "loop_inv seen g \<Longrightarrow> honest_reports seen"
  by (auto simp: loop_inv_def gate_inv_two)

lemma refused_ok:
  assumes "loop_inv seen g" and "on_rejection t c e g = (Terminal, g')" and "\<not> is_transient_status c"
    and "c \<noteq> 204" and "c \<noteq> auth_lost_status"
  shows "report_ok (report_end Rejected (seen @ [(archive_of g, Status c)]) waits g')"
proof -
  have "archive_of g \<noteq> None" if "is_verdict_rejection c"
    using on_rejection_refuses [OF assms(2) that] assms(1) by (simp add: loop_inv_def gate_inv_def archive_of_def)
  moreover have "length (dg_rewrites g') \<le> 2"
    using on_rejection_two [OF assms(2)] assms(1) by (simp add: loop_inv_def)
  ultimately show ?thesis
    using loop_inv_parts(2) [OF loop_inv_report [OF assms(1)]] assms(3-5) by (simp add: report_ok_def report_end_def)
qed

lemma report_loop_ok: "loop_inv seen g \<Longrightarrow> report_ok (report_loop t cap rs backoff seen waits g)"
proof (induction t cap rs backoff seen waits g rule: report_loop.induct)
  case (2 t cap r rs backoff seen waits g)
  note two = loop_inv_parts(1) [OF 2(3)] and honest = loop_inv_parts(2) [OF 2(3)]
    and honest' = loop_inv_parts(2) [OF loop_inv_report [OF 2(3)]]
  consider "rr_shutdown r \<or> rr_lost r" | "\<not> rr_shutdown r" "\<not> rr_lost r" "transient_answer (rr_answer r)"
    | "\<not> rr_shutdown r" "\<not> rr_lost r" "\<not> transient_answer (rr_answer r)" by blast
  then show ?case
  proof cases
    case 1
    then show ?thesis by (auto simp: report_end_ok two honest)
  next
    case 2
    with "2.IH"(1) [OF 2(1,2) refl 2(3)] loop_inv_report [OF "2.prems"] show ?thesis by simp
  next
    case 3
    show ?thesis
    proof (cases "rr_answer r")
      case (Status c)
      obtain v g' where gate: "on_rejection t c (rr_effects r) g = (v, g')" by force
      have transient: "\<not> is_transient_status c" using 3(3) Status by simp
      show ?thesis
      proof (cases "c = 204 \<or> c = auth_lost_status")
        case True
        with 3 Status two honest' show ?thesis
          by (auto simp: report_end_ok auth_lost_status_def) (simp add: report_ok_def report_end_def)
      next
        case other: False
        show ?thesis
        proof (cases v)
          case Report_Again
          with 3 Status other gate loop_inv_again [OF "2.prems" gate [unfolded Report_Again]]
            "2.IH"(2) [OF 3(1,2) refl 3(3) Status]
          show ?thesis by simp
        next
          case Terminal
          with 3 Status other gate refused_ok [OF "2.prems" gate [unfolded Terminal] transient] show ?thesis by simp
        next
          case Escapes
          with 3 Status other gate honest' on_rejection_two [OF gate] "2.prems" show ?thesis
            by (simp add: report_end_ok loop_inv_def)
        qed
      qed
    qed (use 3 two honest' in \<open>auto simp: report_end_ok\<close>)
  qed
qed (simp add: report_end_ok loop_inv_parts)

section \<open>Properties\<close>

text \<open>C39. Delivery is sound and never gives up early: a result counts as delivered only when the answer
  to the last report was 204. A marker is dropped as rejected only on a definite answer (never on a transient one or
  on lost authentication), and when that answer is a verdict, the report it answers carried an honest failure instead of the
  prepared result. A failure is reported only after a verdict, and the archive is rewritten at most twice.\<close>

theorem report_task_sound: "report_ok (report_task t rounds)"
proof -
  have "loop_inv [] new_gate" by (simp add: loop_inv_def gate_inv_def new_gate_def archive_of_def honest_reports_def)
  then show ?thesis unfolding report_task_def by (rule report_loop_ok)
qed

end
