(* ===== verification/Upgrade_Diff.thy ===== *)
theory Upgrade_Diff
  imports Reset_Closure Node_Fields
begin

text \<open>
  Which nodes of a job an inherit upgrade has to run again: the comparators of
  \<open>server/app/services/job_workflow_upgrade_diff.py\<close>, the change seeds and the rerun closure of
  \<open>job_workflow_upgrade_propagation.py\<close>, and the legacy views of
  \<open>agent_profile_provenance.py\<close>. \<open>json.loads\<close> (\<open>None\<close>: it raises) and SHA-256 of a text are the
  functions of \<open>diff_env\<close>; the text itself is given by its normal form \<open>stable_json\<close>.
\<close>

record diff_env =
  de_loads :: "string \<Rightarrow> pyval option"
  de_sha :: "pyval \<Rightarrow> string"

section \<open>The signature of a node\<close>

definition runtime_adjustable_keys :: "string list" where
  "runtime_adjustable_keys = [''timeout_seconds'']"

definition without_runtime_adjustable :: "pydict \<Rightarrow> pydict" where
  "without_runtime_adjustable config = filter (\<lambda>(k, v). k \<notin> set (map PStr runtime_adjustable_keys)) config"

text \<open>
  The text of \<open>json.dumps(value, sort_keys=True)\<close>, as the value it denotes with the keys of
  every mapping in order. Keys are strings here, which the recursion leaves alone.
\<close>

fun key_text :: "pyval \<Rightarrow> string" where
  "key_text (PStr s) = s"
| "key_text _ = []"

primrec stable_json :: "pyval \<Rightarrow> pyval" where
  "stable_json PNone = PNone"
| "stable_json (PBool b) = PBool b"
| "stable_json (PInt i) = PInt i"
| "stable_json (PFloat q) = PFloat q"
| "stable_json (PStr s) = PStr s"
| "stable_json (PList xs) = PList (map stable_json xs)"
| "stable_json (PDict d) = PDict (sort_key (\<lambda>kv. key_text (fst kv)) (map (map_prod stable_json stable_json) d))"

definition str_list :: "string list \<Rightarrow> pyval" where
  "str_list xs = PList (map PStr xs)"

definition opt_value :: "('a \<Rightarrow> pyval) \<Rightarrow> 'a option \<Rightarrow> pyval" where
  "opt_value f v = (case v of None \<Rightarrow> PNone | Some x \<Rightarrow> f x)"

definition execution_dict :: "node_execution \<Rightarrow> pyval" where
  "execution_dict x = PDict [(PStr ''provider'', PStr (x_provider x)), (PStr ''model'', PStr (x_model x)),
     (PStr ''thinking'', PStr (x_thinking x)), (PStr ''prompt'', PStr (x_prompt x)),
     (PStr ''prompt_mode'', PStr (x_prompt_mode x)), (PStr ''runtime'', PStr (x_runtime x))]"

definition shard_dict :: "shard_spec \<Rightarrow> pyval" where
  "shard_dict s = PDict [(PStr ''over'', opt_value PStr (sh_over s)), (PStr ''count'', opt_value PInt (sh_count s)),
     (PStr ''max_concurrency'', opt_value PInt (sh_max_concurrency s)), (PStr ''max_shards'', PInt (sh_max_shards s))]"

text \<open>\<open>asdict(node)\<close> without \<open>key\<close> and \<open>label\<close>, and without the runtime-adjustable keys of \<open>config\<close>.\<close>

definition node_signature :: "workflow_node \<Rightarrow> pyval" where
  "node_signature n = PDict
     [(PStr ''capability'', PStr (n_capability n)),
      (PStr ''after'', str_list (n_after n)),
      (PStr ''inputs'', str_list (n_inputs n)),
      (PStr ''outputs'', str_list (n_outputs n)),
      (PStr ''terminal'', opt_value (\<lambda>t. PDict [(PStr ''outcome'', PStr (t_outcome t))]) (n_terminal n)),
      (PStr ''execution'', execution_dict (n_execution n)),
      (PStr ''config'', PDict (without_runtime_adjustable (n_config n))),
      (PStr ''config_schema'', PDict (n_config_schema n)),
      (PStr ''skill'', opt_value (\<lambda>s. PDict [(PStr ''key'', PStr (sk_key s)), (PStr ''ref'', PStr (sk_ref s))]) (n_skill n)),
      (PStr ''shard'', opt_value shard_dict (n_shard n)),
      (PStr ''reduce'', opt_value (\<lambda>r. PDict [(PStr ''from_node'', PStr (r_from_node r))]) (n_reduce n)),
      (PStr ''node_type'', PStr (n_type n)),
      (PStr ''accepted_item_types'', str_list (n_accepted n)),
      (PStr ''text_input'', opt_value (\<lambda>t. PDict [(PStr ''label'', PStr (ti_label t)),
          (PStr ''filename'', PStr (ti_filename t)), (PStr ''template'', PStr (ti_template t))]) (n_text_input n)),
      (PStr ''tools'', str_list (n_tools n)),
      (PStr ''requires_labels'', PDict (map (\<lambda>(k, v). (PStr k, PStr v)) (n_requires_labels n)))]"

definition node_definition_hash :: "diff_env \<Rightarrow> workflow_node \<Rightarrow> string" where
  "node_definition_hash env n = de_sha env (stable_json (node_signature n))"

section \<open>Frozen configuration, edges and exclusions\<close>

definition frozen_config_section :: "diff_env \<Rightarrow> string option \<Rightarrow> string \<Rightarrow> pydict" where
  "frozen_config_section env frozen k =
     (case frozen of
        None \<Rightarrow> []
      | Some text \<Rightarrow>
          if text = [] then []
          else (case de_loads env text of
                  Some (PDict payload) \<Rightarrow>
                    (case pget payload k of PDict section \<Rightarrow> without_runtime_adjustable section | _ \<Rightarrow> [])
                | _ \<Rightarrow> []))"

text \<open>\<open>runtime_mutable_keys\<close>: the properties declared \<open>runtime_mutable: true\<close> that are not reserved.\<close>

fun is_mutable_property :: "pyval \<Rightarrow> bool" where
  "is_mutable_property (PDict prop) = (pget prop ''runtime_mutable'' = PBool True)"
| "is_mutable_property _ = False"

definition runtime_mutable_keys :: "pydict \<Rightarrow> pyval list" where
  "runtime_mutable_keys schema =
     (case pget schema ''properties'' of
        PDict props \<Rightarrow> filter (\<lambda>k. k \<notin> set (map PStr reserved_execution_keys))
            (map fst (filter (\<lambda>(k, prop). is_mutable_property prop) props))
      | _ \<Rightarrow> [])"

definition has_runtime_mutable_keys :: "workflow_node \<Rightarrow> bool" where
  "has_runtime_mutable_keys n \<longleftrightarrow> runtime_mutable_keys (n_config_schema n) \<noteq> []"

text \<open>
  \<open>proven\<close> are the nodes whose \<open>latest\<close> skill content is proven unchanged. The first test returns
  for every node with a \<open>latest\<close> skill.
\<close>

definition node_is_inherit_excluded :: "workflow_node \<Rightarrow> string list option \<Rightarrow> bool" where
  "node_is_inherit_excluded n proven =
     (case n_skill n of
        Some sk \<Rightarrow>
          if (if sk_ref sk = [] then latest_ref else sk_ref sk) = latest_ref
          then (case proven of None \<Rightarrow> True | Some ks \<Rightarrow> n_key n \<notin> set ks)
          else if n_shard n \<noteq> None \<or> n_reduce n \<noteq> None then True
          else if n_type n = ''approval'' then True
          else has_runtime_mutable_keys n
      | None \<Rightarrow>
          if n_shard n \<noteq> None \<or> n_reduce n \<noteq> None then True
          else if n_type n = ''approval'' then True
          else has_runtime_mutable_keys n)"

definition condition_dict :: "workflow_condition \<Rightarrow> pyval" where
  "condition_dict c = PDict [(PStr ''artifact'', PStr (c_artifact c)), (PStr ''path'', PStr (c_path c)),
     (PStr ''equals'', c_equals c)]"

definition edge_signature :: "workflow_edge list \<Rightarrow> pyval" where
  "edge_signature es = PList (map (\<lambda>e. PDict ((PStr ''source'', PStr (e_source e)) #
     (case e_condition e of None \<Rightarrow> [] | Some c \<Rightarrow> [(PStr ''condition'', condition_dict c)]))) es)"

section \<open>Change seeds\<close>

text \<open>The body of the loop over the executable nodes of the new definition.\<close>

definition is_change_seed ::
  "diff_env \<Rightarrow> workflow_definition \<Rightarrow> string option \<Rightarrow> workflow_definition \<Rightarrow> string option \<Rightarrow>
   (string, workflow_node) dict \<Rightarrow> string list option \<Rightarrow> string \<Rightarrow> workflow_node \<Rightarrow> bool" where
  "is_change_seed env old old_frozen new new_frozen views proven k n =
     (case dget (executable_nodes old) k of
        None \<Rightarrow> True
      | Some old_node \<Rightarrow>
          if node_definition_hash env old_node \<notin> set (node_definition_hash env n
               # (case dget views k of None \<Rightarrow> [] | Some v \<Rightarrow> [node_definition_hash env v])) then True
          else if \<not> py_eq (PDict (frozen_config_section env old_frozen k))
                      (PDict (frozen_config_section env new_frozen k)) then True
          else if \<not> py_eq (edge_signature (incoming_edges old k)) (edge_signature (incoming_edges new k)) then True
          else node_is_inherit_excluded n proven)"

definition collect_change_seeds ::
  "diff_env \<Rightarrow> workflow_definition \<Rightarrow> string option \<Rightarrow> workflow_definition \<Rightarrow> string option \<Rightarrow>
   string list \<Rightarrow> (string, workflow_node) dict \<Rightarrow> string list option \<Rightarrow> string list" where
  "collect_change_seeds env old old_frozen new new_frozen impl_excluded views proven =
     impl_excluded @ keys (filter (\<lambda>(k, n). is_change_seed env old old_frozen new new_frozen views proven k n)
       (executable_nodes new))"

definition rerun_closure :: "workflow_definition \<Rightarrow> string list \<Rightarrow> closure_error + string list" where
  "rerun_closure d seeds =
     (let executable = keys (executable_nodes d);
          start = filter (\<lambda>k. k \<in> set executable) seeds;
          reset = dedup (start @ filter (\<lambda>k. k \<in> set executable) (walk_downstream (dependency_children d) start));
          keep = filter (\<lambda>k. k \<notin> set reset) executable
      in bindE (shared_name_rerun_closure d keep reset) (\<lambda>excluded. Inr (reset @ excluded)))"

definition compute_inherit_reset_nodes ::
  "diff_env \<Rightarrow> workflow_definition \<Rightarrow> string option \<Rightarrow> workflow_definition \<Rightarrow> string option \<Rightarrow>
   string list \<Rightarrow> string list option \<Rightarrow> closure_error + string list" where
  "compute_inherit_reset_nodes env old old_frozen new new_frozen impl_excluded proven =
     rerun_closure new (collect_change_seeds env old old_frozen new new_frozen impl_excluded [] proven)"

section \<open>The rerun closure as a least fixpoint\<close>

text \<open>
  What must run again: the executable seeds, the executable nodes below a rerun node, and every
  executable node that writes a name which a rerun node also writes.
\<close>

inductive_set must_rerun :: "workflow_definition \<Rightarrow> string set \<Rightarrow> string set"
  for d :: workflow_definition and seeds :: "string set" where
  seed: "k \<in> seeds \<Longrightarrow> k \<in> set (keys (executable_nodes d)) \<Longrightarrow> k \<in> must_rerun d seeds"
| dependent: "x \<in> must_rerun d seeds \<Longrightarrow> (x, y) \<in> merged_graph d \<Longrightarrow> y \<in> must_rerun d seeds"
| sharing: "f \<in> must_rerun d seeds \<Longrightarrow> x \<in> set (outputs_of d f) \<Longrightarrow> x \<in> set (outputs_of d k) \<Longrightarrow>
    k \<in> set (keys (executable_nodes d)) \<Longrightarrow> k \<in> must_rerun d seeds"

lemma trigger_names_all [simp]: "trigger_names d False k = outputs_of d k"
  by (auto simp: trigger_names_def outputs_of_def split: option.splits)

lemma executable_keys: "set (keys (executable_nodes d)) \<subseteq> set (node_keys d)"
  by (auto simp: executable_nodes_def node_keys_def keys_def)

lemma must_rerun_executable:
  assumes "start_isolated d" and "k \<in> must_rerun d seeds"
  shows "k \<in> set (keys (executable_nodes d))"
  using assms(2,1) by induction (auto simp: start_isolated_def)

lemma must_rerun_mono: "A \<subseteq> B \<Longrightarrow> k \<in> must_rerun d A \<Longrightarrow> k \<in> must_rerun d B"
  by (erule must_rerun.induct) (blast intro: must_rerun.intros)+

lemma shares_name_must_rerun:
  "shares_name d False (must_rerun d seeds) k \<Longrightarrow> k \<in> set (keys (executable_nodes d)) \<Longrightarrow> k \<in> must_rerun d seeds"
  by (auto simp: shares_name_def intro: must_rerun.sharing)

lemma rerun_closure_defined:
  assumes wf: "wf_shape d" and iso: "start_isolated d"
  shows "\<exists>S. rerun_closure d seeds = Inr S \<and> set S = must_rerun d (set seeds)"
proof -
  define E where "E = keys (executable_nodes d)"
  define start where "start = filter (\<lambda>k. k \<in> set E) seeds"
  define reset where "reset = dedup (start @ filter (\<lambda>k. k \<in> set E) (walk_downstream (dependency_children d) start))"
  define keep where "keep = filter (\<lambda>k. k \<notin> set reset) E"
  define R where "R = shared_loop d keep reset False []"
  let ?M = "must_rerun d (set seeds)"
  have down: "set (walk_downstream (dependency_children d) start) = (merged_graph d)\<^sup>+ `` set start"
    by (simp add: set_walk_downstream edge_rel_children [OF wf])
  have reset: "set reset = set start \<union> ((merged_graph d)\<^sup>+ `` set start \<inter> set E)"
    by (auto simp: reset_def down)
  have known: "shared_name_rerun_closure d keep reset = Inr R"
    using reset executable_keys [of d]
    by (auto simp: shared_name_rerun_closure_def known_face_Inr R_def start_def E_def)
  have closure: "rerun_closure d seeds = Inr (reset @ R)"
    using known unfolding rerun_closure_def Let_def E_def start_def reset_def keep_def by simp
  have closed: "merged_graph d `` ?M \<subseteq> ?M" by (auto intro: must_rerun.dependent)
  have start: "set start \<subseteq> ?M" by (auto simp: start_def E_def intro: must_rerun.seed)
  then have "(merged_graph d)\<^sup>+ `` set start \<subseteq> ?M" by (rule trancl_image_closed [OF closed])
  with start reset have face: "set reset \<subseteq> ?M" by auto
  have "set R \<subseteq> ?M"
    unfolding R_def by (rule shared_loop_least [OF wf face _ closed])
      (auto simp: keep_def E_def intro: shares_name_must_rerun)
  with face have sound: "set (reset @ R) \<subseteq> ?M" by simp
  have kept: "set R \<subseteq> set keep" unfolding R_def by (rule shared_loop_keep) simp
  have "k \<in> set (reset @ R)" if "k \<in> ?M" for k
    using that
  proof induction
    case (seed k)
    then show ?case by (simp add: reset start_def E_def)
  next
    case (dependent x y)
    have y: "y \<in> set E" using dependent.hyps(2) iso by (auto simp: start_isolated_def E_def)
    show ?case
    proof (cases "y \<in> set reset")
      case False
      then have yk: "y \<in> set keep" using y by (simp add: keep_def)
      have "x \<notin> set reset"
      proof
        assume "x \<in> set reset"
        then have "y \<in> (merged_graph d)\<^sup>+ `` set start"
          using dependent.hyps(2) reset by (auto intro: trancl_into_trancl)
        with y False reset show False by blast
      qed
      with dependent.IH have "x \<in> set R" by simp
      then have "y \<in> set R"
        using shared_loop_downstream [OF wf, of "[]" keep x reset False y] yk dependent.hyps(2)
        by (auto simp: R_def)
      then show ?thesis by simp
    qed simp
  next
    case (sharing f x k)
    show ?case
    proof (cases "k \<in> set reset")
      case False
      then have "k \<in> set keep" using sharing by (simp add: keep_def E_def)
      moreover have "shares_name d False (set reset \<union> set R) k"
        using sharing by (auto simp: shares_name_def)
      ultimately show ?thesis using shared_loop_names [of k keep d False reset "[]"] by (simp add: R_def)
    qed simp
  qed
  with sound closure show ?thesis by blast
qed

end
