(* ===== verification/Upgrade_Identity.thy ===== *)
theory Upgrade_Identity
  imports Upgrade_Diff
begin

text \<open>
  Which nodes provably ran the implementation that a new run would use:
  \<open>job_workflow_upgrade_impl.py\<close> (code and Agent definitions), \<open>job_workflow_upgrade_skill.py\<close>
  (skill content), \<open>job_workflow_upgrade_skill_heads.py\<close> (the heads of \<open>latest\<close> skills), the node
  profiles of \<open>agent_node_profile.py\<close> and the legacy views of \<open>agent_profile_provenance.py\<close>.
  What the services read (the Agent catalog, published code, execution records, the skill lock) is
  in \<open>identity_env\<close>; \<open>None\<close> stands for a read that failed.
\<close>

section \<open>Node profiles\<close>

record agent_definition =
  ag_capability :: string
  ag_runtime :: string
  ag_skill :: string
  ag_tools :: "string list"
  ag_labels :: "(string, string) dict"
  ag_schema :: pydict

type_synonym agent_catalog = "(string, agent_definition) dict"

text \<open>A profile is its dispatch definition; \<open>True\<close> marks the source \<open>node\<close>.\<close>

record agent_profile =
  ap_from_node :: bool
  ap_agent :: "string option"
  ap_definition :: agent_definition

definition build_capability_index :: "agent_catalog \<Rightarrow> (string, string list) dict" where
  "build_capability_index catalog =
     fold (\<lambda>(agent, def) idx. dset (ag_capability def) (dget_default [] idx (ag_capability def) @ [agent]) idx) catalog []"

text \<open>The scan without an index, and the lookup with one.\<close>

definition legacy_agent_candidates :: "workflow_node \<Rightarrow> agent_catalog \<Rightarrow> string list" where
  "legacy_agent_candidates n catalog =
     map fst (filter (\<lambda>(agent, def). ag_capability def = n_capability n) catalog)"

definition indexed_agent_candidates :: "workflow_node \<Rightarrow> (string, string list) dict \<Rightarrow> string list" where
  "indexed_agent_candidates n idx = dget_default [] idx (n_capability n)"

definition profile_from_definition :: "string \<Rightarrow> agent_definition \<Rightarrow> agent_profile" where
  "profile_from_definition agent def = \<lparr>ap_from_node = False, ap_agent = Some agent, ap_definition = def\<rparr>"

definition profile_from_node :: "string list \<Rightarrow> workflow_node \<Rightarrow> agent_profile" where
  "profile_from_node default_tools n = \<lparr>ap_from_node = True, ap_agent = None, ap_definition =
     \<lparr>ag_capability = n_capability n, ag_runtime = x_runtime (n_execution n), ag_skill = [],
      ag_tools = (if n_tools n = [] then default_tools else n_tools n),
      ag_labels = n_requires_labels n, ag_schema = n_config_schema n\<rparr>\<rparr>"

definition resolve_agent_node_profile ::
  "string list \<Rightarrow> workflow_node \<Rightarrow> agent_catalog \<Rightarrow> (string, string list) dict \<Rightarrow> agent_profile option" where
  "resolve_agent_node_profile default_tools n catalog idx =
     (if n_type n \<noteq> ''agent'' then None
      else if is_self_contained_agent_node n then Some (profile_from_node default_tools n)
      else (case indexed_agent_candidates n idx of
              [agent] \<Rightarrow> map_option (profile_from_definition agent) (dget catalog agent)
            | _ \<Rightarrow> None))"

lemma index_candidates:
  "indexed_agent_candidates n (build_capability_index catalog) = legacy_agent_candidates n catalog"
proof -
  have "dget_default [] (fold (\<lambda>(agent, def) idx. dset (ag_capability def)
          (dget_default [] idx (ag_capability def) @ [agent]) idx) catalog idx) (n_capability n)
      = dget_default [] idx (n_capability n) @ legacy_agent_candidates n catalog" for idx
    by (induction catalog arbitrary: idx) (auto simp: legacy_agent_candidates_def dget_default_def split: option.splits)
  from this [of "[]"] show ?thesis
    by (simp add: indexed_agent_candidates_def build_capability_index_def dget_default_def)
qed

section \<open>Skill content\<close>

text \<open>\<open>(kind, agent_definition_hash, skill_commit, skill_version)\<close> of the newest completed run.\<close>

record execution_identity =
  xi_kind :: string
  xi_hash :: string
  xi_commit :: string
  xi_version :: string

type_synonym skills_lock = "(string, (string, string) dict) dict"

definition effective_skill_binding :: "workflow_node \<Rightarrow> agent_profile option \<Rightarrow> (string \<times> string) option" where
  "effective_skill_binding n profile =
     (case effective_node_skill n (case profile of None \<Rightarrow> [] | Some p \<Rightarrow> ag_skill (ap_definition p)) of
        Inl _ \<Rightarrow> None
      | Inr binding \<Rightarrow> Some binding)"

text \<open>\<open>version.rsplit("@", 1)[1]\<close> when there is an \<open>@\<close>.\<close>

definition executed_skill_commit :: "execution_identity \<Rightarrow> string" where
  "executed_skill_commit r =
     (if xi_commit r \<noteq> [] then xi_commit r
      else if CHR ''@'' \<in> set (xi_version r) then last (split_on (CHR ''@'') (xi_version r))
      else [])"

definition skill_commit_matches ::
  "skills_lock option \<Rightarrow> string \<times> string \<Rightarrow> execution_identity \<Rightarrow> string option \<Rightarrow> bool" where
  "skill_commit_matches lock binding r latest_commit =
     (let bound = (if snd binding = [] then latest_ref else snd binding);
          executed = executed_skill_commit r
      in if bound = latest_ref then
           (case latest_commit of
              None \<Rightarrow> False
            | Some head \<Rightarrow> if head = [] \<or> executed = [] then False else take (length executed) head = executed)
         else if executed = [] then False
         else (case (case lock of None \<Rightarrow> None | Some l \<Rightarrow>
                 (case dget l (fst binding) of None \<Rightarrow> None | Some pins \<Rightarrow> dget pins bound)) of
                 None \<Rightarrow> False
               | Some current \<Rightarrow> if current = [] then False else take (length executed) current = executed))"

definition skill_excluded_nodes ::
  "(string, agent_profile) dict \<Rightarrow> workflow_definition \<Rightarrow> (string, execution_identity) dict \<Rightarrow>
   skills_lock option \<Rightarrow> (string, string option) dict \<Rightarrow> string list" where
  "skill_excluded_nodes resolved d executed lock heads =
     keys (filter (\<lambda>(k, n).
       n_type n = ''agent''
       \<and> (case effective_skill_binding n (dget resolved k) of
            None \<Rightarrow> False
          | Some binding \<Rightarrow>
              (case dget executed k of
                 None \<Rightarrow> True
               | Some r \<Rightarrow> \<not> skill_commit_matches lock binding r (dget_default None heads (fst binding)))))
       (executable_nodes d))"

section \<open>Implementation identity\<close>

record identity_env =
  ie_default_tools :: "string list"
  ie_definition_hash :: "agent_definition \<Rightarrow> string option"
  ie_catalog :: "agent_catalog option"
  ie_code_hash :: "string \<Rightarrow> string option"
  ie_executed :: "(string, execution_identity) dict"
  ie_lock :: "skills_lock option"

definition resolved_agent_nodes :: "identity_env \<Rightarrow> workflow_definition \<Rightarrow> (string, agent_profile) dict" where
  "resolved_agent_nodes env d =
     (let catalog = (case ie_catalog env of None \<Rightarrow> [] | Some c \<Rightarrow> c);
          idx = build_capability_index catalog
      in [(k, p). (k, n) \<leftarrow> executable_nodes d,
            p \<leftarrow> (case resolve_agent_node_profile (ie_default_tools env) n catalog idx of None \<Rightarrow> [] | Some p \<Rightarrow> [p])])"

definition current_agent_identities :: "identity_env \<Rightarrow> workflow_definition \<Rightarrow> (string, string) dict" where
  "current_agent_identities env d =
     [(k, h). (k, p) \<leftarrow> resolved_agent_nodes env d,
        h \<leftarrow> (case ie_definition_hash env (ap_definition p) of None \<Rightarrow> [] | Some h \<Rightarrow> [h])]"

definition agent_definition_mutable_nodes :: "identity_env \<Rightarrow> workflow_definition \<Rightarrow> string list" where
  "agent_definition_mutable_nodes env d =
     keys (filter (\<lambda>(k, p). runtime_mutable_keys (ag_schema (ap_definition p)) \<noteq> []) (resolved_agent_nodes env d))"

definition current_code_identities :: "identity_env \<Rightarrow> bool \<Rightarrow> workflow_definition \<Rightarrow> (string, string) dict" where
  "current_code_identities env custom_nodes_enabled d =
     (if \<not> custom_nodes_enabled then []
      else [(k, h). (k, n) \<leftarrow> executable_nodes d, n_type n \<noteq> ''agent'',
              h \<leftarrow> (case ie_code_hash env k of None \<Rightarrow> [] | Some h \<Rightarrow> [h])])"

text \<open>The body of the last loop: is the identity of node \<open>k\<close> not proven?\<close>

definition identity_unproven ::
  "(string, string) dict \<Rightarrow> (string, string) dict \<Rightarrow> (string, string) dict \<Rightarrow> (string, execution_identity) dict \<Rightarrow>
   string \<Rightarrow> workflow_node \<Rightarrow> bool" where
  "identity_unproven agent_current code_current inlined executed k n =
     (case dget executed k of
        None \<Rightarrow> True
      | Some r \<Rightarrow>
          if xi_hash r = [] then True
          else (let current = (if n_type n = ''agent'' then dget agent_current k else dget code_current k);
                    inlined_from = dget_default [] inlined k
                in if n_type n = ''agent'' \<and> inlined_from \<noteq> [] \<and> xi_hash r = inlined_from then False
                   else current \<noteq> Some (xi_hash r)))"

text \<open>\<open>inlined\<close>: the \<open>definition_hash\<close> of each provenance entry of the target revision.\<close>

definition implementation_excluded_nodes ::
  "identity_env \<Rightarrow> bool \<Rightarrow> (string, string) dict \<Rightarrow> (string, string option) dict \<Rightarrow> workflow_definition \<Rightarrow> string list" where
  "implementation_excluded_nodes env custom_nodes_enabled inlined heads d =
     (if executable_nodes d = [] then []
      else agent_definition_mutable_nodes env d
        @ skill_excluded_nodes (resolved_agent_nodes env d) d (ie_executed env) (ie_lock env) heads
        @ keys (filter (\<lambda>(k, n). identity_unproven (current_agent_identities env d)
            (current_code_identities env custom_nodes_enabled d) inlined (ie_executed env) k n) (executable_nodes d)))"

section \<open>The heads of latest skills\<close>

record latest_heads =
  lh_commits :: "(string, string option) dict"
  lh_bound :: "string list"

definition segment_char :: "char \<Rightarrow> bool" where
  "segment_char c \<longleftrightarrow> CHR ''0'' \<le> c \<and> c \<le> CHR ''9'' \<or> CHR ''A'' \<le> c \<and> c \<le> CHR ''Z'' \<or> CHR ''a'' \<le> c \<and> c \<le> CHR ''z''"

definition is_segment :: "string \<Rightarrow> bool" where
  "is_segment s \<longleftrightarrow> s \<noteq> [] \<and> segment_char (hd s) \<and> list_all (\<lambda>c. segment_char c \<or> c \<in> set ''._-'') s"

text \<open>The two path components below the skill root.\<close>

definition skill_repo_dir :: "string \<Rightarrow> (string \<times> string) option" where
  "skill_repo_dir skill =
     (case split_on (CHR ''/'') skill of
        [grp, name] \<Rightarrow> if is_segment grp \<and> is_segment name then Some (grp, name) else None
      | _ \<Rightarrow> None)"

definition rev_parse_timeout :: rat where
  "rev_parse_timeout = 5"

definition rev_parse_budget :: rat where
  "rev_parse_budget = 30"

text \<open>
  The loop over the sorted skill keys. \<open>git\<close> is one bounded call in the world \<open>'w\<close>; \<open>clock\<close> reads
  the monotonic time.
\<close>

fun resolve_heads ::
  "('w \<Rightarrow> rat) \<Rightarrow> (string \<times> string \<Rightarrow> 'w \<Rightarrow> string option \<times> 'w) \<Rightarrow> rat \<Rightarrow> string list \<Rightarrow> 'w \<Rightarrow>
   (string, string option) dict \<times> 'w" where
  "resolve_heads clock git deadline [] w = ([], w)"
| "resolve_heads clock git deadline (skill # rest) w =
     (case skill_repo_dir skill of
        None \<Rightarrow> (case resolve_heads clock git deadline rest w of (hs, w') \<Rightarrow> ((skill, None) # hs, w'))
      | Some repo \<Rightarrow>
          if deadline - clock w < rev_parse_timeout
          then (case resolve_heads clock git deadline rest w of (hs, w') \<Rightarrow> ((skill, None) # hs, w'))
          else (case git repo w of (head, w1) \<Rightarrow>
            (case resolve_heads clock git deadline rest w1 of (hs, w') \<Rightarrow> ((skill, head) # hs, w'))))"

definition latest_bindings :: "identity_env \<Rightarrow> agent_catalog \<Rightarrow> workflow_definition \<Rightarrow> (string \<times> string) list" where
  "latest_bindings env catalog d =
     [(k, fst binding). (k, n) \<leftarrow> executable_nodes d, n_type n = ''agent'',
        binding \<leftarrow> (case effective_skill_binding n
            (resolve_agent_node_profile (ie_default_tools env) n catalog (build_capability_index catalog)) of
              None \<Rightarrow> [] | Some b \<Rightarrow> [b]),
        (if snd binding = [] then latest_ref else snd binding) = latest_ref]"

definition resolve_latest_skill_heads ::
  "('w \<Rightarrow> rat) \<Rightarrow> (string \<times> string \<Rightarrow> 'w \<Rightarrow> string option \<times> 'w) \<Rightarrow> identity_env \<Rightarrow> workflow_definition \<Rightarrow> 'w \<Rightarrow>
   latest_heads \<times> 'w" where
  "resolve_latest_skill_heads clock git env d w =
     (case ie_catalog env of
        None \<Rightarrow> (\<lparr>lh_commits = [], lh_bound = []\<rparr>, w)
      | Some catalog \<Rightarrow>
          (let bindings = latest_bindings env catalog d in
           case resolve_heads clock git (clock w + rev_parse_budget) (sort (dedup (map snd bindings))) w of
             (hs, w') \<Rightarrow> (\<lparr>lh_commits = hs, lh_bound = map fst bindings\<rparr>, w')))"

definition latest_proven_nodes :: "latest_heads option \<Rightarrow> string list \<Rightarrow> string list option" where
  "latest_proven_nodes heads impl_excluded =
     (case heads of
        None \<Rightarrow> None
      | Some h \<Rightarrow> Some (filter (\<lambda>k. k \<notin> set impl_excluded) (lh_bound h)))"

text \<open>The batch ends within its budget when every call keeps its own timeout.\<close>

lemma resolve_heads_deadline:
  assumes "\<And>repo w. clock w \<le> clock (snd (git repo w)) \<and> clock (snd (git repo w)) \<le> clock w + rev_parse_timeout"
    and "clock w \<le> deadline"
  shows "clock (snd (resolve_heads clock git deadline skills w)) \<le> deadline"
  using assms(2)
proof (induction skills arbitrary: w)
  case (Cons skill rest)
  show ?case
  proof (cases "skill_repo_dir skill")
    case None
    with Cons show ?thesis by (simp add: case_prod_beta)
  next
    case (Some repo)
    show ?thesis
    proof (cases "deadline - clock w < rev_parse_timeout")
      case True
      with Some Cons show ?thesis by (simp add: case_prod_beta)
    next
      case False
      obtain head w1 where g: "git repo w = (head, w1)" by force
      have "clock w1 \<le> deadline" using False assms(1) [of w repo] g by simp
      from Cons.IH [OF this] Some False g show ?thesis by (simp add: case_prod_beta)
    qed
  qed
qed simp

lemma resolve_heads_keys: "keys (fst (resolve_heads clock git deadline skills w)) = skills"
  by (induction skills arbitrary: w) (auto simp: case_prod_beta split: option.splits)

section \<open>Legacy views\<close>

text \<open>
  The provenance of an inlined profile: the hash of the Agent definition it came from and the
  profile fields of the node before inlining (well-formed entries, as the migration writes them).
\<close>

record profile_restore =
  pr_runtime :: string
  pr_labels :: "(string, string) dict"
  pr_tools :: "string list"
  pr_schema :: pydict
  pr_skill :: "(string \<times> string) option"

record provenance_entry =
  pe_hash :: string
  pe_restore :: profile_restore

definition legacy_view :: "workflow_node \<Rightarrow> provenance_entry \<Rightarrow> workflow_node" where
  "legacy_view n entry =
     (let r = pe_restore entry in
      n\<lparr>n_execution := (n_execution n)\<lparr>x_runtime := pr_runtime r\<rparr>,
        n_requires_labels := pr_labels r, n_tools := pr_tools r, n_config_schema := pr_schema r,
        n_skill := map_option (\<lambda>(k, ref). \<lparr>sk_key = k, sk_ref = (if ref = [] then latest_ref else ref)\<rparr>) (pr_skill r)\<rparr>)"

definition upgrade_legacy_views ::
  "workflow_definition \<Rightarrow> workflow_definition \<Rightarrow> (string, provenance_entry) dict \<Rightarrow> (string, workflow_node) dict" where
  "upgrade_legacy_views old new provenance =
     [(k, legacy_view n entry). (k, entry) \<leftarrow> provenance,
        n \<leftarrow> (case (dget (d_nodes new) k, dget (d_nodes old) k) of
                (Some n, Some o1) \<Rightarrow>
                  if n_type o1 \<noteq> ''agent'' then []
                  else if is_self_contained_agent_node o1 \<or> \<not> is_self_contained_agent_node n then []
                  else [n]
              | _ \<Rightarrow> [])]"

text \<open>\<open>carry_forward_provenance\<close>: an entry survives while the profile fields stay the same.\<close>

definition profile_fields ::
  "workflow_node \<Rightarrow> string \<times> (string \<times> string) list \<times> string list \<times> pyval \<times> (string \<times> string) option" where
  "profile_fields n = (x_runtime (n_execution n), sort_key fst (n_requires_labels n), n_tools n,
     stable_json (PDict (n_config_schema n)), map_option (\<lambda>s. (sk_key s, sk_ref s)) (n_skill n))"

definition carry_forward_provenance ::
  "workflow_definition option \<Rightarrow> workflow_definition \<Rightarrow> (string, provenance_entry) dict \<Rightarrow> (string, provenance_entry) dict" where
  "carry_forward_provenance previous d provenance =
     (case previous of
        None \<Rightarrow> []
      | Some before \<Rightarrow>
          filter (\<lambda>(k, entry).
            case (dget (d_nodes d) k, dget (d_nodes before) k) of
              (Some n, Some b) \<Rightarrow> is_self_contained_agent_node n \<and> profile_fields n = profile_fields b
            | _ \<Rightarrow> False) provenance)"

text \<open>A legacy view keeps everything outside the profile, in particular the artifacts.\<close>

lemma legacy_view_artifacts [simp]:
  "n_inputs (legacy_view n e) = n_inputs n" "n_outputs (legacy_view n e) = n_outputs n"
  "n_key (legacy_view n e) = n_key n" "n_config (legacy_view n e) = n_config n"
  by (simp_all add: legacy_view_def Let_def)

lemma upgrade_legacy_views_get:
  assumes "dget (upgrade_legacy_views old new provenance) k = Some v"
  shows "\<exists>n entry. dget (d_nodes new) k = Some n \<and> (k, entry) \<in> set provenance \<and> v = legacy_view n entry"
proof -
  from assms have "(k, v) \<in> set (upgrade_legacy_views old new provenance)" by (rule map_of_SomeD)
  then show ?thesis
    by (auto simp: upgrade_legacy_views_def split: option.splits if_splits) metis
qed

end
