(* ===== verification/Upgrade_Plan.thy ===== *)
theory Upgrade_Plan
  imports Upgrade_Identity
begin

text \<open>
  Which completed nodes an inherit upgrade keeps: the reachability of their artifacts
  (\<open>server/app/services/job_workflow_upgrade_inherit.py\<close>) and the plan
  (\<open>job_workflow_upgrade_plan.py\<close>). The plan is shown to be the greatest set of nodes that are
  individually proven and closed under dependencies and shared names.
\<close>

text \<open>
  What the plan reads of the job: its parsed snapshot (\<open>None\<close>: not parsable), its frozen
  configuration, whether its directory resolves, its manifest rows and its local files.
\<close>

record plan_env =
  pl_diff :: diff_env
  pl_identity :: identity_env
  pl_snapshot :: "workflow_definition option"
  pl_frozen :: "string option"
  pl_dir_ok :: bool
  pl_manifest :: "(string \<times> string) list"
  pl_local :: "string \<Rightarrow> bool"

definition declared_outputs :: "workflow_definition option \<Rightarrow> string list \<Rightarrow> (string, string list) dict" where
  "declared_outputs snapshot ks =
     (case snapshot of
        None \<Rightarrow> []
      | Some d \<Rightarrow> map (\<lambda>(k, n). (k, n_outputs n)) (filter (\<lambda>(k, n). k \<in> set ks) (executable_nodes d)))"

definition output_missing :: "plan_env \<Rightarrow> bool \<Rightarrow> string \<Rightarrow> string \<Rightarrow> bool" where
  "output_missing env require_rows k name =
     (if (k, name) \<in> set (pl_manifest env) then False
      else if \<not> require_rows \<and> pl_local env name then False
      else True)"

definition unreachable_inherit_nodes :: "plan_env \<Rightarrow> bool \<Rightarrow> string list \<Rightarrow> string list" where
  "unreachable_inherit_nodes env require_rows candidates =
     (if candidates = [] then []
      else (let outputs = declared_outputs (pl_snapshot env) candidates in
        if outputs = [] then candidates
        else if \<not> require_rows \<and> \<not> pl_dir_ok env then candidates
        else keys (filter (\<lambda>(k, names). list_ex (output_missing env require_rows k) names) outputs)))"

definition plan_seeds ::
  "plan_env \<Rightarrow> workflow_definition \<Rightarrow> string \<Rightarrow> workflow_definition \<Rightarrow> string option \<Rightarrow> bool \<Rightarrow>
   (string, provenance_entry) dict \<Rightarrow> latest_heads option \<Rightarrow> string list" where
  "plan_seeds env old old_frozen new new_frozen custom_nodes provenance heads =
     (let impl_excluded = implementation_excluded_nodes (pl_identity env) custom_nodes
            (map (\<lambda>(k, e). (k, pe_hash e)) provenance)
            (case heads of None \<Rightarrow> [] | Some h \<Rightarrow> lh_commits h) new
      in collect_change_seeds (pl_diff env) old (Some old_frozen) new new_frozen impl_excluded
           (upgrade_legacy_views old new provenance) (latest_proven_nodes heads impl_excluded))"

definition plan_inherit_nodes ::
  "plan_env \<Rightarrow> workflow_definition \<Rightarrow> string option \<Rightarrow> bool \<Rightarrow> bool \<Rightarrow> (string, provenance_entry) dict \<Rightarrow>
   latest_heads option \<Rightarrow> closure_error + string list" where
  "plan_inherit_nodes env new new_frozen custom_nodes require_rows provenance heads =
     (case pl_snapshot env of
        None \<Rightarrow> Inr []
      | Some old \<Rightarrow>
          (case pl_frozen env of
             None \<Rightarrow> Inr []
           | Some old_frozen \<Rightarrow>
               if old_frozen = [] then Inr []
               else
                 (let seeds = plan_seeds env old old_frozen new new_frozen custom_nodes provenance heads;
                      executable = keys (executable_nodes new)
                  in bindE (rerun_closure new seeds) (\<lambda>reset.
                     let candidates = filter (\<lambda>k. k \<notin> set reset) executable;
                         unreachable = unreachable_inherit_nodes env require_rows candidates
                     in if unreachable = [] then Inr candidates
                        else bindE (rerun_closure new (seeds @ unreachable)) (\<lambda>reset'.
                          Inr (filter (\<lambda>k. k \<notin> set reset') executable))))))"

section \<open>The plan is the greatest justified set\<close>

text \<open>A set of kept nodes that no rerun node can reach or overwrite.\<close>

definition upward_closed :: "workflow_definition \<Rightarrow> string set \<Rightarrow> bool" where
  "upward_closed d J \<longleftrightarrow>
     (\<forall>y \<in> J. \<forall>x \<in> set (keys (executable_nodes d)). (x, y) \<in> merged_graph d \<longrightarrow> x \<in> J)
     \<and> (\<forall>k \<in> J. \<forall>f \<in> set (keys (executable_nodes d)). set (outputs_of d f) \<inter> set (outputs_of d k) \<noteq> {} \<longrightarrow> f \<in> J)"

lemma upward_closed_dependency:
  "upward_closed d J \<Longrightarrow> y \<in> J \<Longrightarrow> x \<in> set (keys (executable_nodes d)) \<Longrightarrow> (x, y) \<in> merged_graph d \<Longrightarrow> x \<in> J"
  unfolding upward_closed_def by blast

lemma upward_closed_sharing:
  "upward_closed d J \<Longrightarrow> k \<in> J \<Longrightarrow> f \<in> set (keys (executable_nodes d)) \<Longrightarrow>
    x \<in> set (outputs_of d f) \<Longrightarrow> x \<in> set (outputs_of d k) \<Longrightarrow> f \<in> J"
  unfolding upward_closed_def by blast

text \<open>What the plan checks of one node: it is unchanged and its artifacts can be read.\<close>

definition outputs_reachable :: "plan_env \<Rightarrow> bool \<Rightarrow> string \<Rightarrow> bool" where
  "outputs_reachable env require_rows k \<longleftrightarrow>
     (require_rows \<or> pl_dir_ok env)
     \<and> (\<forall>d n. pl_snapshot env = Some d \<longrightarrow> (k, n) \<in> set (executable_nodes d) \<longrightarrow>
          (\<forall>name \<in> set (n_outputs n). \<not> output_missing env require_rows k name))"

definition justified :: "plan_env \<Rightarrow> workflow_definition \<Rightarrow> bool \<Rightarrow> string list \<Rightarrow> string set \<Rightarrow> bool" where
  "justified env new require_rows seeds J \<longleftrightarrow>
     J \<subseteq> set (keys (executable_nodes new)) - set seeds \<and> (\<forall>k \<in> J. outputs_reachable env require_rows k)
     \<and> upward_closed new J"

lemma kept_upward_closed:
  assumes "start_isolated d"
  shows "upward_closed d (set (keys (executable_nodes d)) - must_rerun d seeds)"
  unfolding upward_closed_def
proof (intro conjI ballI impI)
  fix x y
  assume "y \<in> set (keys (executable_nodes d)) - must_rerun d seeds" "x \<in> set (keys (executable_nodes d))"
    "(x, y) \<in> merged_graph d"
  then show "x \<in> set (keys (executable_nodes d)) - must_rerun d seeds"
    by (blast intro: must_rerun.dependent)
next
  fix k f
  assume "k \<in> set (keys (executable_nodes d)) - must_rerun d seeds" "f \<in> set (keys (executable_nodes d))"
    "set (outputs_of d f) \<inter> set (outputs_of d k) \<noteq> {}"
  then show "f \<in> set (keys (executable_nodes d)) - must_rerun d seeds"
    by (blast intro: must_rerun.sharing)
qed

lemma upward_closed_avoids:
  assumes iso: "start_isolated d" and J: "upward_closed d J" "J \<subseteq> set (keys (executable_nodes d))"
    and seeds: "seeds \<inter> J = {}"
  shows "must_rerun d seeds \<inter> J = {}"
proof -
  have "k \<notin> J" if "k \<in> must_rerun d seeds" for k
    using that
  proof induction
    case (dependent x y)
    have "x \<in> set (keys (executable_nodes d))" by (rule must_rerun_executable [OF iso dependent.hyps(1)])
    with dependent J(1) show ?case by (blast dest: upward_closed_dependency)
  next
    case (sharing f x k)
    have "f \<in> set (keys (executable_nodes d))" by (rule must_rerun_executable [OF iso sharing.hyps(1)])
    with sharing J(1) show ?case by (blast dest: upward_closed_sharing)
  qed (use seeds in auto)
  then show ?thesis by auto
qed

lemma in_change_seeds:
  "k \<in> set (collect_change_seeds env old f new g impl views proven) \<longleftrightarrow>
    k \<in> set impl \<or> (\<exists>n. (k, n) \<in> set (executable_nodes new) \<and> is_change_seed env old f new g views proven k n)"
  unfolding collect_change_seeds_def by (force simp: keys_def)

lemma seed_not_in_old:
  assumes "k \<in> set (keys (executable_nodes new))"
    and "k \<notin> set (collect_change_seeds env old f new g impl views proven)"
  shows "k \<in> set (keys (executable_nodes old))"
proof -
  from assms obtain n where "\<not> is_change_seed env old f new g views proven k n"
    unfolding in_change_seeds in_keys_pair by blast
  then have "dget (executable_nodes old) k \<noteq> None" unfolding is_change_seed_def by (metis option.simps(4))
  then show ?thesis by (simp add: dget_None_iff)
qed

lemma unreachable_subset: "set (unreachable_inherit_nodes env r cs) \<subseteq> set cs"
  by (auto simp: unreachable_inherit_nodes_def declared_outputs_def Let_def keys_def split: option.splits)

lemma declared_outputs_iff:
  "pl_snapshot env = Some old \<Longrightarrow> (k, names) \<in> set (declared_outputs (pl_snapshot env) cs) \<longleftrightarrow>
    k \<in> set cs \<and> (\<exists>n. (k, n) \<in> set (executable_nodes old) \<and> names = n_outputs n)"
  by (auto simp: declared_outputs_def)

lemma unreachable_exact:
  assumes snap: "pl_snapshot env = Some old" and old: "set cs \<subseteq> set (keys (executable_nodes old))"
    and k: "k \<in> set cs"
  shows "k \<in> set (unreachable_inherit_nodes env r cs) \<longleftrightarrow> \<not> outputs_reachable env r k"
proof -
  have out: "(k, names) \<in> set (declared_outputs (pl_snapshot env) cs) \<longleftrightarrow>
      (\<exists>n. (k, n) \<in> set (executable_nodes old) \<and> names = n_outputs n)" for names
    using declared_outputs_iff [OF snap] k by blast
  have cs: "cs \<noteq> []" using k by auto
  have "k \<in> set (keys (executable_nodes old))" using old k by blast
  then obtain n where "(k, n) \<in> set (executable_nodes old)" unfolding in_keys_pair by blast
  with out have ne: "declared_outputs (pl_snapshot env) cs \<noteq> []" by fastforce
  show ?thesis
  proof (cases "\<not> r \<and> \<not> pl_dir_ok env")
    case True
    with cs ne k show ?thesis by (simp add: unreachable_inherit_nodes_def outputs_reachable_def)
  next
    case False
    have "k \<in> set (unreachable_inherit_nodes env r cs) \<longleftrightarrow>
        (\<exists>names. (k, names) \<in> set (declared_outputs (pl_snapshot env) cs) \<and> list_ex (output_missing env r k) names)"
      using False cs ne by (force simp: unreachable_inherit_nodes_def Let_def keys_def)
    also have "\<dots> \<longleftrightarrow> (\<exists>n. (k, n) \<in> set (executable_nodes old) \<and> list_ex (output_missing env r k) (n_outputs n))"
      unfolding out by blast
    also have "\<dots> \<longleftrightarrow> \<not> outputs_reachable env r k"
      using False snap by (auto simp: outputs_reachable_def list_ex_iff)
    finally show ?thesis .
  qed
qed

text \<open>The result of the plan, from the two closures.\<close>

lemma plan_inherit_result:
  fixes new_frozen custom provenance heads
  assumes "wf_shape new" and "start_isolated new"
    and "pl_snapshot env = Some old" and "pl_frozen env = Some frozen" and "frozen \<noteq> []"
  defines "seeds \<equiv> plan_seeds env old frozen new new_frozen custom provenance heads"
  shows "\<exists>cs U I. plan_inherit_nodes env new new_frozen custom r provenance heads = Inr I
    \<and> set cs = set (keys (executable_nodes new)) - must_rerun new (set seeds)
    \<and> U = unreachable_inherit_nodes env r cs
    \<and> set I = set (keys (executable_nodes new)) - must_rerun new (set seeds \<union> set U)"
proof -
  let ?E = "keys (executable_nodes new)"
  obtain S where S: "rerun_closure new seeds = Inr S" "set S = must_rerun new (set seeds)"
    using rerun_closure_defined [OF assms(1,2)] by blast
  define cs where "cs = filter (\<lambda>k. k \<notin> set S) ?E"
  define U where "U = unreachable_inherit_nodes env r cs"
  obtain S' where S': "rerun_closure new (seeds @ U) = Inr S'" "set S' = must_rerun new (set seeds \<union> set U)"
    using rerun_closure_defined [OF assms(1,2), of "seeds @ U"] by auto
  have plan: "plan_inherit_nodes env new new_frozen custom r provenance heads =
      (if U = [] then Inr cs else Inr (filter (\<lambda>k. k \<notin> set S') ?E))"
    using S(1) S'(1) assms(3-5) by (simp add: plan_inherit_nodes_def Let_def seeds_def [symmetric] cs_def U_def)
  show ?thesis
    by (rule exI [of _ cs], rule exI [of _ U], rule exI [of _ "if U = [] then cs else filter (\<lambda>k. k \<notin> set S') ?E"])
      (use plan S(2) S'(2) in \<open>auto simp: cs_def U_def\<close>)
qed

lemma seeds_in_old:
  "k \<in> set (keys (executable_nodes new)) \<Longrightarrow> k \<notin> set (plan_seeds env old frozen new new_frozen custom provenance heads) \<Longrightarrow>
    k \<in> set (keys (executable_nodes old))"
  unfolding plan_seeds_def Let_def by (rule seed_not_in_old)

lemma plan_inherit_justified:
  fixes new_frozen custom provenance heads
  assumes "wf_shape new" and iso: "start_isolated new"
    and snap: "pl_snapshot env = Some old" and frozen: "pl_frozen env = Some frozen" "frozen \<noteq> []"
  defines "seeds \<equiv> plan_seeds env old frozen new new_frozen custom provenance heads"
  shows "\<exists>I. plan_inherit_nodes env new new_frozen custom r provenance heads = Inr I
    \<and> justified env new r seeds (set I) \<and> (\<forall>J. justified env new r seeds J \<longrightarrow> J \<subseteq> set I)"
proof -
  let ?E = "set (keys (executable_nodes new))"
  obtain cs U I where plan: "plan_inherit_nodes env new new_frozen custom r provenance heads = Inr I"
    and cs: "set cs = ?E - must_rerun new (set seeds)" and U: "U = unreachable_inherit_nodes env r cs"
    and I: "set I = ?E - must_rerun new (set seeds \<union> set U)"
    using plan_inherit_result [OF assms(1-5)] unfolding seeds_def by blast
  have seed: "k \<notin> set seeds" if "k \<in> ?E" "k \<notin> must_rerun new (set seeds)" for k
    using that by (blast intro: must_rerun.seed)
  have old: "set cs \<subseteq> set (keys (executable_nodes old))"
    using cs seed seeds_in_old unfolding seeds_def by blast
  have smaller: "set I \<subseteq> set cs"
    using I cs must_rerun_mono [of "set seeds" "set seeds \<union> set U"] by blast
  have "outputs_reachable env r k" if "k \<in> set I" for k
  proof -
    have "k \<in> set cs" using smaller that by blast
    moreover have "k \<notin> set U" using that I by (blast intro: must_rerun.seed)
    ultimately show ?thesis using unreachable_exact [OF snap old] U by blast
  qed
  moreover have "set I \<subseteq> ?E - set seeds" using smaller cs seed I by blast
  moreover have "upward_closed new (set I)" unfolding I by (rule kept_upward_closed [OF iso])
  ultimately have "justified env new r seeds (set I)" by (simp add: justified_def)
  moreover have "J \<subseteq> set I" if J: "justified env new r seeds J" for J
  proof -
    have "k \<notin> J" if "k \<in> set U" for k
    proof -
      have "k \<in> set cs" using that U unreachable_subset by blast
      with that have "\<not> outputs_reachable env r k" using unreachable_exact [OF snap old] U by blast
      with J show ?thesis by (auto simp: justified_def)
    qed
    then have "must_rerun new (set seeds \<union> set U) \<inter> J = {}"
      using J by (intro upward_closed_avoids [OF iso]) (auto simp: justified_def)
    moreover have "J \<subseteq> ?E" using J by (auto simp: justified_def)
    ultimately show ?thesis unfolding I by blast
  qed
  ultimately show ?thesis using plan by blast
qed

end
