(* ===== verification/Upgrade_Protection.thy ===== *)
theory Upgrade_Protection
  imports Upgrade_Plan
begin

text \<open>
  Which input names an upgrade keeps, deletes or cannot judge
  (\<open>server/app/services/job_workflow_upgrade_protection.py\<close>). Sets are lists; a dictionary of sets
  is given by its lookup function.
\<close>

section \<open>Indexes\<close>

definition exec_producers :: "workflow_definition \<Rightarrow> string \<Rightarrow> string list" where
  "exec_producers d x = keys (filter (\<lambda>(k, n). x \<in> set (n_outputs n)) (executable_nodes d))"

definition exec_consumers :: "workflow_definition \<Rightarrow> string \<Rightarrow> string list" where
  "exec_consumers d x =
     filter (\<lambda>k. k \<in> set (keys (executable_nodes d))) (succs (artifact_consumption_index d) x)"

definition consumed_names :: "workflow_definition \<Rightarrow> string list" where
  "consumed_names d = filter (\<lambda>x. exec_consumers d x \<noteq> []) (keys (artifact_consumption_index d))"

definition inputs_of :: "workflow_definition \<Rightarrow> string \<Rightarrow> string list" where
  "inputs_of d k = (case dget (d_nodes d) k of None \<Rightarrow> [] | Some n \<Rightarrow> n_inputs n)"

definition rmw_attached :: "workflow_definition \<Rightarrow> string list" where
  "rmw_attached d = concat (map (\<lambda>(k, n). filter (\<lambda>x. x \<in> set (n_outputs n)) (n_inputs n)) (executable_nodes d))"

text \<open>\<open>k\<close> writes \<open>x\<close> and does not read it.\<close>

definition pure_producer :: "workflow_definition \<Rightarrow> string \<Rightarrow> string \<Rightarrow> bool" where
  "pure_producer d x k \<longleftrightarrow> x \<in> set (outputs_of d k) \<and> x \<notin> set (inputs_of d k)"

definition is_invalidated :: "workflow_definition \<Rightarrow> string list \<Rightarrow> string \<Rightarrow> bool" where
  "is_invalidated d reset x \<longleftrightarrow> list_ex (pure_producer d x) reset"

section \<open>Liveness: names that become available\<close>

definition declared_names :: "workflow_definition \<Rightarrow> string list" where
  "declared_names d = dedup (concat (map (\<lambda>(k, n). n_inputs n @ n_outputs n) (executable_nodes d)))"

definition grown_names :: "workflow_definition \<Rightarrow> string list \<Rightarrow> string list \<Rightarrow> string list" where
  "grown_names d reset available =
     filter (\<lambda>x. x \<notin> set available)
       (dedup (concat (map (\<lambda>k. if set (inputs_of d k) \<subseteq> set available then outputs_of d k else []) reset)))"

function available_loop :: "workflow_definition \<Rightarrow> string list \<Rightarrow> string list \<Rightarrow> string list" where
  "available_loop d reset available =
     (let grown = grown_names d reset available in
      if grown = [] then available else available_loop d reset (available @ grown))"
  by pat_completeness auto
termination
proof (relation "measure (\<lambda>(d, reset, available). card (set (concat (map (outputs_of d) reset)) - set available))", goal_cases)
  case 1
  show ?case by simp
next
  case (2 d reset available grown)
  then have "grown \<noteq> []" by simp
  then obtain x where "x \<in> set grown" by (meson list.set_sel(1))
  with 2 have x: "x \<in> set (concat (map (outputs_of d) reset))" "x \<notin> set available" "x \<in> set grown"
    by (auto simp: grown_names_def split: if_splits)
  then have "set (concat (map (outputs_of d) reset)) - set (available @ grown)
      \<subset> set (concat (map (outputs_of d) reset)) - set available" by auto
  then show ?case by (simp add: psubset_card_mono)
qed

declare available_loop.simps [simp del]

definition available_names :: "workflow_definition \<Rightarrow> string list \<Rightarrow> string list \<Rightarrow> string list" where
  "available_names d reset invalidated =
     available_loop d reset (filter (\<lambda>x. x \<notin> set invalidated) (declared_names d))"

section \<open>Ordering evidence and the plan\<close>

definition ordering_children :: "workflow_definition \<Rightarrow> string list \<Rightarrow> (string, string list) dict" where
  "ordering_children d absent =
     (let executable = keys (executable_nodes d);
          explicit = map (\<lambda>e. (e_source e, e_target e))
            (filter (\<lambda>e. e_source e \<in> set executable \<and> e_target e \<in> set executable) (d_edges d));
          implicit = [(p, c). x \<leftarrow> absent, p \<leftarrow> (case exec_producers d x of [p] \<Rightarrow> [p] | _ \<Rightarrow> []),
                        c \<leftarrow> exec_consumers d x, c \<noteq> p]
      in index_pairs implicit (index_pairs explicit (map (\<lambda>k. (k, [])) executable)))"

record protection_plan =
  pp_keep :: "string list"
  pp_clean :: "string list"
  pp_unprovable :: "string list"
  pp_sweep :: "string list"
  pp_rmw_retire :: "string list"

text \<open>The verdicts of the loop; \<open>Retire\<close> goes to \<open>clean\<close> and to \<open>rmw_retire\<close>.\<close>

datatype verdict = Keep | Clean | Retire | Unprovable

definition name_verdict ::
  "workflow_definition \<Rightarrow> string list \<Rightarrow> string list \<Rightarrow> string list \<Rightarrow> string list \<Rightarrow> string list \<Rightarrow>
   (string, string list) dict \<Rightarrow> string \<Rightarrow> verdict" where
  "name_verdict d reset staged invalidated available kept_declared children x =
     (if x \<in> set kept_declared \<or> x \<notin> set invalidated then Keep
      else if x \<notin> set available then Unprovable
      else if x \<notin> set (rmw_attached d) then (if x \<in> set staged then Clean else Unprovable)
      else
        (let sufficient = filter (\<lambda>k. k \<in> set reset \<and> x \<notin> set (inputs_of d k)) (exec_producers d x);
             covered = walk_downstream children sufficient;
             uncovered = filter (\<lambda>k. k \<in> set reset \<and> k \<notin> set covered) (exec_consumers d x)
         in if list_ex (\<lambda>k. x \<notin> set (outputs_of d k)) uncovered then Unprovable
            else if list_ex (\<lambda>k. x \<in> set (outputs_of d k)) uncovered then Keep
            else Retire))"

definition plan_verdict ::
  "workflow_definition \<Rightarrow> string list \<Rightarrow> string list \<Rightarrow> string list \<Rightarrow> string \<Rightarrow> verdict" where
  "plan_verdict d keep_nodes reset_nodes staged =
     (let executable = keys (executable_nodes d);
          keep_keys = filter (\<lambda>k. k \<in> set executable) keep_nodes;
          reset = filter (\<lambda>k. k \<in> set executable) reset_nodes;
          invalidated = filter (is_invalidated d reset) (consumed_names d);
          available = available_names d reset invalidated;
          absent = filter (\<lambda>x. x \<in> set invalidated \<and> x \<in> set available \<and> x \<notin> set (rmw_attached d)) staged;
          kept_declared = concat (map (\<lambda>k. inputs_of d k @ outputs_of d k) keep_keys)
      in name_verdict d reset staged invalidated available kept_declared (ordering_children d absent))"

definition input_protection_plan ::
  "workflow_definition \<Rightarrow> string list \<Rightarrow> string list \<Rightarrow> string list \<Rightarrow> protection_plan" where
  "input_protection_plan d keep_nodes reset_nodes staged =
     (let pick = (\<lambda>vs. filter (\<lambda>x. plan_verdict d keep_nodes reset_nodes staged x \<in> set vs) (sort (consumed_names d)))
      in \<lparr>pp_keep = pick [Keep], pp_clean = pick [Clean, Retire], pp_unprovable = pick [Unprovable],
          pp_sweep = pick [Clean, Retire], pp_rmw_retire = pick [Retire]\<rparr>)"

section \<open>The available names as a least fixpoint\<close>

text \<open>
  A name becomes available when it was not invalidated, or when a reset node whose inputs all
  become available writes it.
\<close>

inductive_set regenerable :: "workflow_definition \<Rightarrow> string set \<Rightarrow> string set \<Rightarrow> string set"
  for d :: workflow_definition and reset :: "string set" and invalidated :: "string set" where
  authoritative: "x \<in> set (declared_names d) \<Longrightarrow> x \<notin> invalidated \<Longrightarrow> x \<in> regenerable d reset invalidated"
| written: "k \<in> reset \<Longrightarrow> \<forall>y \<in> set (inputs_of d k). y \<in> regenerable d reset invalidated \<Longrightarrow>
    x \<in> set (outputs_of d k) \<Longrightarrow> x \<in> regenerable d reset invalidated"

lemma grown_names_iff:
  "x \<in> set (grown_names d reset av) \<longleftrightarrow> x \<notin> set av \<and>
    (\<exists>k \<in> set reset. set (inputs_of d k) \<subseteq> set av \<and> x \<in> set (outputs_of d k))"
  by (auto simp: grown_names_def split: if_splits)

lemma available_loop_grows: "set av \<subseteq> set (available_loop d reset av)"
proof (induction d reset av rule: available_loop.induct)
  case (1 d reset av)
  show ?case
  proof (cases "grown_names d reset av = []")
    case False
    with 1 show ?thesis by (subst available_loop.simps) (auto simp: Let_def)
  qed (subst available_loop.simps, simp)
qed

lemma available_loop_closed:
  "k \<in> set reset \<Longrightarrow> set (inputs_of d k) \<subseteq> set (available_loop d reset av) \<Longrightarrow>
    set (outputs_of d k) \<subseteq> set (available_loop d reset av)"
proof (induction d reset av rule: available_loop.induct)
  case (1 d reset av)
  show ?case
  proof (cases "grown_names d reset av = []")
    case True
    then have r: "available_loop d reset av = av" by (subst available_loop.simps) simp
    have "x \<notin> set (grown_names d reset av)" for x using True by simp
    with 1(2,3) r show ?thesis unfolding grown_names_iff by fastforce
  next
    case False
    then have r: "available_loop d reset av = available_loop d reset (av @ grown_names d reset av)"
      by (subst available_loop.simps) (simp add: Let_def)
    with 1(1) [OF refl False 1(2)] 1(3) show ?thesis by simp
  qed
qed

lemma available_loop_sound:
  "set av \<subseteq> regenerable d (set reset) V \<Longrightarrow> set (available_loop d reset av) \<subseteq> regenerable d (set reset) V"
proof (induction d reset av rule: available_loop.induct)
  case (1 d reset av)
  show ?case
  proof (cases "grown_names d reset av = []")
    case True
    then show ?thesis using 1(2) by (subst available_loop.simps) simp
  next
    case False
    have "set (grown_names d reset av) \<subseteq> regenerable d (set reset) V"
    proof
      fix x
      assume "x \<in> set (grown_names d reset av)"
      then obtain k where "k \<in> set reset" "set (inputs_of d k) \<subseteq> set av" "x \<in> set (outputs_of d k)"
        unfolding grown_names_iff by blast
      with 1(2) show "x \<in> regenerable d (set reset) V" by (intro regenerable.written [of k]) auto
    qed
    with 1(1) [OF refl False] 1(2) False show ?thesis by (subst available_loop.simps) (simp add: Let_def)
  qed
qed

lemma set_available_names:
  "set (available_names d reset invalidated) = regenerable d (set reset) (set invalidated)"
proof
  show "set (available_names d reset invalidated) \<subseteq> regenerable d (set reset) (set invalidated)"
    unfolding available_names_def
    by (rule available_loop_sound) (auto intro: regenerable.authoritative)
  show "regenerable d (set reset) (set invalidated) \<subseteq> set (available_names d reset invalidated)"
  proof
    fix x
    assume "x \<in> regenerable d (set reset) (set invalidated)"
    then show "x \<in> set (available_names d reset invalidated)"
    proof induction
      case (authoritative x)
      then show ?case
        using available_loop_grows [of "filter (\<lambda>x. x \<notin> set invalidated) (declared_names d)" d reset]
        by (auto simp: available_names_def)
    next
      case (written k x)
      then have "set (outputs_of d k) \<subseteq> set (available_names d reset invalidated)"
        unfolding available_names_def by (intro available_loop_closed) blast+
      then show ?case using written.hyps by blast
    qed
  qed
qed

section \<open>Reading a plan\<close>

lemma set_rmw_attached:
  "x \<in> set (rmw_attached d) \<longleftrightarrow> (\<exists>k n. (k, n) \<in> set (executable_nodes d) \<and> x \<in> set (n_inputs n) \<and> x \<in> set (n_outputs n))"
  by (auto simp: rmw_attached_def)

lemma is_invalidated_iff: "is_invalidated d reset x \<longleftrightarrow> (\<exists>k \<in> set reset. pure_producer d x k)"
  by (simp add: is_invalidated_def list_ex_iff)

text \<open>The plan for a split of the executable nodes into kept and reset ones.\<close>

lemma plan_fields:
  "set (pp_keep (input_protection_plan d ks rs staged)) = {x \<in> set (consumed_names d). plan_verdict d ks rs staged x = Keep}"
  "set (pp_clean (input_protection_plan d ks rs staged)) =
     {x \<in> set (consumed_names d). plan_verdict d ks rs staged x = Clean \<or> plan_verdict d ks rs staged x = Retire}"
  "set (pp_unprovable (input_protection_plan d ks rs staged)) =
     {x \<in> set (consumed_names d). plan_verdict d ks rs staged x = Unprovable}"
  "set (pp_sweep (input_protection_plan d ks rs staged)) = set (pp_clean (input_protection_plan d ks rs staged))"
  "set (pp_rmw_retire (input_protection_plan d ks rs staged)) =
     {x \<in> set (consumed_names d). plan_verdict d ks rs staged x = Retire}"
  by (auto simp: input_protection_plan_def)

definition kept_declares :: "workflow_definition \<Rightarrow> string list \<Rightarrow> string \<Rightarrow> bool" where
  "kept_declares d ks x \<longleftrightarrow> (\<exists>k \<in> set ks. x \<in> set (inputs_of d k) \<or> x \<in> set (outputs_of d k))"

definition invalidated_names :: "workflow_definition \<Rightarrow> string list \<Rightarrow> string set" where
  "invalidated_names d rs = {x \<in> set (consumed_names d). is_invalidated d rs x}"

lemma plan_verdict_cases:
  assumes split: "set ks \<subseteq> set (keys (executable_nodes d))" "set rs \<subseteq> set (keys (executable_nodes d))"
    and x: "x \<in> set (consumed_names d)"
  shows "\<not> is_invalidated d rs x \<Longrightarrow> plan_verdict d ks rs staged x = Keep"
    and "kept_declares d ks x \<Longrightarrow> plan_verdict d ks rs staged x = Keep"
    and "plan_verdict d ks rs staged x \<in> {Clean, Retire} \<Longrightarrow>
      is_invalidated d rs x \<and> \<not> kept_declares d ks x \<and> x \<in> regenerable d (set rs) (invalidated_names d rs)"
    and "plan_verdict d ks rs staged x = Clean \<Longrightarrow> x \<in> set staged"
    and "plan_verdict d ks rs staged x = Retire \<Longrightarrow> x \<in> set (rmw_attached d)"
    and "is_invalidated d rs x \<Longrightarrow> \<not> kept_declares d ks x \<Longrightarrow> plan_verdict d ks rs staged x \<noteq> Unprovable \<Longrightarrow>
      x \<notin> set (rmw_attached d) \<Longrightarrow> plan_verdict d ks rs staged x = Clean"
proof -
  let ?E = "set (keys (executable_nodes d))"
  have ks: "filter (\<lambda>k. k \<in> ?E) ks = ks" and rs: "filter (\<lambda>k. k \<in> ?E) rs = rs"
    using split by (auto simp: filter_id_conv)
  define inv where "inv = filter (is_invalidated d rs) (consumed_names d)"
  define av where "av = available_names d rs inv"
  define kept where "kept = concat (map (\<lambda>k. inputs_of d k @ outputs_of d k) ks)"
  define ch where "ch = ordering_children d (filter (\<lambda>x. x \<in> set inv \<and> x \<in> set av \<and> x \<notin> set (rmw_attached d)) staged)"
  have v: "plan_verdict d ks rs staged = name_verdict d rs staged inv av kept ch"
    unfolding plan_verdict_def Let_def ks rs inv_def av_def kept_def ch_def by (rule refl)
  have inv: "x \<in> set inv \<longleftrightarrow> is_invalidated d rs x" using x by (simp add: inv_def)
  have av: "x \<in> set av \<longleftrightarrow> x \<in> regenerable d (set rs) (invalidated_names d rs)"
    by (simp add: av_def set_available_names inv_def invalidated_names_def)
  have kept: "x \<in> set kept \<longleftrightarrow> kept_declares d ks x" by (auto simp: kept_def kept_declares_def)
  note simps = v name_verdict_def Let_def inv av kept
  show "\<not> is_invalidated d rs x \<Longrightarrow> plan_verdict d ks rs staged x = Keep" by (simp add: simps)
  show "kept_declares d ks x \<Longrightarrow> plan_verdict d ks rs staged x = Keep" by (simp add: simps)
  show "plan_verdict d ks rs staged x \<in> {Clean, Retire} \<Longrightarrow>
      is_invalidated d rs x \<and> \<not> kept_declares d ks x \<and> x \<in> regenerable d (set rs) (invalidated_names d rs)"
    by (auto simp: simps split: if_splits)
  show "plan_verdict d ks rs staged x = Clean \<Longrightarrow> x \<in> set staged" by (auto simp: simps split: if_splits)
  show "plan_verdict d ks rs staged x = Retire \<Longrightarrow> x \<in> set (rmw_attached d)" by (auto simp: simps split: if_splits)
  show "is_invalidated d rs x \<Longrightarrow> \<not> kept_declares d ks x \<Longrightarrow> plan_verdict d ks rs staged x \<noteq> Unprovable \<Longrightarrow>
      x \<notin> set (rmw_attached d) \<Longrightarrow> plan_verdict d ks rs staged x = Clean"
    by (auto simp: simps split: if_splits)
qed

end
