(* ===== verification/Upgrade_Staging.thy ===== *)
theory Upgrade_Staging
  imports Upgrade_Protection
begin

text \<open>
  What an upgrade deletes inside its transaction: the staged names
  (\<open>server/app/services/job_artifact_staging_scope.py\<close>), the artifacts of removed nodes and outputs
  (\<open>job_workflow_upgrade_removed_outputs.py\<close>) and the staging step that settles the kept nodes
  (\<open>job_workflow_upgrade_staging.py\<close>); the guard of the sweep after the commit
  (\<open>jobs/queries/sweep_guard.py\<close>).
\<close>

section \<open>Staged and removed names\<close>

definition rmw_names :: "workflow_definition \<Rightarrow> string \<Rightarrow> string list" where
  "rmw_names d k = filter (\<lambda>x. x \<in> set (inputs_of d k)) (outputs_of d k)"

definition staging_output_names :: "workflow_definition \<Rightarrow> string list \<Rightarrow> string list" where
  "staging_output_names d affected =
     (let outside = concat (map (\<lambda>(k, n). if k \<in> set affected then [] else n_outputs n) (d_nodes d));
          rmw = concat (map (rmw_names d) affected)
      in filter (\<lambda>x. x \<notin> set outside \<and> x \<notin> set rmw)
           (dedup (concat (map (\<lambda>k. filter (\<lambda>x. x \<notin> set (inputs_of d k)) (outputs_of d k)) affected))))"

record removed_face =
  rf_names :: "string list"
  rf_run_keys :: "string list"

definition deleted_node_keys :: "workflow_definition option \<Rightarrow> workflow_definition \<Rightarrow> string list" where
  "deleted_node_keys old new =
     (case old of
        None \<Rightarrow> []
      | Some o1 \<Rightarrow>
          dedup (filter (\<lambda>k. k \<notin> set (node_keys new)) (node_keys o1)
            @ filter (\<lambda>k. k \<notin> set (keys (executable_nodes new))) (keys (executable_nodes o1))))"

definition node_io :: "workflow_definition \<Rightarrow> string \<Rightarrow> string list" where
  "node_io d k = inputs_of d k @ outputs_of d k"

definition removed_artifact_face ::
  "workflow_definition option \<Rightarrow> workflow_definition \<Rightarrow> string list \<Rightarrow> string list \<Rightarrow> string list \<Rightarrow> removed_face" where
  "removed_artifact_face old new keep_keys reset_keys protected =
     (case old of
        None \<Rightarrow> \<lparr>rf_names = [], rf_run_keys = []\<rparr>
      | Some o1 \<Rightarrow>
          (let keep_io = concat (map (\<lambda>k. node_io new k @ node_io o1 k) keep_keys);
               dropped = concat (map (\<lambda>k. filter (\<lambda>x. x \<notin> set (node_io new k)) (outputs_of o1 k)) reset_keys);
               deleted = sort (deleted_node_keys old new);
               names = dropped @ concat (map (outputs_of o1) deleted)
           in \<lparr>rf_names = filter (\<lambda>x. x \<notin> set keep_io \<and> x \<notin> set protected
                 \<and> x \<notin> set (staging_output_names new reset_keys)) (dedup names), rf_run_keys = deleted\<rparr>))"

section \<open>The staging step\<close>

record staged_outputs =
  so_names :: "string list"
  so_run_keys :: "string list"

datatype stage_error =
    StageClosure closure_error
  | ProtectionUnprovable "string list"

text \<open>\<open>stage_outputs\<close> without the file moves: what is staged; its unknown-node check cannot fail here.\<close>

definition stage_outputs :: "workflow_definition \<Rightarrow> string list \<Rightarrow> string list \<Rightarrow> string list \<Rightarrow> staged_outputs" where
  "stage_outputs d affected extra_names extra_run_keys =
     \<lparr>so_names = dedup (staging_output_names d affected @ extra_names),
      so_run_keys = dedup (affected @ extra_run_keys)\<rparr>"

definition lift_closure :: "closure_error + 'a \<Rightarrow> stage_error + 'a" where
  "lift_closure r = (case r of Inl e \<Rightarrow> Inl (StageClosure e) | Inr x \<Rightarrow> Inr x)"

text \<open>The kept nodes after the convergence with the statuses read in the transaction.\<close>

definition converge_keep :: "workflow_definition \<Rightarrow> string list \<Rightarrow> statuses \<Rightarrow> closure_error + string list" where
  "converge_keep d inherit st =
     (let keep = filter (\<lambda>k. dget st k = Some ''completed'') inherit;
          reset_face = filter (\<lambda>k. k \<notin> set keep) (keys (executable_nodes d))
      in bindE (rerun_closure d reset_face) (\<lambda>closure. Inr (filter (\<lambda>k. k \<notin> set closure) keep)))"

definition stage_upgrade_reset_outputs ::
  "bool \<Rightarrow> workflow_definition option \<Rightarrow> workflow_definition \<Rightarrow> string list \<Rightarrow> statuses \<Rightarrow>
   stage_error + string list \<times> staged_outputs option \<times> protection_plan" where
  "stage_upgrade_reset_outputs has_mutation old d inherit st =
     bindE (lift_closure (converge_keep d inherit st)) (\<lambda>keep.
       let reset = filter (\<lambda>k. k \<notin> set keep) (keys (executable_nodes d));
           plan = input_protection_plan d keep reset (staging_output_names d reset)
       in guardE (pp_unprovable plan \<noteq> []) (ProtectionUnprovable (sort (pp_unprovable plan)))
         (if \<not> has_mutation then Inr (keep, None, plan)
          else (let removed = removed_artifact_face old d keep reset (pp_keep plan) in
            if reset = [] \<and> rf_names removed = [] \<and> rf_run_keys removed = [] then Inr (keep, None, plan)
            else Inr (keep, Some (stage_outputs d reset (sort (dedup (rf_names removed @ pp_rmw_retire plan)))
                   (rf_run_keys removed)), plan))))"

text \<open>\<open>_sweep_protected_names\<close>: \<open>rows\<close> are the names with a manifest row now.\<close>

definition sweep_protected_names ::
  "string list \<Rightarrow> statuses \<Rightarrow> string list \<Rightarrow> (string, string list) dict \<Rightarrow> string list" where
  "sweep_protected_names rows st names producers =
     filter (\<lambda>x. x \<in> set rows \<or> list_ex (\<lambda>k. dget st k = Some ''running'' \<or> dget st k = Some ''completed'')
         (dget_default [] producers x)) (sort (dedup names))"

section \<open>The kept nodes\<close>

lemma converge_keep_spec:
  assumes "wf_shape d" and iso: "start_isolated d" and sub: "set inherit \<subseteq> set (keys (executable_nodes d))"
    and c: "converge_keep d inherit st = Inr ks"
  shows "set ks \<subseteq> {k \<in> set inherit. dget st k = Some ''completed''}" and "upward_closed d (set ks)"
    and "J \<subseteq> {k \<in> set inherit. dget st k = Some ''completed''} \<Longrightarrow> upward_closed d J \<Longrightarrow> J \<subseteq> set ks"
proof -
  let ?E = "set (keys (executable_nodes d))"
  define keep where "keep = filter (\<lambda>k. dget st k = Some ''completed'') inherit"
  define face where "face = filter (\<lambda>k. k \<notin> set keep) (keys (executable_nodes d))"
  obtain S where S: "rerun_closure d face = Inr S" "set S = must_rerun d (set face)"
    using rerun_closure_defined [OF assms(1,2)] by blast
  with c have ks: "set ks = set keep - must_rerun d (set face)"
    by (auto simp: converge_keep_def Let_def keep_def [symmetric] face_def [symmetric])
  have "set keep \<subseteq> ?E" using sub by (auto simp: keep_def)
  moreover have "?E - set keep \<subseteq> must_rerun d (set face)" by (auto simp: face_def intro: must_rerun.seed)
  ultimately have ks': "set ks = ?E - must_rerun d (set face)" unfolding ks by blast
  show "set ks \<subseteq> {k \<in> set inherit. dget st k = Some ''completed''}" unfolding ks by (auto simp: keep_def)
  show "upward_closed d (set ks)" unfolding ks' by (rule kept_upward_closed [OF iso])
  show "J \<subseteq> set ks" if J: "J \<subseteq> {k \<in> set inherit. dget st k = Some ''completed''}" "upward_closed d J"
  proof -
    have "J \<subseteq> set keep" using J(1) by (auto simp: keep_def)
    then have "must_rerun d (set face) \<inter> J = {}"
      using J \<open>set keep \<subseteq> ?E\<close> by (intro upward_closed_avoids [OF iso]) (auto simp: face_def)
    with \<open>J \<subseteq> set keep\<close> show ?thesis unfolding ks by blast
  qed
qed

section \<open>Deleted names and the plan agree\<close>

lemma in_staging_output_names:
  "x \<in> set (staging_output_names d R) \<longleftrightarrow> (\<exists>k \<in> set R. pure_producer d x k)
     \<and> (\<forall>(k, n) \<in> set (d_nodes d). x \<in> set (n_outputs n) \<longrightarrow> k \<in> set R)
     \<and> (\<forall>k \<in> set R. x \<in> set (outputs_of d k) \<longrightarrow> x \<notin> set (inputs_of d k))"
  by (auto simp: staging_output_names_def Let_def rmw_names_def pure_producer_def split: if_splits)

lemma outputs_of_node: "wf_shape d \<Longrightarrow> (k, n) \<in> set (d_nodes d) \<Longrightarrow> outputs_of d k = n_outputs n"
  by (simp add: outputs_of_def wf_shape_node)

lemma inputs_of_node: "wf_shape d \<Longrightarrow> (k, n) \<in> set (d_nodes d) \<Longrightarrow> inputs_of d k = n_inputs n"
  by (simp add: inputs_of_def wf_shape_node)

lemma executable_item: "(k, n) \<in> set (executable_nodes d) \<Longrightarrow> (k, n) \<in> set (d_nodes d)"
  by (simp add: executable_nodes_def)

lemma node_of_output: "x \<in> set (outputs_of d k) \<Longrightarrow> produces d k x"
  by (auto simp: outputs_of_def produces_def split: option.splits dest!: map_of_SomeD [OF sym])

lemma node_of_input: "x \<in> set (inputs_of d k) \<Longrightarrow> consumes d k x"
  by (auto simp: inputs_of_def consumes_def split: option.splits dest!: map_of_SomeD [OF sym])

text \<open>Nothing that a kept node reads or writes has a reset pure producer.\<close>

lemma kept_not_invalidated:
  assumes "wf_shape d" and closed: "upward_closed d (set ks)" and rs: "set rs = set (keys (executable_nodes d)) - set ks"
    and kept: "kept_declares d ks x"
  shows "\<not> is_invalidated d rs x"
proof
  assume "is_invalidated d rs x"
  then obtain p where p: "p \<in> set rs" "pure_producer d x p" by (auto simp: is_invalidated_iff)
  from kept obtain k where k: "k \<in> set ks" "x \<in> set (inputs_of d k) \<or> x \<in> set (outputs_of d k)"
    by (auto simp: kept_declares_def)
  have pE: "p \<in> set (keys (executable_nodes d))" "p \<notin> set ks" using p rs by auto
  from k(2) show False
  proof
    assume "x \<in> set (inputs_of d k)"
    moreover have "x \<in> set (outputs_of d p)" using p by (simp add: pure_producer_def)
    ultimately have "produces d p x" "consumes d k x" by (simp_all add: node_of_input node_of_output)
    moreover have "p \<noteq> k" using k pE by auto
    ultimately have "(p, k) \<in> merged_graph d" unfolding merged_graph_def by blast
    then show False using upward_closed_dependency [OF closed k(1) pE(1)] pE(2) by blast
  next
    assume "x \<in> set (outputs_of d k)"
    then show False
      using upward_closed_sharing [OF closed k(1) pE(1)] p pE(2) by (auto simp: pure_producer_def)
  qed
qed

text \<open>A staged name is never declared by a kept node and never attached to a read-modify-write.\<close>

lemma staged_free:
  assumes wf: "wf_shape d" and closed: "upward_closed d (set ks)"
    and rs: "set rs = set (keys (executable_nodes d)) - set ks"
    and x: "x \<in> set (staging_output_names d rs)"
  shows "is_invalidated d rs x" and "\<not> kept_declares d ks x" and "x \<notin> set (rmw_attached d)"
proof -
  show inv: "is_invalidated d rs x" using x by (auto simp: in_staging_output_names is_invalidated_iff)
  then show "\<not> kept_declares d ks x" using kept_not_invalidated [OF wf closed rs] by blast
  show "x \<notin> set (rmw_attached d)"
  proof
    assume "x \<in> set (rmw_attached d)"
    then obtain k n where n: "(k, n) \<in> set (executable_nodes d)" "x \<in> set (n_inputs n)" "x \<in> set (n_outputs n)"
      by (auto simp: set_rmw_attached)
    then have kn: "(k, n) \<in> set (d_nodes d)" by (simp add: executable_item)
    then have "k \<in> set rs" using x n by (auto simp: in_staging_output_names)
    with x n kn show False
      by (auto simp: in_staging_output_names outputs_of_node [OF wf kn] inputs_of_node [OF wf kn])
  qed
qed

lemma stage_upgrade_Inr:
  assumes "stage_upgrade_reset_outputs has_mutation old d inherit st = Inr (ks, staged, plan)"
  defines "rs \<equiv> filter (\<lambda>k. k \<notin> set ks) (keys (executable_nodes d))"
  shows "converge_keep d inherit st = Inr ks"
    and "plan = input_protection_plan d ks rs (staging_output_names d rs)" and "pp_unprovable plan = []"
    and "staged = Some so \<Longrightarrow> so = stage_outputs d rs
      (sort (dedup (rf_names (removed_artifact_face old d ks rs (pp_keep plan)) @ pp_rmw_retire plan)))
      (rf_run_keys (removed_artifact_face old d ks rs (pp_keep plan)))"
  using assms(1)
  by (auto simp: stage_upgrade_reset_outputs_def lift_closure_def err_simps Let_def rs_def split: sum.splits if_splits)

lemma removed_face_free:
  assumes "x \<in> set (rf_names (removed_artifact_face old d ks rs protected))"
  shows "x \<notin> set protected" and "\<not> kept_declares d ks x"
  using assms
  by (auto simp: removed_artifact_face_def Let_def kept_declares_def node_io_def split: option.splits)

lemma stage_coherent:
  assumes wf: "wf_shape d" and iso: "start_isolated d" and sub: "set inherit \<subseteq> set (keys (executable_nodes d))"
    and stage: "stage_upgrade_reset_outputs has_mutation old d inherit st = Inr (ks, Some so, plan)"
  shows "\<forall>x \<in> set (consumed_names d). x \<in> set (so_names so) \<longleftrightarrow> x \<in> set (pp_clean plan)"
    and "\<forall>x \<in> set (so_names so). \<not> kept_declares d ks x"
proof -
  define rs where "rs = filter (\<lambda>k. k \<notin> set ks) (keys (executable_nodes d))"
  define sn where "sn = staging_output_names d rs"
  note stage' = stage_upgrade_Inr [OF stage, folded rs_def, folded sn_def]
  have ksE: "set ks \<subseteq> set (keys (executable_nodes d))" and closed: "upward_closed d (set ks)"
    using converge_keep_spec [OF wf iso sub stage'(1)] sub by blast+
  have rs: "set rs = set (keys (executable_nodes d)) - set ks" by (auto simp: rs_def)
  have rsE: "set rs \<subseteq> set (keys (executable_nodes d))" using rs by blast
  let ?v = "plan_verdict d ks rs sn"
  let ?removed = "removed_artifact_face old d ks rs (pp_keep plan)"
  have names: "set (so_names so) = set sn \<union> set (rf_names ?removed) \<union> set (pp_rmw_retire plan)"
    using stage'(4) [OF refl] by (auto simp: stage_outputs_def sn_def)
  note cases = plan_verdict_cases [OF ksE rsE]
  have provable: "?v x \<noteq> Unprovable" if "x \<in> set (consumed_names d)" for x
    using plan_fields(3) [of d ks rs sn] stage'(2,3) that by auto
  have clean: "x \<in> set (pp_clean plan) \<longleftrightarrow> x \<in> set (consumed_names d) \<and> (?v x = Clean \<or> ?v x = Retire)" for x
    by (simp add: stage'(2) plan_fields)
  have keep: "x \<in> set (pp_keep plan) \<longleftrightarrow> x \<in> set (consumed_names d) \<and> ?v x = Keep" for x
    by (simp add: stage'(2) plan_fields)
  have retire: "x \<in> set (pp_rmw_retire plan) \<longleftrightarrow> x \<in> set (consumed_names d) \<and> ?v x = Retire" for x
    by (simp add: stage'(2) plan_fields)
  note free = staged_free [OF wf closed rs, folded sn_def]
  show "\<forall>x \<in> set (consumed_names d). x \<in> set (so_names so) \<longleftrightarrow> x \<in> set (pp_clean plan)"
  proof (intro ballI iffI)
    fix x
    assume x: "x \<in> set (consumed_names d)" and "x \<in> set (so_names so)"
    then consider "x \<in> set sn" | "x \<in> set (rf_names ?removed)" | "x \<in> set (pp_rmw_retire plan)"
      using names by auto
    then show "x \<in> set (pp_clean plan)"
    proof cases
      case 1
      then have "?v x = Clean" using cases(6) [OF x] free [OF 1] provable [OF x] by blast
      with x clean show ?thesis by simp
    next
      case 2
      then have "?v x \<noteq> Keep" using removed_face_free(1) [OF 2] keep x by simp
      with provable [OF x] have "?v x = Clean \<or> ?v x = Retire" by (cases "?v x") auto
      with x clean show ?thesis by simp
    next
      case 3
      with retire clean show ?thesis by simp
    qed
  next
    fix x
    assume x: "x \<in> set (consumed_names d)" and "x \<in> set (pp_clean plan)"
    then consider "?v x = Clean" | "?v x = Retire" using clean by blast
    then show "x \<in> set (so_names so)"
    proof cases
      case 1
      with cases(4) [OF x] names show ?thesis by blast
    next
      case 2
      with x retire names show ?thesis by simp
    qed
  qed
  show "\<forall>x \<in> set (so_names so). \<not> kept_declares d ks x"
  proof
    fix x
    assume "x \<in> set (so_names so)"
    then consider "x \<in> set sn" | "x \<in> set (rf_names ?removed)" | "x \<in> set (pp_rmw_retire plan)"
      using names by auto
    then show "\<not> kept_declares d ks x"
    proof cases
      case 3
      then show ?thesis using retire cases(3) [of x] by auto
    qed (use free(2) removed_face_free(2) in blast)+
  qed
qed

end
