(* ===== verification/Upgrade_Round.thy ===== *)
theory Upgrade_Round
  imports Upgrade_Staging
begin

text \<open>
  The round of executions that follows an upgrade: the scheduler of \<open>Workflow_Scheduler\<close> over the
  job directory that the staging step left behind. Nothing of the code is modelled here; the round
  says what the deleted and the kept names are good for.
\<close>

section \<open>Rounds\<close>

text \<open>
  Statuses, directory and the names written in this round. A node starts when it is ready; when it
  finishes it has written its outputs; a pending node may be cut off by a branch.
\<close>

type_synonym round = "statuses \<times> job_dir \<times> string set"

inductive round_step :: "workflow_definition \<Rightarrow> round \<Rightarrow> round \<Rightarrow> bool" for d where
  start: "n \<in> set (find_ready_nodes d st dir) \<Longrightarrow>
    round_step d (st, dir, W) (dset (n_key n) ''running'' st, dir, W)"
| finish: "dget st k = Some ''running'' \<Longrightarrow> \<forall>x \<in> set (outputs_of d k). dir' x \<noteq> None \<Longrightarrow>
    \<forall>x. x \<notin> set (outputs_of d k) \<longrightarrow> dir' x = dir x \<Longrightarrow>
    round_step d (st, dir, W) (dset k ''completed'' st, dir', W \<union> set (outputs_of d k))"
| fail: "dget st k = Some ''running'' \<Longrightarrow> round_step d (st, dir, W) (dset k ''failed'' st, dir, W)"
| cut: "dget st k = Some ''pending'' \<Longrightarrow> round_step d (st, dir, W) (dset k ''not_applicable'' st, dir, W)"

definition round_statuses :: "workflow_definition \<Rightarrow> string list \<Rightarrow> statuses" where
  "round_statuses d ks = map (\<lambda>k. (k, if k \<in> set ks then ''completed'' else ''pending'')) (keys (executable_nodes d))"

definition reset_nodes :: "workflow_definition \<Rightarrow> string list \<Rightarrow> string list" where
  "reset_nodes d ks = filter (\<lambda>k. k \<notin> set ks) (keys (executable_nodes d))"

text \<open>The states of a round that begins with kept nodes \<open>ks\<close> and none of the deleted names.\<close>

definition round_reachable :: "workflow_definition \<Rightarrow> string list \<Rightarrow> string list \<Rightarrow> round \<Rightarrow> bool" where
  "round_reachable d ks deleted r \<longleftrightarrow> (\<exists>dir. (\<forall>x \<in> set deleted. dir x = None)
     \<and> (round_step d)\<^sup>*\<^sup>* (round_statuses d ks, dir, {}) r)"

fun round_inv :: "workflow_definition \<Rightarrow> string list \<Rightarrow> string list \<Rightarrow> round \<Rightarrow> bool" where
  "round_inv d rs deleted (st, dir, W) \<longleftrightarrow>
     (\<forall>k \<in> set rs. dget st k = Some ''completed'' \<longrightarrow> set (outputs_of d k) \<subseteq> W)
     \<and> (\<forall>x \<in> set deleted. dir x \<noteq> None \<longrightarrow> x \<in> W)"

lemma round_step_inv: "round_step d r r' \<Longrightarrow> round_inv d rs deleted r \<Longrightarrow> round_inv d rs deleted r'"
proof (induction rule: round_step.induct)
  case (finish st k dir' dir W)
  show ?case
    unfolding round_inv.simps
  proof (intro conjI ballI impI)
    fix j
    assume "j \<in> set rs" "dget (dset k ''completed'' st) j = Some ''completed''"
    then show "set (outputs_of d j) \<subseteq> W \<union> set (outputs_of d k)"
      using finish.prems by (cases "j = k") auto
  next
    fix x
    assume "x \<in> set deleted" "dir' x \<noteq> None"
    then show "x \<in> W \<union> set (outputs_of d k)"
      using finish.prems finish.hyps(3) by (cases "x \<in> set (outputs_of d k)") auto
  qed
qed (auto split: if_splits)

lemma round_reachable_inv:
  assumes "round_reachable d ks deleted r"
  shows "round_inv d (reset_nodes d ks) deleted r"
proof -
  obtain dir where dir: "\<forall>x \<in> set deleted. dir x = None"
    and run: "(round_step d)\<^sup>*\<^sup>* (round_statuses d ks, dir, {}) r"
    using assms by (auto simp: round_reachable_def)
  from run show ?thesis
  proof (induction rule: rtranclp_induct)
    case base
    show ?case using dir by (auto simp: round_statuses_def reset_nodes_def dget_map_keys)
  next
    case (step y z)
    then show ?case using round_step_inv by blast
  qed
qed

lemma ready_producer_done:
  assumes wf: "wf_shape d" and ready: "n \<in> set (find_ready_nodes d st dir)" and x: "x \<in> set (n_inputs n)"
    and p: "p \<in> set (keys (executable_nodes d))" "pure_producer d x p"
  shows "dget st p = Some ''completed'' \<or> dget st p = Some ''not_applicable''"
proof -
  from ready have n: "dget (d_nodes d) (n_key n) = Some n"
    and gate: "\<forall>name \<in> set (n_inputs n). \<forall>p. produces d p name \<longrightarrow> p \<noteq> n_key n \<longrightarrow>
      dget_default ''pending'' (effective_node_statuses d st) p \<in> set terminal_success_statuses"
    unfolding find_ready_iff [OF wf] by blast+
  have "p \<noteq> n_key n" using n x p(2) by (auto simp: pure_producer_def inputs_of_def)
  moreover have "produces d p x" using p(2) by (auto simp: pure_producer_def node_of_output)
  ultimately have t: "dget_default ''pending'' (effective_node_statuses d st) p \<in> set terminal_success_statuses"
    using gate x by blast
  from p(1) obtain m where m: "dget (d_nodes d) p = Some m" "n_type m \<noteq> ''start''"
    unfolding keys_executable_nodes [OF wf] by blast
  have "dget (effective_node_statuses d st) p = dget st p"
    using m wf_shape_node [OF wf, of p] dget_effective [OF wf, of st p] by auto
  with t show ?thesis
    by (auto simp: dget_default_def terminal_success_statuses_def split: option.splits)
qed

lemma round_reads:
  assumes wf: "wf_shape d" and r: "round_reachable d ks deleted (st, dir, W)"
    and ready: "n \<in> set (find_ready_nodes d st dir)" and x: "x \<in> set (n_inputs n)"
    and inv: "is_invalidated d (reset_nodes d ks) x"
  shows "x \<in> W \<or> (x \<notin> set deleted \<and>
    (\<forall>p \<in> set (reset_nodes d ks). pure_producer d x p \<longrightarrow> dget st p = Some ''not_applicable''))"
proof (cases "\<exists>p \<in> set (reset_nodes d ks). pure_producer d x p \<and> dget st p = Some ''completed''")
  case True
  with round_reachable_inv [OF r] show ?thesis by (auto simp: pure_producer_def)
next
  case False
  have na: "dget st p = Some ''not_applicable''" if "p \<in> set (reset_nodes d ks)" "pure_producer d x p" for p
    using ready_producer_done [OF wf ready x _ that(2)] that False by (auto simp: reset_nodes_def)
  have "dir x \<noteq> None" using ready x unfolding find_ready_iff [OF wf] by blast
  with round_reachable_inv [OF r] na show ?thesis by auto
qed

section \<open>Progress\<close>

text \<open>Deleting clean names never leaves a consumer without a producer that still runs.\<close>

lemma round_progress:
  assumes wf: "wf_shape d" and ac: "acyclic (merged_graph d)"
    and unc: "\<forall>e \<in> set (d_edges d). e_condition e = None"
    and starts: "\<forall>(k, n) \<in> set (d_nodes d). n_type n = ''start'' \<longrightarrow> n_inputs n = []"
    and todo: "reset_nodes d ks \<noteq> []"
    and gone: "\<forall>x \<in> set (consumed_names d). x \<in> set deleted \<longrightarrow> is_invalidated d (reset_nodes d ks) x"
    and here: "\<forall>x \<in> set (consumed_names d). x \<notin> set deleted \<longrightarrow> dir x \<noteq> None"
  shows "find_ready_nodes d (round_statuses d ks) dir \<noteq> []"
proof (rule ready_progress [OF wf ac unc])
  let ?st = "round_statuses d ks"
  have exec: "k \<in> set (keys (executable_nodes d)) \<longleftrightarrow> (\<exists>n. (k, n) \<in> set (d_nodes d) \<and> n_type n \<noteq> ''start'')" for k
    by (auto simp: executable_nodes_def in_keys_pair)
  have status: "dget (effective_node_statuses d ?st) k =
      (if k \<in> set (keys (executable_nodes d)) then Some (if k \<in> set ks then ''completed'' else ''pending'') else Some ''completed'')"
    if "k \<in> set (node_keys d)" for k
  proof -
    from that obtain n where n: "(k, n) \<in> set (d_nodes d)" by (auto simp: in_node_keys)
    have "(k, m) \<in> set (d_nodes d) \<Longrightarrow> m = n" for m
      using wf_shape_node [OF wf n] wf_shape_node [OF wf, of k m] by simp
    with n show ?thesis by (auto simp: dget_effective [OF wf] exec round_statuses_def dget_map_keys)
  qed
  show "settled d ?st" by (auto simp: settled_def dget_default_def status)
  obtain k where k: "k \<in> set (reset_nodes d ks)" using todo by (meson list.set_sel(1))
  then have kE: "k \<in> set (keys (executable_nodes d))" "k \<notin> set ks" by (auto simp: reset_nodes_def)
  then have "k \<in> set (node_keys d)" using executable_keys by blast
  with status [OF this] kE
  show "\<exists>k \<in> set (node_keys d). dget_default ''pending'' (effective_node_statuses d ?st) k \<noteq> ''completed''"
    by (intro bexI [of _ k]) (auto simp: dget_default_def)
  show "\<forall>(k, n) \<in> set (d_nodes d). \<forall>x \<in> set (n_inputs n). dir x \<noteq> None
      \<or> (\<exists>p. produces d p x \<and> p \<noteq> k \<and> dget_default ''pending'' (effective_node_statuses d ?st) p \<noteq> ''completed'')"
  proof (intro ballI, clarify)
    fix k n x
    assume n: "(k, n) \<in> set (d_nodes d)" and x: "x \<in> set (n_inputs n)"
      and none: "\<not> (\<exists>p. produces d p x \<and> p \<noteq> k \<and>
        dget_default ''pending'' (effective_node_statuses d ?st) p \<noteq> ''completed'')"
    have "n_type n \<noteq> ''start''" using starts n x by fastforce
    then have kE: "k \<in> set (keys (executable_nodes d))" using n exec by blast
    have "consumes d k x" using n x by (auto simp: consumes_def)
    then have c: "x \<in> set (consumed_names d)"
      using kE keys_consumption [of x d] set_succs_consumption [of k d x]
      by (auto simp: consumed_names_def exec_consumers_def filter_empty_conv)
    show "\<exists>y. dir x = Some y"
    proof (cases "x \<in> set deleted")
      case True
      then obtain p where p: "p \<in> set (reset_nodes d ks)" "pure_producer d x p"
        using gone c by (auto simp: is_invalidated_iff)
      then have pE: "p \<in> set (keys (executable_nodes d))" "p \<notin> set ks" by (auto simp: reset_nodes_def)
      then have "p \<in> set (node_keys d)" using executable_keys by blast
      then have "dget_default ''pending'' (effective_node_statuses d ?st) p \<noteq> ''completed''"
        using status [of p] pE by (simp add: dget_default_def)
      moreover have "p \<noteq> k" using p(2) x n by (auto simp: pure_producer_def inputs_of_node [OF wf n])
      moreover have "produces d p x" using p(2) by (simp add: pure_producer_def node_of_output)
      ultimately show ?thesis using none by blast
    qed (use here c in auto)
  qed
qed

end
