(* ===== verification/Upgrade_Service.thy ===== *)
theory Upgrade_Service
  imports Upgrade_Store Upgrade_Staging
begin

text \<open>
  The upgrade of one job from request to commit: the checks
  (\<open>server/app/services/job_workflow_upgrade_gates.py\<close>), one attempt
  (\<open>job_workflow_upgrade_apply.py\<close>) and the retry (\<open>job_workflow_upgrade.py\<close>). The context and
  the plan are computed in one state, the guarded transaction runs in a later one. File moves,
  event broadcasts and the cleanup after the commit are not modelled.
\<close>

section \<open>Results and context\<close>

record upgrade_result =
  ur_status :: string
  ur_reason :: "string option"
  ur_kept :: nat
  ur_rerun :: nat

definition upgrade_result :: "string \<Rightarrow> string \<Rightarrow> upgrade_result" where
  "upgrade_result status reason = \<lparr>ur_status = status, ur_reason = Some reason, ur_kept = 0, ur_rerun = 0\<rparr>"

definition upgrade_succeeded :: "upgrade_stats \<Rightarrow> upgrade_result" where
  "upgrade_succeeded st = \<lparr>ur_status = ''succeeded'', ur_reason = None, ur_kept = us_kept st, ur_rerun = us_rerun st\<rparr>"

record active_revision =
  av_id :: string
  av_version :: int
  av_hash :: string
  av_json :: string

record upgrade_context =
  uc_job :: job_row
  uc_active :: active_revision
  uc_definition :: workflow_definition
  uc_frozen :: "string option"
  uc_now :: int

text \<open>
  An attempt answers, must be retried (\<open>ActiveRevisionChangedError\<close>) or raises something else.
\<close>

datatype upgrade_attempt = Answered upgrade_result | Retry | Raised

text \<open>
  What an attempt reads besides the database: the active revision when the context is built and
  under the publication lock, the loader, the freeze of the node configuration (\<open>Inl\<close>: a
  \<open>ValueError\<close>), the inputs of the plan and of its revalidation, and the parser of the snapshot of
  a job (\<open>definition_from_job_snapshot\<close>).
\<close>

record upgrade_env =
  ue_active :: "active_revision option"
  ue_locked_active :: "active_revision option"
  ue_load :: "string \<Rightarrow> workflow_definition option"
  ue_freeze :: "workflow_definition \<Rightarrow> string + string option"
  ue_plan :: plan_env
  ue_identity :: identity_env
  ue_custom_nodes :: bool
  ue_require_rows :: bool
  ue_provenance :: "string \<Rightarrow> (string, provenance_entry) dict"
  ue_heads :: latest_heads
  ue_has_mutation :: bool
  ue_parse :: "string \<Rightarrow> workflow_definition option"

section \<open>The checks\<close>

definition resolve_upgrade_context ::
  "upgrade_env \<Rightarrow> string \<Rightarrow> string \<Rightarrow> int \<Rightarrow> db \<Rightarrow> upgrade_attempt + upgrade_context" where
  "resolve_upgrade_context env ws job now s =
     (case job_of s job of
        None \<Rightarrow> Inl (Answered (upgrade_result ''failed'' ''not_found''))
      | Some j \<Rightarrow>
          if j_workspace j \<noteq> ws then Inl (Answered (upgrade_result ''failed'' ''not_found''))
          else (case ue_active env of
             None \<Rightarrow> Inl (Answered (upgrade_result ''failed'' ''no_active_revision''))
           | Some a \<Rightarrow>
               if j_revision j = av_id a \<and> j_snapshot j = av_json a
               then Inl (Answered (upgrade_result ''skipped'' ''already_current''))
               else if exists_where (\<lambda>l. le_job l = job \<and> live_lease now l) (t_leases s)
               then Inl (Answered (upgrade_result ''skipped'' ''busy''))
               else (case ue_load env (av_json a) of
                  None \<Rightarrow> Inl Raised
                | Some d \<Rightarrow>
                    (case ue_freeze env d of
                       Inl _ \<Rightarrow> Inl (Answered (upgrade_result ''failed'' ''invalid_node_config''))
                     | Inr frozen \<Rightarrow> Inr \<lparr>uc_job = j, uc_active = a, uc_definition = d, uc_frozen = frozen, uc_now = now\<rparr>))))"

definition context_revision_current :: "upgrade_env \<Rightarrow> upgrade_context \<Rightarrow> bool" where
  "context_revision_current env ctx =
     (case ue_locked_active env of
        None \<Rightarrow> False
      | Some a \<Rightarrow> av_id a = av_id (uc_active ctx) \<and> av_json a = av_json (uc_active ctx))"

definition context_job_current :: "upgrade_context \<Rightarrow> db \<Rightarrow> bool" where
  "context_job_current ctx s =
     (case job_of s (j_id (uc_job ctx)) of
        None \<Rightarrow> False
      | Some j \<Rightarrow> j_revision j = j_revision (uc_job ctx) \<and> j_snapshot j = j_snapshot (uc_job ctx))"

section \<open>One attempt\<close>

definition old_definition :: "upgrade_env \<Rightarrow> upgrade_context \<Rightarrow> workflow_definition option" where
  "old_definition env ctx = ue_parse env (j_snapshot (uc_job ctx))"

definition planned_nodes :: "upgrade_env \<Rightarrow> bool \<Rightarrow> upgrade_context \<Rightarrow> closure_error + string list" where
  "planned_nodes env inherit_mode ctx =
     (if inherit_mode
      then plan_inherit_nodes ((ue_plan env)\<lparr>pl_snapshot := old_definition env ctx, pl_frozen := j_frozen (uc_job ctx)\<rparr>)
             (uc_definition ctx) (uc_frozen ctx) (ue_custom_nodes env)
             (ue_require_rows env) (ue_provenance env (av_json (uc_active ctx))) (Some (ue_heads env))
      else Inr [])"

definition revalidated_nodes :: "upgrade_env \<Rightarrow> upgrade_context \<Rightarrow> string list \<Rightarrow> closure_error + string list" where
  "revalidated_nodes env ctx inherit =
     (if inherit = [] then Inr []
      else (let changed = implementation_excluded_nodes (ue_identity env) (ue_custom_nodes env)
                  (map (\<lambda>(k, e). (k, pe_hash e)) (ue_provenance env (av_json (uc_active ctx))))
                  (lh_commits (ue_heads env)) (uc_definition ctx)
            in if changed = [] then Inr inherit
               else bindE (rerun_closure (uc_definition ctx) changed) (\<lambda>c. Inr (filter (\<lambda>k. k \<notin> set c) inherit))))"

definition job_statuses :: "string \<Rightarrow> db \<Rightarrow> statuses" where
  "job_statuses job s = map (\<lambda>n. (jn_node n, jn_status n)) (filter (\<lambda>n. jn_job n = job) (t_nodes s))"

definition context_pin :: "upgrade_context \<Rightarrow> revision_pin" where
  "context_pin ctx = \<lparr>rv_id = av_id (uc_active ctx), rv_version = av_version (uc_active ctx),
     rv_hash = av_hash (uc_active ctx), rv_snapshot = av_json (uc_active ctx), rv_frozen = uc_frozen ctx\<rparr>"

text \<open>The body of the guarded transaction after its checks: revalidate, stage, mutate.\<close>

definition upgrade_transaction :: "upgrade_env \<Rightarrow> upgrade_context \<Rightarrow> string list \<Rightarrow> int \<Rightarrow> db \<Rightarrow> upgrade_attempt \<times> db" where
  "upgrade_transaction env ctx planned now s =
     (let job = j_id (uc_job ctx); d = uc_definition ctx in
      case revalidated_nodes env ctx planned of
        Inl _ \<Rightarrow> (Raised, s)
      | Inr inherit \<Rightarrow>
          (case stage_upgrade_reset_outputs (ue_has_mutation env) (old_definition env ctx) d inherit (job_statuses job s) of
             Inl (ProtectionUnprovable names) \<Rightarrow> (Answered (upgrade_result ''skipped'' ''protection_unprovable''), s)
           | Inl (StageClosure _) \<Rightarrow> (Raised, s)
           | Inr (kept, staged, plan) \<Rightarrow>
               (case upgrade_job_workflow_inherit job (context_pin ctx) (keys (executable_nodes d)) kept
                       (case staged of None \<Rightarrow> [] | Some so \<Rightarrow> so_names so) (pp_keep plan) (ue_has_mutation env)
                       (Some (deleted_node_keys (old_definition env ctx) d)) now s of
                  Inl _ \<Rightarrow> (Raised, s)
                | Inr (st, s') \<Rightarrow> (Answered (upgrade_succeeded st), s'))))"

definition apply_upgrade_once ::
  "upgrade_env \<Rightarrow> bool \<Rightarrow> string \<Rightarrow> string \<Rightarrow> int \<Rightarrow> db \<Rightarrow> db \<Rightarrow> upgrade_attempt \<times> db" where
  "apply_upgrade_once env inherit_mode ws job now s0 s =
     (case resolve_upgrade_context env ws job now s0 of
        Inl answer \<Rightarrow> (answer, s)
      | Inr ctx \<Rightarrow>
          (case planned_nodes env inherit_mode ctx of
             Inl _ \<Rightarrow> (Raised, s)
           | Inr planned \<Rightarrow>
               (case lease_guarded job (uc_now ctx) True (\<lambda>s. Inr ((), s)) s of
                  Inl (Conflict code message) \<Rightarrow> (Answered (upgrade_result ''skipped'' code), s)
                | Inl _ \<Rightarrow> (Raised, s)
                | Inr _ \<Rightarrow>
                    if \<not> context_revision_current env ctx then (Retry, s)
                    else if \<not> context_job_current ctx s then (Retry, s)
                    else upgrade_transaction env ctx planned now s)))"

section \<open>The retry\<close>

text \<open>Each attempt has its own readings and states: before the plan, and at its transaction.\<close>

record attempt_input =
  at_env :: upgrade_env
  at_now :: int
  at_planned :: db
  at_guarded :: db

definition run_attempt :: "bool \<Rightarrow> string \<Rightarrow> string \<Rightarrow> attempt_input \<Rightarrow> upgrade_attempt \<times> db" where
  "run_attempt inherit_mode ws job a =
     apply_upgrade_once (at_env a) inherit_mode ws job (at_now a) (at_planned a) (at_guarded a)"

definition upgrade_job :: "bool \<Rightarrow> string \<Rightarrow> string \<Rightarrow> attempt_input \<Rightarrow> attempt_input \<Rightarrow> upgrade_attempt \<times> db" where
  "upgrade_job inherit_mode ws job first second =
     (case run_attempt inherit_mode ws job first of
        (Retry, _) \<Rightarrow>
          (case run_attempt inherit_mode ws job second of
             (Retry, s) \<Rightarrow> (Answered (upgrade_result ''skipped'' ''revision_changed''), s)
           | r \<Rightarrow> r)
      | r \<Rightarrow> r)"

section \<open>What a successful attempt did\<close>

lemma bump_generation_row:
  assumes "bump_generation f job now s = Inr (gen, s')" and id: "\<And>j. j_id (f j) = j_id j"
  shows "\<exists>j. job_of s job = Some j \<and> job_of s' job = Some ((f j)\<lparr>j_generation := j_generation j + 1, j_updated := now\<rparr>)
    \<and> gen = j_generation j + 1"
proof -
  have id': "j_id ((f j)\<lparr>j_generation := j_generation j + 1, j_updated := now\<rparr>) = j_id j" for j by (simp add: id)
  show ?thesis
    using assms(1) by (auto simp: bump_generation_def Let_def job_generation_def job_of_update_job [OF id'] split: option.splits)
qed

lemma upgrade_job_row:
  assumes "upgrade_job_workflow_inherit job pin nkeys inherit staged keep full removed now s = Inr (st, s')"
  shows "\<exists>status j. job_of s job = Some j \<and>
    job_of s' job = Some ((pin_job pin status j)\<lparr>j_generation := j_generation j + 1, j_updated := now\<rparr>)"
proof -
  from upgrade_stages [OF assms] obtain status gen s1 where
    b: "bump_generation (pin_job pin status) job now s = Inr (gen, s1)" and jobs: "t_jobs s' = t_jobs s1" by blast
  have "job_of s' job = job_of s1 job" by (simp add: job_of_def jobs)
  with bump_generation_row [OF b] show ?thesis by (auto simp: pin_job_def)
qed

lemma upgrade_mutation_pins:
  assumes "upgrade_job_workflow_inherit job pin nkeys inherit staged keep full removed now s = Inr (st, s')"
  shows "\<exists>j. job_of s' job = Some j \<and> j_revision j = rv_id pin \<and> j_snapshot j = rv_snapshot pin
    \<and> (\<exists>j0. job_of s job = Some j0 \<and> j_generation j = j_generation j0 + 1 \<and> j_workspace j = j_workspace j0)"
  using upgrade_job_row [OF assms] by (auto simp: pin_job_def)

lemma resolve_context_Inr:
  assumes "resolve_upgrade_context env ws job now s = Inr ctx"
  shows "job_of s job = Some (uc_job ctx)" "j_workspace (uc_job ctx) = ws" "ue_active env = Some (uc_active ctx)"
    "\<not> (j_revision (uc_job ctx) = av_id (uc_active ctx) \<and> j_snapshot (uc_job ctx) = av_json (uc_active ctx))"
    "j_id (uc_job ctx) = job"
proof -
  show "job_of s job = Some (uc_job ctx)" "j_workspace (uc_job ctx) = ws" "ue_active env = Some (uc_active ctx)"
    "\<not> (j_revision (uc_job ctx) = av_id (uc_active ctx) \<and> j_snapshot (uc_job ctx) = av_json (uc_active ctx))"
    using assms by (auto simp: resolve_upgrade_context_def split: option.splits if_splits sum.splits)
  then show "j_id (uc_job ctx) = job" using job_of_SomeD by blast
qed

lemma transaction_success:
  assumes "upgrade_transaction env ctx planned now s = (Answered r, s')" and "ur_status r = ''succeeded''"
  shows "\<exists>nkeys kept staged keep full removed st. upgrade_job_workflow_inherit (j_id (uc_job ctx)) (context_pin ctx)
    nkeys kept staged keep full removed now s = Inr (st, s')"
  using assms
  by (fastforce simp: upgrade_transaction_def upgrade_result_def Let_def split: sum.splits stage_error.splits prod.splits)

lemma attempt_success:
  assumes "apply_upgrade_once env m ws job now s0 s = (Answered r, s')" and "ur_status r = ''succeeded''"
  shows "\<exists>ctx planned. resolve_upgrade_context env ws job now s0 = Inr ctx \<and> context_job_current ctx s
    \<and> upgrade_transaction env ctx planned now s = (Answered r, s')"
proof -
  have fields: "ur_status (upgrade_result a b) = a" for a b by (simp add: upgrade_result_def)
  show ?thesis
  proof (cases "resolve_upgrade_context env ws job now s0")
    case (Inl a)
    then show ?thesis
      using assms by (auto simp: apply_upgrade_once_def resolve_upgrade_context_def fields
          split: option.splits if_splits sum.splits)
  next
    case (Inr ctx)
    then show ?thesis
      using assms by (auto simp: apply_upgrade_once_def fields split: sum.splits mutation_error.splits if_splits)
  qed
qed

text \<open>An attempt that does not answer with a success leaves the database as it was.\<close>

lemma attempt_unchanged:
  assumes "apply_upgrade_once env m ws job now s0 s = (a, s')"
    and "\<And>ctx planned. resolve_upgrade_context env ws job now s0 = Inr ctx \<Longrightarrow> \<not> context_job_current ctx s"
  shows "s' = s"
  using assms
  by (auto simp: apply_upgrade_once_def split: sum.splits mutation_error.splits if_splits)

lemma double_upgrade:
  assumes first: "run_attempt m ws job a = (Answered r, s')" "ur_status r = ''succeeded''"
    and stale: "job_of (at_planned b) job = job_of (at_planned a) job" and late: "at_guarded b = s'"
    and again: "at_planned c = s'" "at_guarded c = s'" "ue_active (at_env c) = ue_active (at_env a)"
  shows "snd (upgrade_job m' ws job b c) = s'
    \<and> (\<forall>r'. fst (upgrade_job m' ws job b c) = Answered r' \<longrightarrow> ur_status r' \<noteq> ''succeeded'')"
proof -
  from first obtain ctx planned where ctx: "resolve_upgrade_context (at_env a) ws job (at_now a) (at_planned a) = Inr ctx"
    and tr: "upgrade_transaction (at_env a) ctx planned (at_now a) (at_guarded a) = (Answered r, s')"
    unfolding run_attempt_def by (blast dest: attempt_success)
  note r = resolve_context_Inr [OF ctx]
  from transaction_success [OF tr first(2)] obtain nkeys kept staged keep full removed st where
    m: "upgrade_job_workflow_inherit job (context_pin ctx) nkeys kept staged keep full removed (at_now a) (at_guarded a)
      = Inr (st, s')" unfolding r(5) by blast
  from upgrade_mutation_pins [OF m] obtain j where
    j: "job_of s' job = Some j" "j_revision j = av_id (uc_active ctx)" "j_snapshot j = av_json (uc_active ctx)"
    by (auto simp: context_pin_def)
  have old: "\<not> context_job_current ctx' s'"
    if "resolve_upgrade_context (at_env b) ws job (at_now b) (at_planned b) = Inr ctx'" for ctx'
  proof -
    note r' = resolve_context_Inr [OF that]
    have "uc_job ctx' = uc_job ctx" using r(1) r'(1) stale by simp
    then show ?thesis using r(4,5) j by (auto simp: context_job_current_def)
  qed
  have one: "snd (run_attempt m' ws job b) = s'"
    using attempt_unchanged [of "at_env b" m' ws job "at_now b" "at_planned b" s'] late old
    unfolding run_attempt_def by (metis prod.collapse)
  have one': "ur_status r' \<noteq> ''succeeded''" if "fst (run_attempt m' ws job b) = Answered r'" for r'
    using that attempt_success [of "at_env b" m' ws job "at_now b" "at_planned b" s' r' "snd (run_attempt m' ws job b)"] late old
    unfolding run_attempt_def by (metis prod.collapse)
  have "resolve_upgrade_context (at_env c) ws job (at_now c) s'
      \<in> {Inl (Answered (upgrade_result ''skipped'' ''already_current'')), Inl (Answered (upgrade_result ''failed'' ''not_found''))}"
    using j r(3) again(3) by (simp add: resolve_upgrade_context_def)
  then have two: "run_attempt m' ws job c \<in> {(Answered (upgrade_result ''skipped'' ''already_current''), s'),
      (Answered (upgrade_result ''failed'' ''not_found''), s')}"
    by (auto simp: run_attempt_def apply_upgrade_once_def again)
  have status: "ur_status (upgrade_result a b) = a" for a b by (simp add: upgrade_result_def)
  show ?thesis
  proof (cases "fst (run_attempt m' ws job b)")
    case Retry
    then have "upgrade_job m' ws job b c = run_attempt m' ws job c"
      using two by (cases "run_attempt m' ws job b") (auto simp: upgrade_job_def)
    with two show ?thesis by (auto simp: status)
  qed (use one one' in \<open>cases "run_attempt m' ws job b"; simp add: upgrade_job_def\<close>)+
qed

end
