(* ===== verification/Upgrade_Properties.thy ===== *)
theory Upgrade_Properties
  imports Definition_Properties Upgrade_Plan Upgrade_Round Upgrade_Service
begin

text \<open>
  The properties of the workflow upgrade of a job, over the theories from \<open>Upgrade_Diff\<close> to
  \<open>Upgrade_Service\<close>, with concrete witnesses.
\<close>

section \<open>Loaded definitions\<close>

text \<open>
  The loader lets a start node declare inputs; the workflows of the repository do not. A
  definition of the loader whose start node reads nothing has its start node isolated.
\<close>

definition start_reads_nothing :: "workflow_definition \<Rightarrow> bool" where
  "start_reads_nothing d \<longleftrightarrow> list_all (\<lambda>(k, n). n_type n = ''start'' \<longrightarrow> n_inputs n = []) (d_nodes d)"

lemma start_reads_nothingD:
  "start_reads_nothing d \<Longrightarrow> (k, n) \<in> set (d_nodes d) \<Longrightarrow> n_type n = ''start'' \<Longrightarrow> n_inputs n = []"
  by (auto simp: start_reads_nothing_def list_all_iff)

lemma wf_start_isolated:
  assumes wf: "wf_definition d" and quiet: "start_reads_nothing d"
  shows "start_isolated d"
proof -
  have "y \<in> set (keys (executable_nodes d))" if "(x, y) \<in> merged_graph d" for x y
  proof -
    from that consider e where "e \<in> set (d_edges d)" "e_target e = y"
      | n name where "(y, n) \<in> set (d_nodes d)" "name \<in> set (n_inputs n)"
      unfolding merged_graph_def by (auto simp: edge_graph_def consumes_def)
    then obtain n where "(y, n) \<in> set (d_nodes d)" "n_type n \<noteq> ''start''"
    proof cases
      case 1
      then have "y \<in> set (keys (d_nodes d))" using wf by (auto simp: wf_definition_def edges_ok_def)
      then obtain n where n: "(y, n) \<in> set (d_nodes d)" by (auto simp: in_keys_pair)
      obtain k where k: "start_keys (d_nodes d) = [k]" "\<forall>e \<in> set (d_edges d). e_target e \<noteq> k"
        using wf unfolding wf_definition_def start_ok_def by blast
      have "n_type n \<noteq> ''start''"
      proof
        assume "n_type n = ''start''"
        then have "y \<in> set (start_keys (d_nodes d))" using n by (force simp: start_keys_def)
        with k 1 show False by simp
      qed
      with n that show ?thesis by blast
    next
      case 2
      then have "n_type n \<noteq> ''start''" using start_reads_nothingD [OF quiet 2(1)] by auto
      with 2 that show ?thesis by blast
    qed
    then show ?thesis by (auto simp: executable_nodes_def in_keys_pair)
  qed
  then show ?thesis unfolding start_isolated_def by blast
qed

section \<open>Samples\<close>

text \<open>The sample document as the loader reads it: \<open>a\<close> writes x, \<open>b\<close> makes y of it, \<open>c\<close> reads y.\<close>

definition sample_loaded :: workflow_definition where
  "sample_loaded = (case definition_from_mapping sample_document of Inr d \<Rightarrow> d
     | Inl _ \<Rightarrow> mk_definition [] [] [] [] [] 1 empty_execution)"

lemma sample_loaded_eq: "definition_from_mapping sample_document = Inr sample_loaded"
  using sample_loads by (auto simp: sample_loaded_def)

lemma sample_loaded_wf: "wf_definition sample_loaded"
  by (rule definition_from_mapping_wf [OF sample_loaded_eq])

lemma sample_loaded_quiet: "start_reads_nothing sample_loaded"
  by code_simp

text \<open>An empty catalog, no code nodes of the workspace, no execution records.\<close>

definition sample_diff_env :: diff_env where
  "sample_diff_env = \<lparr>de_loads = (\<lambda>_. Some (PDict [])), de_sha = (\<lambda>v. if v = PNone then ''none'' else ''some'')\<rparr>"


definition sample_identity_env :: identity_env where
  "sample_identity_env = \<lparr>ie_default_tools = [], ie_definition_hash = (\<lambda>_. None), ie_catalog = Some [],
     ie_code_hash = (\<lambda>_. Some ''h''), ie_executed = map (\<lambda>k. (k, \<lparr>xi_kind = ''code'', xi_hash = ''h'', xi_commit = [],
       xi_version = []\<rparr>)) [''a'', ''b'', ''c''], ie_lock = None\<rparr>"

text \<open>The artifacts x and y of \<open>a\<close> and \<open>b\<close> are registered.\<close>

definition sample_plan_env :: "(string \<times> string) list \<Rightarrow> plan_env" where
  "sample_plan_env rows = \<lparr>pl_diff = sample_diff_env, pl_identity = sample_identity_env, pl_snapshot = Some sample_loaded,
     pl_frozen = Some ''{}'', pl_dir_ok = True, pl_manifest = rows, pl_local = (\<lambda>_. False)\<rparr>"

definition sample_inherit :: "(string \<times> string) list \<Rightarrow> closure_error + string list" where
  "sample_inherit rows = plan_inherit_nodes (sample_plan_env rows) sample_loaded (Some ''{}'') True True [] None"


section \<open>The plan\<close>

text \<open>
  C26. The inherit plan implements its specification: it always returns, the nodes it keeps are
  unchanged, not excluded, have reachable artifacts and depend on no rerun node, and every other set
  of nodes with these qualities is smaller.
\<close>

theorem upgrade_plan_greatest:
  assumes "wf_definition new" and "start_reads_nothing new"
    and "pl_snapshot env = Some old" and "pl_frozen env = Some frozen" and "frozen \<noteq> []"
  shows "\<exists>I. plan_inherit_nodes env new new_frozen custom rows provenance heads = Inr I
    \<and> justified env new rows (plan_seeds env old frozen new new_frozen custom provenance heads) (set I)
    \<and> (\<forall>J. justified env new rows (plan_seeds env old frozen new new_frozen custom provenance heads) J \<longrightarrow> J \<subseteq> set I)"
  by (rule plan_inherit_justified [OF wf_definition_shape [OF assms(1)] wf_start_isolated [OF assms(1,2)] assms(3-5)])

theorem upgrade_plan_greatest_witness:
  "\<not> justified (sample_plan_env [(''a'', ''x'')]) sample_loaded True (plan_seeds (sample_plan_env [(''a'', ''x'')])
     sample_loaded ''{}'' sample_loaded (Some ''{}'') True [] None) {''a'', ''b''}"
proof -
  have e: "sample_inherit [(''a'', ''x'')] = Inr [''a'']" by code_simp
  show ?thesis
    using upgrade_plan_greatest [OF sample_loaded_wf sample_loaded_quiet, of "sample_plan_env [(''a'', ''x'')]" sample_loaded
        "''{}''" "Some ''{}''" True True "[]" None] e
    by (auto simp: sample_inherit_def sample_plan_env_def)
qed

section \<open>What is deleted\<close>

lemma staged_names_coherent:
  assumes "wf_definition d" and "start_reads_nothing d" and "set inherit \<subseteq> set (keys (executable_nodes d))"
    and "stage_upgrade_reset_outputs has_mutation old d inherit st = Inr (ks, Some so, plan)"
  shows "(\<forall>x \<in> set (consumed_names d). x \<in> set (so_names so) \<longleftrightarrow> x \<in> set (pp_clean plan))
    \<and> (\<forall>x \<in> set (so_names so). \<not> kept_declares d ks x)"
  using stage_coherent [OF wf_definition_shape [OF assms(1)] wf_start_isolated [OF assms(1,2)] assms(3,4)] by blast

text \<open>What the staging step says of one consumed name that a reset node produces.\<close>

lemma staged_invalidated:
  assumes wf: "wf_definition d" and quiet: "start_reads_nothing d" and sub: "set inherit \<subseteq> set (keys (executable_nodes d))"
    and stage: "stage_upgrade_reset_outputs has_mutation old d inherit st = Inr (ks, Some so, plan)"
    and x: "x \<in> set (consumed_names d)"
  shows "is_invalidated d (reset_nodes d ks) x \<Longrightarrow> x \<notin> set (rmw_attached d) \<Longrightarrow> x \<in> set (so_names so)"
    and "x \<in> set (so_names so) \<Longrightarrow> is_invalidated d (reset_nodes d ks) x"
proof -
  note shape = wf_definition_shape [OF wf] and iso = wf_start_isolated [OF wf quiet]
  define sn where "sn = staging_output_names d (reset_nodes d ks)"
  note stage' = stage_upgrade_Inr [OF stage, folded reset_nodes_def, folded sn_def]
  have ksE: "set ks \<subseteq> set (keys (executable_nodes d))" and closed: "upward_closed d (set ks)"
    using converge_keep_spec [OF shape iso sub stage'(1)] sub by blast+
  have rs: "set (reset_nodes d ks) = set (keys (executable_nodes d)) - set ks" by (auto simp: reset_nodes_def)
  then have rsE: "set (reset_nodes d ks) \<subseteq> set (keys (executable_nodes d))" by blast
  note cases = plan_verdict_cases [OF ksE rsE x, of sn]
  have coherent: "x \<in> set (so_names so) \<longleftrightarrow> x \<in> set (pp_clean plan)"
    using stage_coherent(1) [OF shape iso sub stage] x by blast
  have clean: "x \<in> set (pp_clean plan) \<longleftrightarrow> plan_verdict d ks (reset_nodes d ks) sn x \<in> {Clean, Retire}"
    by (simp add: stage'(2) plan_fields x)
  show "x \<in> set (so_names so)" if inv: "is_invalidated d (reset_nodes d ks) x" "x \<notin> set (rmw_attached d)"
  proof -
    have "plan_verdict d ks (reset_nodes d ks) sn x \<noteq> Unprovable"
      using plan_fields(3) [of d ks "reset_nodes d ks" sn] stage'(2,3) x by auto
    moreover have "\<not> kept_declares d ks x" using kept_not_invalidated [OF shape closed rs] inv(1) by blast
    ultimately show ?thesis using cases(6) inv clean coherent by blast
  qed
  show "is_invalidated d (reset_nodes d ks) x" if "x \<in> set (so_names so)"
    using that coherent clean cases(3) by blast
qed


text \<open>
  C27. The names an upgrade deletes are, among the names some node reads, exactly those its plan calls
  clean, and no kept node reads or writes a deleted name.
\<close>

theorem staged_deletions_coherent:
  assumes "wf_definition d" and "start_reads_nothing d" and "set inherit \<subseteq> set (keys (executable_nodes d))"
    and "stage_upgrade_reset_outputs has_mutation old d inherit st = Inr (ks, Some so, plan)"
  shows "(\<forall>x \<in> set (consumed_names d). x \<in> set (so_names so) \<longleftrightarrow> x \<in> set (pp_clean plan))
    \<and> (\<forall>x \<in> set (so_names so). \<forall>k \<in> set ks. x \<notin> set (inputs_of d k) \<and> x \<notin> set (outputs_of d k))
    \<and> set ks \<subseteq> {k \<in> set inherit. dget st k = Some ''completed''}"
proof -
  have "set ks \<subseteq> {k \<in> set inherit. dget st k = Some ''completed''}"
    using converge_keep_spec(1) [OF wf_definition_shape [OF assms(1)] wf_start_isolated [OF assms(1,2)] assms(3)]
      stage_upgrade_Inr(1) [OF assms(4)] by blast
  with staged_names_coherent [OF assms] show ?thesis unfolding kept_declares_def by blast
qed

definition sample_statuses :: statuses where
  "sample_statuses = [(''a'', ''completed''), (''b'', ''completed''), (''c'', ''completed'')]"

definition sample_stage :: "stage_error + string list \<times> staged_outputs option \<times> protection_plan" where
  "sample_stage = stage_upgrade_reset_outputs True (Some sample_loaded) sample_loaded [''a''] sample_statuses"

lemma sample_stage_eq: "stage_upgrade_reset_outputs True (Some sample_loaded) sample_loaded [''a''] sample_statuses
    = Inr ([''a''], Some \<lparr>so_names = [''y''], so_run_keys = [''b'', ''c'']\<rparr>, \<lparr>pp_keep = [''x''], pp_clean = [''y''],
       pp_unprovable = [], pp_sweep = [''y''], pp_rmw_retire = []\<rparr>)"
  by code_simp

lemma sample_executable: "keys (executable_nodes sample_loaded) = [''a'', ''b'', ''c'']"
  by code_simp

lemma sample_inherit_executable: "set [''a''] \<subseteq> set (keys (executable_nodes sample_loaded))"
  by (simp add: sample_executable)

theorem staged_deletions_coherent_witness: "''y'' \<notin> set (outputs_of sample_loaded ''a'') \<and> ''y'' \<notin> set (inputs_of sample_loaded ''a'')"
  using staged_deletions_coherent [OF sample_loaded_wf sample_loaded_quiet sample_inherit_executable sample_stage_eq] by simp

section \<open>The round after the upgrade\<close>

lemma consumed_input:
  assumes "(k, n) \<in> set (d_nodes d)" and "n_type n \<noteq> ''start''" and "x \<in> set (n_inputs n)"
  shows "x \<in> set (consumed_names d)"
proof -
  have kE: "k \<in> set (keys (executable_nodes d))" using assms(1,2) by (auto simp: executable_nodes_def in_keys_pair)
  have "consumes d k x" using assms(1,3) by (auto simp: consumes_def)
  then show ?thesis
    using kE keys_consumption [of x d] set_succs_consumption [of k d x]
    by (auto simp: consumed_names_def exec_consumers_def filter_empty_conv)
qed

text \<open>
  C28. After the staging step, whatever the nodes of the round do and in whatever order, a node that the
  scheduler calls ready reads no leftover of the previous revision: a name that some rerun node
  produces without reading it was written in this round, unless the name is also updated in place
  and all its rerun producers were cut off by branches.
\<close>

theorem upgraded_round_fresh:
  assumes "wf_definition d" and "start_reads_nothing d" and "set inherit \<subseteq> set (keys (executable_nodes d))"
    and "stage_upgrade_reset_outputs has_mutation old d inherit st = Inr (ks, Some so, plan)"
    and "round_reachable d ks (so_names so) (st', dir, W)" and "n \<in> set (find_ready_nodes d st' dir)"
    and "x \<in> set (n_inputs n)" and "is_invalidated d (reset_nodes d ks) x"
  shows "x \<in> W \<or> (x \<in> set (rmw_attached d) \<and> x \<notin> set (so_names so)
    \<and> (\<forall>p \<in> set (reset_nodes d ks). pure_producer d x p \<longrightarrow> dget st' p = Some ''not_applicable''))"
proof -
  note shape = wf_definition_shape [OF assms(1)]
  have n: "dget (d_nodes d) (n_key n) = Some n"
    using assms(6) unfolding find_ready_iff [OF shape] by blast
  then have "(n_key n, n) \<in> set (d_nodes d)" by (rule map_of_SomeD)
  moreover from this have "n_type n \<noteq> ''start''" using start_reads_nothingD [OF assms(2)] assms(7) by auto
  ultimately have "x \<in> set (consumed_names d)" using assms(7) by (rule consumed_input)
  from staged_invalidated(1) [OF assms(1-4) this assms(8)] round_reads [OF shape assms(5-8)]
  show ?thesis by blast
qed


definition sample_dir :: "string list \<Rightarrow> job_dir" where
  "sample_dir names = (\<lambda>x. if x \<in> set names then Some OtherFile else None)"

lemma sample_round:
  "\<exists>st. round_reachable sample_loaded [''a''] [''y''] (st, sample_dir [''x'', ''y''], {} \<union> set (outputs_of sample_loaded ''b''))
     \<and> st = dset ''b'' ''completed'' (dset ''b'' ''running'' (round_statuses sample_loaded [''a'']))"
proof -
  let ?d = sample_loaded and ?st = "round_statuses sample_loaded [''a'']"
  have "''b'' \<in> set (map n_key (find_ready_nodes ?d ?st (sample_dir [''x''])))" by code_simp
  then obtain n where n: "n \<in> set (find_ready_nodes ?d ?st (sample_dir [''x'']))" "n_key n = ''b''" by auto
  have one: "round_step ?d (?st, sample_dir [''x''], {}) (dset ''b'' ''running'' ?st, sample_dir [''x''], {})"
    using round_step.start [OF n(1)] n(2) by simp
  have two: "round_step ?d (dset ''b'' ''running'' ?st, sample_dir [''x''], {})
      (dset ''b'' ''completed'' (dset ''b'' ''running'' ?st), sample_dir [''x'', ''y''], {} \<union> set (outputs_of ?d ''b''))"
  proof (rule round_step.finish)
    have out: "outputs_of ?d ''b'' = [''y'']" by code_simp
    show "\<forall>x \<in> set (outputs_of ?d ''b''). sample_dir [''x'', ''y''] x \<noteq> None"
      "\<forall>x. x \<notin> set (outputs_of ?d ''b'') \<longrightarrow> sample_dir [''x'', ''y''] x = sample_dir [''x''] x"
      by (auto simp: out sample_dir_def)
  qed simp
  have "(round_step ?d)\<^sup>*\<^sup>* (?st, sample_dir [''x''], {})
      (dset ''b'' ''completed'' (dset ''b'' ''running'' ?st), sample_dir [''x'', ''y''], {} \<union> set (outputs_of ?d ''b''))"
    using one two by (meson converse_rtranclp_into_rtranclp rtranclp.rtrancl_refl)
  moreover have "\<forall>x \<in> set [''y'']. sample_dir [''x''] x = None" by (simp add: sample_dir_def)
  ultimately show ?thesis unfolding round_reachable_def by blast
qed

theorem upgraded_round_fresh_witness:
  "\<exists>st dir W. round_reachable sample_loaded [''a''] [''y''] (st, dir, W)
    \<and> ''c'' \<in> set (map n_key (find_ready_nodes sample_loaded st dir)) \<and> ''y'' \<in> W"
proof -
  obtain st where r: "round_reachable sample_loaded [''a''] [''y''] (st, sample_dir [''x'', ''y''], {} \<union> set (outputs_of sample_loaded ''b''))"
    and st: "st = dset ''b'' ''completed'' (dset ''b'' ''running'' (round_statuses sample_loaded [''a'']))"
    using sample_round by blast
  have c: "''c'' \<in> set (map n_key (find_ready_nodes sample_loaded st (sample_dir [''x'', ''y''])))"
    unfolding st by code_simp
  have "list_all (\<lambda>n. n_key n = ''c'' \<longrightarrow> ''y'' \<in> set (n_inputs n)) (find_ready_nodes sample_loaded st (sample_dir [''x'', ''y'']))"
    unfolding st by code_simp
  with c obtain n where n: "n \<in> set (find_ready_nodes sample_loaded st (sample_dir [''x'', ''y'']))" "''y'' \<in> set (n_inputs n)"
    by (auto simp: list_all_iff)
  have inv: "is_invalidated sample_loaded (reset_nodes sample_loaded [''a'']) ''y''" by code_simp
  have "''y'' \<in> {} \<union> set (outputs_of sample_loaded ''b'')"
    using upgraded_round_fresh [OF sample_loaded_wf sample_loaded_quiet sample_inherit_executable sample_stage_eq _ n inv] r
    by simp
  with r c show ?thesis by blast
qed

text \<open>
  C29. The round cannot begin stuck: with unconditional edges and an acyclic merged graph, when something
  reruns and the files the staging step did not delete are there, some node is ready.
\<close>

theorem upgraded_round_starts:
  assumes "wf_definition d" and "start_reads_nothing d" and "set inherit \<subseteq> set (keys (executable_nodes d))"
    and "stage_upgrade_reset_outputs has_mutation old d inherit st = Inr (ks, Some so, plan)"
    and "acyclic (merged_graph d)" and "\<forall>e \<in> set (d_edges d). e_condition e = None" and "reset_nodes d ks \<noteq> []"
    and "\<forall>x \<in> set (consumed_names d). x \<notin> set (so_names so) \<longrightarrow> dir x \<noteq> None"
  shows "find_ready_nodes d (round_statuses d ks) dir \<noteq> []"
proof (rule round_progress [OF wf_definition_shape [OF assms(1)] assms(5,6) _ assms(7) _ assms(8)])
  show "\<forall>(k, n) \<in> set (d_nodes d). n_type n = ''start'' \<longrightarrow> n_inputs n = []"
    using start_reads_nothingD [OF assms(2)] by blast
  show "\<forall>x \<in> set (consumed_names d). x \<in> set (so_names so) \<longrightarrow> is_invalidated d (reset_nodes d ks) x"
    using staged_invalidated(2) [OF assms(1-4)] by blast
qed


lemma sample_merged_acyclic: "acyclic (merged_graph sample_loaded)"
proof (rule acyclic_rank)
  let ?rank = "\<lambda>k. if k = ''_start'' then 0 else if k = ''a'' then 1 else if k = ''b'' then 2 else (3 :: nat)"
  fix x y
  assume xy: "(x, y) \<in> merged_graph sample_loaded"
  have edges: "d_edges sample_loaded = [plain_edge ''a'' ''b'', plain_edge ''b'' ''c'', plain_edge ''_start'' ''a'']" by code_simp
  have nodes: "map (\<lambda>(k, n). (k, n_inputs n, n_outputs n)) (d_nodes sample_loaded) =
      [(''_start'', [], []), (''a'', [], [''x'']), (''b'', [''x''], [''y'']), (''c'', [''y''], [])]" by code_simp
  have node: "(k, n_inputs n, n_outputs n) \<in> set [(''_start'', [], []), (''a'', [], [''x'']), (''b'', [''x''], [''y'']), (''c'', [''y''], [])]"
    if "(k, n) \<in> set (d_nodes sample_loaded)" for k n
    using that unfolding nodes [symmetric] by force
  have out: "(k = ''a'' \<and> v = ''x'') \<or> (k = ''b'' \<and> v = ''y'')" if "produces sample_loaded k v" for k v
    using that node by (fastforce simp: produces_def)
  have inp: "(k = ''b'' \<and> v = ''x'') \<or> (k = ''c'' \<and> v = ''y'')" if "consumes sample_loaded k v" for k v
    using that node by (fastforce simp: consumes_def edges plain_edge_def)
  from xy consider e where "e \<in> set (d_edges sample_loaded)" "x = e_source e" "y = e_target e"
    | v where "produces sample_loaded x v" "consumes sample_loaded y v"
    unfolding merged_graph_def by (auto simp: edge_graph_def)
  then show "?rank x < ?rank y"
  proof cases
    case 1
    then consider "e = plain_edge ''a'' ''b''" | "e = plain_edge ''b'' ''c''" | "e = plain_edge ''_start'' ''a''"
      unfolding edges by auto
    then show ?thesis by cases (simp_all add: 1 plain_edge_def)
  next
    case 2
    from out [OF 2(1)] inp [OF 2(2)] show ?thesis by (elim disjE conjE) simp_all
  qed
qed

theorem upgraded_round_starts_witness:
  "find_ready_nodes sample_loaded (round_statuses sample_loaded [''a'']) (sample_dir [''x'']) \<noteq> []"
proof (rule upgraded_round_starts [OF sample_loaded_wf sample_loaded_quiet sample_inherit_executable sample_stage_eq
      sample_merged_acyclic])
  have "list_all (\<lambda>e. e_condition e = None) (d_edges sample_loaded)" by code_simp
  then show "\<forall>e \<in> set (d_edges sample_loaded). e_condition e = None" by (simp add: list_all_iff)
  show "reset_nodes sample_loaded [''a''] \<noteq> []" by code_simp
  have "consumed_names sample_loaded = [''x'', ''y'']" by code_simp
  then show "\<forall>x \<in> set (consumed_names sample_loaded).
      x \<notin> set (so_names \<lparr>so_names = [''y''], so_run_keys = [''b'', ''c'']\<rparr>) \<longrightarrow> sample_dir [''x''] x \<noteq> None"
    by (simp add: sample_dir_def)
qed


section \<open>The mutation\<close>

text \<open>
  C30. A successful upgrade mutation pins the job to the new revision, raises its epoch by one and
  rebuilds exactly its node rows: a kept node keeps its row, which is completed; every other node of
  the new definition gets a fresh pending row of the new epoch; rows of removed nodes are gone. Other
  jobs, their rows and all leases stay as they are.
\<close>

theorem upgrade_mutation_effect:
  assumes "upgrade_job_workflow_inherit job pin nkeys inherit staged keep_names full removed now s = Inr (st, s')"
  shows "\<exists>j. job_of s job = Some j
    \<and> job_of s' job = Some ((pin_job pin (if filter (\<lambda>k. k \<notin> set (kept_nodes job nkeys inherit s)) nkeys \<noteq> [] then ''queued''
         else summarize_job_status (map (\<lambda>k. ''completed'') (kept_nodes job nkeys inherit s))) j)\<lparr>j_generation := j_generation j + 1, j_updated := now\<rparr>)
    \<and> (\<forall>other. other \<noteq> job \<longrightarrow> job_of s' other = job_of s other)
    \<and> (\<forall>other k. node_of s' other k = (if other \<noteq> job then node_of s other k
         else if k \<in> set (kept_nodes job nkeys inherit s) then node_of s job k
         else if k \<in> set nkeys then Some (fresh_node job (j_generation j + 1) now k) else None))
    \<and> (\<forall>k \<in> set (kept_nodes job nkeys inherit s). node_status_of job s k = Some ''completed'')
    \<and> t_leases s' = t_leases s"
  by (rule upgrade_job_rows [OF assms])

definition upgrade_db :: db where
  "upgrade_db = \<lparr>t_jobs = [\<lparr>j_id = ''job'', j_workspace = ''ws'', j_status = ''completed'', j_mode = ''full'', j_target = None,
       j_paused = False, j_pause_reason = [], j_error = [], j_packed = False, j_generation = 0, j_updated = 0,
       j_revision = ''r1'', j_version = 1, j_def_hash = [], j_snapshot = ''v1'', j_frozen = Some ''{}''\<rparr>],
     t_nodes = map (\<lambda>k. (fresh_node ''job'' 0 0 k)\<lparr>jn_status := ''completed''\<rparr>) [''a'', ''b'', ''old''],
     t_runs = [], t_leases = [], t_shards = [], t_artifacts = [], t_requests = [], t_limits = [], t_next_run = 1,
     t_workers = [], t_agent_caps = []\<rparr>"

definition upgrade_pin :: revision_pin where
  "upgrade_pin = \<lparr>rv_id = ''r2'', rv_version = 2, rv_hash = ''h'', rv_snapshot = ''v2'', rv_frozen = Some ''{}''\<rparr>"

definition sample_mutation :: "mutation_error + upgrade_stats \<times> db" where
  "sample_mutation =
     upgrade_job_workflow_inherit ''job'' upgrade_pin [''a'', ''b'', ''c''] [''a''] [''y''] [''x''] True (Some [''old'']) 7 upgrade_db"

theorem upgrade_mutation_effect_witness:
  "\<exists>st s'. sample_mutation = Inr (st, s') \<and> node_of s' ''job'' ''b'' = Some (fresh_node ''job'' 1 7 ''b'')
    \<and> node_of s' ''job'' ''old'' = None \<and> node_of s' ''job'' ''a'' = node_of upgrade_db ''job'' ''a''"
proof -
  have "case sample_mutation of Inr p \<Rightarrow> True | Inl _ \<Rightarrow> False" by code_simp
  then obtain st s' where m: "sample_mutation = Inr (st, s')" by (auto split: sum.splits)
  have kept: "kept_nodes ''job'' [''a'', ''b'', ''c''] [''a''] upgrade_db = [''a'']" by code_simp
  have gen: "map_option j_generation (job_of upgrade_db ''job'') = Some 0" by code_simp
  have r: "\<exists>j. job_of upgrade_db ''job'' = Some j \<and> (\<forall>other k. node_of s' other k = (if other \<noteq> ''job'' then node_of upgrade_db other k
         else if k \<in> set [''a''] then node_of upgrade_db ''job'' k
         else if k \<in> set [''a'', ''b'', ''c''] then Some (fresh_node ''job'' (j_generation j + 1) 7 k) else None))"
    using upgrade_mutation_effect [OF m [unfolded sample_mutation_def]] unfolding kept by blast
  with gen have "node_of s' ''job'' k = (if k = ''a'' then node_of upgrade_db ''job'' ''a''
      else if k \<in> {''b'', ''c''} then Some (fresh_node ''job'' 1 7 k) else None)" for k
    by auto
  then show ?thesis by (intro exI [of _ st] exI [of _ s']) (simp add: m)
qed


section \<open>Two upgrades\<close>

text \<open>
  C31. Two upgrades of a job to the same revision that overlap apply once. When the first one has
  committed, a second one that was planned on the job as it was before, in its transaction and in
  its retry, leaves the database as the first one left it and does not report success.
\<close>

theorem overlapping_upgrade_applies_once:
  assumes "run_attempt m ws job a = (Answered r, s')" and "ur_status r = ''succeeded''"
    and "job_of (at_planned b) job = job_of (at_planned a) job" and "at_guarded b = s'"
    and "at_planned c = s'" and "at_guarded c = s'" and "ue_active (at_env c) = ue_active (at_env a)"
  shows "snd (upgrade_job m' ws job b c) = s'
    \<and> (\<forall>r'. fst (upgrade_job m' ws job b c) = Answered r' \<longrightarrow> ur_status r' \<noteq> ''succeeded'')"
  by (rule double_upgrade [OF assms])

definition sample_upgrade_env :: upgrade_env where
  "sample_upgrade_env =
     (let active = \<lparr>av_id = ''r2'', av_version = 2, av_hash = ''h'', av_json = ''v2''\<rparr>
      in \<lparr>ue_active = Some active, ue_locked_active = Some active, ue_load = (\<lambda>_. Some sample_loaded),
         ue_freeze = (\<lambda>_. Inr (Some ''{}'')), ue_plan = sample_plan_env [(''a'', ''x'')], ue_identity = sample_identity_env,
         ue_custom_nodes = True, ue_require_rows = True, ue_provenance = (\<lambda>_. []),
         ue_heads = \<lparr>lh_commits = [], lh_bound = []\<rparr>, ue_has_mutation = True, ue_parse = (\<lambda>_. Some sample_loaded)\<rparr>)"

definition attempt_on :: "db \<Rightarrow> db \<Rightarrow> attempt_input" where
  "attempt_on planned guarded = \<lparr>at_env = sample_upgrade_env, at_now = 7, at_planned = planned, at_guarded = guarded\<rparr>"

definition upgraded_db :: db where
  "upgraded_db = snd (run_attempt True ''ws'' ''job'' (attempt_on upgrade_db upgrade_db))"

theorem overlapping_upgrade_applies_once_witness:
  "t_nodes upgraded_db \<noteq> t_nodes upgrade_db
    \<and> snd (upgrade_job True ''ws'' ''job'' (attempt_on upgrade_db upgraded_db) (attempt_on upgraded_db upgraded_db)) = upgraded_db"
proof -
  have "case fst (run_attempt True ''ws'' ''job'' (attempt_on upgrade_db upgrade_db)) of
      Answered r \<Rightarrow> ur_status r = ''succeeded'' \<and> ur_kept r = 1 \<and> ur_rerun r = 2 | _ \<Rightarrow> False" by code_simp
  then obtain r where r: "run_attempt True ''ws'' ''job'' (attempt_on upgrade_db upgrade_db) = (Answered r, upgraded_db)"
    "ur_status r = ''succeeded''"
    by (cases "run_attempt True ''ws'' ''job'' (attempt_on upgrade_db upgrade_db)")
      (auto simp: upgraded_db_def split: upgrade_attempt.splits)
  have "map jn_node (t_nodes upgraded_db) = [''a'', ''b'', ''c'']" "map jn_node (t_nodes upgrade_db) = [''a'', ''b'', ''old'']"
    by code_simp+
  then have "t_nodes upgraded_db \<noteq> t_nodes upgrade_db" by auto
  with overlapping_upgrade_applies_once [OF r, of "attempt_on upgrade_db upgraded_db" "attempt_on upgraded_db upgraded_db" True]
  show ?thesis by (simp add: attempt_on_def)
qed

end
