(* ===== verification/Broker_Store.thy ===== *)
theory Broker_Store
  imports Lease_Lifecycle
begin

text \<open>
  The tables behind the agent broker (\<open>server/app/agent_broker/\<close>): the request queue and the worker
  rows of \<open>db\<close> with the statements the broker shares, and the tables and callbacks it only reads.
\<close>

section \<open>What the broker reads\<close>

text \<open>A row of \<open>versioned_entities\<close> of type agent: its runtime and required labels.\<close>

record agent_version =
  av_workspace :: string
  av_key :: string
  av_version :: int
  av_status :: string
  av_hash :: string
  av_runtime :: "string option"
  av_labels :: "(string, string) dict"

record material_row =
  ma_id :: string
  ma_workspace :: string
  ma_status :: string
  ma_hash :: string
  ma_etag :: string

text \<open>
  The broker object and the tables it does not write: workspaces with their node configuration
  (\<open>None\<close>: not valid JSON), agent versions, revisions with their parsed definition, the input
  document of a job, materials and bundle members. \<open>br_paused\<close> is the callback
  \<open>is_workspace_paused\<close>, \<open>br_key\<close> is \<open>hashtext\<close> of PostgreSQL, \<open>br_render\<close>, \<open>br_log_path\<close> and
  \<open>br_audit\<close> are \<open>render_command_spec\<close>, \<open>claim_log_path\<close> and \<open>manifest_run_audit_json\<close>, whose
  results are stored and not looked at. Durations are in seconds, \<open>br_touch\<close> in microseconds.
\<close>

record broker =
  br_workspaces :: "(string \<times> pyval option) list"
  br_agents :: "agent_version list"
  br_revisions :: "(string, pyval) dict"
  br_inputs :: "(string \<times> string, pydict) dict"
  br_materials :: "material_row list"
  br_bundles :: "(string \<times> string) list"
  br_paused :: "string \<Rightarrow> bool"
  br_key :: "string \<Rightarrow> int"
  br_render :: "pydict \<Rightarrow> pyval"
  br_log_path :: "pydict \<Rightarrow> string"
  br_audit :: "pydict \<Rightarrow> string"
  br_ttl :: int
  br_requeue_limit :: int
  br_touch :: int

text \<open>
  What one write transaction takes from outside: the clock, the uuid drawn for the lease of an
  execution, the request rows that a competitor holds locked (\<open>skip locked\<close>), and the commits on
  a job row between the check of the job and the promotion. Pausing a job takes no job-mutation
  lock, so the promotion may see another job row than the check did.
\<close>

record claim_tx =
  tx_now :: int
  tx_uuid :: "string \<Rightarrow> string"
  tx_locked :: "string list"
  tx_meanwhile :: "string \<Rightarrow> job_row \<Rightarrow> job_row"

section \<open>Requests\<close>

definition active_request_states :: "string list" where
  "active_request_states = [''queued'', ''claimed'', ''reporting'']"

definition held_states :: "string list" where
  "held_states = [''claimed'', ''reporting'']"

definition request_of :: "db \<Rightarrow> string \<Rightarrow> request_row option" where
  "request_of s e = find (\<lambda>r. rq_execution r = e) (t_requests s)"

definition worker_of :: "db \<Rightarrow> string \<Rightarrow> worker_row option" where
  "worker_of s w = find (\<lambda>r. wk_id r = w) (t_workers s)"

definition update_requests :: "(request_row \<Rightarrow> bool) \<Rightarrow> (request_row \<Rightarrow> request_row) \<Rightarrow> db \<Rightarrow> db" where
  "update_requests p f s = s\<lparr>t_requests := update_where p f (t_requests s)\<rparr>"

definition update_workers :: "(worker_row \<Rightarrow> bool) \<Rightarrow> (worker_row \<Rightarrow> worker_row) \<Rightarrow> db \<Rightarrow> db" where
  "update_workers p f s = s\<lparr>t_workers := update_where p f (t_workers s)\<rparr>"

text \<open>\<open>cancel_request\<close>: terminal state and manifest trim.\<close>

definition cancelled_row :: "int \<Rightarrow> request_row \<Rightarrow> request_row" where
  "cancelled_row now r = r\<lparr>rq_state := ''cancelled'', rq_finished := Some now, rq_trimmed := True\<rparr>"

definition cancel_request :: "string \<Rightarrow> int \<Rightarrow> db \<Rightarrow> db" where
  "cancel_request e now s = update_requests (\<lambda>r. rq_execution r = e) (cancelled_row now) s"

definition done_row :: "pydict option \<Rightarrow> int \<Rightarrow> request_row \<Rightarrow> request_row" where
  "done_row outcome now r = r\<lparr>rq_state := ''done'', rq_finished := Some now, rq_trimmed := True,
     rq_outcome := (case outcome of None \<Rightarrow> rq_outcome r | Some d \<Rightarrow> Some d)\<rparr>"

definition touch_worker :: "string \<Rightarrow> int \<Rightarrow> int \<Rightarrow> db \<Rightarrow> db" where
  "touch_worker w interval now s =
     update_workers (\<lambda>r. wk_id r = w \<and> wk_last_seen r < now - interval) (\<lambda>r. r\<lparr>wk_last_seen := now\<rparr>) s"

text \<open>The loads that the capacity gates count: only \<open>claimed\<close> requests hold a slot.\<close>

definition slot_of :: "string \<Rightarrow> request_row \<Rightarrow> bool" where
  "slot_of w r \<longleftrightarrow> rq_worker r = Some w \<and> rq_state r = ''claimed''"

definition kind_load :: "string \<Rightarrow> string \<Rightarrow> db \<Rightarrow> nat" where
  "kind_load w kind s = count_where (\<lambda>r. slot_of w r \<and> rq_kind r = kind) (t_requests s)"

definition worker_node_load :: "string \<Rightarrow> string \<Rightarrow> db \<Rightarrow> nat" where
  "worker_node_load w node s = count_where (\<lambda>r. slot_of w r \<and> rq_node r = node) (t_requests s)"

definition workspace_agent_load :: "string \<Rightarrow> db \<Rightarrow> nat" where
  "workspace_agent_load ws s =
     count_where (\<lambda>r. rq_workspace r = ws \<and> rq_state r = ''claimed'' \<and> rq_kind r = ''agent'') (t_requests s)"

section \<open>The manifest as a document\<close>

text \<open>
  The Host writes the manifests, revisions and execution records it reads back here: objects
  where the code expects objects, texts for provider, model and label. A value of another type
  would raise; it reads as empty.
\<close>

definition mapping_of :: "pyval \<Rightarrow> pydict" where
  "mapping_of v = (case v of PDict d \<Rightarrow> d | _ \<Rightarrow> [])"

definition text_value :: "pyval \<Rightarrow> string" where
  "text_value v = (case v of PStr s \<Rightarrow> s | _ \<Rightarrow> [])"

text \<open>The shard of a code request: \<open>manifest.get("shard_index")\<close>, a non-negative integer or absent.\<close>

definition manifest_shard :: "pydict \<Rightarrow> nat option" where
  "manifest_shard m = (case pget m ''shard_index'' of PInt i \<Rightarrow> Some (nat i) | _ \<Rightarrow> None)"

definition shard_identity :: "request_row \<Rightarrow> int" where
  "shard_identity r = (case manifest_shard (rq_manifest r) of None \<Rightarrow> -1 | Some i \<Rightarrow> int i)"

section \<open>Frames\<close>

lemma update_requests_tables [simp]:
  "t_jobs (update_requests p f s) = t_jobs s" "t_nodes (update_requests p f s) = t_nodes s"
  "t_runs (update_requests p f s) = t_runs s" "t_leases (update_requests p f s) = t_leases s"
  "t_shards (update_requests p f s) = t_shards s" "t_artifacts (update_requests p f s) = t_artifacts s"
  "t_limits (update_requests p f s) = t_limits s" "t_next_run (update_requests p f s) = t_next_run s"
  "t_workers (update_requests p f s) = t_workers s" "t_agent_caps (update_requests p f s) = t_agent_caps s"
  "t_requests (update_requests p f s) = update_where p f (t_requests s)"
  by (simp_all add: update_requests_def)

lemma update_workers_tables [simp]:
  "t_jobs (update_workers p f s) = t_jobs s" "t_nodes (update_workers p f s) = t_nodes s"
  "t_runs (update_workers p f s) = t_runs s" "t_leases (update_workers p f s) = t_leases s"
  "t_shards (update_workers p f s) = t_shards s" "t_artifacts (update_workers p f s) = t_artifacts s"
  "t_limits (update_workers p f s) = t_limits s" "t_next_run (update_workers p f s) = t_next_run s"
  "t_requests (update_workers p f s) = t_requests s" "t_agent_caps (update_workers p f s) = t_agent_caps s"
  "t_workers (update_workers p f s) = update_where p f (t_workers s)"
  by (simp_all add: update_workers_def)

lemma cancel_request_tables [simp]:
  "t_jobs (cancel_request e now s) = t_jobs s" "t_nodes (cancel_request e now s) = t_nodes s"
  "t_runs (cancel_request e now s) = t_runs s" "t_leases (cancel_request e now s) = t_leases s"
  "t_shards (cancel_request e now s) = t_shards s" "t_workers (cancel_request e now s) = t_workers s"
  "t_limits (cancel_request e now s) = t_limits s" "t_agent_caps (cancel_request e now s) = t_agent_caps s"
  "t_next_run (cancel_request e now s) = t_next_run s"
  by (simp_all add: cancel_request_def)

lemma touch_worker_tables [simp]:
  "t_jobs (touch_worker w i now s) = t_jobs s" "t_nodes (touch_worker w i now s) = t_nodes s"
  "t_runs (touch_worker w i now s) = t_runs s" "t_leases (touch_worker w i now s) = t_leases s"
  "t_shards (touch_worker w i now s) = t_shards s" "t_requests (touch_worker w i now s) = t_requests s"
  "t_limits (touch_worker w i now s) = t_limits s" "t_agent_caps (touch_worker w i now s) = t_agent_caps s"
  by (simp_all add: touch_worker_def)

lemma request_of_SomeD: "request_of s e = Some r \<Longrightarrow> r \<in> set (t_requests s) \<and> rq_execution r = e"
  by (auto simp: request_of_def find_Some_iff)

lemma count_update_drops:
  "(\<And>r. p r \<Longrightarrow> \<not> q (f r)) \<Longrightarrow> count_where q (update_where p f rows) \<le> count_where q rows"
  by (induction rows) (auto simp: update_where_def count_where_def)

end
