(* ===== verification/Broker_Scan.thy ===== *)
theory Broker_Scan
  imports Broker_Store
begin

text \<open>
  The candidate window of a claim (\<open>agent_broker/claim_scan.py\<close>): the bounded query over the queued
  requests, the saturation test that widens the window, and the rotation across workspaces, with
  the lemmas that make the rotation fair.
\<close>

section \<open>Candidates\<close>

definition scan_rounds :: "(nat \<times> nat) list" where
  "scan_rounds = [(8, 256), (64, 2048), (512, 16384)]"

definition max_claim_attempts :: nat where
  "max_claim_attempts = 32"

definition runnable_job_statuses :: "string list" where
  "runnable_job_statuses = [''queued'', ''running'', ''awaiting_approval'']"

text \<open>
  A row of the candidate query: the request, the runtime, labels and revision joined to it, the
  workspace override of the timeout (\<open>None\<close>: the row has no such column; \<open>PNone\<close>: no override)
  and the two advisory lock keys.
\<close>

record candidate =
  cd_row :: request_row
  cd_runtime :: "string option"
  cd_labels :: "(string, string) dict"
  cd_revision :: "pyval option"
  cd_override :: "pyval option"
  cd_ws_key :: int
  cd_job_key :: int

abbreviation cd_workspace :: "candidate \<Rightarrow> string" where
  "cd_workspace c \<equiv> rq_workspace (cd_row c)"

abbreviation cd_execution :: "candidate \<Rightarrow> string" where
  "cd_execution c \<equiv> rq_execution (cd_row c)"

record worker_view =
  vw_runtimes :: "string list"
  vw_models :: "(string \<times> string \<times> string) list"
  vw_labels :: "(string, string) dict"
  vw_allowed :: "string list"
  vw_agent_capacity :: int
  vw_agent_active :: int
  vw_code_capacity :: int
  vw_code_active :: int
  vw_protocol :: int
  vw_node_limits :: "(string, int) dict"

text \<open>The histogram of skip reasons is the list of its increments.\<close>

record scan_state =
  sc_attempts :: nat
  sc_skips :: "string list"
  sc_pauses :: "(string, bool) dict"
  sc_node_active :: "(string, nat) dict"
  sc_node_chosen :: "(string, nat) dict"
  sc_node_filtered :: "string list"

definition initial_scan :: scan_state where
  "initial_scan = \<lparr>sc_attempts = 0, sc_skips = [], sc_pauses = [], sc_node_active = [], sc_node_chosen = [],
     sc_node_filtered = []\<rparr>"

definition skip :: "string \<Rightarrow> scan_state \<Rightarrow> scan_state" where
  "skip reason st = st\<lparr>sc_skips := sc_skips st @ [reason]\<rparr>"

text \<open>The keys of the advisory locks: \<open>hashtext\<close> of the domain and the identifier.\<close>

definition agent_ws_key :: "broker \<Rightarrow> string \<Rightarrow> int" where
  "agent_ws_key b ws = br_key b (''agent-ws:'' @ ws)"

definition job_lock_key :: "broker \<Rightarrow> string \<Rightarrow> int" where
  "job_lock_key b job = br_key b (''job-mutation:'' @ job)"

section \<open>The candidate query\<close>

text \<open>
  One step of a JSON path. The override documents are objects; array subscripts do not occur.
\<close>

definition json_step :: "string \<Rightarrow> pyval option \<Rightarrow> pyval option" where
  "json_step k v = (case v of Some (PDict d) \<Rightarrow> dget d (PStr k) | _ \<Rightarrow> None)"

definition timeout_override :: "pyval option \<Rightarrow> string \<Rightarrow> string \<Rightarrow> pyval" where
  "timeout_override doc ws node =
     (case json_step ''timeout_seconds'' (json_step node (json_step ws doc)) of
        None \<Rightarrow> PNone
      | Some (PDict d) \<Rightarrow> PStr ''<non-scalar>''
      | Some (PList xs) \<Rightarrow> PStr ''<non-scalar>''
      | Some v \<Rightarrow> v)"

text \<open>The agent version a request is joined to: its pinned version, or the published one.\<close>

definition agent_matches :: "request_row \<Rightarrow> agent_version \<Rightarrow> bool" where
  "agent_matches r a \<longleftrightarrow> rq_kind r = ''agent'' \<and> rq_source r = ''agent_definition''
     \<and> av_workspace a = rq_workspace r \<and> av_key a = rq_agent_id r \<and> av_hash a = rq_agent_hash r
     \<and> (case rq_pinned r of Some v \<Rightarrow> av_version a = v | None \<Rightarrow> av_status a = ''published'')"

definition agent_of :: "broker \<Rightarrow> request_row \<Rightarrow> agent_version option" where
  "agent_of b r = find (agent_matches r) (br_agents b)"

definition has_profile :: "broker \<Rightarrow> request_row \<Rightarrow> bool" where
  "has_profile b r \<longleftrightarrow> rq_kind r = ''code'' \<or> rq_source r = ''node'' \<or> agent_of b r \<noteq> None"

definition candidate_runtime :: "broker \<Rightarrow> request_row \<Rightarrow> string option" where
  "candidate_runtime b r =
     (if rq_kind r = ''code'' then Some ''code''
      else if rq_source r = ''node'' then rq_runtime r
      else (case agent_of b r of None \<Rightarrow> None | Some a \<Rightarrow> av_runtime a))"

definition candidate_labels :: "broker \<Rightarrow> request_row \<Rightarrow> (string, string) dict" where
  "candidate_labels b r =
     (if rq_source r = ''node'' then (case rq_labels r of None \<Rightarrow> [] | Some d \<Rightarrow> d)
      else (case agent_of b r of None \<Rightarrow> [] | Some a \<Rightarrow> av_labels a))"

definition make_candidate :: "broker \<Rightarrow> db \<Rightarrow> pyval option \<Rightarrow> request_row \<Rightarrow> candidate" where
  "make_candidate b s doc r =
     \<lparr>cd_row = r, cd_runtime = candidate_runtime b r, cd_labels = candidate_labels b r,
      cd_revision = (case job_of s (rq_job r) of None \<Rightarrow> None | Some j \<Rightarrow> dget (br_revisions b) (j_revision j)),
      cd_override = Some (timeout_override doc (rq_workspace r) (rq_node r)),
      cd_ws_key = agent_ws_key b (rq_workspace r), cd_job_key = job_lock_key b (rq_job r)\<rparr>"

definition queued_of :: "string \<Rightarrow> string \<Rightarrow> request_row \<Rightarrow> bool" where
  "queued_of ws kind r \<longleftrightarrow> rq_workspace r = ws \<and> rq_state r = ''queued'' \<and> rq_kind r = kind"

definition eligible_workspace :: "string \<Rightarrow> db \<Rightarrow> string \<Rightarrow> bool" where
  "eligible_workspace kind s ws \<longleftrightarrow> exists_where (queued_of ws kind) (t_requests s)
     \<and> (kind = ''code'' \<or>
        int (workspace_agent_load ws s) < (case dget (t_agent_caps s) ws of None \<Rightarrow> 2147483647 | Some m \<Rightarrow> m))"

text \<open>\<open>order by queued_at, execution_id\<close>.\<close>

definition queue_order :: "('a \<Rightarrow> request_row) \<Rightarrow> 'a list \<Rightarrow> 'a list" where
  "queue_order row xs = sort_key (\<lambda>x. rq_queued (row x)) (sort_key (\<lambda>x. rq_execution (row x)) xs)"

definition workspace_head :: "broker \<Rightarrow> nat \<Rightarrow> string \<Rightarrow> db \<Rightarrow> string \<times> pyval option \<Rightarrow> candidate list" where
  "workspace_head b per_workspace kind s w =
     map (make_candidate b s (snd w)) (filter (\<lambda>r. job_of s (rq_job r) \<noteq> None)
       (take per_workspace (queue_order (\<lambda>r. r)
          (filter (\<lambda>r. queued_of (fst w) kind r \<and> has_profile b r) (t_requests s)))))"

definition fetch_candidates :: "broker \<Rightarrow> nat \<Rightarrow> nat \<Rightarrow> string \<Rightarrow> db \<Rightarrow> candidate list" where
  "fetch_candidates b per_workspace window kind s =
     take window (queue_order cd_row (concat (map (workspace_head b per_workspace kind s)
       (filter (\<lambda>w. eligible_workspace kind s (fst w)) (br_workspaces b)))))"

definition window_saturated :: "candidate list \<Rightarrow> nat \<Rightarrow> nat \<Rightarrow> bool" where
  "window_saturated cs per_workspace window \<longleftrightarrow> length cs \<ge> window
     \<or> list_ex (\<lambda>c. count_where (\<lambda>c'. cd_workspace c' = cd_workspace c) cs \<ge> per_workspace) cs"

text \<open>\<open>labels_satisfy\<close>: a missing label compares as the text \<open>None\<close>.\<close>

definition labels_satisfy :: "(string, string) dict \<Rightarrow> (string, string) dict \<Rightarrow> bool" where
  "labels_satisfy actual required = list_all (\<lambda>(k, v). dget_default ''None'' actual k = v) required"

section \<open>Rotation\<close>

definition group_by :: "('a \<Rightarrow> 'k) \<Rightarrow> 'a list \<Rightarrow> ('k, 'a list) dict" where
  "group_by key rows = fold (\<lambda>r d. dset (key r) (dget_default [] d (key r) @ [r]) d) rows []"

definition rotate_from :: "nat \<Rightarrow> 'a list \<Rightarrow> 'a list" where
  "rotate_from cursor ks = (let start = cursor mod length ks in drop start ks @ take start ks)"

definition round_at :: "nat \<Rightarrow> 'a list list \<Rightarrow> 'a list" where
  "round_at depth groups = concat (map (\<lambda>g. if depth < length g then [g ! depth] else []) groups)"

lemma round_at_bound: "round_at depth groups \<noteq> [] \<Longrightarrow> depth < sum_list (map length groups)"
proof -
  assume "round_at depth groups \<noteq> []"
  then obtain g where "g \<in> set groups" "depth < length g"
    unfolding round_at_def by (auto split: if_splits)
  then show ?thesis using member_le_sum_list [of "length g" "map length groups"] by auto
qed

function fair_rounds :: "nat \<Rightarrow> 'a list list \<Rightarrow> 'a list" where
  "fair_rounds depth groups =
     (if round_at depth groups = [] then [] else round_at depth groups @ fair_rounds (Suc depth) groups)"
  by pat_completeness auto
termination
  by (relation "measure (\<lambda>(depth, groups). sum_list (map length groups) - depth)")
    (auto dest!: round_at_bound)

declare fair_rounds.simps [simp del]

definition fair_candidate_order :: "candidate list \<Rightarrow> nat \<Rightarrow> candidate list" where
  "fair_candidate_order rows cursor =
     (let by_workspace = group_by cd_workspace rows; ks = keys by_workspace in
      if ks = [] then []
      else fair_rounds 0 (map (dget_default [] by_workspace) (rotate_from cursor ks)))"

section \<open>The rotation is fair\<close>

lemma fair_rounds_upt:
  "\<forall>g \<in> set groups. length g \<le> n \<Longrightarrow> d \<le> n \<Longrightarrow>
    fair_rounds d groups = concat (map (\<lambda>i. round_at i groups) [d..<n])"
proof (induction "n - d" arbitrary: d)
  case 0
  then have "round_at d groups = []" by (auto simp: round_at_def)
  with 0 show ?case by (simp add: fair_rounds.simps)
next
  case (Suc k)
  then have IH: "fair_rounds (Suc d) groups = concat (map (\<lambda>i. round_at i groups) [Suc d..<n])" by simp
  have split: "[d..<n] = d # [Suc d..<n]" using Suc.hyps by (simp add: upt_conv_Cons)
  show ?case
  proof (cases "round_at d groups = []")
    case True
    have "round_at i groups = []" if "d \<le> i" for i
      using True that unfolding round_at_def by (fastforce split: if_splits)
    then have "concat (map (\<lambda>i. round_at i groups) [d..<n]) = []" by simp
    then show ?thesis using True by (simp add: fair_rounds.simps)
  next
    case False
    then show ?thesis using IH split by (simp add: fair_rounds.simps [of d])
  qed
qed

lemma fold_group_get:
  "dget_default [] (fold (\<lambda>r d. dset (key r) (dget_default [] d (key r) @ [r]) d) rows d0) k
    = dget_default [] d0 k @ filter (\<lambda>r. key r = k) rows"
  by (induction rows arbitrary: d0) (auto simp: dget_default_def)

lemma group_by_get: "dget_default [] (group_by key rows) k = filter (\<lambda>r. key r = k) rows"
  unfolding group_by_def fold_group_get by (simp add: dget_default_def)

lemma fold_group_keys:
  "distinct (keys d0) \<Longrightarrow>
    distinct (keys (fold (\<lambda>r d. dset (key r) (dget_default [] d (key r) @ [r]) d) rows d0))
    \<and> set (keys (fold (\<lambda>r d. dset (key r) (dget_default [] d (key r) @ [r]) d) rows d0))
      = set (keys d0) \<union> key ` set rows"
proof (induction rows arbitrary: d0)
  case (Cons r rows)
  from Cons.IH [of "dset (key r) (dget_default [] d0 (key r) @ [r]) d0"] Cons.prems
  show ?case by auto
qed simp

lemma group_by_keys: "distinct (keys (group_by key rows))" "set (keys (group_by key rows)) = key ` set rows"
  using fold_group_keys [of "[]" key rows] by (simp_all add: group_by_def)

lemma rotate_from_set [simp]: "set (rotate_from n ks) = set ks"
  unfolding rotate_from_def Let_def by (metis Un_commute append_take_drop_id set_append)

lemma rotate_from_distinct: "distinct ks \<Longrightarrow> distinct (rotate_from n ks)"
  unfolding rotate_from_def Let_def by (metis append_take_drop_id distinct_append inf_commute)

text \<open>One round takes at most one element of each group.\<close>

lemma round_of_groups:
  assumes "distinct ks" "\<And>k. k \<in> set ks \<Longrightarrow> \<forall>x \<in> set (G k). key x = k"
  shows "filter (\<lambda>x. key x = k) (round_at i (map G ks)) = (if k \<in> set ks \<and> i < length (G k) then [G k ! i] else [])"
  using assms
proof (induction ks)
  case (Cons h ks)
  have IH: "filter (\<lambda>x. key x = k) (round_at i (map G ks)) = (if k \<in> set ks \<and> i < length (G k) then [G k ! i] else [])"
    using Cons by simp
  have "key (G h ! i) = h" if "i < length (G h)" using Cons.prems(2) [of h] that by simp
  then show ?case using IH Cons.prems(1) by (auto simp: round_at_def)
qed (simp add: round_at_def)

definition ws_groups :: "candidate list \<Rightarrow> string \<Rightarrow> candidate list" where
  "ws_groups rows k = filter (\<lambda>c. cd_workspace c = k) rows"

lemma fair_order_rounds:
  "fair_candidate_order rows cursor =
    concat (map (\<lambda>i. round_at i (map (ws_groups rows) (rotate_from cursor (keys (group_by cd_workspace rows))))) [0..<length rows])"
proof (cases "rows = []")
  case True
  then show ?thesis by (simp add: fair_candidate_order_def group_by_def)
next
  case False
  then have ne: "keys (group_by cd_workspace rows) \<noteq> []"
    using group_by_keys(2) [of cd_workspace rows] by (metis image_is_empty set_empty)
  have get: "dget_default [] (group_by cd_workspace rows) = ws_groups rows"
    by (rule ext) (simp add: group_by_get ws_groups_def)
  show ?thesis
    using ne unfolding fair_candidate_order_def Let_def get
    by (simp add: fair_rounds_upt [where n = "length rows"] ws_groups_def)
qed

lemma round_of_rows:
  "filter (\<lambda>c. cd_workspace c = k)
      (round_at i (map (ws_groups rows) (rotate_from cursor (keys (group_by cd_workspace rows)))))
    = (if i < length (ws_groups rows k) then [ws_groups rows k ! i] else [])"
proof -
  have "filter (\<lambda>c. cd_workspace c = k)
      (round_at i (map (ws_groups rows) (rotate_from cursor (keys (group_by cd_workspace rows)))))
    = (if k \<in> set (rotate_from cursor (keys (group_by cd_workspace rows))) \<and> i < length (ws_groups rows k)
       then [ws_groups rows k ! i] else [])"
  proof (rule round_of_groups [where key = cd_workspace and G = "ws_groups rows"])
    show "distinct (rotate_from cursor (keys (group_by cd_workspace rows)))"
      using group_by_keys(1) by (rule rotate_from_distinct)
    show "\<forall>x \<in> set (ws_groups rows h). cd_workspace x = h" for h
      unfolding ws_groups_def by simp
  qed
  moreover have "k \<in> set (rotate_from cursor (keys (group_by cd_workspace rows)))" if "i < length (ws_groups rows k)"
  proof -
    from that have "ws_groups rows k \<noteq> []" by auto
    then obtain c where "c \<in> set rows" "cd_workspace c = k" unfolding ws_groups_def filter_empty_conv by blast
    then show ?thesis unfolding rotate_from_set group_by_keys(2) by blast
  qed
  ultimately show ?thesis by argo
qed

lemma fair_order_workspace:
  "filter (\<lambda>c. cd_workspace c = k) (fair_candidate_order rows cursor) = ws_groups rows k"
proof -
  let ?g = "ws_groups rows k"
  have "filter (\<lambda>c. cd_workspace c = k) (fair_candidate_order rows cursor)
      = concat (map (\<lambda>i. if i < length ?g then [?g ! i] else []) [0..<length rows])"
    unfolding fair_order_rounds filter_concat map_map comp_def round_of_rows ..
  also have "\<dots> = concat (map (\<lambda>i. [?g ! i]) [0..<length ?g])"
  proof -
    have le: "length ?g \<le> length rows" by (simp add: ws_groups_def)
    have split: "[0..<length rows] = [0..<length ?g] @ [length ?g..<length rows]"
      using upt_add_eq_append [of 0 "length ?g" "length rows - length ?g"] le by simp
    have "concat (map (\<lambda>i. if i < length ?g then [?g ! i] else []) [length ?g..<length rows]) = []" by simp
    moreover have "concat (map (\<lambda>i. if i < length ?g then [?g ! i] else []) [0..<length ?g])
        = concat (map (\<lambda>i. [?g ! i]) [0..<length ?g])"
      by (rule arg_cong [of _ _ concat]) (rule map_cong, simp_all)
    ultimately show ?thesis unfolding split map_append concat_append by (simp only: append_Nil2)
  qed
  also have "\<dots> = ?g" by (simp add: map_nth)
  finally show ?thesis .
qed

text \<open>A prefix of the order is a number of whole rounds and a part of the next one.\<close>

lemma take_concat_upt:
  "\<exists>d m. d \<le> N \<and> take n (concat (map R [0..<N])) = concat (map R [0..<d]) @ take m (R d)"
proof (induction N)
  case 0
  have "take n (concat (map R [0..<0])) = concat (map R [0..<0]) @ take 0 (R 0)" by simp
  then show ?case by blast
next
  case (Suc N)
  let ?c = "concat (map R [0..<N])"
  have step: "concat (map R [0..<Suc N]) = ?c @ R N" by simp
  show ?case
  proof (cases "n \<le> length ?c")
    case True
    then have "take n (?c @ R N) = take n ?c" by simp
    with Suc show ?thesis unfolding step by (metis le_SucI)
  next
    case False
    then have "take n (?c @ R N) = ?c @ take (n - length ?c) (R N)" by simp
    then show ?thesis unfolding step by (metis le_SucI order_refl)
  qed
qed

abbreviation ws_count :: "string \<Rightarrow> candidate list \<Rightarrow> nat" where
  "ws_count k cs \<equiv> length (ws_groups cs k)"

lemma ws_count_rounds:
  assumes R: "\<And>i. filter (\<lambda>c. cd_workspace c = k) (R i) = (if i < n then [g i] else [])"
  shows "length (filter (\<lambda>c. cd_workspace c = k) (concat (map R [0..<d]))) = min d n"
  using R by (induction d) auto

lemma fair_prefix:
  assumes p: "p = take n (fair_candidate_order rows cursor)"
  shows "ws_count w p \<le> ws_count v p + 1 \<or> ws_count v p = ws_count v rows"
proof -
  let ?R = "\<lambda>i. round_at i (map (ws_groups rows) (rotate_from cursor (keys (group_by cd_workspace rows))))"
  from take_concat_upt [of "length rows" n ?R] obtain d m where
    take: "take n (fair_candidate_order rows cursor) = concat (map ?R [0..<d]) @ take m (?R d)"
    unfolding fair_order_rounds by blast
  have whole: "length (filter (\<lambda>c. cd_workspace c = k) (concat (map ?R [0..<d]))) = min d (ws_count k rows)" for k
    by (rule ws_count_rounds) (rule round_of_rows)
  have part: "length (filter (\<lambda>c. cd_workspace c = k) (take m (?R d))) \<le> 1" for k
  proof -
    have "length (filter (\<lambda>c. cd_workspace c = k) (take m (?R d))) \<le> length (filter (\<lambda>c. cd_workspace c = k) (?R d))"
      by (metis append_take_drop_id filter_append le_add1 length_append)
    then show ?thesis unfolding round_of_rows by (auto split: if_splits)
  qed
  have count: "ws_count k p = min d (ws_count k rows) + length (filter (\<lambda>c. cd_workspace c = k) (take m (?R d)))" for k
    unfolding p take ws_groups_def filter_append length_append whole [unfolded ws_groups_def] ..
  have total: "ws_count k p \<le> ws_count k rows" for k
  proof -
    have "ws_count k p \<le> length (filter (\<lambda>c. cd_workspace c = k) (fair_candidate_order rows cursor))"
      unfolding p ws_groups_def by (metis append_take_drop_id filter_append le_add1 length_append)
    then show ?thesis unfolding fair_order_workspace .
  qed
  show ?thesis using count [of w] count [of v] part [of w] part [of v] total [of v] by linarith
qed

end
