(* ===== verification/Broker_Admission.thy ===== *)
theory Broker_Admission
  imports Broker_Scan
begin

text \<open>
  Admission of a candidate without locks or writes (\<open>agent_broker/claim_admission.py\<close>,
  \<open>claim_timeout.py\<close>, \<open>agent_claim_compatibility.py\<close>, \<open>services/runtime_reserved_config.py\<close>,
  \<open>agent_runtime/execution.py\<close>, \<open>jobs/queries/material_claim_gate.py\<close>): the timeout decision, the
  execution block of the manifest, and the filters on workspace, pool, protocol, runtime, model and
  labels.
\<close>

section \<open>Timeout\<close>

definition valid_timeout :: "pyval \<Rightarrow> bool" where
  "valid_timeout v = (case v of PInt i \<Rightarrow> i \<ge> 1 | _ \<Rightarrow> False)"

text \<open>A decision is a value with its source.\<close>

definition resolve_timeout :: "pyval \<times> pyval \<Rightarrow> pyval \<Rightarrow> pyval \<times> pyval" where
  "resolve_timeout base override =
     (if override = PNone then base
      else if valid_timeout override then (override, PStr ''workspace_override'')
      else (fst base, PStr ''workspace_override_invalid''))"

definition default_timeout :: "string \<Rightarrow> int" where
  "default_timeout kind = (if kind = ''code'' then 600 else 1800)"

definition queued_base :: "pydict \<Rightarrow> string \<Rightarrow> pyval \<times> pyval" where
  "queued_base m kind =
     (let base = mapping_of (pget m ''timeout_base'') in
      if valid_timeout (pget base ''value'') \<and> truthy (pget base ''source'')
      then (pget base ''value'', pget base ''source'')
      else (let enqueued = (if kind = ''code'' then pget m ''timeout_seconds''
                 else pget (mapping_of (pget m ''execution'')) ''timeout_seconds'') in
        if valid_timeout enqueued then (enqueued, PStr ''enqueue_snapshot'')
        else (PInt (default_timeout kind), PStr ''platform_default'')))"

definition write_timeout :: "string \<Rightarrow> pyval \<Rightarrow> pydict \<Rightarrow> pydict" where
  "write_timeout kind v m =
     (if kind = ''code''
      then (let m1 = pset ''timeout_seconds'' v m in
        case pget m1 ''config'' of
          PDict config \<Rightarrow>
            if phas config ''timeout_seconds'' then pset ''config'' (PDict (pset ''timeout_seconds'' v config)) m1 else m1
        | _ \<Rightarrow> m1)
      else pset ''execution'' (PDict (pset ''timeout_seconds'' v (mapping_of (pget m ''execution'')))) m)"

definition decide_claim_timeout :: "string \<Rightarrow> pyval option \<Rightarrow> pydict \<Rightarrow> pydict" where
  "decide_claim_timeout kind override m =
     (case override of
        None \<Rightarrow> m
      | Some raw \<Rightarrow>
          (let (v, source) = resolve_timeout (queued_base m kind) raw in
           pset ''config_resolution''
             (PDict [(PStr ''timeout_seconds'', PDict [(PStr ''value'', v), (PStr ''source'', source)])])
             (write_timeout kind v m)))"

definition claim_timeout :: "string \<Rightarrow> pydict \<Rightarrow> pyval" where
  "claim_timeout kind m =
     (if kind = ''code'' then pget m ''timeout_seconds'' else pget (mapping_of (pget m ''execution'')) ''timeout_seconds'')"

section \<open>The execution block\<close>

datatype contract_error =
    UnknownRuntime string
  | UnsupportedKey string string
  | RequiredKey string string

definition execution_keys :: "string list" where
  "execution_keys = [''provider'', ''model'', ''thinking'']"

text \<open>The contract of a runtime adapter: its keys and which of them are required.\<close>

definition adapter_contract :: "string \<Rightarrow> (string \<times> bool) list option" where
  "adapter_contract runtime =
     (if runtime \<in> {''pi'', ''velites''} then Some [(''provider'', True), (''model'', True), (''thinking'', False)]
      else None)"

definition resolve_execution_chain :: "pydict list \<Rightarrow> pydict" where
  "resolve_execution_chain sources =
     map (\<lambda>k. (PStr k, case find (\<lambda>d. truthy (pget d k)) sources of None \<Rightarrow> PStr [] | Some d \<Rightarrow> pget d k)) execution_keys"

definition validate_execution_contract :: "string \<Rightarrow> string \<Rightarrow> pydict \<Rightarrow> contract_error + unit" where
  "validate_execution_contract node runtime values =
     (case adapter_contract runtime of
        None \<Rightarrow> Inl (UnknownRuntime runtime)
      | Some contract \<Rightarrow>
          bindE (foldE (\<lambda>k _. guardE (k \<notin> set (keys contract) \<and> truthy (pget values k)) (UnsupportedKey node k) (Inr ()))
                   execution_keys ()) (\<lambda>_.
          foldE (\<lambda>(k, required) _. guardE (required \<and> \<not> truthy (pget values k)) (RequiredKey node k) (Inr ()))
            contract ()))"

definition revision_node :: "pyval option \<Rightarrow> string \<Rightarrow> pydict" where
  "revision_node revision node =
     (case revision of
        None \<Rightarrow> []
      | Some v \<Rightarrow> mapping_of (pget (mapping_of (pget (mapping_of v) ''nodes'')) node))"

text \<open>
  \<open>live_claim_manifest\<close>: the execution of the pinned revision's node over the manifest, except for a
  replay whose profile was frozen when it was queued.
\<close>

definition live_claim_manifest :: "broker \<Rightarrow> candidate \<Rightarrow> contract_error + pydict" where
  "live_claim_manifest b c =
     (let m0 = rq_manifest (cd_row c);
          pinned = truthy (pget m0 ''node_profile_pin'');
          node = (if pinned then [] else revision_node (cd_revision c) (rq_node (cd_row c)));
          node_execution = mapping_of (pget node ''execution'');
          label = text_value (pget node ''label'');
          m1 = (if label \<noteq> [] then pset ''node_label'' (PStr label) m0 else m0);
          frozen = mapping_of (pget m1 ''execution'');
          defaults = mapping_of (pget m1 ''execution_defaults'');
          runtime = (if truthy (pget m1 ''runtime'') then text_value (pget m1 ''runtime'')
                     else (case cd_runtime c of None \<Rightarrow> [] | Some r \<Rightarrow> r)) in
      case adapter_contract runtime of
        None \<Rightarrow> Inl (UnknownRuntime runtime)
      | Some contract \<Rightarrow>
          (let resolved = resolve_execution_chain [node_execution, defaults, frozen] in
           bindE (validate_execution_contract (rq_node (cd_row c)) runtime resolved) (\<lambda>_.
             let m2 = pset ''execution'' (PDict (fold (\<lambda>(k, _) d. pset k (pget resolved k) d) contract frozen)) m1;
                 m3 = (if pinned then m2
                       else pset ''prompt_mode'' (PStr (text_value (pget node_execution ''prompt_mode'')))
                         (pset ''additional_prompt'' (PStr (text_value (pget node_execution ''prompt''))) m2));
                 m4 = decide_claim_timeout ''agent'' (cd_override c) m3 in
             Inr (if list_all (phas m4) [''tools'', ''inputs'', ''expected_outputs'']
                  then pset ''command_spec'' (br_render b m4) m4 else m4))))"

section \<open>Compatibility\<close>

definition worker_model_declarations :: "worker_row \<Rightarrow> (string \<times> string \<times> string) list" where
  "worker_model_declarations w =
     map (\<lambda>d. (let r = text_value (pget d ''runtime'') in (if r = [] then ''*'' else r),
               text_value (pget d ''provider''), text_value (pget d ''model''))) (wk_models w)"

definition worker_can_run :: "candidate \<Rightarrow> pydict \<Rightarrow> (string \<times> string \<times> string) list \<Rightarrow> bool" where
  "worker_can_run c m models =
     (let execution = mapping_of (pget m ''execution'');
          runtime = (case cd_runtime c of None \<Rightarrow> [] | Some r \<Rightarrow> r);
          provider = text_value (pget execution ''provider'');
          model = text_value (pget execution ''model'') in
      (runtime, provider, model) \<in> set models \<or> (''*'', provider, model) \<in> set models
      \<or> (''*'', ''*'', ''*'') \<in> set models)"

text \<open>The material gate for workers that do not check the bound identity of an object.\<close>

definition requires_etag_protocol :: "material_row \<Rightarrow> bool" where
  "requires_etag_protocol m \<longleftrightarrow> ma_hash m = [] \<and>
     (ma_status m = ''uploading'' \<or> ma_status m = ''ready'' \<and> ma_etag m \<noteq> [])"

definition material_inputs_require_etag_protocol :: "broker \<Rightarrow> string \<Rightarrow> string \<Rightarrow> bool" where
  "material_inputs_require_etag_protocol b ws job =
     (case dget (br_inputs b) (job, ws) of
        None \<Rightarrow> False
      | Some doc \<Rightarrow>
          (let material = text_value (pget doc ''material_id''); bundle = text_value (pget doc ''bundle_id'') in
           if pget doc ''type'' = PStr ''material''
           then material \<noteq> [] \<and> exists_where (\<lambda>m. ma_id m = material \<and> ma_workspace m = ws
                  \<and> requires_etag_protocol m) (br_materials b)
           else if pget doc ''type'' = PStr ''bundle''
           then bundle \<noteq> [] \<and> exists_where (\<lambda>m. (bundle, ma_id m) \<in> set (br_bundles b) \<and> ma_workspace m = ws
                  \<and> requires_etag_protocol m) (br_materials b)
           else False))"

section \<open>Admission\<close>

definition code_protocol_version :: int where
  "code_protocol_version = 2"

definition material_etag_protocol_version :: int where
  "material_etag_protocol_version = 6"

text \<open>The cached answer of the pause callback for the candidate's workspace.\<close>

definition note_pause :: "broker \<Rightarrow> string \<Rightarrow> scan_state \<Rightarrow> scan_state" where
  "note_pause b ws st =
     (if dget (sc_pauses st) ws = None then st\<lparr>sc_pauses := dset ws (br_paused b ws) (sc_pauses st)\<rparr> else st)"

definition claim_manifest :: "broker \<Rightarrow> candidate \<Rightarrow> contract_error + pydict" where
  "claim_manifest b c =
     (if rq_kind (cd_row c) = ''code'' then Inr (decide_claim_timeout ''code'' (cd_override c) (rq_manifest (cd_row c)))
      else live_claim_manifest b c)"

text \<open>The reason of the first filter that rejects the candidate, in the order of the code.\<close>

definition pool_reason :: "broker \<Rightarrow> candidate \<Rightarrow> worker_view \<Rightarrow> pydict \<Rightarrow> string option" where
  "pool_reason b c v m =
     (let ws = cd_workspace c in
      if vw_allowed v \<noteq> [] \<and> ws \<notin> set (vw_allowed v) then Some ''workspace_not_allowed''
      else if rq_kind (cd_row c) = ''code'' then
        (if vw_protocol v < code_protocol_version then Some ''protocol_version_too_old''
         else if vw_protocol v < material_etag_protocol_version
              \<and> material_inputs_require_etag_protocol b ws (rq_job (cd_row c)) then Some ''material_etag_protocol_too_old''
         else if vw_code_active v \<ge> vw_code_capacity v then Some ''code_capacity_full''
         else if \<not> labels_satisfy (vw_labels v) (cd_labels c) then Some ''labels_mismatch''
         else None)
      else
        (if vw_agent_active v \<ge> vw_agent_capacity v then Some ''capacity_full''
         else if (case cd_runtime c of None \<Rightarrow> True | Some r \<Rightarrow> r \<notin> set (vw_runtimes v)) then Some ''runtime_mismatch''
         else if \<not> worker_can_run c m (vw_models v) then Some ''model_mismatch''
         else if \<not> labels_satisfy (vw_labels v) (cd_labels c) then Some ''labels_mismatch''
         else None))"

definition admit_candidate :: "broker \<Rightarrow> candidate \<Rightarrow> worker_view \<Rightarrow> scan_state \<Rightarrow> pydict option \<times> scan_state" where
  "admit_candidate b c v st0 =
     (let st = note_pause b (cd_workspace c) st0 in
      if dget_default False (sc_pauses st) (cd_workspace c) then (None, skip ''workspace_paused'' st)
      else (case claim_manifest b c of
              Inl e \<Rightarrow> (None, skip ''execution_contract_invalid'' st)
            | Inr m \<Rightarrow> (case pool_reason b c v m of
                Some reason \<Rightarrow> (None, skip reason st)
              | None \<Rightarrow> (Some m, st))))"

section \<open>What admission guarantees\<close>

lemma mapping_of_PDict [simp]: "mapping_of (PDict d) = d"
  by (simp add: mapping_of_def)

lemma queued_base_valid: "valid_timeout (fst (queued_base m kind))"
  by (auto simp: queued_base_def Let_def valid_timeout_def default_timeout_def)

lemma resolve_timeout_valid: "valid_timeout (fst base) \<Longrightarrow> valid_timeout (fst (resolve_timeout base raw))"
  by (simp add: resolve_timeout_def)

lemma claim_timeout_written: "claim_timeout kind (write_timeout kind v m) = v"
  by (auto simp: claim_timeout_def write_timeout_def Let_def split: pyval.splits)

lemma claim_timeout_pset: "k \<noteq> ''timeout_seconds'' \<Longrightarrow> k \<noteq> ''execution'' \<Longrightarrow>
    claim_timeout kind (pset k v m) = claim_timeout kind m"
  by (simp add: claim_timeout_def)

lemma decided_timeout:
  "claim_timeout kind (decide_claim_timeout kind (Some raw) m) = fst (resolve_timeout (queued_base m kind) raw)"
  by (simp add: decide_claim_timeout_def case_prod_beta claim_timeout_pset claim_timeout_written)

lemma admit_Some:
  assumes "admit_candidate b c v st0 = (Some m, st)"
  shows "claim_manifest b c = Inr m" "pool_reason b c v m = None" "st = note_pause b (cd_workspace c) st0"
  using assms by (auto simp: admit_candidate_def Let_def split: if_splits sum.splits option.splits)

lemma admit_skips:
  "admit_candidate b c v st0 = (None, st) \<Longrightarrow> \<exists>reason. sc_skips st = sc_skips st0 @ [reason]"
  by (auto simp: admit_candidate_def Let_def skip_def note_pause_def split: if_splits sum.splits option.splits)

lemma admit_pool:
  assumes "admit_candidate b c v st0 = (Some m, st)"
  shows "rq_kind (cd_row c) = ''code'' \<Longrightarrow> vw_code_active v < vw_code_capacity v"
    and "rq_kind (cd_row c) \<noteq> ''code'' \<Longrightarrow> vw_agent_active v < vw_agent_capacity v"
  using admit_Some(2) [OF assms] by (auto simp: pool_reason_def Let_def split: if_splits)

end
