(* ===== verification/Broker_Claim.thy ===== *)
theory Broker_Claim
  imports Broker_Admission
begin

text \<open>
  One claim (\<open>agent_broker/claim_setup.py\<close>, \<open>agent_worker_capacity.py\<close>, \<open>claim_capacity.py\<close>,
  \<open>claim_node_limit.py\<close>, \<open>claim_evaluate.py\<close>, \<open>claim_promote.py\<close>, \<open>claim_windows.py\<close>, \<open>claim.py\<close>,
  \<open>release.py\<close>): the worker view, the gates under the locks, the writes of a claim, and the scan over
  widening windows. Timings and events are left out.
\<close>

section \<open>The worker view\<close>

record declared =
  dc_agent :: "int option"
  dc_code :: "int option"
  dc_node_limits :: "(string, int) dict option"

definition declared_or :: "'a option \<Rightarrow> 'a \<Rightarrow> 'a" where
  "declared_or d stored = (case d of None \<Rightarrow> stored | Some x \<Rightarrow> x)"

definition same_limits :: "(string, int) dict \<Rightarrow> (string, int) dict \<Rightarrow> bool" where
  "same_limits a b \<longleftrightarrow> list_all (\<lambda>k. dget a k = dget b k) (keys a @ keys b)"

text \<open>
  Returns the enforced pools and node limits. The update is written only when something changed;
  the stored map is canonical JSON, so an equal map is the same row.
\<close>

definition sync_declared_capacity :: "worker_row \<Rightarrow> declared \<Rightarrow> db \<Rightarrow> (int \<times> int \<times> (string, int) dict) \<times> db" where
  "sync_declared_capacity k d s =
     (let agent = declared_or (dc_agent d) (wk_capacity k);
          code = declared_or (dc_code d) (wk_code_capacity k);
          limits = declared_or (dc_node_limits d) (wk_node_limits k) in
      ((agent, code, limits),
       if agent \<noteq> wk_capacity k \<or> code \<noteq> wk_code_capacity k \<or> \<not> same_limits limits (wk_node_limits k)
       then update_workers (\<lambda>r. wk_id r = wk_id k)
              (\<lambda>r. r\<lparr>wk_capacity := agent, wk_code_capacity := code, wk_node_limits := limits\<rparr>) s
       else s))"

definition build_worker_view :: "worker_row \<Rightarrow> int \<times> int \<times> (string, int) dict \<Rightarrow> db \<Rightarrow> worker_view" where
  "build_worker_view k pools s =
     (case pools of (agent, code, limits) \<Rightarrow>
       \<lparr>vw_runtimes = wk_runtimes k, vw_models = worker_model_declarations k, vw_labels = wk_labels k,
        vw_allowed = wk_allowed k,
        vw_agent_capacity = agent, vw_agent_active = int (kind_load (wk_id k) ''agent'' s),
        vw_code_capacity = code, vw_code_active = int (kind_load (wk_id k) ''code'' s),
        vw_protocol = wk_protocol k, vw_node_limits = limits\<rparr>)"

text \<open>\<open>None\<close>: unknown or revoked worker, a \<open>ValueError\<close>.\<close>

definition prepare_claim_view :: "string \<Rightarrow> declared \<Rightarrow> db \<Rightarrow> (worker_view \<times> db) option" where
  "prepare_claim_view w d s =
     (case worker_of s w of
        None \<Rightarrow> None
      | Some k \<Rightarrow>
          if wk_revoked k \<noteq> None then None
          else (let (pools, s1) = sync_declared_capacity k d s in Some (build_worker_view k pools s1, s1)))"

definition needed_claim_kinds :: "worker_view \<Rightarrow> string list" where
  "needed_claim_kinds v =
     (if vw_agent_active v < vw_agent_capacity v then [''agent''] else [])
     @ (if vw_code_active v < vw_code_capacity v \<and> vw_protocol v \<ge> code_protocol_version then [''code''] else [])"

section \<open>Gates\<close>

definition workspace_agent_admits :: "candidate \<Rightarrow> db \<Rightarrow> bool" where
  "workspace_agent_admits c s =
     (if rq_kind (cd_row c) = ''code'' then True
      else (case dget (t_agent_caps s) (cd_workspace c) of
              None \<Rightarrow> True
            | Some m \<Rightarrow> int (workspace_agent_load (cd_workspace c) s) < m))"

definition worker_node_admits :: "string \<Rightarrow> candidate \<Rightarrow> worker_view \<Rightarrow> db \<Rightarrow> bool" where
  "worker_node_admits w c v s =
     (case dget (vw_node_limits v) (rq_node (cd_row c)) of
        None \<Rightarrow> True
      | Some limit \<Rightarrow> int (worker_node_load w (rq_node (cd_row c)) s) < limit)"

definition node_limit :: "candidate \<Rightarrow> db \<Rightarrow> int option" where
  "node_limit c s = dget (t_limits s) (cd_workspace c, rq_node (cd_row c))"

text \<open>Whether the transaction holds the code-pool lock; a batch has decided before (\<open>frozen\<close>).\<close>

definition enter_code_pool_domain :: "candidate \<Rightarrow> bool option \<Rightarrow> db \<Rightarrow> bool" where
  "enter_code_pool_domain c frozen s =
     (if rq_kind (cd_row c) \<noteq> ''code'' \<or> frozen \<noteq> None then (frozen = Some True)
      else node_limit c s \<noteq> None)"

text \<open>The reason of a refusal, \<open>None\<close> when the claim is admitted.\<close>

definition code_claim_refusal :: "candidate \<Rightarrow> bool \<Rightarrow> int \<Rightarrow> db \<Rightarrow> string option" where
  "code_claim_refusal c pool_held now s =
     (if rq_kind (cd_row c) \<noteq> ''code'' then None
      else (case node_limit c s of
              None \<Rightarrow> None
            | Some limit \<Rightarrow>
                if \<not> pool_held then Some ''node_limit_appeared''
                else if int (node_load (cd_workspace c) (rq_node (cd_row c)) now s) \<ge> limit
                then Some ''node_limit_full'' else None))"

section \<open>Promotion\<close>

record agent_claim =
  ac_execution :: string
  ac_workspace :: string
  ac_job :: string
  ac_node :: string
  ac_agent :: string
  ac_lease :: string
  ac_run :: int
  ac_manifest :: pydict
  ac_kind :: string
  ac_runtime :: string
  ac_generation :: int

definition executor_of_request :: "request_row \<Rightarrow> string" where
  "executor_of_request r =
     (if rq_kind r = ''code'' then ''agent:code:'' @ rq_agent_id r else ''agent:'' @ rq_agent_id r)"

definition broker_run :: "broker \<Rightarrow> claim_tx \<Rightarrow> request_row \<Rightarrow> pydict \<Rightarrow> int \<Rightarrow> int \<Rightarrow> run_row" where
  "broker_run b tx r m gen rid = \<lparr>nr_id = rid, nr_job = rq_job r, nr_node = rq_node r, nr_status = ''running'',
     nr_exit = None, nr_error = [], nr_category = [], nr_detail = [], nr_command = [], nr_log = br_log_path b m,
     nr_run_dir = [], nr_session_dir = [], nr_skill_version = [], nr_skill = [], nr_runner = [],
     nr_config = br_audit b m, nr_definition = rq_agent_hash r, nr_started = Some (tx_now tx),
     nr_finished = None, nr_generation = gen\<rparr>"

definition broker_lease :: "broker \<Rightarrow> claim_tx \<Rightarrow> request_row \<Rightarrow> int \<Rightarrow> int \<Rightarrow> lease_row" where
  "broker_lease b tx r gen rid = \<lparr>le_id = tx_uuid tx (rq_execution r), le_execution = rq_execution r,
     le_executor = executor_of_request r, le_workspace = rq_workspace r, le_job = rq_job r,
     le_node = rq_node r, le_run = rid, le_status = ''active'', le_acquired = tx_now tx,
     le_heartbeat = tx_now tx, le_expires = tx_now tx + br_ttl b * 1000000, le_generation = gen\<rparr>"

definition claimed_row :: "string \<Rightarrow> claim_tx \<Rightarrow> int \<Rightarrow> request_row \<Rightarrow> request_row" where
  "claimed_row w tx rid r = r\<lparr>rq_state := ''claimed'', rq_worker := Some w,
     rq_lease := Some (tx_uuid tx (rq_execution r)), rq_run := Some rid, rq_attempt := rq_attempt r + 1,
     rq_claimed := Some (tx_now tx), rq_heartbeat := Some (tx_now tx)\<rparr>"

text \<open>The commits of other transactions on the job row.\<close>

definition meanwhile :: "claim_tx \<Rightarrow> string \<Rightarrow> db \<Rightarrow> db" where
  "meanwhile tx job s = update_job job (tx_meanwhile tx job) s"

definition write_claim :: "broker \<Rightarrow> claim_tx \<Rightarrow> string \<Rightarrow> request_row \<Rightarrow> pydict \<Rightarrow> int \<Rightarrow> db \<Rightarrow> db" where
  "write_claim b tx w r m gen s =
     (let rid = t_next_run s in
      update_requests (\<lambda>q. rq_execution q = rq_execution r \<and> rq_state q = ''queued'') (claimed_row w tx rid)
        (s\<lparr>t_runs := t_runs s @ [broker_run b tx r m gen rid], t_next_run := rid + 1,
           t_leases := t_leases s @ [broker_lease b tx r gen rid]\<rparr>))"

text \<open>\<open>None\<close> is \<open>ClaimRacedError\<close>: the caller rolls the attempt back.\<close>

definition promote_claim ::
  "broker \<Rightarrow> claim_tx \<Rightarrow> string \<Rightarrow> request_row \<Rightarrow> pydict \<Rightarrow> int \<Rightarrow> db \<Rightarrow> (string \<times> int \<times> db) option" where
  "promote_claim b tx w r m gen s =
     (let s1 = meanwhile tx (rq_job r) (write_claim b tx w r m gen s);
          p = (\<lambda>j. j_id j = rq_job r \<and> j_status j \<in> {''queued'', ''awaiting_approval''} \<and> \<not> j_paused j) in
      if count_where p (t_jobs s1) > 0
      then Some (tx_uuid tx (rq_execution r), t_next_run s,
                 s1\<lparr>t_jobs := update_where p (\<lambda>j. j\<lparr>j_status := ''running'', j_updated := tx_now tx\<rparr>) (t_jobs s1)\<rparr>)
      else (case job_of s1 (rq_job r) of
              None \<Rightarrow> None
            | Some j \<Rightarrow>
                if j_status j \<noteq> ''running'' \<or> j_paused j then None
                else Some (tx_uuid tx (rq_execution r), t_next_run s, s1)))"

section \<open>One candidate\<close>

datatype claim_verdict = Granted agent_claim | Skipped | Raced

text \<open>The flip of the node, or of its shard row and the node; \<open>Inl\<close> is the skip reason.\<close>

definition start_claimed_node :: "claim_tx \<Rightarrow> request_row \<Rightarrow> pydict \<Rightarrow> int \<Rightarrow> db \<Rightarrow> string + db" where
  "start_claimed_node tx r m gen s =
     (case manifest_shard m of
        Some i \<Rightarrow>
          (case try_start_shard (rq_job r) (rq_node r) i (rq_execution r) (tx_now tx) (Some gen) s of
             None \<Rightarrow> Inl ''shard_not_pending'' | Some s1 \<Rightarrow> Inr s1)
      | None \<Rightarrow>
          (let p = node_match (rq_job r) (rq_node r) queueable in
           if count_where p (t_nodes s) = 0 then Inl ''node_not_pending''
           else Inr (update_nodes p (\<lambda>n. n\<lparr>jn_status := ''running'', jn_stale_reason := [], jn_error := [],
                        jn_started := Some (tx_now tx), jn_finished := None, jn_generation := gen\<rparr>) s)))"

text \<open>
  What the checks under the locks decide: claim the row, leave it queued, or cancel it; the reason
  goes to the histogram.
\<close>

datatype lock_verdict = Proceed request_row | Leave string | Cancel string

definition check_locked ::
  "claim_tx \<Rightarrow> string \<Rightarrow> candidate \<Rightarrow> worker_view \<Rightarrow> bool option \<Rightarrow> db \<Rightarrow> lock_verdict" where
  "check_locked tx w c v frozen s =
     (let e = cd_execution c; pool_held = enter_code_pool_domain c frozen s in
      case find (\<lambda>r. rq_execution r = e \<and> rq_state r = ''queued'' \<and> e \<notin> set (tx_locked tx)) (t_requests s) of
        None \<Rightarrow> Leave ''lock_raced''
      | Some r \<Rightarrow>
          (case job_of s (rq_job (cd_row c)) of
             None \<Rightarrow> Cancel ''job_missing''
           | Some j \<Rightarrow>
               if j_paused j \<or> j_status j = ''paused'' then Leave ''job_paused''
               else if j_status j \<notin> set runnable_job_statuses then Cancel ''job_terminal''
               else if j_generation j \<noteq> rq_generation r then Cancel ''generation_stale''
               else if \<not> workspace_agent_admits c s then Leave ''capacity_raced''
               else if \<not> worker_node_admits w c v s then Leave ''worker_node_limit_full''
               else (case code_claim_refusal c pool_held (tx_now tx) s of
                       Some reason \<Rightarrow> Leave reason | None \<Rightarrow> Proceed r)))"

definition evaluate_candidate ::
  "broker \<Rightarrow> claim_tx \<Rightarrow> string \<Rightarrow> candidate \<Rightarrow> worker_view \<Rightarrow> bool option \<Rightarrow> scan_state \<Rightarrow> db \<Rightarrow>
   claim_verdict \<times> scan_state \<times> db" where
  "evaluate_candidate b tx w c v frozen st0 s =
     (case admit_candidate b c v st0 of
        (None, st1) \<Rightarrow> (Skipped, st1, s)
      | (Some m, st1) \<Rightarrow>
          (let st = st1\<lparr>sc_attempts := sc_attempts st1 + 1\<rparr>; row = cd_row c in
           case check_locked tx w c v frozen s of
             Leave reason \<Rightarrow> (Skipped, skip reason st, s)
           | Cancel reason \<Rightarrow> (Skipped, skip reason st, cancel_request (rq_execution row) (tx_now tx) s)
           | Proceed r \<Rightarrow>
               (case start_claimed_node tx row m (rq_generation r) s of
                  Inl reason \<Rightarrow> (Skipped, skip reason st, cancel_request (rq_execution row) (tx_now tx) s)
                | Inr s1 \<Rightarrow>
                    (case promote_claim b tx w row m (rq_generation r) s1 of
                       None \<Rightarrow> (Raced, st, meanwhile tx (rq_job row) s)
                     | Some (lease, rid, s2) \<Rightarrow>
                         (Granted \<lparr>ac_execution = rq_execution row, ac_workspace = rq_workspace row,
                            ac_job = rq_job row, ac_node = rq_node row, ac_agent = rq_agent_id row,
                            ac_lease = lease, ac_run = rid, ac_manifest = m, ac_kind = rq_kind row,
                            ac_runtime = (case cd_runtime c of None \<Rightarrow> ''None'' | Some r' \<Rightarrow> r'),
                            ac_generation = rq_generation r\<rparr>, st, s2)))))"

section \<open>The single claim\<close>

text \<open>One pass over the candidates of a window, stopping at the attempt budget.\<close>

fun scan_window ::
  "broker \<Rightarrow> claim_tx \<Rightarrow> string \<Rightarrow> worker_view \<Rightarrow> candidate list \<Rightarrow> scan_state \<Rightarrow> db \<Rightarrow> claim_verdict \<times> scan_state \<times> db" where
  "scan_window b tx w v [] st s = (Skipped, st, s)"
| "scan_window b tx w v (c # cs) st s =
     (if sc_attempts st \<ge> max_claim_attempts then (Skipped, st, s)
      else (case evaluate_candidate b tx w c v None st s of
              (Skipped, st1, s1) \<Rightarrow> scan_window b tx w v cs st1 s1
            | verdict \<Rightarrow> verdict))"

fun scan_rounds_loop ::
  "broker \<Rightarrow> claim_tx \<Rightarrow> string \<Rightarrow> worker_view \<Rightarrow> string \<Rightarrow> nat \<Rightarrow> (nat \<times> nat) list \<Rightarrow> scan_state \<Rightarrow> db \<Rightarrow>
   claim_verdict \<times> scan_state \<times> db" where
  "scan_rounds_loop b tx w v kind cursor [] st s = (Skipped, st, s)"
| "scan_rounds_loop b tx w v kind cursor ((per_workspace, window) # rounds) st s =
     (let cs = fetch_candidates b per_workspace window kind s in
      if cs = [] then (Skipped, st, s)
      else (case scan_window b tx w v (fair_candidate_order cs cursor) st s of
              (Skipped, st1, s1) \<Rightarrow>
                if sc_attempts st1 \<ge> max_claim_attempts \<or> \<not> window_saturated cs per_workspace window
                then (Skipped, st1, s1)
                else scan_rounds_loop b tx w v kind cursor rounds st1 s1
            | verdict \<Rightarrow> verdict))"

definition scan_kind ::
  "broker \<Rightarrow> claim_tx \<Rightarrow> string \<Rightarrow> worker_view \<Rightarrow> string \<Rightarrow> nat \<Rightarrow> scan_state \<Rightarrow> db \<Rightarrow> claim_verdict \<times> scan_state \<times> db" where
  "scan_kind b tx w v kind cursor st s = scan_rounds_loop b tx w v kind cursor scan_rounds st s"

fun scan_kinds ::
  "broker \<Rightarrow> claim_tx \<Rightarrow> string \<Rightarrow> worker_view \<Rightarrow> string list \<Rightarrow> nat \<Rightarrow> scan_state \<Rightarrow> db \<Rightarrow> claim_verdict \<times> scan_state \<times> db" where
  "scan_kinds b tx w v [] cursor st s = (Skipped, st, s)"
| "scan_kinds b tx w v (kind # kinds) cursor st s =
     (case scan_kind b tx w v kind cursor (st\<lparr>sc_attempts := 0\<rparr>) s of
        (Skipped, st1, s1) \<Rightarrow> scan_kinds b tx w v kinds cursor st1 s1
      | verdict \<Rightarrow> verdict)"

record claim_outcome =
  co_claims :: "agent_claim list"
  co_skips :: "string list"
  co_scan_skipped :: bool

text \<open>The kinds in the order of this pass; the leading kind alternates with the cursor.\<close>

definition kind_order :: "nat \<Rightarrow> string list \<Rightarrow> string list" where
  "kind_order cursor kinds = (if cursor mod 2 = 1 then rev kinds else kinds)"

text \<open>
  The transaction: \<open>None\<close> rolls everything back (an unknown worker raises, a raced claim is
  discarded); otherwise the outcome, the cursor and the committed state.
\<close>

definition claim_in_transaction ::
  "broker \<Rightarrow> claim_tx \<Rightarrow> string \<Rightarrow> declared \<Rightarrow> nat \<Rightarrow> db \<Rightarrow> (claim_outcome \<times> nat \<times> db) option" where
  "claim_in_transaction b tx w d cursor s =
     (case prepare_claim_view w d s of
        None \<Rightarrow> None
      | Some (v, s1) \<Rightarrow>
          (let kinds = needed_claim_kinds v in
           if kinds = [] then
             Some (\<lparr>co_claims = [], co_skips = [], co_scan_skipped = True\<rparr>, cursor, touch_worker w (br_touch b) (tx_now tx) s1)
           else (case scan_kinds b tx w v (kind_order cursor kinds) cursor initial_scan s1 of
                   (Raced, st, s2) \<Rightarrow> None
                 | (Granted a, st, s2) \<Rightarrow>
                     Some (\<lparr>co_claims = [a], co_skips = sc_skips st, co_scan_skipped = False\<rparr>, cursor + 1,
                           touch_worker w (br_touch b) (tx_now tx) s2)
                 | (Skipped, st, s2) \<Rightarrow>
                     Some (\<lparr>co_claims = [], co_skips = sc_skips st, co_scan_skipped = False\<rparr>, cursor + 1,
                           touch_worker w (br_touch b) (tx_now tx) s2))))"

text \<open>\<open>release_slot\<close>: the process has exited, only the upload remains.\<close>

definition release_slot :: "string \<Rightarrow> string \<Rightarrow> string \<Rightarrow> db \<Rightarrow> bool \<times> db" where
  "release_slot e w l s =
     (let p = (\<lambda>r. rq_execution r = e \<and> rq_worker r = Some w \<and> rq_lease r = Some l \<and> rq_state r = ''claimed'') in
      (count_where p (t_requests s) > 0, update_requests p (\<lambda>r. r\<lparr>rq_state := ''reporting''\<rparr>) s))"

end
