(* ===== verification/Broker_Batch.thy ===== *)
theory Broker_Batch
  imports Broker_Claim
begin

text \<open>
  The batch claim (\<open>agent_broker/claim_batch_select.py\<close>, \<open>claim_batch_tx.py\<close>,
  \<open>claim_batch.py\<close>): an optimistic selection without locks on a snapshot, then one write
  transaction that promotes the selection candidate by candidate, each inside a savepoint.
\<close>

section \<open>Selection\<close>

definition max_batch_claims :: nat where
  "max_batch_claims = 256"

definition read_claim_view :: "string \<Rightarrow> declared \<Rightarrow> db \<Rightarrow> worker_view option" where
  "read_claim_view w d s =
     (case worker_of s w of
        None \<Rightarrow> None
      | Some k \<Rightarrow>
          if wk_revoked k \<noteq> None then None
          else Some (build_worker_view k (declared_or (dc_agent d) (wk_capacity k),
                 declared_or (dc_code d) (wk_code_capacity k), declared_or (dc_node_limits d) (wk_node_limits k)) s))"

definition load_node_claimed_counts :: "string \<Rightarrow> db \<Rightarrow> (string, nat) dict" where
  "load_node_claimed_counts w s =
     map (\<lambda>k. (k, worker_node_load w k s)) (dedup (map rq_node (filter (slot_of w) (t_requests s))))"

definition node_slot_open :: "(string, int) dict \<Rightarrow> candidate \<Rightarrow> scan_state \<Rightarrow> bool \<times> scan_state" where
  "node_slot_open limits c st =
     (let node = rq_node (cd_row c); e = cd_execution c;
          taken = dget_default 0 (sc_node_active st) node + dget_default 0 (sc_node_chosen st) node in
      case dget limits node of
        None \<Rightarrow> (True, st)
      | Some limit \<Rightarrow>
          if int taken < limit then (True, st)
          else (False, if e \<in> set (sc_node_filtered st) then st
                       else skip ''worker_node_limit_full'' (st\<lparr>sc_node_filtered := sc_node_filtered st @ [e]\<rparr>)))"

text \<open>The first admitted candidate of a window, in rotation order.\<close>

fun select_window ::
  "broker \<Rightarrow> worker_view \<Rightarrow> string \<Rightarrow> int option \<Rightarrow> string list \<Rightarrow> candidate list \<Rightarrow> scan_state \<Rightarrow>
   candidate option \<times> scan_state" where
  "select_window b v kind ws_floor chosen [] st = (None, st)"
| "select_window b v kind ws_floor chosen (c # cs) st =
     (if cd_execution c \<in> set chosen then select_window b v kind ws_floor chosen cs st
      else if kind \<noteq> ''code'' \<and> (case ws_floor of None \<Rightarrow> False | Some f \<Rightarrow> cd_ws_key c < f)
      then select_window b v kind ws_floor chosen cs (skip ''batch_lock_order'' st)
      else (case node_slot_open (vw_node_limits v) c st of
              (False, st1) \<Rightarrow> select_window b v kind ws_floor chosen cs st1
            | (True, st1) \<Rightarrow>
                (case admit_candidate b c v st1 of
                   (Some m, st2) \<Rightarrow> (Some c, st2)
                 | (None, st2) \<Rightarrow> select_window b v kind ws_floor chosen cs st2)))"

fun select_rounds ::
  "broker \<Rightarrow> db \<Rightarrow> worker_view \<Rightarrow> string \<Rightarrow> nat \<Rightarrow> int option \<Rightarrow> string list \<Rightarrow> (nat \<times> nat) list \<Rightarrow> scan_state \<Rightarrow>
   candidate option \<times> scan_state" where
  "select_rounds b s v kind cursor ws_floor chosen [] st = (None, st)"
| "select_rounds b s v kind cursor ws_floor chosen ((per_workspace, window) # rounds) st =
     (let cs = fetch_candidates b per_workspace window kind s in
      if cs = [] then (None, st)
      else (case select_window b v kind ws_floor chosen (fair_candidate_order cs cursor) st of
              (Some c, st1) \<Rightarrow> (Some c, st1)
            | (None, st1) \<Rightarrow>
                if \<not> window_saturated cs per_workspace window then (None, st1)
                else select_rounds b s v kind cursor ws_floor chosen rounds st1))"

definition select_kind_batch ::
  "broker \<Rightarrow> db \<Rightarrow> worker_view \<Rightarrow> string \<Rightarrow> nat \<Rightarrow> int option \<Rightarrow> string list \<Rightarrow> scan_state \<Rightarrow> candidate option \<times> scan_state" where
  "select_kind_batch b s v kind cursor ws_floor chosen st =
     select_rounds b s v kind cursor ws_floor chosen scan_rounds st"

fun select_first ::
  "broker \<Rightarrow> db \<Rightarrow> worker_view \<Rightarrow> string list \<Rightarrow> nat \<Rightarrow> int option \<Rightarrow> string list \<Rightarrow> scan_state \<Rightarrow> candidate option \<times> scan_state" where
  "select_first b s v [] cursor ws_floor chosen st = (None, st)"
| "select_first b s v (kind # kinds) cursor ws_floor chosen st =
     (case select_kind_batch b s v kind cursor ws_floor chosen st of
        (Some c, st1) \<Rightarrow> (Some c, st1)
      | (None, st1) \<Rightarrow> select_first b s v kinds cursor ws_floor chosen st1)"

text \<open>The pool budgets left in this batch; \<open>None\<close> is unlimited.\<close>

record pool_left =
  pl_agent :: "int option"
  pl_code :: "int option"

definition kind_open :: "pool_left \<Rightarrow> string \<Rightarrow> bool" where
  "kind_open pl kind = (case (if kind = ''agent'' then pl_agent pl else pl_code pl) of None \<Rightarrow> True | Some n \<Rightarrow> n > 0)"

definition take_slot :: "string \<Rightarrow> pool_left \<Rightarrow> pool_left" where
  "take_slot kind pl =
     (if kind = ''agent'' then pl\<lparr>pl_agent := map_option (\<lambda>n. n - 1) (pl_agent pl)\<rparr>
      else pl\<lparr>pl_code := map_option (\<lambda>n. n - 1) (pl_code pl)\<rparr>)"

definition count_kind :: "string \<Rightarrow> worker_view \<Rightarrow> worker_view" where
  "count_kind kind v =
     v\<lparr>vw_agent_active := vw_agent_active v + (if kind = ''agent'' then 1 else 0),
       vw_code_active := vw_code_active v + (if kind = ''code'' then 1 else 0)\<rparr>"

definition raise_floor :: "candidate \<Rightarrow> int option \<Rightarrow> int option" where
  "raise_floor c ws_floor =
     (if rq_kind (cd_row c) \<noteq> ''code'' \<and> (case ws_floor of None \<Rightarrow> True | Some f \<Rightarrow> cd_ws_key c > f)
      then Some (cd_ws_key c) else ws_floor)"

text \<open>The selection loop: \<open>budget\<close> slots at most, one cursor step per slot.\<close>

fun select_slots ::
  "nat \<Rightarrow> broker \<Rightarrow> db \<Rightarrow> worker_view \<Rightarrow> pool_left \<Rightarrow> int option \<Rightarrow> nat \<Rightarrow> candidate list \<Rightarrow> scan_state \<Rightarrow>
   candidate list \<times> scan_state \<times> nat" where
  "select_slots 0 b s v pl ws_floor cursor selected st = (selected, st, cursor)"
| "select_slots (Suc n) b s v pl ws_floor cursor selected st =
     (let open_kinds = filter (kind_open pl) (needed_claim_kinds v) in
      if open_kinds = [] then (selected, st, cursor)
      else (case select_first b s v (kind_order cursor open_kinds) cursor ws_floor (map cd_execution selected) st of
              (None, st1) \<Rightarrow> (selected, st1, cursor + 1)
            | (Some c, st1) \<Rightarrow>
                (let kind = rq_kind (cd_row c); node = rq_node (cd_row c) in
                 select_slots n b s (count_kind kind v) (take_slot kind pl) (raise_floor c ws_floor) (cursor + 1)
                   (selected @ [c])
                   (st1\<lparr>sc_node_chosen := dset node (dget_default 0 (sc_node_chosen st1) node + 1) (sc_node_chosen st1)\<rparr>))))"

record selection =
  sl_candidates :: "candidate list"
  sl_skips :: "string list"
  sl_scan_skipped :: bool

definition select_batch_candidates ::
  "broker \<Rightarrow> string \<Rightarrow> declared \<Rightarrow> nat \<Rightarrow> pool_left \<Rightarrow> nat \<Rightarrow> db \<Rightarrow> (selection \<times> nat) option" where
  "select_batch_candidates b w d limit pl cursor s =
     (case read_claim_view w d s of
        None \<Rightarrow> None
      | Some v \<Rightarrow>
          if needed_claim_kinds v = []
          then Some (\<lparr>sl_candidates = [], sl_skips = [], sl_scan_skipped = True\<rparr>, cursor)
          else (let st = (if vw_node_limits v = [] then initial_scan
                     else initial_scan\<lparr>sc_node_active := load_node_claimed_counts w s\<rparr>);
                    (selected, st1, cursor1) = select_slots (min limit max_batch_claims) b s v pl None cursor [] st in
                Some (\<lparr>sl_candidates = selected, sl_skips = sc_skips st1, sl_scan_skipped = False\<rparr>, cursor1)))"

section \<open>The write phase\<close>

definition lock_order_sorted :: "candidate list \<Rightarrow> candidate list" where
  "lock_order_sorted cs = sort_key cd_job_key (sort_key (\<lambda>c. rq_job (cd_row c)) cs)"

text \<open>Whether the batch takes the code-pool lock: some selected code candidate has a limit row.\<close>

definition lock_code_pool_for_batch :: "candidate list \<Rightarrow> db \<Rightarrow> bool" where
  "lock_code_pool_for_batch cs s = list_ex (\<lambda>c. rq_kind (cd_row c) = ''code'' \<and> node_limit c s \<noteq> None) cs"

text \<open>
  The loop over the selection. A raced candidate ends the batch: its savepoint is rolled back and
  the claims made so far are kept.
\<close>

fun promote_selected ::
  "broker \<Rightarrow> claim_tx \<Rightarrow> string \<Rightarrow> bool \<Rightarrow> candidate list \<Rightarrow> worker_view \<Rightarrow> scan_state \<Rightarrow> db \<Rightarrow>
   agent_claim list \<times> scan_state \<times> db" where
  "promote_selected b tx w pool [] v st s = ([], st, s)"
| "promote_selected b tx w pool (c # cs) v st s =
     (case evaluate_candidate b tx w c v (Some pool) st s of
        (Raced, st1, s1) \<Rightarrow> ([], st1, s1)
      | (Skipped, st1, s1) \<Rightarrow> promote_selected b tx w pool cs v st1 s1
      | (Granted a, st1, s1) \<Rightarrow>
          (let (claims, st2, s2) = promote_selected b tx w pool cs (count_kind (ac_kind a) v) st1 s1 in
           (a # claims, st2, s2)))"

definition claim_batch_in_transaction ::
  "broker \<Rightarrow> claim_tx \<Rightarrow> string \<Rightarrow> declared \<Rightarrow> selection \<Rightarrow> db \<Rightarrow> (claim_outcome \<times> db) option" where
  "claim_batch_in_transaction b tx w d sel s =
     (case prepare_claim_view w d s of
        None \<Rightarrow> None
      | Some (v, s1) \<Rightarrow>
          if sl_scan_skipped sel
          then Some (\<lparr>co_claims = [], co_skips = [], co_scan_skipped = True\<rparr>, touch_worker w (br_touch b) (tx_now tx) s1)
          else (let pool = lock_code_pool_for_batch (sl_candidates sel) s1;
                    (claims, st, s2) = promote_selected b tx w pool (lock_order_sorted (sl_candidates sel)) v initial_scan s1 in
                Some (\<lparr>co_claims = claims, co_skips = sl_skips sel @ sc_skips st, co_scan_skipped = False\<rparr>,
                      touch_worker w (br_touch b) (tx_now tx) s2)))"

text \<open>
  One batch: the selection reads the snapshot \<open>s0\<close>, the write phase runs on the state \<open>s\<close> it finds.
\<close>

definition claim_batch ::
  "broker \<Rightarrow> claim_tx \<Rightarrow> string \<Rightarrow> declared \<Rightarrow> nat \<Rightarrow> pool_left \<Rightarrow> nat \<Rightarrow> db \<Rightarrow> db \<Rightarrow> (claim_outcome \<times> nat \<times> db) option" where
  "claim_batch b tx w d limit pl cursor s0 s =
     (case select_batch_candidates b w d limit pl cursor s0 of
        None \<Rightarrow> None
      | Some (sel, cursor1) \<Rightarrow>
          (case claim_batch_in_transaction b tx w d sel s of
             None \<Rightarrow> None | Some (out, s1) \<Rightarrow> Some (out, cursor1, s1)))"

end
