(* ===== verification/Broker_Steps.thy ===== *)
theory Broker_Steps
  imports Broker_Batch
begin

text \<open>
  What one candidate can do to the database, and the capacity gates as an interface: a gate admits
  a step only below its limit, so a run of admitted steps never passes it. The interface is
  interpreted on the four gates of a claim.
\<close>

section \<open>The outcomes of one candidate\<close>

lemma check_locked_Proceed:
  assumes "check_locked tx w c v frozen s = Proceed r"
  shows "r \<in> set (t_requests s)" "rq_execution r = cd_execution c" "rq_state r = ''queued''"
    "cd_execution c \<notin> set (tx_locked tx)"
    "\<exists>j. job_of s (rq_job (cd_row c)) = Some j \<and> \<not> j_paused j \<and> j_status j \<in> set runnable_job_statuses
      \<and> j_generation j = rq_generation r"
    "workspace_agent_admits c s" "worker_node_admits w c v s"
    "code_claim_refusal c (enter_code_pool_domain c frozen s) (tx_now tx) s = None"
  using assms unfolding check_locked_def Let_def
  by (auto simp: find_Some_iff split: option.splits if_splits)

lemma evaluate_Granted:
  assumes "evaluate_candidate b tx w c v frozen st0 s = (Granted a, st, s')"
  obtains m st1 r s1 where
    "admit_candidate b c v st0 = (Some m, st1)" "check_locked tx w c v frozen s = Proceed r"
    "start_claimed_node tx (cd_row c) m (rq_generation r) s = Inr s1"
    "promote_claim b tx w (cd_row c) m (rq_generation r) s1 = Some (ac_lease a, ac_run a, s')"
    "ac_execution a = cd_execution c" "ac_kind a = rq_kind (cd_row c)" "ac_job a = rq_job (cd_row c)"
    "ac_node a = rq_node (cd_row c)" "ac_generation a = rq_generation r" "ac_manifest a = m"
    "ac_workspace a = cd_workspace c" "st = st1\<lparr>sc_attempts := sc_attempts st1 + 1\<rparr>"
proof -
  obtain mo st1 where ad: "admit_candidate b c v st0 = (mo, st1)" by fastforce
  with assms obtain m where m: "mo = Some m" by (cases mo) (simp_all add: evaluate_candidate_def)
  from assms ad m obtain r where r: "check_locked tx w c v frozen s = Proceed r"
    by (cases "check_locked tx w c v frozen s") (simp_all add: evaluate_candidate_def Let_def)
  from assms ad m r obtain s1 where s1: "start_claimed_node tx (cd_row c) m (rq_generation r) s = Inr s1"
    by (cases "start_claimed_node tx (cd_row c) m (rq_generation r) s") (simp_all add: evaluate_candidate_def Let_def)
  from assms ad m r s1 obtain lease rid where
    p: "promote_claim b tx w (cd_row c) m (rq_generation r) s1 = Some (lease, rid, s')"
    by (cases "promote_claim b tx w (cd_row c) m (rq_generation r) s1")
      (auto simp: evaluate_candidate_def Let_def)
  show ?thesis
    by (rule that [OF _ r s1]) (use assms ad m r s1 p in \<open>auto simp: evaluate_candidate_def Let_def\<close>)
qed

lemma evaluate_Skipped:
  assumes "evaluate_candidate b tx w c v frozen st0 s = (Skipped, st, s')"
  shows "s' = s \<or> s' = cancel_request (cd_execution c) (tx_now tx) s"
  using assms unfolding evaluate_candidate_def Let_def
  by (auto split: prod.splits option.splits lock_verdict.splits sum.splits)

lemma evaluate_Raced:
  assumes "evaluate_candidate b tx w c v frozen st0 s = (Raced, st, s')"
  shows "s' = meanwhile tx (rq_job (cd_row c)) s"
  using assms unfolding evaluate_candidate_def Let_def
  by (auto split: prod.splits option.splits lock_verdict.splits sum.splits)

lemma meanwhile_tables [simp]:
  "t_nodes (meanwhile tx job s) = t_nodes s" "t_runs (meanwhile tx job s) = t_runs s"
  "t_leases (meanwhile tx job s) = t_leases s" "t_shards (meanwhile tx job s) = t_shards s"
  "t_requests (meanwhile tx job s) = t_requests s" "t_limits (meanwhile tx job s) = t_limits s"
  "t_workers (meanwhile tx job s) = t_workers s" "t_agent_caps (meanwhile tx job s) = t_agent_caps s"
  "t_next_run (meanwhile tx job s) = t_next_run s"
  by (simp_all add: meanwhile_def)

lemma write_claim_tables [simp]:
  "t_jobs (write_claim b tx w r m gen s) = t_jobs s" "t_nodes (write_claim b tx w r m gen s) = t_nodes s"
  "t_shards (write_claim b tx w r m gen s) = t_shards s" "t_limits (write_claim b tx w r m gen s) = t_limits s"
  "t_workers (write_claim b tx w r m gen s) = t_workers s" "t_agent_caps (write_claim b tx w r m gen s) = t_agent_caps s"
  "t_runs (write_claim b tx w r m gen s) = t_runs s @ [broker_run b tx r m gen (t_next_run s)]"
  "t_leases (write_claim b tx w r m gen s) = t_leases s @ [broker_lease b tx r gen (t_next_run s)]"
  "t_next_run (write_claim b tx w r m gen s) = t_next_run s + 1"
  "t_requests (write_claim b tx w r m gen s) =
     update_where (\<lambda>q. rq_execution q = rq_execution r \<and> rq_state q = ''queued'') (claimed_row w tx (t_next_run s)) (t_requests s)"
  by (simp_all add: write_claim_def Let_def)

lemma promote_tables:
  assumes "promote_claim b tx w r m gen s = Some (l, rid, s')"
  shows "l = tx_uuid tx (rq_execution r)" "rid = t_next_run s"
    "t_nodes s' = t_nodes s" "t_shards s' = t_shards s" "t_limits s' = t_limits s" "t_agent_caps s' = t_agent_caps s"
    "t_workers s' = t_workers s" "t_next_run s' = t_next_run s + 1"
    "t_runs s' = t_runs s @ [broker_run b tx r m gen (t_next_run s)]"
    "t_leases s' = t_leases s @ [broker_lease b tx r gen (t_next_run s)]"
    "t_requests s' = update_where (\<lambda>q. rq_execution q = rq_execution r \<and> rq_state q = ''queued'')
       (claimed_row w tx (t_next_run s)) (t_requests s)"
  using assms by (auto simp: promote_claim_def Let_def split: if_splits option.splits)

lemma start_claimed_tables:
  assumes "start_claimed_node tx r m gen s = Inr s1"
  shows "t_requests s1 = t_requests s" "t_leases s1 = t_leases s" "t_limits s1 = t_limits s"
    "t_agent_caps s1 = t_agent_caps s" "t_jobs s1 = t_jobs s" "t_workers s1 = t_workers s"
    "t_runs s1 = t_runs s" "t_next_run s1 = t_next_run s"
  using assms
  by (auto simp: start_claimed_node_def try_start_shard_def Let_def split: option.splits if_splits)

section \<open>Counting rows under an update of one key\<close>

lemma update_where_absent: "k \<notin> key ` set rows \<Longrightarrow> (\<And>r. p r \<Longrightarrow> key r = k) \<Longrightarrow> update_where p f rows = rows"
  by (rule update_where_none) blast

lemma count_where_Cons: "count_where q (r # rows) = (if q r then 1 else 0) + count_where q rows"
  by (simp add: count_where_def)

lemma count_update_key:
  assumes "distinct (map key rows)" "r \<in> set rows" "p r" "\<And>x. p x \<Longrightarrow> key x = key r"
  shows "count_where q (update_where p f rows) + (if q r then 1 else 0)
    = count_where q rows + (if q (f r) then 1 else 0)"
  using assms
proof (induction rows)
  case (Cons x rows)
  have step: "update_where p f (x # rows) = (if p x then f x else x) # update_where p f rows" by (simp add: update_where_def)
  show ?case
  proof (cases "x = r")
    case True
    then have "key r \<notin> key ` set rows" using Cons.prems(1) by simp
    then have "update_where p f rows = rows" by (rule update_where_absent) (fact Cons.prems(4))
    then show ?thesis unfolding step count_where_Cons using True Cons.prems(3) by simp
  next
    case False
    then have r: "r \<in> set rows" using Cons.prems(2) by simp
    have "key x \<noteq> key r" using Cons.prems(1) r by auto
    then have "\<not> p x" using Cons.prems(4) by blast
    moreover have "count_where q (update_where p f rows) + (if q r then 1 else 0)
        = count_where q rows + (if q (f r) then 1 else 0)"
    proof (rule Cons.IH)
      show "distinct (map key rows)" using Cons.prems(1) by simp
    qed (fact r, fact Cons.prems(3), fact Cons.prems(4))
    ultimately show ?thesis unfolding step count_where_Cons by simp
  qed
qed simp

lemma count_update_le:
  "(\<And>r. r \<in> set rows \<Longrightarrow> p r \<Longrightarrow> q (f r) \<Longrightarrow> q r) \<Longrightarrow> count_where q (update_where p f rows) \<le> count_where q rows"
  by (induction rows) (auto simp: update_where_def count_where_def)

section \<open>The effect of a granted claim on the loads\<close>

text \<open>The columns of a request that no statement changes.\<close>

definition rq_static :: "request_row \<Rightarrow> string \<times> string \<times> string \<times> string \<times> string \<times> string \<times> pydict" where
  "rq_static r = (rq_execution r, rq_workspace r, rq_job r, rq_node r, rq_kind r, rq_agent_id r, rq_manifest r)"

definition distinct_requests :: "db \<Rightarrow> bool" where
  "distinct_requests s \<longleftrightarrow> distinct (map rq_execution (t_requests s))"

text \<open>
  A candidate read from the queue: its row agrees with the table, its kind is one of the two, and an
  agent has no identifier of the form \<open>code:...\<close> (the character set of agent identifiers excludes the
  colon; such a lease could not be told from a code lease).
\<close>

definition sound_candidate :: "db \<Rightarrow> candidate \<Rightarrow> bool" where
  "sound_candidate s c \<longleftrightarrow> rq_kind (cd_row c) \<in> {''agent'', ''code''}
     \<and> (rq_kind (cd_row c) = ''agent'' \<longrightarrow> \<not> starts_with ''code:'' (rq_agent_id (cd_row c)))
     \<and> (\<forall>r \<in> set (t_requests s). rq_execution r = cd_execution c \<longrightarrow> rq_static r = rq_static (cd_row c))"

lemma sound_row:
  "sound_candidate s c \<Longrightarrow> r \<in> set (t_requests s) \<Longrightarrow> rq_execution r = cd_execution c \<Longrightarrow>
    rq_kind r = rq_kind (cd_row c) \<and> rq_node r = rq_node (cd_row c) \<and> rq_workspace r = cd_workspace c
    \<and> rq_job r = rq_job (cd_row c)"
  unfolding sound_candidate_def rq_static_def by blast

lemma granted_requests:
  assumes "evaluate_candidate b tx w c v frozen st0 s = (Granted a, st, s')"
  obtains r where "r \<in> set (t_requests s)" "rq_execution r = cd_execution c" "rq_state r = ''queued''"
    "t_requests s' = update_where (\<lambda>q. rq_execution q = cd_execution c \<and> rq_state q = ''queued'')
       (claimed_row w tx (t_next_run s)) (t_requests s)"
    "check_locked tx w c v frozen s = Proceed r"
proof -
  from assms obtain m st1 r s1 where
    r: "check_locked tx w c v frozen s = Proceed r" and
    s1: "start_claimed_node tx (cd_row c) m (rq_generation r) s = Inr s1" and
    p: "promote_claim b tx w (cd_row c) m (rq_generation r) s1 = Some (ac_lease a, ac_run a, s')"
    by (rule evaluate_Granted)
  show ?thesis
    by (rule that [OF check_locked_Proceed(1-3) [OF r] _ r])
      (simp add: promote_tables(11) [OF p] start_claimed_tables [OF s1])
qed

lemma granted_count:
  assumes g: "evaluate_candidate b tx w c v frozen st0 s = (Granted a, st, s')"
    and d: "distinct_requests s"
    and r: "r \<in> set (t_requests s)" "rq_execution r = cd_execution c"
    and q: "\<not> Q r"
  shows "count_where Q (t_requests s') = count_where Q (t_requests s)
    + (if Q (claimed_row w tx (t_next_run s) r) then 1 else 0)"
proof -
  from g obtain r' where r': "r' \<in> set (t_requests s)" "rq_execution r' = cd_execution c" "rq_state r' = ''queued''"
    and t: "t_requests s' = update_where (\<lambda>q. rq_execution q = cd_execution c \<and> rq_state q = ''queued'')
       (claimed_row w tx (t_next_run s)) (t_requests s)"
    by (rule granted_requests)
  have "r' = r" using d r r' unfolding distinct_requests_def distinct_map by (metis inj_onD)
  then show ?thesis
    using count_update_key [of rq_execution "t_requests s" r "\<lambda>q. rq_execution q = cd_execution c \<and> rq_state q = ''queued''"
        Q "claimed_row w tx (t_next_run s)"] d r r' q
    unfolding t distinct_requests_def by simp
qed

lemma evaluate_static:
  assumes "evaluate_candidate b tx w c v frozen st0 s = (verdict, st, s')"
  shows "map rq_static (t_requests s') = map rq_static (t_requests s)"
proof (cases verdict)
  case (Granted a)
  with assms show ?thesis
    by (auto elim!: granted_requests intro!: map_update_where simp: rq_static_def claimed_row_def)
next
  case Skipped
  with assms have "s' = s \<or> s' = cancel_request (cd_execution c) (tx_now tx) s" by (simp add: evaluate_Skipped)
  then show ?thesis by (auto simp: cancel_request_def cancelled_row_def rq_static_def intro!: map_update_where)
next
  case Raced
  with assms have "s' = meanwhile tx (rq_job (cd_row c)) s" by (simp add: evaluate_Raced)
  then show ?thesis by simp
qed

lemma static_distinct:
  "map rq_static (t_requests s') = map rq_static (t_requests s) \<Longrightarrow> distinct_requests s' = distinct_requests s"
proof -
  assume eq: "map rq_static (t_requests s') = map rq_static (t_requests s)"
  have "rq_execution = fst \<circ> rq_static" by (simp add: fun_eq_iff rq_static_def)
  then show ?thesis unfolding distinct_requests_def by (metis eq map_map)
qed

lemma static_sound:
  assumes eq: "map rq_static (t_requests s') = map rq_static (t_requests s)"
  shows "sound_candidate s' c = sound_candidate s c"
proof -
  have "set (map rq_static (t_requests s')) = set (map rq_static (t_requests s))" unfolding eq ..
  then have img: "rq_static ` set (t_requests s') = rq_static ` set (t_requests s)" by simp
  have "(\<forall>r \<in> set (t_requests q). rq_execution r = cd_execution c \<longrightarrow> rq_static r = rq_static (cd_row c))
      \<longleftrightarrow> (\<forall>x \<in> rq_static ` set (t_requests q). fst x = cd_execution c \<longrightarrow> x = rq_static (cd_row c))" for q
    by (simp add: rq_static_def)
  from this [of s'] this [of s] show ?thesis unfolding sound_candidate_def img by argo
qed

section \<open>Capacity gates\<close>

locale capacity_gate =
  fixes load :: "'s \<Rightarrow> nat" and limit :: int and step :: "'s \<Rightarrow> 's \<Rightarrow> bool"
  assumes admits: "step s s' \<Longrightarrow> load s' \<le> load s \<or> int (load s) < limit \<and> load s' \<le> Suc (load s)"
begin

lemma run_bounded: "step\<^sup>*\<^sup>* s t \<Longrightarrow> int (load t) \<le> max (int (load s)) limit"
proof (induction rule: rtranclp_induct)
  case (step t u)
  with admits [OF step.hyps(2)] show ?case by linarith
qed simp

lemma run_within: "step\<^sup>*\<^sup>* s t \<Longrightarrow> int (load s) \<le> limit \<Longrightarrow> int (load t) \<le> limit"
  using run_bounded by fastforce

end

text \<open>
  The view as the loops keep it: the pools of the worker with the loads of the current state. A
  claim step is one candidate read from the queue.
\<close>

definition view_at :: "string \<Rightarrow> worker_view \<Rightarrow> db \<Rightarrow> worker_view" where
  "view_at w v s = v\<lparr>vw_agent_active := int (kind_load w ''agent'' s), vw_code_active := int (kind_load w ''code'' s)\<rparr>"

definition claim_step :: "broker \<Rightarrow> claim_tx \<Rightarrow> string \<Rightarrow> worker_view \<Rightarrow> db \<Rightarrow> db \<Rightarrow> bool" where
  "claim_step b tx w v s s' \<longleftrightarrow> distinct_requests s \<and> (\<exists>c frozen st0 verdict st. sound_candidate s c
     \<and> evaluate_candidate b tx w c (view_at w v s) frozen st0 s = (verdict, st, s'))"

lemma request_gate:
  assumes "claim_step b tx w v s s'" and Q: "\<And>r. Q r \<Longrightarrow> rq_state r = ''claimed''"
  shows "count_where Q (t_requests s') \<le> count_where Q (t_requests s)
    \<or> (\<exists>c frozen st0 m st1 r. sound_candidate s c
        \<and> admit_candidate b c (view_at w v s) st0 = (Some m, st1)
        \<and> check_locked tx w c (view_at w v s) frozen s = Proceed r
        \<and> Q (claimed_row w tx (t_next_run s) r)
        \<and> count_where Q (t_requests s') \<le> Suc (count_where Q (t_requests s)))"
proof -
  from assms(1) obtain c frozen st0 verdict st where d: "distinct_requests s" and c: "sound_candidate s c"
    and e: "evaluate_candidate b tx w c (view_at w v s) frozen st0 s = (verdict, st, s')"
    unfolding claim_step_def by blast
  show ?thesis
  proof (cases verdict)
    case (Granted a)
    with e have g: "evaluate_candidate b tx w c (view_at w v s) frozen st0 s = (Granted a, st, s')" by simp
    from g obtain m st1 r where m: "admit_candidate b c (view_at w v s) st0 = (Some m, st1)"
      and r: "check_locked tx w c (view_at w v s) frozen s = Proceed r" by (rule evaluate_Granted)
    note row = check_locked_Proceed(1-3) [OF r]
    have "\<not> Q r" using Q [of r] row(3) by auto
    from granted_count [where Q = Q, OF g d row(1,2) this]
    show ?thesis using c m r by (cases "Q (claimed_row w tx (t_next_run s) r)") auto
  next
    case Skipped
    with e have "s' = s \<or> s' = cancel_request (cd_execution c) (tx_now tx) s" by (simp add: evaluate_Skipped)
    moreover have "count_where Q (t_requests (cancel_request k now s)) \<le> count_where Q (t_requests s)" for k now
      unfolding cancel_request_def update_requests_tables
      by (rule count_update_drops) (use Q in \<open>fastforce simp: cancelled_row_def\<close>)
    ultimately show ?thesis by auto
  next
    case Raced
    with e have "s' = meanwhile tx (rq_job (cd_row c)) s" by (simp add: evaluate_Raced)
    then show ?thesis by simp
  qed
qed

text \<open>The two pools of the worker.\<close>

definition pool_capacity :: "worker_view \<Rightarrow> string \<Rightarrow> int" where
  "pool_capacity v kind = (if kind = ''code'' then vw_code_capacity v else vw_agent_capacity v)"

lemma pool_gate:
  assumes "claim_step b tx w v s s'" and "k \<in> {''agent'', ''code''}"
  shows "kind_load w k s' \<le> kind_load w k s
    \<or> int (kind_load w k s) < pool_capacity v k \<and> kind_load w k s' \<le> Suc (kind_load w k s)"
proof -
  have slot: "slot_of w r \<and> rq_kind r = k \<Longrightarrow> rq_state r = ''claimed''" for r by (simp add: slot_of_def)
  from request_gate [OF assms(1), of "\<lambda>r. slot_of w r \<and> rq_kind r = k", OF slot]
  consider "kind_load w k s' \<le> kind_load w k s"
    | c frozen st0 m st1 r where "sound_candidate s c" "admit_candidate b c (view_at w v s) st0 = (Some m, st1)"
        "check_locked tx w c (view_at w v s) frozen s = Proceed r" "rq_kind r = k"
        "kind_load w k s' \<le> Suc (kind_load w k s)"
    unfolding kind_load_def by (auto simp: claimed_row_def)
  then show ?thesis
  proof cases
    case 2
    then have "rq_kind (cd_row c) = k"
      using sound_row [OF 2(1) check_locked_Proceed(1,2) [OF 2(3)]] by simp
    with admit_pool [OF 2(2)] assms(2) have "int (kind_load w k s) < pool_capacity v k"
      by (auto simp: view_at_def pool_capacity_def)
    with 2(5) show ?thesis by simp
  qed simp
qed

interpretation pool: capacity_gate "kind_load w k" "pool_capacity v k"
  "\<lambda>s s'. claim_step b tx w v s s' \<and> k \<in> {''agent'', ''code''}"
  by unfold_locales (use pool_gate in blast)

text \<open>The limit of a node on this machine.\<close>

lemma machine_gate:
  assumes "claim_step b tx w v s s'" and "dget (vw_node_limits v) node = Some limit"
  shows "worker_node_load w node s' \<le> worker_node_load w node s
    \<or> int (worker_node_load w node s) < limit \<and> worker_node_load w node s' \<le> Suc (worker_node_load w node s)"
proof -
  have slot: "slot_of w r \<and> rq_node r = node \<Longrightarrow> rq_state r = ''claimed''" for r by (simp add: slot_of_def)
  from request_gate [OF assms(1), of "\<lambda>r. slot_of w r \<and> rq_node r = node", OF slot]
  consider "worker_node_load w node s' \<le> worker_node_load w node s"
    | c frozen r where "sound_candidate s c" "check_locked tx w c (view_at w v s) frozen s = Proceed r" "rq_node r = node"
        "worker_node_load w node s' \<le> Suc (worker_node_load w node s)"
    unfolding worker_node_load_def by (auto simp: claimed_row_def)
  then show ?thesis
  proof cases
    case 2
    then have "rq_node (cd_row c) = node"
      using sound_row [OF 2(1) check_locked_Proceed(1,2) [OF 2(2)]] by simp
    with check_locked_Proceed(7) [OF 2(2)] assms(2) have "int (worker_node_load w node s) < limit"
      by (simp add: worker_node_admits_def view_at_def)
    with 2(4) show ?thesis by simp
  qed simp
qed

interpretation machine: capacity_gate "worker_node_load w node" limit
  "\<lambda>s s'. claim_step b tx w v s s' \<and> dget (vw_node_limits v) node = Some limit"
  by unfold_locales (use machine_gate in blast)

text \<open>The agent pool of a workspace.\<close>

lemma workspace_gate:
  assumes "claim_step b tx w v s s'" and "dget (t_agent_caps s) ws = Some limit"
  shows "workspace_agent_load ws s' \<le> workspace_agent_load ws s
    \<or> int (workspace_agent_load ws s) < limit \<and> workspace_agent_load ws s' \<le> Suc (workspace_agent_load ws s)"
proof -
  have slot: "rq_workspace r = ws \<and> rq_state r = ''claimed'' \<and> rq_kind r = ''agent'' \<Longrightarrow> rq_state r = ''claimed''" for r
    by simp
  from request_gate [OF assms(1), of "\<lambda>r. rq_workspace r = ws \<and> rq_state r = ''claimed'' \<and> rq_kind r = ''agent''", OF slot]
  consider "workspace_agent_load ws s' \<le> workspace_agent_load ws s"
    | c frozen r where "sound_candidate s c" "check_locked tx w c (view_at w v s) frozen s = Proceed r"
        "rq_workspace r = ws" "rq_kind r = ''agent''"
        "workspace_agent_load ws s' \<le> Suc (workspace_agent_load ws s)"
    unfolding workspace_agent_load_def by (auto simp: claimed_row_def)
  then show ?thesis
  proof cases
    case 2
    then have "cd_workspace c = ws" "rq_kind (cd_row c) = ''agent''"
      using sound_row [OF 2(1) check_locked_Proceed(1,2) [OF 2(2)]] by simp_all
    with check_locked_Proceed(6) [OF 2(2)] assms(2) have "int (workspace_agent_load ws s) < limit"
      by (simp add: workspace_agent_admits_def)
    with 2(5) show ?thesis by simp
  qed simp
qed

lemma evaluate_settings:
  assumes "evaluate_candidate b tx w c v frozen st0 s = (verdict, st, s')"
  shows "t_limits s' = t_limits s" "t_agent_caps s' = t_agent_caps s"
proof -
  have "t_limits s' = t_limits s \<and> t_agent_caps s' = t_agent_caps s"
  proof (cases verdict)
    case (Granted a)
    with assms show ?thesis
      by (auto elim!: evaluate_Granted simp: promote_tables(5,6) start_claimed_tables(3,4))
  next
    case Skipped
    with assms evaluate_Skipped show ?thesis by fastforce
  next
    case Raced
    with assms evaluate_Raced show ?thesis by fastforce
  qed
  then show "t_limits s' = t_limits s" "t_agent_caps s' = t_agent_caps s" by simp_all
qed

interpretation workspace: capacity_gate "workspace_agent_load ws" limit
  "\<lambda>s s'. claim_step b tx w v s s' \<and> dget (t_agent_caps s) ws = Some limit"
  by unfold_locales (use workspace_gate in blast)

text \<open>The limit of a code node in its workspace, counted over the live code leases.\<close>

lemma granted_leases:
  assumes "evaluate_candidate b tx w c v frozen st0 s = (Granted a, st, s')"
  shows "t_leases s' = t_leases s @ [broker_lease b tx (cd_row c) (ac_generation a) (t_next_run s)]"
  using assms by (auto elim!: evaluate_Granted simp: promote_tables(10) start_claimed_tables(2,8))

lemma executor_form:
  "sound_candidate s c \<Longrightarrow> code_lease_form (executor_of_request (cd_row c)) \<longleftrightarrow> rq_kind (cd_row c) = ''code''"
  by (auto simp: sound_candidate_def code_lease_form_def executor_of_request_def starts_with_def)

lemma code_node_gate:
  assumes "claim_step b tx w v s s'" and limit: "dget (t_limits s) (ws, node) = Some limit"
  shows "node_load ws node (tx_now tx) s' \<le> node_load ws node (tx_now tx) s
    \<or> int (node_load ws node (tx_now tx) s) < limit
      \<and> node_load ws node (tx_now tx) s' \<le> Suc (node_load ws node (tx_now tx) s)"
proof -
  from assms(1) obtain c frozen st0 verdict st where c: "sound_candidate s c"
    and e: "evaluate_candidate b tx w c (view_at w v s) frozen st0 s = (verdict, st, s')"
    unfolding claim_step_def by blast
  show ?thesis
  proof (cases verdict)
    case (Granted a)
    with e have g: "evaluate_candidate b tx w c (view_at w v s) frozen st0 s = (Granted a, st, s')" by simp
    from g obtain r where r: "check_locked tx w c (view_at w v s) frozen s = Proceed r" by (rule evaluate_Granted)
    let ?l = "broker_lease b tx (cd_row c) (ac_generation a) (t_next_run s)"
    have count: "node_load ws node (tx_now tx) s' = node_load ws node (tx_now tx) s
        + (if le_workspace ?l = ws \<and> le_node ?l = node \<and> live_lease (tx_now tx) ?l \<and> code_lease_form (le_executor ?l) then 1 else 0)"
      unfolding node_load_def granted_leases [OF g] count_where_snoc ..
    show ?thesis
    proof (cases "cd_workspace c = ws \<and> rq_node (cd_row c) = node \<and> rq_kind (cd_row c) = ''code''")
      case True
      then have "int (node_load ws node (tx_now tx) s) < limit"
        using check_locked_Proceed(8) [OF r] limit
        by (auto simp: code_claim_refusal_def node_limit_def split: if_splits)
      then show ?thesis unfolding count by simp
    next
      case False
      then show ?thesis unfolding count using executor_form [OF c] by (auto simp: broker_lease_def)
    qed
  next
    case Skipped
    with e have "s' = s \<or> s' = cancel_request (cd_execution c) (tx_now tx) s" by (simp add: evaluate_Skipped)
    then show ?thesis by (auto simp: node_load_def)
  next
    case Raced
    with e have "s' = meanwhile tx (rq_job (cd_row c)) s" by (simp add: evaluate_Raced)
    then show ?thesis by (simp add: node_load_def)
  qed
qed

interpretation code_node: capacity_gate "node_load ws node (tx_now tx)" limit
  "\<lambda>s s'. claim_step b tx w v s s' \<and> dget (t_limits s) (ws, node) = Some limit"
  by unfold_locales (use code_node_gate in blast)

section \<open>The loops are runs of claim steps\<close>

lemma granted_kind_loads:
  assumes g: "evaluate_candidate b tx w c v frozen st0 s = (Granted a, st, s')"
    and d: "distinct_requests s" and c: "sound_candidate s c" and k: "k \<in> {''agent'', ''code''}"
  shows "kind_load w k s' = kind_load w k s + (if ac_kind a = k then 1 else 0)"
proof -
  from g obtain r where r: "check_locked tx w c v frozen s = Proceed r" and kind: "ac_kind a = rq_kind (cd_row c)"
    by (rule evaluate_Granted)
  note row = check_locked_Proceed(1-3) [OF r]
  have "\<not> (slot_of w r \<and> rq_kind r = k)" using row(3) by (simp add: slot_of_def)
  from granted_count [where Q = "\<lambda>r. slot_of w r \<and> rq_kind r = k", OF g d row(1,2) this]
  show ?thesis using sound_row [OF c row(1,2)] kind by (simp add: kind_load_def slot_of_def claimed_row_def)
qed

lemma view_at_granted:
  assumes "evaluate_candidate b tx w c (view_at w v s) frozen st0 s = (Granted a, st, s')"
    and "distinct_requests s" and "sound_candidate s c"
  shows "count_kind (ac_kind a) (view_at w v s) = view_at w v s'"
  using granted_kind_loads [OF assms, of "''agent''"] granted_kind_loads [OF assms, of "''code''"]
  by (simp add: count_kind_def view_at_def)

text \<open>A skip only cancels requests, so it can lower the load of no one but a holder of the request.\<close>

lemma check_Cancel_queued:
  assumes "check_locked tx w c v frozen s = Cancel reason"
  shows "\<exists>r \<in> set (t_requests s). rq_execution r = cd_execution c \<and> rq_state r = ''queued''"
proof -
  from assms obtain r where "find (\<lambda>r. rq_execution r = cd_execution c \<and> rq_state r = ''queued''
      \<and> cd_execution c \<notin> set (tx_locked tx)) (t_requests s) = Some r"
    unfolding check_locked_def Let_def by (auto split: option.splits)
  then show ?thesis by (auto simp: find_Some_iff)
qed

lemma skipped_cases:
  assumes "evaluate_candidate b tx w c v frozen st0 s = (Skipped, st, s')"
  shows "s' = s \<or> s' = cancel_request (cd_execution c) (tx_now tx) s
    \<and> (\<exists>r \<in> set (t_requests s). rq_execution r = cd_execution c \<and> rq_state r = ''queued'')"
proof (cases "admit_candidate b c v st0")
  case (Pair mo st1)
  show ?thesis
  proof (cases mo)
    case None
    with assms Pair show ?thesis by (simp add: evaluate_candidate_def)
  next
    case (Some m)
    show ?thesis
    proof (cases "check_locked tx w c v frozen s")
      case (Proceed r)
      then show ?thesis using evaluate_Skipped [OF assms] check_locked_Proceed(1-3) [OF Proceed] by blast
    next
      case (Leave reason)
      with assms Pair Some show ?thesis by (simp add: evaluate_candidate_def Let_def)
    next
      case (Cancel reason)
      then show ?thesis using evaluate_Skipped [OF assms] check_Cancel_queued by blast
    qed
  qed
qed

lemma view_at_skipped:
  assumes "evaluate_candidate b tx w c v frozen st0 s = (Skipped, st, s')" and d: "distinct_requests s"
  shows "view_at w v' s' = view_at w v' s"
proof -
  from skipped_cases [OF assms(1)] consider "s' = s"
    | r where "s' = cancel_request (cd_execution c) (tx_now tx) s" "r \<in> set (t_requests s)"
        "rq_execution r = cd_execution c" "rq_state r = ''queued''" by blast
  then show ?thesis
  proof cases
    case 2
    have "kind_load w k s' + (if slot_of w r \<and> rq_kind r = k then 1 else 0)
        = kind_load w k s + (if slot_of w (cancelled_row (tx_now tx) r) \<and> rq_kind (cancelled_row (tx_now tx) r) = k then 1 else 0)" for k
      unfolding kind_load_def 2(1) cancel_request_def update_requests_tables
      by (rule count_update_key [where key = rq_execution]) (use d 2 in \<open>simp_all add: distinct_requests_def\<close>)
    then have "kind_load w k s' = kind_load w k s" for k using 2(4) by (simp add: slot_of_def cancelled_row_def)
    then show ?thesis by (simp add: view_at_def)
  qed simp
qed

lemma promote_run:
  assumes "promote_selected b tx w pool cs (view_at w v s) st0 s = (claims, st, s')"
    and "distinct_requests s" and "\<forall>c \<in> set cs. sound_candidate s c"
  shows "(claim_step b tx w v)\<^sup>*\<^sup>* s s'"
  using assms
proof (induction cs arbitrary: s st0 claims)
  case (Cons c cs)
  from Cons.prems(3) have c: "sound_candidate s c" by simp
  obtain verdict st1 s1 where e: "evaluate_candidate b tx w c (view_at w v s) (Some pool) st0 s = (verdict, st1, s1)"
    by (metis prod_cases3)
  have step: "claim_step b tx w v s s1" unfolding claim_step_def using Cons.prems(2) c e by blast
  have d1: "distinct_requests s1" using static_distinct [OF evaluate_static [OF e]] Cons.prems(2) by simp
  have cs1: "\<forall>c \<in> set cs. sound_candidate s1 c"
    using static_sound [OF evaluate_static [OF e]] Cons.prems(3) by simp
  have rest: "(claim_step b tx w v)\<^sup>*\<^sup>* s1 s'"
    if "promote_selected b tx w pool cs (view_at w v s1) st1 s1 = (claims', st, s')" for claims'
    using that d1 cs1 by (rule Cons.IH)
  have "(claim_step b tx w v)\<^sup>*\<^sup>* s1 s'"
  proof (cases verdict)
    case (Granted a)
    then have "count_kind (ac_kind a) (view_at w v s) = view_at w v s1"
      using view_at_granted [OF _ Cons.prems(2) c] e by blast
    with Cons.prems(1) e Granted show ?thesis by (auto split: prod.splits intro: rest)
  next
    case Skipped
    then have "view_at w v s1 = view_at w v s" using view_at_skipped Cons.prems(2) e by blast
    with Cons.prems(1) e Skipped show ?thesis by (auto intro: rest)
  next
    case Raced
    with Cons.prems(1) e show ?thesis by simp
  qed
  with step show ?case by (meson converse_rtranclp_into_rtranclp)
qed simp

end
