(* ===== verification/Broker_Meaning.thy ===== *)
theory Broker_Meaning
  imports Broker_Steps
begin

text \<open>
  What the claims of the broker mean: where candidates come from, what a granted claim found and
  left, and the limits after a single and after a batch claim.
\<close>

section \<open>Candidates come from the queue\<close>

definition requests_ok :: "db \<Rightarrow> bool" where
  "requests_ok s \<longleftrightarrow> distinct_requests s \<and> list_all (\<lambda>r. rq_kind r \<in> {''agent'', ''code''}
     \<and> (rq_kind r = ''agent'' \<longrightarrow> \<not> starts_with ''code:'' (rq_agent_id r))) (t_requests s)"

text \<open>\<open>s0\<close> is an earlier snapshot of the queue: the identity of a request never changes.\<close>

definition snapshot_of :: "db \<Rightarrow> db \<Rightarrow> bool" where
  "snapshot_of s0 s \<longleftrightarrow> list_all (\<lambda>r0. list_all (\<lambda>r. rq_execution r = rq_execution r0 \<longrightarrow> rq_static r = rq_static r0)
     (t_requests s)) (t_requests s0)"

lemma snapshot_refl: "distinct_requests s \<Longrightarrow> snapshot_of s s"
  unfolding snapshot_of_def distinct_requests_def list_all_iff distinct_map by (metis inj_onD)

lemma sound_from_queue:
  "requests_ok s0 \<Longrightarrow> snapshot_of s0 s \<Longrightarrow> cd_row c \<in> set (t_requests s0) \<Longrightarrow> sound_candidate s c"
  unfolding requests_ok_def snapshot_of_def sound_candidate_def list_all_iff by blast

lemma static_requests_ok:
  assumes eq: "map rq_static (t_requests s') = map rq_static (t_requests s)" and "requests_ok s"
  shows "requests_ok s'"
proof -
  have "set (map rq_static (t_requests s')) = set (map rq_static (t_requests s))" unfolding eq ..
  then have img: "rq_static ` set (t_requests s') = rq_static ` set (t_requests s)" by simp
  let ?P = "\<lambda>(e, ws, job, node, kind, agent, m). kind \<in> {''agent'', ''code''} \<and> (kind = ''agent'' \<longrightarrow> \<not> starts_with ''code:'' agent)"
  have "list_all (\<lambda>r. rq_kind r \<in> {''agent'', ''code''} \<and> (rq_kind r = ''agent'' \<longrightarrow> \<not> starts_with ''code:'' (rq_agent_id r)))
      (t_requests q) \<longleftrightarrow> (\<forall>x \<in> rq_static ` set (t_requests q). ?P x)" for q
    by (simp add: list_all_iff rq_static_def)
  from this [of s'] this [of s] have
    "list_all (\<lambda>r. rq_kind r \<in> {''agent'', ''code''} \<and> (rq_kind r = ''agent'' \<longrightarrow> \<not> starts_with ''code:'' (rq_agent_id r)))
        (t_requests s')
      = list_all (\<lambda>r. rq_kind r \<in> {''agent'', ''code''} \<and> (rq_kind r = ''agent'' \<longrightarrow> \<not> starts_with ''code:'' (rq_agent_id r)))
        (t_requests s)"
    unfolding img by (rule trans [OF _ sym])
  then show ?thesis using assms(2) static_distinct [OF eq] unfolding requests_ok_def by blast
qed

lemma queue_order_set [simp]: "set (queue_order row xs) = set xs"
  by (simp add: queue_order_def)

lemma fetch_queued:
  assumes "c \<in> set (fetch_candidates b per_workspace window kind s)"
  shows "cd_row c \<in> set (t_requests s)" "rq_state (cd_row c) = ''queued''" "rq_kind (cd_row c) = kind"
    "eligible_workspace kind s (cd_workspace c)" "job_of s (rq_job (cd_row c)) \<noteq> None"
proof -
  from assms obtain w where w: "eligible_workspace kind s (fst w)" "c \<in> set (workspace_head b per_workspace kind s w)"
    unfolding fetch_candidates_def by (auto dest!: in_set_takeD)
  from w(2) obtain r where r: "c = make_candidate b s (snd w) r" "r \<in> set (t_requests s)" "queued_of (fst w) kind r"
    "job_of s (rq_job r) \<noteq> None"
    unfolding workspace_head_def by (auto dest!: in_set_takeD)
  then show "cd_row c \<in> set (t_requests s)" "rq_state (cd_row c) = ''queued''" "rq_kind (cd_row c) = kind"
    "eligible_workspace kind s (cd_workspace c)" "job_of s (rq_job (cd_row c)) \<noteq> None"
    using w(1) by (simp_all add: make_candidate_def queued_of_def)
qed

lemma fair_order_set [simp]: "set (fair_candidate_order rows cursor) = set rows"
proof -
  have "c \<in> set (fair_candidate_order rows cursor) \<longleftrightarrow> c \<in> set rows" for c
  proof -
    have "c \<in> set (fair_candidate_order rows cursor) \<longleftrightarrow>
        c \<in> set (filter (\<lambda>c'. cd_workspace c' = cd_workspace c) (fair_candidate_order rows cursor))" by simp
    also have "\<dots> \<longleftrightarrow> c \<in> set rows" unfolding fair_order_workspace ws_groups_def by simp
    finally show ?thesis .
  qed
  then show ?thesis by blast
qed

lemma select_window_member: "select_window b v kind f chosen cs st = (Some c, st') \<Longrightarrow> c \<in> set cs"
  by (induction b v kind f chosen cs st rule: select_window.induct)
    (auto split: if_splits prod.splits bool.splits option.splits)

text \<open>A candidate of the scan: a row of the queue with the advisory keys of its workspace and its job.\<close>

definition offered :: "broker \<Rightarrow> db \<Rightarrow> candidate \<Rightarrow> bool" where
  "offered b s c \<longleftrightarrow> cd_row c \<in> set (t_requests s) \<and> cd_ws_key c = agent_ws_key b (cd_workspace c)
     \<and> cd_job_key c = job_lock_key b (rq_job (cd_row c))"

lemma fetch_offered:
  assumes "c \<in> set (fetch_candidates b per_workspace window kind s)"
  shows "offered b s c"
proof -
  from assms obtain w where "c \<in> set (workspace_head b per_workspace kind s w)"
    unfolding fetch_candidates_def by (auto dest!: in_set_takeD)
  then obtain r where "c = make_candidate b s (snd w) r" "r \<in> set (t_requests s)"
    unfolding workspace_head_def by (auto dest!: in_set_takeD)
  then show ?thesis by (simp add: offered_def make_candidate_def)
qed

lemma select_rounds_offered:
  "select_rounds b s v kind cursor f chosen rounds st = (Some c, st') \<Longrightarrow> offered b s c"
proof (induction b s v kind cursor f chosen rounds st rule: select_rounds.induct)
  case (2 b s v kind cursor f chosen pw win rounds st)
  let ?cs = "fetch_candidates b pw win kind s"
  obtain co st1 where w: "select_window b v kind f chosen (fair_candidate_order ?cs cursor) st = (co, st1)" by fastforce
  show ?case
  proof (cases co)
    case None
    with 2 w show ?thesis by (auto simp: Let_def split: if_splits)
  next
    case (Some c')
    with 2 w have "c \<in> set ?cs" by (auto simp: Let_def split: if_splits dest!: select_window_member)
    then show ?thesis by (rule fetch_offered)
  qed
qed simp

lemma select_first_offered:
  "select_first b s v kinds cursor f chosen st = (Some c, st') \<Longrightarrow> offered b s c"
  by (induction b s v kinds cursor f chosen st rule: select_first.induct)
    (auto simp: select_kind_batch_def split: prod.splits option.splits dest!: select_rounds_offered)

lemma select_slots_offered:
  assumes "select_slots n b s v pl f cursor selected st = (cs, st', cursor')"
    and "\<forall>c \<in> set selected. offered b s c"
  shows "\<forall>c \<in> set cs. offered b s c"
  using assms
proof (induction n b s v pl f cursor selected st arbitrary: cs rule: select_slots.induct)
  case (2 n b s v pl f cursor selected st)
  let ?kinds = "kind_order cursor (filter (kind_open pl) (needed_claim_kinds v))"
  obtain co st1 where w: "select_first b s v ?kinds cursor f (map cd_execution selected) st = (co, st1)" by fastforce
  show ?case
  proof (cases "filter (kind_open pl) (needed_claim_kinds v) = []")
    case False
    show ?thesis
    proof (cases co)
      case (Some c)
      with w have c: "offered b s c" by (auto dest: select_first_offered)
      show ?thesis
        by (rule "2.IH" [OF refl False w [symmetric] Some refl refl])
          (use 2(2,3) w False Some c in \<open>simp_all add: Let_def\<close>)
    qed (use 2(2,3) w False in \<open>simp add: Let_def\<close>)
  qed (use 2(2,3) in simp)
qed simp

lemma selection_offered:
  assumes "select_batch_candidates b w d limit pl cursor s = Some (sel, cursor')"
  shows "\<forall>c \<in> set (sl_candidates sel). offered b s c"
proof -
  from assms obtain v where v: "read_claim_view w d s = Some v"
    by (auto simp: select_batch_candidates_def split: option.splits)
  show ?thesis
  proof (cases "needed_claim_kinds v = []")
    case True
    with assms v show ?thesis by (auto simp: select_batch_candidates_def)
  next
    case False
    let ?st = "if vw_node_limits v = [] then initial_scan else initial_scan\<lparr>sc_node_active := load_node_claimed_counts w s\<rparr>"
    obtain cs st' k where sl: "select_slots (min limit max_batch_claims) b s v pl None cursor [] ?st = (cs, st', k)"
      by (metis prod_cases3)
    then have "\<forall>c \<in> set cs. offered b s c" by (rule select_slots_offered) simp
    moreover have "sl_candidates sel = cs"
      using assms v False sl by (auto simp: select_batch_candidates_def Let_def)
    ultimately show ?thesis by simp
  qed
qed

lemma selection_queued:
  assumes "select_batch_candidates b w d limit pl cursor s = Some (sel, cursor')"
  shows "\<forall>c \<in> set (sl_candidates sel). cd_row c \<in> set (t_requests s)"
  using selection_offered [OF assms] by (simp add: offered_def)

section \<open>The write phase of a batch as a run of claim steps\<close>

lemma declared_sync_tables:
  assumes "sync_declared_capacity k d s = (pools, s1)"
  shows "t_requests s1 = t_requests s" "t_leases s1 = t_leases s" "t_jobs s1 = t_jobs s" "t_nodes s1 = t_nodes s"
    "t_limits s1 = t_limits s" "t_agent_caps s1 = t_agent_caps s" "t_runs s1 = t_runs s" "t_shards s1 = t_shards s"
    "t_next_run s1 = t_next_run s"
  using assms by (auto simp: sync_declared_capacity_def Let_def split: if_splits)

lemma prepare_view:
  assumes "prepare_claim_view w d s = Some (v, s1)"
  shows "t_requests s1 = t_requests s" "t_leases s1 = t_leases s" "t_jobs s1 = t_jobs s" "t_nodes s1 = t_nodes s"
    "t_limits s1 = t_limits s" "t_agent_caps s1 = t_agent_caps s" "t_runs s1 = t_runs s" "t_shards s1 = t_shards s"
    "t_next_run s1 = t_next_run s" "view_at w v s1 = v"
proof -
  from assms obtain k pools where k: "worker_of s w = Some k" and sync: "sync_declared_capacity k d s = (pools, s1)"
    and v: "v = build_worker_view k pools s1"
    by (auto simp: prepare_claim_view_def Let_def split: option.splits if_splits prod.splits)
  show "t_requests s1 = t_requests s" "t_leases s1 = t_leases s" "t_jobs s1 = t_jobs s" "t_nodes s1 = t_nodes s"
    "t_limits s1 = t_limits s" "t_agent_caps s1 = t_agent_caps s" "t_runs s1 = t_runs s" "t_shards s1 = t_shards s"
    "t_next_run s1 = t_next_run s"
    using declared_sync_tables [OF sync] by simp_all
  have "wk_id k = w" using k by (auto simp: worker_of_def find_Some_iff)
  then show "view_at w v s1 = v" unfolding v view_at_def build_worker_view_def by (auto split: prod.splits)
qed

lemma lock_order_set [simp]: "set (lock_order_sorted cs) = set cs"
  by (simp add: lock_order_sorted_def)

lemma batch_run:
  assumes batch: "claim_batch b tx w d limit pl cursor s0 s = Some (out, cursor', s')"
    and v: "prepare_claim_view w d s = Some (v, s1)"
    and ok: "requests_ok s0" "snapshot_of s0 s" "distinct_requests s"
  obtains s2 where "(claim_step b tx w v)\<^sup>*\<^sup>* s1 s2" "s' = touch_worker w (br_touch b) (tx_now tx) s2"
proof -
  from batch obtain sel c1 where sel: "select_batch_candidates b w d limit pl cursor s0 = Some (sel, c1)"
    and tx: "claim_batch_in_transaction b tx w d sel s = Some (out, s')"
    by (auto simp: claim_batch_def split: option.splits)
  show ?thesis
  proof (cases "sl_scan_skipped sel")
    case True
    with tx v have "s' = touch_worker w (br_touch b) (tx_now tx) s1" by (simp add: claim_batch_in_transaction_def)
    then show ?thesis using that by blast
  next
    case False
    let ?pool = "lock_code_pool_for_batch (sl_candidates sel) s1"
    obtain claims st s2 where
      p: "promote_selected b tx w ?pool (lock_order_sorted (sl_candidates sel)) (view_at w v s1) initial_scan s1 = (claims, st, s2)"
      by (metis prod_cases3)
    have d1: "distinct_requests s1" using ok(3) prepare_view(1) [OF v] by (simp add: distinct_requests_def)
    have "snapshot_of s0 s1" using ok(2) prepare_view(1) [OF v] by (simp add: snapshot_of_def)
    then have "\<forall>c \<in> set (lock_order_sorted (sl_candidates sel)). sound_candidate s1 c"
      using selection_queued [OF sel] sound_from_queue [OF ok(1)] by simp
    from promote_run [OF p d1 this] have run: "(claim_step b tx w v)\<^sup>*\<^sup>* s1 s2" .
    moreover have "s' = touch_worker w (br_touch b) (tx_now tx) s2"
      using tx v False p by (simp add: claim_batch_in_transaction_def Let_def prepare_view(10) [OF v])
    ultimately show ?thesis using that by blast
  qed
qed

text \<open>The single claim scans in the same steps.\<close>

lemma step_keeps:
  assumes "claim_step b tx w v s s'"
  shows "map rq_static (t_requests s') = map rq_static (t_requests s)" "t_limits s' = t_limits s"
    "t_agent_caps s' = t_agent_caps s"
proof -
  from assms obtain c frozen st0 verdict st where
    e: "evaluate_candidate b tx w c (view_at w v s) frozen st0 s = (verdict, st, s')"
    unfolding claim_step_def by blast
  show "map rq_static (t_requests s') = map rq_static (t_requests s)" by (rule evaluate_static [OF e])
  show "t_limits s' = t_limits s" "t_agent_caps s' = t_agent_caps s" by (rule evaluate_settings [OF e])+
qed

lemma run_keeps:
  assumes "(claim_step b tx w v)\<^sup>*\<^sup>* s s'"
  shows "map rq_static (t_requests s') = map rq_static (t_requests s) \<and> t_limits s' = t_limits s
    \<and> t_agent_caps s' = t_agent_caps s"
  using assms by (induction rule: rtranclp_induct) (auto simp: step_keeps)

lemma scan_window_run:
  assumes "scan_window b tx w (view_at w v s) cs st s = (verdict, st', s')"
    and "distinct_requests s" and "\<forall>c \<in> set cs. sound_candidate s c"
  shows "(claim_step b tx w v)\<^sup>*\<^sup>* s s' \<and> (verdict = Skipped \<longrightarrow> view_at w v s' = view_at w v s)"
  using assms
proof (induction cs arbitrary: s st)
  case (Cons c cs)
  show ?case
  proof (cases "sc_attempts st \<ge> max_claim_attempts")
    case True
    with Cons.prems(1) show ?thesis by simp
  next
    case False
    from Cons.prems(3) have c: "sound_candidate s c" by simp
    obtain vd st1 s1 where e: "evaluate_candidate b tx w c (view_at w v s) None st s = (vd, st1, s1)"
      by (metis prod_cases3)
    have step: "claim_step b tx w v s s1" unfolding claim_step_def using Cons.prems(2) c e by blast
    show ?thesis
    proof (cases vd)
      case Skipped
      then have view: "view_at w v s1 = view_at w v s" using view_at_skipped Cons.prems(2) e by blast
      have d1: "distinct_requests s1" using static_distinct [OF evaluate_static [OF e]] Cons.prems(2) by simp
      have cs1: "\<forall>c \<in> set cs. sound_candidate s1 c"
        using static_sound [OF evaluate_static [OF e]] Cons.prems(3) by simp
      have "scan_window b tx w (view_at w v s1) cs st1 s1 = (verdict, st', s')"
        using Cons.prems(1) False e Skipped view by simp
      from Cons.IH [OF this d1 cs1] step view show ?thesis by (auto intro: converse_rtranclp_into_rtranclp)
    qed (use Cons.prems(1) False e step in auto)
  qed
qed simp

lemma scan_rounds_run:
  assumes "scan_rounds_loop b tx w (view_at w v s) kind cursor rounds st s = (verdict, st', s')" and "requests_ok s"
  shows "(claim_step b tx w v)\<^sup>*\<^sup>* s s' \<and> (verdict = Skipped \<longrightarrow> view_at w v s' = view_at w v s)"
  using assms
proof (induction rounds arbitrary: s st)
  case (Cons r rounds)
  obtain pw win where r: "r = (pw, win)" by fastforce
  let ?cs = "fetch_candidates b pw win kind s"
  show ?case
  proof (cases "?cs = []")
    case True
    with Cons.prems(1) r show ?thesis by simp
  next
    case False
    have d: "distinct_requests s" using Cons.prems(2) by (simp add: requests_ok_def)
    have sound: "\<forall>c \<in> set (fair_candidate_order ?cs cursor). sound_candidate s c"
      using sound_from_queue [OF Cons.prems(2) snapshot_refl [OF d]] fetch_queued(1) by simp
    obtain vd st1 s1 where w: "scan_window b tx w (view_at w v s) (fair_candidate_order ?cs cursor) st s = (vd, st1, s1)"
      by (metis prod_cases3)
    note run = scan_window_run [OF w d sound]
    show ?thesis
    proof (cases "vd = Skipped \<and> \<not> (sc_attempts st1 \<ge> max_claim_attempts \<or> \<not> window_saturated ?cs pw win)")
      case True
      have "map rq_static (t_requests s1) = map rq_static (t_requests s)" using run run_keeps by blast
      then have "requests_ok s1" using Cons.prems(2) static_requests_ok by blast
      moreover have "scan_rounds_loop b tx w (view_at w v s1) kind cursor rounds st1 s1 = (verdict, st', s')"
        using Cons.prems(1) False w True run r by simp
      ultimately show ?thesis using Cons.IH run True by (metis rtranclp_trans)
    next
      case stop: False
      then show ?thesis using Cons.prems(1) False w run r by (cases vd) (auto split: if_splits)
    qed
  qed
qed simp

lemma scan_kinds_run:
  assumes "scan_kinds b tx w (view_at w v s) kinds cursor st s = (verdict, st', s')" and "requests_ok s"
  shows "(claim_step b tx w v)\<^sup>*\<^sup>* s s'"
  using assms
proof (induction kinds arbitrary: s st)
  case (Cons kind kinds)
  obtain vd st1 s1 where k: "scan_kind b tx w (view_at w v s) kind cursor (st\<lparr>sc_attempts := 0\<rparr>) s = (vd, st1, s1)"
    by (metis prod_cases3)
  note run = scan_rounds_run [OF k [unfolded scan_kind_def] Cons.prems(2)]
  show ?case
  proof (cases "vd = Skipped")
    case True
    have "map rq_static (t_requests s1) = map rq_static (t_requests s)" using run run_keeps by blast
    then have "requests_ok s1" using Cons.prems(2) static_requests_ok by blast
    moreover have "scan_kinds b tx w (view_at w v s1) kinds cursor st1 s1 = (verdict, st', s')"
      using Cons.prems(1) k True run by simp
    ultimately show ?thesis using Cons.IH run by (metis rtranclp_trans)
  next
    case False
    then show ?thesis using Cons.prems(1) k run by (cases vd) auto
  qed
qed simp

lemma single_run:
  assumes claim: "claim_in_transaction b tx w d cursor s = Some (out, cursor', s')"
    and v: "prepare_claim_view w d s = Some (v, s1)" and ok: "requests_ok s"
  obtains s2 where "(claim_step b tx w v)\<^sup>*\<^sup>* s1 s2" "s' = touch_worker w (br_touch b) (tx_now tx) s2"
proof (cases "needed_claim_kinds v = []")
  case True
  with claim v have "s' = touch_worker w (br_touch b) (tx_now tx) s1" by (simp add: claim_in_transaction_def)
  then show ?thesis using that by blast
next
  case False
  have view: "view_at w v s1 = v" by (rule prepare_view(10) [OF v])
  obtain vd st s2 where
    k: "scan_kinds b tx w (view_at w v s1) (kind_order cursor (needed_claim_kinds v)) cursor initial_scan s1 = (vd, st, s2)"
    by (metis prod_cases3)
  have "requests_ok s1" using ok prepare_view(1) [OF v] by (simp add: requests_ok_def distinct_requests_def)
  from scan_kinds_run [OF k this] have "(claim_step b tx w v)\<^sup>*\<^sup>* s1 s2" .
  moreover have "s' = touch_worker w (br_touch b) (tx_now tx) s2"
    using claim v False k unfolding view by (cases vd) (auto simp: claim_in_transaction_def Let_def)
  ultimately show ?thesis using that by blast
qed

section \<open>Limits after a run\<close>

lemma run_strengthen:
  assumes "(claim_step b tx w v)\<^sup>*\<^sup>* s s'" and "\<And>t. (claim_step b tx w v)\<^sup>*\<^sup>* s t \<Longrightarrow> P t"
  shows "(\<lambda>t u. claim_step b tx w v t u \<and> P t)\<^sup>*\<^sup>* s s'"
  using assms(1)
proof (induction rule: rtranclp_induct)
  case (step t u)
  from step.hyps assms(2) [OF step.hyps(1)] have "claim_step b tx w v t u \<and> P t" by blast
  with step.IH show ?case by (rule rtranclp.rtrancl_into_rtrancl)
qed simp

lemma run_limits:
  assumes run: "(claim_step b tx w v)\<^sup>*\<^sup>* s s'"
  shows "k \<in> {''agent'', ''code''} \<Longrightarrow> int (kind_load w k s') \<le> max (int (kind_load w k s)) (pool_capacity v k)"
    and "dget (vw_node_limits v) node = Some limit \<Longrightarrow>
      int (worker_node_load w node s') \<le> max (int (worker_node_load w node s)) limit"
    and "dget (t_agent_caps s) ws = Some limit \<Longrightarrow>
      int (workspace_agent_load ws s') \<le> max (int (workspace_agent_load ws s)) limit"
    and "dget (t_limits s) (ws, node) = Some limit \<Longrightarrow>
      int (node_load ws node (tx_now tx) s') \<le> max (int (node_load ws node (tx_now tx) s)) limit"
proof -
  show "int (kind_load w k s') \<le> max (int (kind_load w k s)) (pool_capacity v k)" if "k \<in> {''agent'', ''code''}"
    by (rule pool.run_bounded, rule run_strengthen [OF run that])
  show "int (worker_node_load w node s') \<le> max (int (worker_node_load w node s)) limit"
    if "dget (vw_node_limits v) node = Some limit"
    by (rule machine.run_bounded, rule run_strengthen [OF run that])
  show "int (workspace_agent_load ws s') \<le> max (int (workspace_agent_load ws s)) limit"
    if "dget (t_agent_caps s) ws = Some limit"
    by (rule workspace.run_bounded, rule run_strengthen [OF run]) (use that run_keeps in fastforce)
  show "int (node_load ws node (tx_now tx) s') \<le> max (int (node_load ws node (tx_now tx) s)) limit"
    if "dget (t_limits s) (ws, node) = Some limit"
    by (rule code_node.run_bounded, rule run_strengthen [OF run]) (use that run_keeps in fastforce)
qed

section \<open>A granted claim\<close>

text \<open>Transactions without the job-mutation lock neither rename a job nor raise its epoch.\<close>

definition lockless :: "claim_tx \<Rightarrow> bool" where
  "lockless tx \<longleftrightarrow> (\<forall>job j. j_id (tx_meanwhile tx job j) = j_id j \<and> j_generation (tx_meanwhile tx job j) = j_generation j)"

definition distinct_jobs :: "db \<Rightarrow> bool" where
  "distinct_jobs s \<longleftrightarrow> distinct (map j_id (t_jobs s))"

lemma find_distinct:
  "distinct (map key rows) \<Longrightarrow> r \<in> set rows \<Longrightarrow> find (\<lambda>x. key x = key r) rows = Some r"
  by (induction rows) (auto simp: image_iff)

lemma promote_job:
  assumes p: "promote_claim b tx w r m gen s = Some (l, rid, s')"
    and j: "job_of s (rq_job r) = Some j" "j_generation j = gen" and tx: "lockless tx" and d: "distinct_jobs s"
  shows "\<exists>j'. job_of s' (rq_job r) = Some j' \<and> j_status j' = ''running'' \<and> \<not> j_paused j' \<and> j_generation j' = gen"
proof -
  let ?s1 = "meanwhile tx (rq_job r) (write_claim b tx w r m gen s)"
  let ?j1 = "tx_meanwhile tx (rq_job r) j"
  let ?p = "\<lambda>j. j_id j = rq_job r \<and> j_status j \<in> {''queued'', ''awaiting_approval''} \<and> \<not> j_paused j"
  have id: "j_id (tx_meanwhile tx (rq_job r) x) = j_id x" and gen: "j_generation (tx_meanwhile tx (rq_job r) x) = j_generation x" for x
    using tx by (simp_all add: lockless_def)
  have jobs: "t_jobs ?s1 = update_where (\<lambda>x. j_id x = rq_job r) (tx_meanwhile tx (rq_job r)) (t_jobs s)"
    by (simp add: meanwhile_def update_job_def)
  have job1: "job_of ?s1 (rq_job r) = Some ?j1"
    unfolding meanwhile_def job_of_update_job [OF id] using j(1) by (simp add: job_of_def)
  have "map j_id (t_jobs ?s1) = map j_id (t_jobs s)" unfolding jobs by (rule map_update_where) (rule id)
  with d have d1: "distinct (map j_id (t_jobs ?s1))" by (simp add: distinct_jobs_def)
  have mem: "?j1 \<in> set (t_jobs ?s1)" "j_id ?j1 = rq_job r" using job_of_SomeD [OF job1] by auto
  have g1: "j_generation ?j1 = gen" using gen j(2) by simp
  show ?thesis
  proof (cases "count_where ?p (t_jobs ?s1) > 0")
    case True
    then have "count_where ?p (t_jobs ?s1) \<noteq> 0" by simp
    then obtain x where x: "x \<in> set (t_jobs ?s1)" "?p x" unfolding count_where_0 by blast
    have "inj_on j_id (set (t_jobs ?s1))" using d1 by (simp add: distinct_map)
    moreover have "j_id x = j_id ?j1" using x(2) mem(2) by simp
    ultimately have "x = ?j1" using x(1) mem(1) by (rule inj_onD)
    with x have pj: "?p ?j1" by simp
    let ?f = "\<lambda>j. j\<lparr>j_status := ''running'', j_updated := tx_now tx\<rparr>"
    have s': "s' = ?s1\<lparr>t_jobs := update_where ?p ?f (t_jobs ?s1)\<rparr>"
      using p True by (simp add: promote_claim_def Let_def)
    have "find (\<lambda>x. j_id x = rq_job r) (update_where ?p ?f (t_jobs ?s1))
        = map_option (\<lambda>x. if ?p x then ?f x else x) (find (\<lambda>x. j_id x = rq_job r) (t_jobs ?s1))"
      by (rule find_update_where) simp
    then have "job_of s' (rq_job r) = Some (?f ?j1)"
      using job1 pj unfolding s' job_of_def by simp
    then show ?thesis using pj g1 by simp
  next
    case False
    then have "s' = ?s1 \<and> j_status ?j1 = ''running'' \<and> \<not> j_paused ?j1"
      using p job1 by (auto simp: promote_claim_def Let_def split: if_splits)
    then show ?thesis using job1 g1 by blast
  qed
qed

lemma granted_job:
  assumes g: "evaluate_candidate b tx w c v frozen st0 s = (Granted a, st, s')"
    and tx: "lockless tx" and d: "distinct_jobs s"
  shows "\<exists>j'. job_of s' (ac_job a) = Some j' \<and> j_status j' = ''running'' \<and> \<not> j_paused j' \<and> j_generation j' = ac_generation a"
proof -
  from g obtain m st1 r s1 where r: "check_locked tx w c v frozen s = Proceed r"
    and s1: "start_claimed_node tx (cd_row c) m (rq_generation r) s = Inr s1"
    and p: "promote_claim b tx w (cd_row c) m (rq_generation r) s1 = Some (ac_lease a, ac_run a, s')"
    and a: "ac_job a = rq_job (cd_row c)" "ac_generation a = rq_generation r" by (rule evaluate_Granted)
  from check_locked_Proceed(5) [OF r] obtain j where
    j: "job_of s (rq_job (cd_row c)) = Some j" "j_generation j = rq_generation r" by blast
  have "job_of s1 (rq_job (cd_row c)) = Some j" "distinct_jobs s1"
    using j(1) d start_claimed_tables(5) [OF s1] by (simp_all add: job_of_def distinct_jobs_def)
  from promote_job [OF p this(1) j(2) tx this(2)] show ?thesis unfolding a .
qed

lemma start_claimed_started:
  assumes "start_claimed_node tx r m gen s = Inr s1"
  shows "node_started (rq_job r) (rq_node r) (manifest_shard m) gen (rq_execution r) s s1"
proof (cases "manifest_shard m")
  case None
  then show ?thesis
    using assms by (auto simp: start_claimed_node_def Let_def intro!: node_started_queueable split: if_splits)
next
  case (Some i)
  then show ?thesis using assms by (auto simp: start_claimed_node_def intro: node_started_shard split: option.splits)
qed

lemma granted_node:
  assumes g: "evaluate_candidate b tx w c v frozen st0 s = (Granted a, st, s')"
    and shard: "manifest_shard (ac_manifest a) = None"
  shows "\<exists>n \<in> set (t_nodes s). node_match (ac_job a) (ac_node a) queueable n"
    and "t_nodes s' = update_where (node_match (ac_job a) (ac_node a) queueable)
      (\<lambda>n. n\<lparr>jn_status := ''running'', jn_stale_reason := [], jn_error := [], jn_started := Some (tx_now tx),
            jn_finished := None, jn_generation := ac_generation a\<rparr>) (t_nodes s)"
proof -
  from g obtain m st1 r s1 where r: "check_locked tx w c v frozen s = Proceed r" and
    s1: "start_claimed_node tx (cd_row c) m (rq_generation r) s = Inr s1"
    and p: "promote_claim b tx w (cd_row c) m (rq_generation r) s1 = Some (ac_lease a, ac_run a, s')"
    and a: "ac_job a = rq_job (cd_row c)" "ac_node a = rq_node (cd_row c)" "ac_generation a = rq_generation r" "ac_manifest a = m"
    by (rule evaluate_Granted)
  have start: "count_where (node_match (ac_job a) (ac_node a) queueable) (t_nodes s) \<noteq> 0"
    "t_nodes s1 = update_where (node_match (ac_job a) (ac_node a) queueable)
      (\<lambda>n. n\<lparr>jn_status := ''running'', jn_stale_reason := [], jn_error := [], jn_started := Some (tx_now tx),
            jn_finished := None, jn_generation := ac_generation a\<rparr>) (t_nodes s)"
    using s1 shard by (auto simp: start_claimed_node_def a Let_def update_nodes_def split: if_splits)
  from start(1) show "\<exists>n \<in> set (t_nodes s). node_match (ac_job a) (ac_node a) queueable n"
    by (simp add: count_where_0)
  from start(2) show "t_nodes s' = update_where (node_match (ac_job a) (ac_node a) queueable)
      (\<lambda>n. n\<lparr>jn_status := ''running'', jn_stale_reason := [], jn_error := [], jn_started := Some (tx_now tx),
            jn_finished := None, jn_generation := ac_generation a\<rparr>) (t_nodes s)"
    by (simp add: promote_tables(3) [OF p])
qed

lemma granted_started:
  assumes g: "evaluate_candidate b tx w c v frozen st0 s = (Granted a, st, s')"
  shows "node_started (ac_job a) (ac_node a) (manifest_shard (ac_manifest a)) (ac_generation a) (ac_execution a) s s'"
proof -
  from g obtain m st1 r s1 where
    "admit_candidate b c v st0 = (Some m, st1)" "check_locked tx w c v frozen s = Proceed r"
    and s1: "start_claimed_node tx (cd_row c) m (rq_generation r) s = Inr s1"
    and p: "promote_claim b tx w (cd_row c) m (rq_generation r) s1 = Some (ac_lease a, ac_run a, s')"
    and a: "ac_execution a = cd_execution c" "ac_job a = rq_job (cd_row c)" "ac_node a = rq_node (cd_row c)"
      "ac_generation a = rq_generation r" "ac_manifest a = m"
    by (rule evaluate_Granted)
  from start_claimed_started [OF s1] show ?thesis
    unfolding a node_started_def node_of_def promote_tables [OF p] .
qed

lemma granted_request:
  assumes g: "evaluate_candidate b tx w c v frozen st0 s = (Granted a, st, s')" and d: "distinct_requests s"
  obtains r where "r \<in> set (t_requests s)" "rq_execution r = ac_execution a" "rq_state r = ''queued''"
    "rq_generation r = ac_generation a" "request_of s' (ac_execution a) = Some (claimed_row w tx (ac_run a) r)"
proof -
  from g obtain m st1 r s1 where r: "check_locked tx w c v frozen s = Proceed r"
    and s1: "start_claimed_node tx (cd_row c) m (rq_generation r) s = Inr s1"
    and p: "promote_claim b tx w (cd_row c) m (rq_generation r) s1 = Some (ac_lease a, ac_run a, s')"
    and a: "ac_execution a = cd_execution c" "ac_generation a = rq_generation r" by (rule evaluate_Granted)
  note row = check_locked_Proceed(1-3) [OF r]
  have run: "ac_run a = t_next_run s" using promote_tables(2) [OF p] start_claimed_tables(8) [OF s1] by simp
  have t: "t_requests s' = update_where (\<lambda>q. rq_execution q = cd_execution c \<and> rq_state q = ''queued'')
       (claimed_row w tx (t_next_run s)) (t_requests s)"
    by (simp add: promote_tables(11) [OF p] start_claimed_tables [OF s1])
  have "find (\<lambda>q. rq_execution q = cd_execution c) (t_requests s) = Some r"
    using find_distinct [of rq_execution "t_requests s" r] d row by (simp add: distinct_requests_def)
  moreover have "find (\<lambda>q. rq_execution q = cd_execution c) (t_requests s') =
      map_option (\<lambda>q. if rq_execution q = cd_execution c \<and> rq_state q = ''queued'' then claimed_row w tx (t_next_run s) q else q)
        (find (\<lambda>q. rq_execution q = cd_execution c) (t_requests s))"
    unfolding t by (rule find_update_where) (simp add: claimed_row_def)
  ultimately have "request_of s' (ac_execution a) = Some (claimed_row w tx (ac_run a) r)"
    unfolding request_of_def a(1) run using row by simp
  with row show ?thesis using that [of r] a by simp
qed

end
