(* ===== verification/Broker_Batch_Facts.thy ===== *)
theory Broker_Batch_Facts
  imports Broker_Meaning
begin

text \<open>
  Facts about a whole batch: the executions it claims are distinct, were queued before and are held
  by the worker afterwards; it claims no more than was asked for.
\<close>

section \<open>Held requests stay\<close>

definition queued_executions :: "db \<Rightarrow> string set" where
  "queued_executions s = rq_execution ` {r \<in> set (t_requests s). rq_state r = ''queued''}"

definition held :: "db \<Rightarrow> request_row set" where
  "held s = {r \<in> set (t_requests s). rq_state r \<noteq> ''queued''}"

lemma held_update:
  assumes "\<And>r. p r \<Longrightarrow> rq_state r = ''queued''" and "t_requests s' = update_where p f (t_requests s)"
  shows "held s \<subseteq> held s'"
  using assms by (auto simp: held_def set_update_where)

lemma cancel_queued_row:
  assumes d: "distinct_requests s" and r: "r \<in> set (t_requests s)" "rq_execution r = e" "rq_state r = ''queued''"
  shows "t_requests (cancel_request e now s)
    = update_where (\<lambda>x. rq_execution x = e \<and> rq_state x = ''queued'') (cancelled_row now) (t_requests s)"
proof -
  have "rq_state x = ''queued''" if x: "x \<in> set (t_requests s)" "rq_execution x = e" for x
  proof -
    have "inj_on rq_execution (set (t_requests s))" using d by (simp add: distinct_requests_def distinct_map)
    then have "x = r" using x(1) r(1) x(2) r(2) by (simp add: inj_onD)
    with r(3) show ?thesis by simp
  qed
  then show ?thesis unfolding cancel_request_def update_requests_tables by (intro update_where_cong) blast
qed

lemma evaluate_requests:
  assumes e: "evaluate_candidate b tx w c v frozen st0 s = (verdict, st, s')" and d: "distinct_requests s"
  obtains p f where "t_requests s' = update_where p f (t_requests s)" "\<And>r. p r \<Longrightarrow> rq_state r = ''queued''"
    "\<And>r. rq_execution (f r) = rq_execution r" "\<And>r. rq_state (f r) \<noteq> ''queued''"
proof (cases verdict)
  case (Granted a)
  with e have "evaluate_candidate b tx w c v frozen st0 s = (Granted a, st, s')" by simp
  then obtain r where "t_requests s' = update_where (\<lambda>q. rq_execution q = cd_execution c \<and> rq_state q = ''queued'')
       (claimed_row w tx (t_next_run s)) (t_requests s)" by (rule granted_requests)
  then show ?thesis by (rule that) (simp_all add: claimed_row_def)
next
  case Skipped
  with e have "evaluate_candidate b tx w c v frozen st0 s = (Skipped, st, s')" by simp
  from skipped_cases [OF this] consider "s' = s"
    | r where "s' = cancel_request (cd_execution c) (tx_now tx) s" "r \<in> set (t_requests s)"
        "rq_execution r = cd_execution c" "rq_state r = ''queued''" by blast
  then show ?thesis
  proof cases
    case 1
    have "t_requests s' = update_where (\<lambda>r. False) (cancelled_row 0) (t_requests s)"
      using 1 by (simp add: update_where_none)
    then show ?thesis by (rule that) (simp_all add: cancelled_row_def)
  next
    case 2
    from cancel_queued_row [OF d 2(2-4), of "tx_now tx"] show ?thesis
      unfolding 2(1) [symmetric] by (rule that) (simp_all add: cancelled_row_def)
  qed
next
  case Raced
  with e have "s' = meanwhile tx (rq_job (cd_row c)) s" by (simp add: evaluate_Raced)
  then have "t_requests s' = update_where (\<lambda>r. False) (cancelled_row 0) (t_requests s)"
    by (simp add: update_where_none)
  then show ?thesis by (rule that) (simp_all add: cancelled_row_def)
qed

lemma evaluate_queue:
  assumes e: "evaluate_candidate b tx w c v frozen st0 s = (verdict, st, s')" and d: "distinct_requests s"
  shows "held s \<subseteq> held s'" "queued_executions s' \<subseteq> queued_executions s" "set (t_leases s) \<subseteq> set (t_leases s')"
proof -
  from evaluate_requests [OF e d] obtain p f where t: "t_requests s' = update_where p f (t_requests s)"
    and p: "\<And>r. p r \<Longrightarrow> rq_state r = ''queued''" and f: "\<And>r. rq_execution (f r) = rq_execution r"
    "\<And>r. rq_state (f r) \<noteq> ''queued''" by blast
  show "held s \<subseteq> held s'" by (rule held_update [OF p t])
  show "queued_executions s' \<subseteq> queued_executions s"
    unfolding queued_executions_def t using f(2) by (auto simp: set_update_where split: if_splits)
  show "set (t_leases s) \<subseteq> set (t_leases s')"
  proof (cases verdict)
    case (Granted a)
    with e have "t_leases s' = t_leases s @ [broker_lease b tx (cd_row c) (ac_generation a) (t_next_run s)]"
      using granted_leases by blast
    then show ?thesis by auto
  next
    case Skipped
    with e have "s' = s \<or> s' = cancel_request (cd_execution c) (tx_now tx) s" by (simp add: evaluate_Skipped)
    then show ?thesis by auto
  next
    case Raced
    with e have "s' = meanwhile tx (rq_job (cd_row c)) s" by (simp add: evaluate_Raced)
    then show ?thesis by simp
  qed
qed

text \<open>A claim that holds in a state: its request and its lease.\<close>

definition claim_held :: "string \<Rightarrow> agent_claim \<Rightarrow> db \<Rightarrow> bool" where
  "claim_held w a s \<longleftrightarrow>
     (\<exists>r \<in> held s. rq_execution r = ac_execution a \<and> rq_state r = ''claimed'' \<and> rq_worker r = Some w
        \<and> rq_lease r = Some (ac_lease a) \<and> rq_run r = Some (ac_run a) \<and> rq_generation r = ac_generation a)
     \<and> (\<exists>l \<in> set (t_leases s). le_id l = ac_lease a \<and> le_execution l = ac_execution a \<and> le_status l = ''active''
        \<and> le_job l = ac_job a \<and> le_node l = ac_node a \<and> le_run l = ac_run a \<and> le_generation l = ac_generation a)"

lemma claim_held_mono:
  "claim_held w a s \<Longrightarrow> held s \<subseteq> held s' \<Longrightarrow> set (t_leases s) \<subseteq> set (t_leases s') \<Longrightarrow> claim_held w a s'"
  unfolding claim_held_def by blast

lemma granted_held:
  assumes g: "evaluate_candidate b tx w c v frozen st0 s = (Granted a, st, s')" and d: "distinct_requests s"
  shows "claim_held w a s'" "ac_execution a \<in> queued_executions s" "ac_execution a \<notin> queued_executions s'"
proof -
  from granted_request [OF g d] obtain r where r: "r \<in> set (t_requests s)" "rq_execution r = ac_execution a"
    "rq_state r = ''queued''" "rq_generation r = ac_generation a"
    "request_of s' (ac_execution a) = Some (claimed_row w tx (ac_run a) r)" by blast
  from g obtain m st1 r' s1 where r': "check_locked tx w c v frozen s = Proceed r'"
    and s1: "start_claimed_node tx (cd_row c) m (rq_generation r') s = Inr s1"
    and p: "promote_claim b tx w (cd_row c) m (rq_generation r') s1 = Some (ac_lease a, ac_run a, s')"
    and a: "ac_execution a = cd_execution c" "ac_job a = rq_job (cd_row c)" "ac_node a = rq_node (cd_row c)"
    by (rule evaluate_Granted)
  have run: "ac_run a = t_next_run s" and lease: "ac_lease a = tx_uuid tx (cd_execution c)"
    using promote_tables(1,2) [OF p] start_claimed_tables(8) [OF s1] by simp_all
  let ?r = "claimed_row w tx (ac_run a) r" and ?l = "broker_lease b tx (cd_row c) (ac_generation a) (t_next_run s)"
  have "?r \<in> held s'"
    using request_of_SomeD [OF r(5)] by (auto simp: held_def claimed_row_def)
  moreover have "rq_execution ?r = ac_execution a \<and> rq_state ?r = ''claimed'' \<and> rq_worker ?r = Some w
      \<and> rq_lease ?r = Some (ac_lease a) \<and> rq_run ?r = Some (ac_run a) \<and> rq_generation ?r = ac_generation a"
    using r a(1) lease by (simp add: claimed_row_def)
  moreover have "?l \<in> set (t_leases s')"
    using granted_leases [OF g] by simp
  moreover have "le_id ?l = ac_lease a \<and> le_execution ?l = ac_execution a \<and> le_status ?l = ''active''
        \<and> le_job ?l = ac_job a \<and> le_node ?l = ac_node a \<and> le_run ?l = ac_run a \<and> le_generation ?l = ac_generation a"
    using a run lease by (simp add: broker_lease_def)
  ultimately show "claim_held w a s'" unfolding claim_held_def by blast
  show "ac_execution a \<in> queued_executions s" using r unfolding queued_executions_def by force
  have "distinct_requests s'" using static_distinct [OF evaluate_static [OF g]] d by simp
  then have inj: "inj_on rq_execution (set (t_requests s'))" by (simp add: distinct_requests_def distinct_map)
  show "ac_execution a \<notin> queued_executions s'"
  proof
    assume "ac_execution a \<in> queued_executions s'"
    then obtain x where x: "x \<in> set (t_requests s')" "rq_state x = ''queued''" "rq_execution x = ac_execution a"
      by (auto simp: queued_executions_def)
    from request_of_SomeD [OF r(5)] have y: "claimed_row w tx (ac_run a) r \<in> set (t_requests s')"
      "rq_execution (claimed_row w tx (ac_run a) r) = ac_execution a" by simp_all
    have "x = claimed_row w tx (ac_run a) r" using inj x(1) y(1) x(3) y(2) by (simp add: inj_onD)
    with x(2) show False by (simp add: claimed_row_def)
  qed
qed

lemma promote_selected_facts:
  assumes "promote_selected b tx w pool cs v st0 s = (claims, st, s')" and "distinct_requests s"
  shows "held s \<subseteq> held s' \<and> queued_executions s' \<subseteq> queued_executions s \<and> set (t_leases s) \<subseteq> set (t_leases s')
    \<and> distinct (map ac_execution claims)
    \<and> (\<forall>a \<in> set claims. claim_held w a s' \<and> ac_execution a \<in> queued_executions s \<and> ac_execution a \<notin> queued_executions s')"
  using assms
proof (induction cs arbitrary: s v st0 claims)
  case (Cons c cs)
  obtain vd st1 s1 where e: "evaluate_candidate b tx w c v (Some pool) st0 s = (vd, st1, s1)"
    by (metis prod_cases3)
  have d1: "distinct_requests s1" using static_distinct [OF evaluate_static [OF e]] Cons.prems(2) by simp
  note q = evaluate_queue [OF e Cons.prems(2)]
  show ?case
  proof (cases vd)
    case (Granted a)
    obtain claims1 st2 s2 where rest: "promote_selected b tx w pool cs (count_kind (ac_kind a) v) st1 s1 = (claims1, st2, s2)"
      by (metis prod_cases3)
    have out: "claims = a # claims1" "s' = s2" "st = st2" using Cons.prems(1) e Granted rest by simp_all
    from e Granted have g: "evaluate_candidate b tx w c v (Some pool) st0 s = (Granted a, st1, s1)" by simp
    note gh = granted_held [OF g Cons.prems(2)]
    note IH = Cons.IH [OF rest [folded out] d1]
    have "ac_execution a \<notin> ac_execution ` set claims1" using gh(3) IH by auto
    moreover have "claim_held w a s'" using claim_held_mono [OF gh(1)] IH by blast
    ultimately show ?thesis unfolding out(1) using IH q gh by auto
  next
    case Skipped
    with Cons.prems(1) e have "promote_selected b tx w pool cs v st1 s1 = (claims, st, s')" by simp
    from Cons.IH [OF this d1] q show ?thesis by blast
  next
    case Raced
    with Cons.prems(1) e have "claims = []" "s' = s1" by simp_all
    with q show ?thesis by simp
  qed
qed simp

section \<open>A batch honours its request\<close>

lemma select_rounds_kind:
  "select_rounds b s v kind cursor f chosen rounds st = (Some c, st') \<Longrightarrow> rq_kind (cd_row c) = kind"
proof (induction b s v kind cursor f chosen rounds st rule: select_rounds.induct)
  case (2 b s v kind cursor f chosen pw win rounds st)
  let ?cs = "fetch_candidates b pw win kind s"
  obtain co st1 where w: "select_window b v kind f chosen (fair_candidate_order ?cs cursor) st = (co, st1)" by fastforce
  show ?case
  proof (cases co)
    case None
    with 2 w show ?thesis by (auto simp: Let_def split: if_splits)
  next
    case (Some c')
    with 2 w have "c \<in> set ?cs" by (auto simp: Let_def split: if_splits dest!: select_window_member)
    then show ?thesis by (rule fetch_queued)
  qed
qed simp

lemma select_first_kind:
  "select_first b s v kinds cursor f chosen st = (Some c, st') \<Longrightarrow> rq_kind (cd_row c) \<in> set kinds"
  by (induction b s v kinds cursor f chosen st rule: select_first.induct)
    (auto simp: select_kind_batch_def split: prod.splits option.splits dest!: select_rounds_kind)

definition of_kind :: "string \<Rightarrow> candidate list \<Rightarrow> nat" where
  "of_kind kind cs = length (filter (\<lambda>c. rq_kind (cd_row c) = kind) cs)"

definition budget_of :: "pool_left \<Rightarrow> string \<Rightarrow> int option" where
  "budget_of pl kind = (if kind = ''agent'' then pl_agent pl else pl_code pl)"

lemma kind_order_set [simp]: "set (kind_order cursor kinds) = set kinds"
  by (simp add: kind_order_def)

lemma needed_kinds: "kind \<in> set (needed_claim_kinds v) \<Longrightarrow> kind \<in> {''agent'', ''code''}"
  by (auto simp: needed_claim_kinds_def split: if_splits)

lemma take_slot_budget:
  "kind \<in> {''agent'', ''code''} \<Longrightarrow> k \<in> {''agent'', ''code''} \<Longrightarrow>
    budget_of (take_slot kind pl) k = (if k = kind then map_option (\<lambda>n. n - 1) (budget_of pl k) else budget_of pl k)"
  by (auto simp: budget_of_def take_slot_def)

lemma select_slots_budget:
  assumes "select_slots n b s v pl f cursor selected st = (cs, st', cursor')"
  shows "length cs \<le> length selected + n"
    and "k \<in> {''agent'', ''code''} \<Longrightarrow> budget_of pl k = Some m \<Longrightarrow> int (of_kind k cs) \<le> int (of_kind k selected) + max 0 m"
  using assms
proof (induction n b s v pl f cursor selected st arbitrary: cs m rule: select_slots.induct)
  case (2 n b s v pl f cursor selected st)
  let ?kinds = "filter (kind_open pl) (needed_claim_kinds v)"
  obtain co st1 where w: "select_first b s v (kind_order cursor ?kinds) cursor f (map cd_execution selected) st = (co, st1)"
    by fastforce
  have both: "length cs \<le> length selected + Suc n \<and>
      (k \<in> {''agent'', ''code''} \<longrightarrow> budget_of pl k = Some m \<longrightarrow> int (of_kind k cs) \<le> int (of_kind k selected) + max 0 m)"
    if res: "select_slots (Suc n) b s v pl f cursor selected st = (cs, st', cursor')" for cs m
  proof (cases "?kinds = [] \<or> co = None")
    case True
    with res w have "cs = selected" by (auto simp: Let_def split: if_splits)
    then show ?thesis by simp
  next
    case False
    then obtain c where c: "co = Some c" by auto
    let ?kind = "rq_kind (cd_row c)"
    from w c have mem: "?kind \<in> set ?kinds" by (auto dest: select_first_kind)
    then have kind: "?kind \<in> {''agent'', ''code''}" using needed_kinds by auto
    let ?st = "st1\<lparr>sc_node_chosen := dset (rq_node (cd_row c))
      (dget_default 0 (sc_node_chosen st1) (rq_node (cd_row c)) + 1) (sc_node_chosen st1)\<rparr>"
    from res w c False have rest: "select_slots n b s (count_kind ?kind v) (take_slot ?kind pl) (raise_floor c f) (cursor + 1)
        (selected @ [c]) ?st = (cs, st', cursor')" by (simp add: Let_def)
    have ne: "?kinds \<noteq> []" using False by simp
    have len: "length cs \<le> length (selected @ [c]) + n"
      by (rule "2.IH"(1) [OF refl ne w [symmetric] c refl refl rest])
    have "int (of_kind k cs) \<le> int (of_kind k selected) + max 0 m"
      if k: "k \<in> {''agent'', ''code''}" and m: "budget_of pl k = Some m"
    proof -
      have "int (of_kind k cs) \<le> int (of_kind k (selected @ [c])) + max 0 (if k = ?kind then m - 1 else m)"
        by (rule "2.IH"(2) [OF refl ne w [symmetric] c refl refl k _ rest]) (use m in \<open>auto simp: take_slot_budget [OF kind k]\<close>)
      moreover have "m > 0" if "k = ?kind" using mem m that by (auto simp: kind_open_def budget_of_def)
      ultimately show ?thesis by (auto simp: of_kind_def split: if_splits)
    qed
    with len show ?thesis by simp
  qed
  {
    case 1
    then show ?case using both by simp
  next
    case 2
    then show ?case using both by blast
  }
qed simp_all

lemma promoted_kinds:
  assumes "promote_selected b tx w pool cs v st0 s = (claims, st, s')"
  shows "length claims \<le> length cs \<and> length (filter (\<lambda>a. ac_kind a = k) claims) \<le> of_kind k cs"
  using assms
proof (induction cs arbitrary: s v st0 claims)
  case (Cons c cs)
  obtain vd st1 s1 where e: "evaluate_candidate b tx w c v (Some pool) st0 s = (vd, st1, s1)"
    by (metis prod_cases3)
  show ?case
  proof (cases vd)
    case (Granted a)
    obtain claims1 st2 s2 where rest: "promote_selected b tx w pool cs (count_kind (ac_kind a) v) st1 s1 = (claims1, st2, s2)"
      by (metis prod_cases3)
    have out: "claims = a # claims1" "st = st2" "s' = s2" using Cons.prems(1) e Granted rest by simp_all
    from e Granted have "ac_kind a = rq_kind (cd_row c)" by (auto elim: evaluate_Granted)
    with Cons.IH [OF rest [folded out(2,3)]] show ?thesis unfolding out(1) by (simp add: of_kind_def)
  next
    case Skipped
    with Cons.prems(1) e have "promote_selected b tx w pool cs v st1 s1 = (claims, st, s')" by simp
    from Cons.IH [OF this] show ?thesis by (auto simp: of_kind_def)
  next
    case Raced
    with Cons.prems(1) e show ?thesis by simp
  qed
qed simp

lemma of_kind_sorted: "of_kind k (lock_order_sorted cs) = of_kind k cs"
  by (simp add: of_kind_def lock_order_sorted_def filter_sort)

end
