(* ===== verification/Broker_Locks.thy ===== *)
theory Broker_Locks
  imports Broker_Meaning
begin

text \<open>
  The locks a batch claim waits for: the row of its worker and the advisory locks, all taken as
  \<open>pg_advisory_xact_lock(hashtext(name))\<close>, so that every name shares the 32-bit keys of \<open>hashtext\<close>. The
  request rows are taken with \<open>skip locked\<close> and never waited for.
\<close>

section \<open>Lock statements\<close>

text \<open>A lock statement by the name it locks, and the lock it waits for: a row, or the key of the name.\<close>

datatype lock_call = WorkerRow string | CodePool | AgentWs string | AgentWorker string | JobMutation string

datatype lock_target = RowLock string | AdvisoryLock int

fun lock_key :: "broker \<Rightarrow> lock_call \<Rightarrow> int" where
  "lock_key b (WorkerRow w) = 0"
| "lock_key b CodePool = br_key b ''code-pool''"
| "lock_key b (AgentWs ws) = agent_ws_key b ws"
| "lock_key b (AgentWorker w) = br_key b (''agent-worker:'' @ w)"
| "lock_key b (JobMutation job) = job_lock_key b job"

fun lock_target_of :: "broker \<Rightarrow> lock_call \<Rightarrow> lock_target" where
  "lock_target_of b (WorkerRow w) = RowLock w"
| "lock_target_of b l = AdvisoryLock (lock_key b l)"

fun lock_class :: "lock_call \<Rightarrow> nat" where
  "lock_class (WorkerRow w) = 0"
| "lock_class CodePool = 1"
| "lock_class (AgentWs ws) = 2"
| "lock_class (AgentWorker w) = 3"
| "lock_class (JobMutation job) = 4"

section \<open>The locks of a batch\<close>

text \<open>\<open>ws_domains\<close>: one workspace for each key, the last one selected.\<close>

definition ws_domains :: "candidate list \<Rightarrow> (int, string) dict" where
  "ws_domains cs = fold (\<lambda>c d. if rq_kind (cd_row c) \<noteq> ''code'' then dset (cd_ws_key c) (cd_workspace c) d else d) cs []"

definition prefix_locks :: "string \<Rightarrow> bool \<Rightarrow> candidate list \<Rightarrow> lock_call list" where
  "prefix_locks w pool cs =
     WorkerRow w # (if pool then [CodePool] else [])
     @ map (\<lambda>k. AgentWs (dget_default [] (ws_domains cs) k)) (sort (keys (ws_domains cs)))"

definition ladder_locks :: "string \<Rightarrow> candidate \<Rightarrow> lock_call list" where
  "ladder_locks w c =
     (if rq_kind (cd_row c) \<noteq> ''code'' then [AgentWs (cd_workspace c)] else [])
     @ [AgentWorker w, JobMutation (rq_job (cd_row c))]"

text \<open>Along \<open>promote_selected\<close>: only a candidate that passes admission locks, and a raced one is the last.\<close>

fun promote_locks ::
  "broker \<Rightarrow> claim_tx \<Rightarrow> string \<Rightarrow> bool \<Rightarrow> candidate list \<Rightarrow> worker_view \<Rightarrow> scan_state \<Rightarrow> db \<Rightarrow> lock_call list" where
  "promote_locks b tx w pool [] v st s = []"
| "promote_locks b tx w pool (c # cs) v st s =
     (if fst (admit_candidate b c v st) = None then [] else ladder_locks w c)
     @ (case evaluate_candidate b tx w c v (Some pool) st s of
          (Raced, st1, s1) \<Rightarrow> []
        | (Skipped, st1, s1) \<Rightarrow> promote_locks b tx w pool cs v st1 s1
        | (Granted a, st1, s1) \<Rightarrow> promote_locks b tx w pool cs (count_kind (ac_kind a) v) st1 s1)"

definition batch_locks :: "broker \<Rightarrow> claim_tx \<Rightarrow> string \<Rightarrow> declared \<Rightarrow> selection \<Rightarrow> db \<Rightarrow> lock_call list" where
  "batch_locks b tx w d sel s =
     (case prepare_claim_view w d s of
        None \<Rightarrow> []
      | Some (v, s1) \<Rightarrow>
          if sl_scan_skipped sel then [WorkerRow w]
          else (let pool = lock_code_pool_for_batch (sl_candidates sel) s1 in
                prefix_locks w pool (sl_candidates sel)
                @ promote_locks b tx w pool (lock_order_sorted (sl_candidates sel)) v initial_scan s1))"

section \<open>Lock order\<close>

text \<open>The order the code keeps: by class, and within a class by key.\<close>

definition lock_rank :: "broker \<Rightarrow> lock_call \<Rightarrow> nat \<times> int" where
  "lock_rank b l = (lock_class l, lock_key b l)"

definition rank_before :: "nat \<times> int \<Rightarrow> nat \<times> int \<Rightarrow> bool" where
  "rank_before a c \<longleftrightarrow> fst a < fst c \<or> fst a = fst c \<and> snd a < snd c"

text \<open>Each rank is held already or comes after every rank held.\<close>

fun ordered_ranks :: "(nat \<times> int) list \<Rightarrow> (nat \<times> int) list \<Rightarrow> bool" where
  "ordered_ranks held [] = True"
| "ordered_ranks held (l # ls) =
     ((l \<in> set held \<or> list_all (\<lambda>h. rank_before h l) held) \<and> ordered_ranks (held @ [l]) ls)"

lemma ordered_append: "ordered_ranks held (xs @ ys) \<longleftrightarrow> ordered_ranks held xs \<and> ordered_ranks (held @ xs) ys"
  by (induction xs arbitrary: held) auto

lemma ordered_ws:
  "list_all (\<lambda>h. fst h < 2) held \<Longrightarrow> sorted ks \<Longrightarrow> distinct ks \<Longrightarrow> ordered_ranks held (map (\<lambda>k. (2, k)) ks)"
proof (induction ks rule: rev_induct)
  case (snoc k ks)
  then have "ordered_ranks held (map (\<lambda>k. (2, k)) ks)" by (simp add: sorted_append)
  moreover have "list_all (\<lambda>h. rank_before h (2, k)) (held @ map (\<lambda>k. (2, k)) ks)"
    using snoc.prems by (auto simp: list_all_iff rank_before_def sorted_append) (metis less_le)
  ultimately show ?case by (simp add: ordered_append)
qed simp

lemma ws_domains_keys:
  "set (keys (ws_domains cs)) = cd_ws_key ` {c \<in> set cs. rq_kind (cd_row c) \<noteq> ''code''}" (is "?keys")
  "distinct (keys (ws_domains cs))" (is "?distinct")
  "\<forall>c \<in> set cs. offered b s c \<Longrightarrow> dget (ws_domains cs) k = Some ws \<Longrightarrow> agent_ws_key b ws = k" (is "?all \<Longrightarrow> ?get \<Longrightarrow> ?key")
proof -
  show ?keys by (induction cs rule: rev_induct) (auto simp: ws_domains_def)
  show ?distinct by (induction cs rule: rev_induct) (auto simp: ws_domains_def)
  show "?all \<Longrightarrow> ?get \<Longrightarrow> ?key"
    by (induction cs rule: rev_induct) (auto simp: ws_domains_def offered_def split: if_splits)
qed

lemma prefix_ranks:
  assumes "\<forall>c \<in> set cs. offered b s c"
  shows "map (lock_rank b) (prefix_locks w pool cs)
    = (0, 0) # (if pool then [(1, br_key b ''code-pool'')] else []) @ map (\<lambda>k. (2, k)) (sort (keys (ws_domains cs)))"
proof -
  have "lock_rank b (AgentWs (dget_default [] (ws_domains cs) k)) = (2, k)" if "k \<in> set (keys (ws_domains cs))" for k
  proof -
    from that obtain ws where "dget (ws_domains cs) k = Some ws" by (auto simp: in_keys_iff)
    with ws_domains_keys(3) [OF assms] show ?thesis by (simp add: dget_default_def lock_rank_def)
  qed
  then show ?thesis by (simp add: prefix_locks_def lock_rank_def)
qed

lemma ordered_prefix:
  assumes "\<forall>c \<in> set cs. offered b s c"
  shows "ordered_ranks [] (map (lock_rank b) (prefix_locks w pool cs))"
proof -
  let ?pre = "(0, 0) # (if pool then [(1::nat, br_key b ''code-pool'')] else [])"
  have "ordered_ranks [] ?pre" by (simp add: rank_before_def)
  moreover have "list_all (\<lambda>h. fst h < 2) ?pre" by simp
  ultimately show ?thesis
    unfolding prefix_ranks [OF assms] using ordered_ws [of ?pre] ws_domains_keys(2) [of cs] by (simp add: ordered_append)
qed

lemma ladder_ranks:
  "offered b s c \<Longrightarrow> map (lock_rank b) (ladder_locks w c) =
     (if rq_kind (cd_row c) \<noteq> ''code'' then [(2, cd_ws_key c)] else [])
     @ [(3, br_key b (''agent-worker:'' @ w)), (4, cd_job_key c)]"
  by (simp add: ladder_locks_def lock_rank_def offered_def)

text \<open>What is held before a candidate: the workspaces of all of them, and no job after its own.\<close>

definition ladder_ready :: "broker \<Rightarrow> string \<Rightarrow> candidate list \<Rightarrow> (nat \<times> int) list \<Rightarrow> bool" where
  "ladder_ready b w cs held \<longleftrightarrow>
     (\<forall>h \<in> set held. fst h < 4 \<or> fst h = 4 \<and> (\<forall>c \<in> set cs. snd h \<le> cd_job_key c))
     \<and> (\<forall>c \<in> set cs. rq_kind (cd_row c) \<noteq> ''code'' \<longrightarrow> (2, cd_ws_key c) \<in> set held)
     \<and> ((3, br_key b (''agent-worker:'' @ w)) \<in> set held \<or> (\<forall>h \<in> set held. fst h < 3))"

lemma ladder_step:
  assumes "ladder_ready b w (c # cs) held" and "sorted (map cd_job_key (c # cs))" and "offered b s c"
  shows "ordered_ranks held (map (lock_rank b) (ladder_locks w c))"
    and "ladder_ready b w cs (held @ map (lock_rank b) (ladder_locks w c))"
proof -
  let ?ws = "if rq_kind (cd_row c) \<noteq> ''code'' then [(2, cd_ws_key c)] else []"
  let ?wk = "(3, br_key b (''agent-worker:'' @ w))"
  have ws: "ordered_ranks held ?ws" using assms(1) by (simp add: ladder_ready_def)
  have wk: "?wk \<in> set (held @ ?ws) \<or> list_all (\<lambda>h. rank_before h ?wk) (held @ ?ws)"
    using assms(1) by (auto simp: ladder_ready_def list_all_iff rank_before_def)
  have job: "(4, cd_job_key c) \<in> set (held @ ?ws @ [?wk]) \<or> list_all (\<lambda>h. rank_before h (4, cd_job_key c)) (held @ ?ws @ [?wk])"
  proof (cases "(4, cd_job_key c) \<in> set held")
    case False
    have "rank_before h (4, cd_job_key c)" if h: "h \<in> set held" for h
    proof -
      have "fst h < 4 \<or> fst h = 4 \<and> snd h \<le> cd_job_key c" using assms(1) h by (auto simp: ladder_ready_def)
      moreover have "h \<noteq> (4, cd_job_key c)" using False h by auto
      ultimately show ?thesis by (cases h) (auto simp: rank_before_def)
    qed
    then show ?thesis by (auto simp: list_all_iff rank_before_def)
  qed simp
  show "ordered_ranks held (map (lock_rank b) (ladder_locks w c))"
    unfolding ladder_ranks [OF assms(3)] ordered_append using ws wk job by simp
  show "ladder_ready b w cs (held @ map (lock_rank b) (ladder_locks w c))"
    unfolding ladder_ranks [OF assms(3)] using assms(1,2) by (auto simp: ladder_ready_def)
qed

lemma ladder_ready_tl: "ladder_ready b w (c # cs) held \<Longrightarrow> ladder_ready b w cs held"
  by (auto simp: ladder_ready_def)

lemma ordered_promote:
  assumes "ladder_ready b w cs held" and "sorted (map cd_job_key cs)" and "\<forall>c \<in> set cs. offered b s0 c"
  shows "ordered_ranks held (map (lock_rank b) (promote_locks b tx w pool cs v st s))"
  using assms
proof (induction cs arbitrary: held v st s)
  case (Cons c cs)
  let ?own = "if fst (admit_candidate b c v st) = None then [] else ladder_locks w c"
  have off: "offered b s0 c" and sorted: "sorted (map cd_job_key cs)" and offs: "\<forall>c \<in> set cs. offered b s0 c"
    using Cons.prems by simp_all
  have own: "ordered_ranks held (map (lock_rank b) ?own) \<and> ladder_ready b w cs (held @ map (lock_rank b) ?own)"
    using ladder_step [OF Cons.prems(1,2) off] ladder_ready_tl [OF Cons.prems(1)] by simp
  note rest = Cons.IH [OF own [THEN conjunct2] sorted offs]
  obtain vd st1 s1 where "evaluate_candidate b tx w c v (Some pool) st s = (vd, st1, s1)" by (metis prod_cases3)
  with own rest show ?case by (cases vd) (simp_all add: ordered_append)
qed simp

lemma batch_locks_ordered:
  assumes "\<forall>c \<in> set (sl_candidates sel). offered b s0 c"
  shows "ordered_ranks [] (map (lock_rank b) (batch_locks b tx w d sel s))"
proof (cases "prepare_claim_view w d s")
  case (Some p)
  obtain v s1 where p: "p = (v, s1)" by (cases p)
  let ?cs = "sl_candidates sel" and ?pool = "lock_code_pool_for_batch (sl_candidates sel) s1"
  have "ladder_ready b w (lock_order_sorted ?cs) (map (lock_rank b) (prefix_locks w ?pool ?cs))"
    unfolding prefix_ranks [OF assms] ladder_ready_def
    by (auto simp: ws_domains_keys(1) lock_order_sorted_def)
  moreover have "sorted (map cd_job_key (lock_order_sorted ?cs))" by (simp add: lock_order_sorted_def)
  moreover have "\<forall>c \<in> set (lock_order_sorted ?cs). offered b s0 c" using assms by (simp add: lock_order_sorted_def)
  ultimately show ?thesis
    using ordered_prefix [OF assms] ordered_promote by (simp add: batch_locks_def Some p Let_def ordered_append)
qed (simp add: batch_locks_def)

section \<open>Waiting\<close>

text \<open>The statement \<open>a\<close> waits for a lock that the statements \<open>theirs\<close> took and its own \<open>mine\<close> did not.\<close>

definition waits_for :: "broker \<Rightarrow> lock_call \<Rightarrow> lock_call list \<Rightarrow> lock_call list \<Rightarrow> bool" where
  "waits_for b a mine theirs \<longleftrightarrow> lock_target_of b a \<notin> lock_target_of b ` set mine
     \<and> lock_target_of b a \<in> lock_target_of b ` set theirs"

definition collision :: "broker \<Rightarrow> lock_call \<Rightarrow> lock_call \<Rightarrow> bool" where
  "collision b x y \<longleftrightarrow> lock_class x \<noteq> lock_class y \<and> lock_target_of b x = lock_target_of b y"

lemma same_rank: "lock_target_of b x = lock_target_of b y \<Longrightarrow> lock_class x = lock_class y \<Longrightarrow> lock_rank b x = lock_rank b y"
  by (cases x; cases y) (simp_all add: lock_rank_def)

lemma same_target: "lock_rank b x = lock_rank b y \<Longrightarrow> lock_class x \<noteq> 0 \<Longrightarrow> lock_target_of b x = lock_target_of b y"
  by (cases x; cases y) (simp_all add: lock_rank_def)

lemma no_worker_row: "WorkerRow w' \<notin> set (promote_locks b tx w pool cs v st s)"
  by (induction b tx w pool cs v st s rule: promote_locks.induct)
    (auto simp: ladder_locks_def split: prod.splits claim_verdict.splits)

lemma first_worker_row:
  assumes "batch_locks b tx w d sel s = held @ a # rest" and "lock_class a = 0"
  shows "held = []"
proof -
  have "batch_locks b tx w d sel s = [] \<or> (\<exists>ls. batch_locks b tx w d sel s = WorkerRow w # ls \<and> (\<forall>w'. WorkerRow w' \<notin> set ls))"
    by (auto simp: batch_locks_def prefix_locks_def Let_def no_worker_row split: option.splits)
  with assms(1) obtain ls where "batch_locks b tx w d sel s = WorkerRow w # ls" "\<forall>w'. WorkerRow w' \<notin> set ls" by auto
  with assms show ?thesis by (cases a; cases held) auto
qed

text \<open>A statement that has to wait comes after everything held.\<close>

lemma waiting_rank:
  assumes "batch_locks b tx w d sel s = held @ a # rest" and "lock_target_of b a \<notin> lock_target_of b ` set held"
    and "\<forall>c \<in> set (sl_candidates sel). offered b s0 c" and "h \<in> set held"
  shows "rank_before (lock_rank b h) (lock_rank b a)"
proof -
  from batch_locks_ordered [OF assms(3), of tx w d s] have
    "lock_rank b a \<in> lock_rank b ` set held \<or> (\<forall>h \<in> set held. rank_before (lock_rank b h) (lock_rank b a))"
    by (simp add: assms(1) ordered_append list_all_iff)
  moreover have "lock_rank b a \<notin> lock_rank b ` set held"
  proof
    assume "lock_rank b a \<in> lock_rank b ` set held"
    then obtain x where x: "x \<in> set held" "lock_rank b a = lock_rank b x" by auto
    show False
    proof (cases "lock_class a = 0")
      case True
      with first_worker_row [OF assms(1)] x show False by simp
    next
      case False
      from same_target [OF x(2) this] assms(2) x(1) show False by auto
    qed
  qed
  ultimately show ?thesis using assms(4) by blast
qed

lemma crossed_ranks:
  assumes "batch_locks b tx1 w1 d1 sel1 s1 = held1 @ a # rest1" and "batch_locks b tx2 w2 d2 sel2 s2 = held2 @ c # rest2"
    and "\<forall>x \<in> set (sl_candidates sel1). offered b r1 x" and "\<forall>x \<in> set (sl_candidates sel2). offered b r2 x"
    and "waits_for b a held1 held2" and "waits_for b c held2 held1"
  shows "\<exists>x \<in> set (a # held1). \<exists>y \<in> set (c # held2). collision b x y"
proof (rule ccontr)
  assume none: "\<not> ?thesis"
  from assms(5,6) obtain x y where y: "y \<in> set held2" "lock_target_of b a = lock_target_of b y"
    and x: "x \<in> set held1" "lock_target_of b c = lock_target_of b x" by (auto simp: waits_for_def)
  have "lock_class a = lock_class y" using none y by (auto simp: collision_def)
  then have ay: "lock_rank b a = lock_rank b y" by (rule same_rank [OF y(2)])
  have "lock_class x = lock_class c" using none x by (auto simp: collision_def)
  then have cx: "lock_rank b c = lock_rank b x" using same_rank [OF x(2)] by simp
  have "rank_before (lock_rank b x) (lock_rank b a)"
    using waiting_rank [OF assms(1) _ assms(3) x(1)] assms(5) by (simp add: waits_for_def)
  moreover have "rank_before (lock_rank b y) (lock_rank b c)"
    using waiting_rank [OF assms(2) _ assms(4) y(1)] assms(6) by (simp add: waits_for_def)
  ultimately show False using ay cx by (auto simp: rank_before_def)
qed

end
