(* ===== verification/Broker_Leases.thy ===== *)
theory Broker_Leases
  imports Broker_Claim
begin

text \<open>
  The life of a request beside the claim: enqueue (\<open>agent_broker/enqueue.py\<close>, \<open>manifest_guard.py\<close>),
  the heartbeats (\<open>heartbeat_single.py\<close>, \<open>heartbeat_batch.py\<close>), the close (\<open>broker.py\<close>,
  \<open>mark_done_batch.py\<close>) and the sweeps (\<open>sweepers.py\<close>, \<open>sweep_batch_reads.py\<close>,
  \<open>heartbeat_deferral.py\<close>, \<open>sweep_generation.py\<close>, \<open>sweeper_definitions.py\<close>, \<open>unclaimable.py\<close>,
  \<open>unclaimable_reasons.py\<close>, \<open>sharding_requeue.py\<close>).
\<close>

section \<open>Enqueue\<close>

record enqueue_request =
  eq_workspace :: string
  eq_job :: string
  eq_node :: string
  eq_agent :: string
  eq_hash :: string
  eq_manifest :: pydict
  eq_execution :: string
  eq_pinned :: "int option"
  eq_kind :: string
  eq_generation :: int
  eq_source :: string
  eq_runtime :: "string option"
  eq_labels :: "(string, string) dict option"

datatype enqueue_error =
    NoCapabilityOrHash
  | UnresolvedModel string string
  | ReservedOutput string
  | NotRoutedToAgent
  | RouteChanged
  | DefinitionChanged
  | PinnedVersionChanged
  | DuplicateExecution string

definition placeholder_models :: "string list" where
  "placeholder_models = [''your-model'']"

definition require_routable_execution :: "pydict \<Rightarrow> enqueue_error + unit" where
  "require_routable_execution m =
     (if pget m ''kind'' = PStr ''code''
      then guardE (text_value (pget m ''capability'') = [] \<or> text_value (pget m ''code_hash'') = []) NoCapabilityOrHash (Inr ())
      else (let execution = mapping_of (pget m ''execution'');
                provider = text_value (pget execution ''provider''); model = text_value (pget execution ''model'') in
            guardE (provider = [] \<or> model = [] \<or> model \<in> set placeholder_models) (UnresolvedModel provider model) (Inr ())))"

text \<open>
  The path that an output is stored at: \<open>PurePosixPath(name)\<close> drops empty and \<open>.\<close> components;
  absolute paths and paths with \<open>..\<close> are left to another guard.
\<close>

definition path_parts :: "string \<Rightarrow> string list" where
  "path_parts name = filter (\<lambda>p. p \<noteq> [] \<and> p \<noteq> ''.'') (split_on (CHR ''/'') name)"

definition reserved_members :: "string list" where
  "reserved_members = [''result.json'', ''node.log'', ''result-output-artifacts.json'']"

definition output_reserved :: "string \<Rightarrow> bool" where
  "output_reserved name \<longleftrightarrow> \<not> starts_with ''/'' name \<and> ''..'' \<notin> set (path_parts name)
     \<and> (\<exists>r \<in> set reserved_members. path_parts name = [r])"

definition expected_outputs :: "pydict \<Rightarrow> string list" where
  "expected_outputs m = (case pget m ''expected_outputs'' of PList xs \<Rightarrow> strs_of xs | _ \<Rightarrow> [])"

definition require_unreserved_output_names :: "pydict \<Rightarrow> enqueue_error + unit" where
  "require_unreserved_output_names m =
     (case find output_reserved (expected_outputs m) of None \<Rightarrow> Inr () | Some n \<Rightarrow> Inl (ReservedOutput n))"

text \<open>The routes of a workspace: the target kind and identifier of a node.\<close>

type_synonym routes = "(string \<times> string, string \<times> string) dict"

definition workspace_agent_limit :: "string \<Rightarrow> db \<Rightarrow> int" where
  "workspace_agent_limit ws s = (case dget (t_agent_caps s) ws of None \<Rightarrow> 1 | Some m \<Rightarrow> m)"

definition node_limit_audit_value :: "string \<Rightarrow> string \<Rightarrow> db \<Rightarrow> int" where
  "node_limit_audit_value ws node s = (case dget (t_limits s) (ws, node) of None \<Rightarrow> 1 | Some m \<Rightarrow> m)"

definition validate_agent_route :: "broker \<Rightarrow> routes \<Rightarrow> enqueue_request \<Rightarrow> db \<Rightarrow> enqueue_error + int" where
  "validate_agent_route b routes q s =
     (let route = dget routes (eq_workspace q, eq_node q);
          same = (\<lambda>a. av_workspace a = eq_workspace q \<and> av_key a = eq_agent q) in
      guardE (case route of None \<Rightarrow> False | Some (kind, target) \<Rightarrow> kind \<noteq> ''agent'') NotRoutedToAgent
      (guardE (case route of None \<Rightarrow> False | Some (kind, target) \<Rightarrow> target \<noteq> eq_agent q) RouteChanged
       (case eq_pinned q of
          Some version \<Rightarrow>
            (case find (\<lambda>a. same a \<and> av_version a = version) (br_agents b) of
               None \<Rightarrow> Inl PinnedVersionChanged
             | Some a \<Rightarrow> guardE (av_hash a \<noteq> eq_hash q) PinnedVersionChanged (Inr (workspace_agent_limit (eq_workspace q) s)))
        | None \<Rightarrow>
            (case find (\<lambda>a. same a \<and> av_status a = ''published'') (br_agents b) of
               None \<Rightarrow> Inl DefinitionChanged
             | Some a \<Rightarrow> guardE (av_hash a \<noteq> eq_hash q) DefinitionChanged (Inr (workspace_agent_limit (eq_workspace q) s))))))"

definition new_request :: "enqueue_request \<Rightarrow> string \<Rightarrow> int \<Rightarrow> int \<Rightarrow> request_row" where
  "new_request q e limit now = \<lparr>rq_execution = e, rq_workspace = eq_workspace q, rq_job = eq_job q, rq_node = eq_node q,
     rq_kind = eq_kind q, rq_agent_id = eq_agent q, rq_agent_hash = eq_hash q, rq_audit_limit = limit,
     rq_state = ''queued'', rq_worker = None, rq_lease = None, rq_run = None, rq_attempt = 0, rq_queued = now,
     rq_claimed = None, rq_heartbeat = None, rq_finished = None, rq_manifest = eq_manifest q, rq_outcome = None,
     rq_trimmed = False, rq_pinned = eq_pinned q, rq_generation = eq_generation q, rq_source = eq_source q,
     rq_runtime = eq_runtime q, rq_labels = eq_labels q\<rparr>"

text \<open>The unique index: one active request per job, node and shard.\<close>

definition conflicts_active :: "request_row \<Rightarrow> request_row \<Rightarrow> bool" where
  "conflicts_active r q \<longleftrightarrow> rq_job q = rq_job r \<and> rq_node q = rq_node r \<and> shard_identity q = shard_identity r
     \<and> rq_state q \<in> set active_request_states"

text \<open>\<open>Inl\<close>: raised. \<open>Inr None\<close>: the epoch moved on or the node has an active request.\<close>

definition enqueue_request_tx ::
  "broker \<Rightarrow> routes \<Rightarrow> enqueue_request \<Rightarrow> string \<Rightarrow> int \<Rightarrow> db \<Rightarrow> enqueue_error + (string \<times> db) option" where
  "enqueue_request_tx b routes q uuid now s =
     bindE (require_routable_execution (eq_manifest q)) (\<lambda>_.
     bindE (require_unreserved_output_names (eq_manifest q)) (\<lambda>_.
       let e = (if eq_execution q = [] then uuid else eq_execution q) in
       if job_generation s (eq_job q) \<noteq> Some (eq_generation q) then Inr None
       else bindE (if eq_kind q = ''code'' then Inr (node_limit_audit_value (eq_workspace q) (eq_node q) s)
                   else if eq_source q = ''node'' then Inr (workspace_agent_limit (eq_workspace q) s)
                   else validate_agent_route b routes q s) (\<lambda>limit.
         let r = new_request q e limit now in
         if exists_where (\<lambda>x. rq_execution x = e) (t_requests s) then Inl (DuplicateExecution e)
         else if exists_where (conflicts_active r) (t_requests s) then Inr None
         else Inr (Some (e, s\<lparr>t_requests := t_requests s @ [r]\<rparr>)))))"

definition has_active_request :: "string \<Rightarrow> string \<Rightarrow> nat option \<Rightarrow> db \<Rightarrow> bool" where
  "has_active_request job node shard s =
     exists_where (\<lambda>r. rq_job r = job \<and> rq_node r = node \<and> rq_state r \<in> set active_request_states
       \<and> (case shard of None \<Rightarrow> True | Some i \<Rightarrow> shard_identity r = int i)) (t_requests s)"

section \<open>Heartbeats\<close>

datatype renewal = Renewed | NotOwned | LeaseNotActive | Settled

definition owns_request :: "string \<Rightarrow> string \<Rightarrow> string \<Rightarrow> request_row \<Rightarrow> bool" where
  "owns_request w e l r \<longleftrightarrow> rq_execution r = e \<and> rq_worker r = Some w \<and> rq_lease r = Some l \<and> rq_state r \<in> set held_states"

definition note_heartbeat :: "string \<Rightarrow> int \<Rightarrow> db \<Rightarrow> db" where
  "note_heartbeat e now s = update_requests (\<lambda>r. rq_execution r = e) (\<lambda>r. r\<lparr>rq_heartbeat := Some now\<rparr>) s"

definition renew_one :: "broker \<Rightarrow> string \<Rightarrow> int \<Rightarrow> string \<Rightarrow> string \<Rightarrow> db \<Rightarrow> renewal \<times> db" where
  "renew_one b w now e l s =
     (if \<not> exists_where (owns_request w e l) (t_requests s)
      then (case request_of s e of
              None \<Rightarrow> (NotOwned, s)
            | Some r \<Rightarrow> (if rq_state r \<in> {''done'', ''cancelled''} then Settled else NotOwned, s))
      else (case heartbeat_lease l (br_ttl b) now (note_heartbeat e now s) of
              (True, s1) \<Rightarrow> (Renewed, s1) | (False, s1) \<Rightarrow> (LeaseNotActive, s1)))"

text \<open>\<open>touch_worker\<close> without a minimal interval.\<close>

definition single_heartbeat :: "broker \<Rightarrow> string \<Rightarrow> int \<Rightarrow> string \<Rightarrow> string \<Rightarrow> db \<Rightarrow> bool \<times> db" where
  "single_heartbeat b w now e l s =
     (if \<not> exists_where (owns_request w e l) (t_requests s) then (False, s)
      else (case heartbeat_lease l (br_ttl b) now (note_heartbeat e now s) of
              (True, s1) \<Rightarrow> (True, touch_worker w 0 now s1) | (False, s1) \<Rightarrow> (False, s1)))"

record heartbeat_answer =
  ha_renewed :: "string list"
  ha_lost :: "string list"
  ha_settled :: "string list"

definition renew_item ::
  "broker \<Rightarrow> string \<Rightarrow> int \<Rightarrow> string \<times> string \<Rightarrow> heartbeat_answer \<times> db \<Rightarrow> heartbeat_answer \<times> db" where
  "renew_item b w now item st =
     (let (answer, s) = st; (verdict, s1) = renew_one b w now (fst item) (snd item) s in
      (case verdict of
         Renewed \<Rightarrow> answer\<lparr>ha_renewed := ha_renewed answer @ [fst item]\<rparr>
       | Settled \<Rightarrow> answer\<lparr>ha_settled := ha_settled answer @ [fst item]\<rparr>
       | _ \<Rightarrow> answer\<lparr>ha_lost := ha_lost answer @ [fst item]\<rparr>, s1))"

text \<open>Duplicates collapse to the last lease; the items run in the order of their executions.\<close>

definition batch_items :: "(string \<times> string) list \<Rightarrow> (string \<times> string) list" where
  "batch_items items = sort_key fst (fold (\<lambda>(e, l) d. dset e l d) items [])"

definition batch_heartbeat :: "broker \<Rightarrow> string \<Rightarrow> int \<Rightarrow> (string \<times> string) list \<Rightarrow> db \<Rightarrow> heartbeat_answer \<times> db" where
  "batch_heartbeat b w now items s =
     (let (answer, s1) = fold (renew_item b w now) (batch_items items)
            (\<lparr>ha_renewed = [], ha_lost = [], ha_settled = []\<rparr>, s) in
      (answer, if ha_renewed answer = [] then s1 else touch_worker w 0 now s1))"

section \<open>Close\<close>

definition mark_done :: "broker \<Rightarrow> string \<Rightarrow> string \<Rightarrow> string \<Rightarrow> pydict \<Rightarrow> int \<Rightarrow> db \<Rightarrow> string option \<times> db" where
  "mark_done b e w l outcome now s =
     (if exists_where (owns_request w e l) (t_requests s)
      then (Some l, touch_worker w (br_touch b) now
              (update_requests (\<lambda>r. rq_execution r = e) (done_row (Some outcome) now) s))
      else (None, s))"

definition mark_done_many ::
  "broker \<Rightarrow> (string \<times> string \<times> string \<times> pydict) list \<Rightarrow> int \<Rightarrow> db \<Rightarrow> string option list \<times> db" where
  "mark_done_many b writes now s =
     fold (\<lambda>(e, w, l, outcome) (results, s). let (res, s1) = mark_done b e w l outcome now s in (results @ [res], s1))
       writes ([], s)"

text \<open>The claimed code executions of a worker whose job left the runnable states.\<close>

definition cancelled_code_executions :: "string \<Rightarrow> db \<Rightarrow> string list" where
  "cancelled_code_executions w s =
     map rq_execution (filter (\<lambda>r. slot_of w r \<and> rq_kind r = ''code''
       \<and> (case job_of s (rq_job r) of None \<Rightarrow> False
          | Some j \<Rightarrow> j_paused j \<or> j_status j \<notin> {''queued'', ''running''})) (t_requests s))"

definition claimed_payload :: "string \<Rightarrow> string \<Rightarrow> db \<Rightarrow> (pydict \<times> string option \<times> string \<times> string) option" where
  "claimed_payload e w s =
     map_option (\<lambda>r. (rq_manifest r, rq_lease r, rq_job r, rq_node r))
       (find (\<lambda>r. rq_execution r = e \<and> rq_worker r = Some w \<and> rq_state r \<in> set held_states) (t_requests s))"

end
