(* ===== verification/Broker_Sweeps.thy ===== *)
theory Broker_Sweeps
  imports Broker_Leases
begin

text \<open>
  The sweeps of the request queue: \<open>sweepers.py\<close> with \<open>sweep_batch_reads.py\<close> and
  \<open>heartbeat_deferral.py\<close>, \<open>sweep_generation.py\<close>, \<open>sweeper_definitions.py\<close>, \<open>unclaimable.py\<close> with
  \<open>unclaimable_reasons.py\<close>.
\<close>

section \<open>Expired claims\<close>

definition sweep_batch_limit :: nat where
  "sweep_batch_limit = 500"

definition online_threshold :: int where
  "online_threshold = 30 * 1000000"

definition expired_claims :: "broker \<Rightarrow> string list \<Rightarrow> int \<Rightarrow> db \<Rightarrow> request_row list" where
  "expired_claims b locked now s =
     (let due = filter (\<lambda>r. rq_state r \<in> set held_states
            \<and> (case rq_heartbeat r of None \<Rightarrow> False | Some t \<Rightarrow> t < now - br_ttl b * 1000000)
            \<and> (case rq_lease r of None \<Rightarrow> False | Some l \<Rightarrow> exists_where (\<lambda>x. le_id x = l) (t_leases s))
            \<and> rq_execution r \<notin> set locked) (t_requests s) in
      take sweep_batch_limit (sort_key (\<lambda>r. declared_or (rq_heartbeat r) 0) (sort_key rq_execution due)))"

text \<open>A worker whose control plane still answers; the deferral ends after twice the time to live.\<close>

definition fresh_workers :: "int \<Rightarrow> db \<Rightarrow> string list" where
  "fresh_workers now s =
     map wk_id (filter (\<lambda>k. wk_revoked k = None \<and> wk_last_seen k > now - online_threshold) (t_workers s))"

definition should_defer :: "broker \<Rightarrow> int \<Rightarrow> string list \<Rightarrow> request_row \<Rightarrow> bool" where
  "should_defer b now fresh r \<longleftrightarrow> (case rq_worker r of None \<Rightarrow> False | Some w \<Rightarrow> w \<in> set fresh)
     \<and> (case rq_heartbeat r of None \<Rightarrow> False | Some t \<Rightarrow> t \<ge> now - 2 * br_ttl b * 1000000)"

definition failed_outcome :: "string \<Rightarrow> pydict" where
  "failed_outcome err = [(PStr ''status'', PStr ''failed''), (PStr ''exit_code'', PInt 1), (PStr ''error_message'', PStr err)]"

text \<open>The fixed part of the message: the code appends execution, worker, attempt and limit.\<close>

definition requeue_limit_message :: string where
  "requeue_limit_message = ''Agent Worker heartbeat expired; requeue limit exceeded''"

definition requeued_row :: "request_row \<Rightarrow> request_row" where
  "requeued_row r = r\<lparr>rq_state := ''queued'', rq_worker := None, rq_lease := None, rq_run := None,
     rq_claimed := None, rq_heartbeat := None\<rparr>"

definition reclaim_lease :: "request_row \<Rightarrow> int \<Rightarrow> db \<Rightarrow> db" where
  "reclaim_lease r now s =
     update_runs (\<lambda>n. Some (nr_id n) = rq_run r)
       (\<lambda>n. n\<lparr>nr_status := ''failed'', nr_finished := Some now, nr_error := ''Agent Worker heartbeat expired''\<rparr>)
       (s\<lparr>t_leases := delete_where (\<lambda>l. Some (le_id l) = rq_lease r) (t_leases s)\<rparr>)"

definition requeue_claim :: "request_row \<Rightarrow> int \<Rightarrow> db \<Rightarrow> bool \<times> db" where
  "requeue_claim r now s =
     (let p = node_match (rq_job r) (rq_node r) [''running'', ''failed''] in
      if count_where p (t_nodes s) = 0 then (False, cancel_request (rq_execution r) now s)
      else (True, update_requests (\<lambda>q. rq_execution q = rq_execution r) requeued_row
              (reset_shard_for_requeue (rq_job r) (rq_node r) (rq_execution r)
                (update_nodes p (\<lambda>n. n\<lparr>jn_status := ''pending'', jn_started := None, jn_finished := None, jn_error := []\<rparr>) s))))"

definition abandon_claim :: "request_row \<Rightarrow> int \<Rightarrow> db \<Rightarrow> db" where
  "abandon_claim r now s =
     (let s1 = fail_shard_for_dead_execution (rq_job r) (rq_node r) (rq_execution r) requeue_limit_message now
            (update_requests (\<lambda>q. rq_execution q = rq_execution r)
               (done_row (Some (failed_outcome requeue_limit_message)) now) s);
          p = node_match (rq_job r) (rq_node r) [''running''] in
      if count_where p (t_nodes s1) = 0 then s1
      else sync_job_status now (rq_job r) (update_nodes p
             (\<lambda>n. n\<lparr>jn_status := ''failed'', jn_finished := Some now, jn_error := requeue_limit_message\<rparr>) s1))"

text \<open>
  One row of the sweep. The epochs and lease states (\<open>gens\<close>, \<open>leases\<close>) and the fresh workers were
  read once, when all job locks of the batch were held.
\<close>

definition sweep_row ::
  "broker \<Rightarrow> int \<Rightarrow> (string \<Rightarrow> int option) \<Rightarrow> (string \<Rightarrow> string option) \<Rightarrow> string list \<Rightarrow> request_row \<Rightarrow>
   string list \<times> db \<Rightarrow> string list \<times> db" where
  "sweep_row b now gens leases fresh r st =
     (let (requeued, s) = st; stale = (gens (rq_job r) \<noteq> Some (rq_generation r)) in
      case (case rq_lease r of None \<Rightarrow> None | Some l \<Rightarrow> leases l) of
        None \<Rightarrow> (requeued, s)
      | Some status \<Rightarrow>
          if status \<noteq> ''active''
          then (requeued, update_requests (\<lambda>q. rq_execution q = rq_execution r \<and> rq_state q \<in> set held_states)
                            (done_row None now) s)
          else if should_defer b now fresh r then (requeued, s)
          else (let s1 = reclaim_lease r now s in
            if stale then (requeued, cancel_request (rq_execution r) now s1)
            else if rq_attempt r \<le> br_requeue_limit b
            then (case requeue_claim r now s1 of
                    (True, s2) \<Rightarrow> (requeued @ [rq_execution r], s2) | (False, s2) \<Rightarrow> (requeued, s2))
            else (requeued, abandon_claim r now s1)))"

definition sweep_order :: "broker \<Rightarrow> request_row list \<Rightarrow> request_row list" where
  "sweep_order b rows = sort_key (\<lambda>r. job_lock_key b (rq_job r)) (sort_key rq_job rows)"

definition lease_status_of :: "db \<Rightarrow> string \<Rightarrow> string option" where
  "lease_status_of s l = map_option le_status (lease_of s l)"

definition sweep_expired_claims :: "broker \<Rightarrow> string list \<Rightarrow> int \<Rightarrow> db \<Rightarrow> string list \<times> db" where
  "sweep_expired_claims b locked now s =
     fold (sweep_row b now (job_generation s) (lease_status_of s) (fresh_workers now s))
       (sweep_order b (expired_claims b locked now s)) ([], s)"

section \<open>Sweeps of queued requests\<close>

text \<open>\<open>lock_sweep_candidate\<close>: whether the caller may fail the request; a stale one is cancelled.\<close>

definition lock_sweep_candidate :: "string list \<Rightarrow> int \<Rightarrow> request_row \<Rightarrow> db \<Rightarrow> bool \<times> db" where
  "lock_sweep_candidate locked now r s =
     (let e = rq_execution r in
      case find (\<lambda>q. rq_execution q = e \<and> rq_state q = ''queued'' \<and> e \<notin> set locked) (t_requests s) of
        None \<Rightarrow> (False, s)
      | Some q \<Rightarrow>
          if job_generation s (rq_job r) \<noteq> Some (rq_generation q) then (False, cancel_request e now s) else (True, s))"

text \<open>Fail a queued request with its node; the job follows unless it has ended.\<close>

definition fail_request :: "request_row \<Rightarrow> string \<Rightarrow> string \<times> string \<Rightarrow> int \<Rightarrow> db \<Rightarrow> db" where
  "fail_request r err fl now s =
     (let s1 = update_requests (\<lambda>q. rq_execution q = rq_execution r) (done_row (Some (failed_outcome err)) now) s in
      case record_failed_node (rq_job r) (rq_node r) err fl [] now s1 of
        None \<Rightarrow> s1
      | Some (rid, s2) \<Rightarrow>
          s2\<lparr>t_jobs := update_where (\<lambda>j. j_id j = rq_job r \<and> j_status j \<notin> {''failed'', ''completed''})
               (\<lambda>j. j\<lparr>j_status := ''failed'', j_error := err, j_updated := now\<rparr>) (t_jobs s2)\<rparr>)"

definition quoted :: "string \<Rightarrow> string" where
  "quoted s = CHR 0x27 # s @ [CHR 0x27]"

definition stale_definition :: "broker \<Rightarrow> request_row \<Rightarrow> bool" where
  "stale_definition b r \<longleftrightarrow> rq_state r = ''queued'' \<and> rq_kind r = ''agent'' \<and> rq_source r = ''agent_definition''
     \<and> agent_of b r = None"

definition fail_stale_row ::
  "unicode_tables \<Rightarrow> string list \<Rightarrow> int \<Rightarrow> request_row \<Rightarrow> string list \<times> db \<Rightarrow> string list \<times> db" where
  "fail_stale_row u locked now r st =
     (case lock_sweep_candidate locked now r (snd st) of
        (False, s1) \<Rightarrow> (fst st, s1)
      | (True, s1) \<Rightarrow>
          (let err = ''Agent definition '' @ quoted (rq_agent_id r) @ '' was disabled or changed while the request was queued'' in
           (fst st @ [rq_execution r],
            fail_request r err (resolve_failure_fields u ''failed'' None err [] []) now s1)))"

definition fail_stale_definition_requests ::
  "broker \<Rightarrow> unicode_tables \<Rightarrow> string list \<Rightarrow> int \<Rightarrow> db \<Rightarrow> string list \<times> db" where
  "fail_stale_definition_requests b u locked now s =
     fold (fail_stale_row u locked now) (sweep_order b (filter (stale_definition b) (t_requests s))) ([], s)"

section \<open>Requests no worker can claim\<close>

type_synonym worker_declarations = "string list \<times> (string \<times> string \<times> string) list"

definition declarations :: "db \<Rightarrow> worker_declarations list" where
  "declarations s = map (\<lambda>k. (wk_runtimes k, worker_model_declarations k)) (filter (\<lambda>k. wk_revoked k = None) (t_workers s))"

definition runnable_by :: "candidate \<Rightarrow> pydict \<Rightarrow> worker_declarations \<Rightarrow> bool" where
  "runnable_by c m d \<longleftrightarrow> declared_or (cd_runtime c) ''None'' \<in> set (fst d) \<and> worker_can_run c m (snd d)"

definition unmatched_reasons :: "candidate \<Rightarrow> pydict \<Rightarrow> worker_declarations list \<Rightarrow> string list" where
  "unmatched_reasons c m workers =
     (if list_ex (runnable_by c m) workers then []
      else (let runtime = declared_or (cd_runtime c) ''None'';
                union_runtimes = concat (map fst workers);
                any_runtime = map (\<lambda>(r, provider, model). (''*'', provider, model)) (concat (map snd workers));
                execution = mapping_of (pget m ''execution'');
                reasons = (if runtime \<notin> set union_runtimes then [''runtime '' @ quoted runtime @ '' not declared by any Worker''] else [])
                  @ (if \<not> worker_can_run c m any_runtime
                     then [''model '' @ text_value (pget execution ''provider'') @ ''/'' @ text_value (pget execution ''model'')
                             @ '' not declared by any Worker''] else []) in
            if reasons = [] then [''no single Worker declares runtime and model together''] else reasons))"

text \<open>The fixed parts of the messages of a contract violation.\<close>

definition contract_message :: "contract_error \<Rightarrow> string" where
  "contract_message e =
     (case e of
        UnknownRuntime r \<Rightarrow> ''unknown agent runtime '' @ quoted r @ '' (known runtimes: pi, velites)''
      | UnsupportedKey node k \<Rightarrow> ''node '' @ node @ '' configures execution.'' @ k
      | RequiredKey node k \<Rightarrow> ''node '' @ node @ '' requires execution.'' @ k)"

definition join_text :: "string \<Rightarrow> string list \<Rightarrow> string" where
  "join_text sep xs = (case xs of [] \<Rightarrow> [] | x # rest \<Rightarrow> x @ concat (map (\<lambda>y. sep @ y) rest))"

text \<open>The sweeper's view of a request: like the claim's, without the timeout column.\<close>

definition sweep_candidate :: "broker \<Rightarrow> db \<Rightarrow> request_row \<Rightarrow> candidate" where
  "sweep_candidate b s r = (make_candidate b s None r)\<lparr>cd_override := None\<rparr>"

definition unclaimable_error :: "broker \<Rightarrow> candidate \<Rightarrow> worker_declarations list \<Rightarrow> string option" where
  "unclaimable_error b c workers =
     (case live_claim_manifest b c of
        Inl e \<Rightarrow> Some (''Agent runtime execution contract violation at claim: '' @ contract_message e)
      | Inr m \<Rightarrow>
          (let reasons = unmatched_reasons c m workers in
           if reasons = [] then None
           else Some (''No registered Agent Worker can claim this request ('' @ join_text ''; '' reasons @
             ''); check the pinned workflow revision'' @ CHR 0x27 # ''s node execution overrides'')))"

definition unclaimable_window :: "broker \<Rightarrow> db \<Rightarrow> request_row list" where
  "unclaimable_window b s =
     take 256 (queue_order (\<lambda>r. r) (filter (\<lambda>r. rq_state r = ''queued'' \<and> rq_kind r = ''agent''
       \<and> (rq_source r = ''node'' \<or> agent_of b r \<noteq> None) \<and> job_of s (rq_job r) \<noteq> None) (t_requests s)))"

definition fail_unclaimable_row ::
  "broker \<Rightarrow> unicode_tables \<Rightarrow> string list \<Rightarrow> int \<Rightarrow> worker_declarations list \<Rightarrow> candidate \<Rightarrow>
   string list \<times> db \<Rightarrow> string list \<times> db" where
  "fail_unclaimable_row b u locked now workers c st =
     (case unclaimable_error b c workers of
        None \<Rightarrow> st
      | Some err \<Rightarrow>
          (case lock_sweep_candidate locked now (cd_row c) (snd st) of
             (False, s1) \<Rightarrow> (fst st, s1)
           | (True, s1) \<Rightarrow>
               (fst st @ [cd_execution c],
                fail_request (cd_row c) err
                  (resolve_failure_fields u ''failed'' None err ''technical'' ''unclaimable_model'') now s1)))"

definition fail_unclaimable_model_requests ::
  "broker \<Rightarrow> unicode_tables \<Rightarrow> string list \<Rightarrow> int \<Rightarrow> db \<Rightarrow> string list \<times> db" where
  "fail_unclaimable_model_requests b u locked now s =
     (if declarations s = [] then ([], s)
      else fold (fail_unclaimable_row b u locked now (declarations s))
             (map (sweep_candidate b s) (sweep_order b (unclaimable_window b s))) ([], s))"

end
