(* ===== verification/Broker_Properties.thy ===== *)
theory Broker_Properties
  imports Broker_Batch_Facts Broker_Locks Broker_Sweeps
begin

text \<open>
  What the agent broker promises, with a small queue as the concrete input: two code requests of
  two jobs and one worker.
\<close>

section \<open>A sample queue\<close>

definition queue_job :: "string \<Rightarrow> job_row" where
  "queue_job k = \<lparr>j_id = k, j_workspace = ''ws'', j_status = ''queued'', j_mode = ''full'', j_target = None,
     j_paused = False, j_pause_reason = [], j_error = [], j_packed = False, j_generation = 0, j_updated = 0,
     j_revision = ''r1'', j_version = 1, j_def_hash = [], j_snapshot = [], j_frozen = None\<rparr>"

definition queue_node :: "string \<Rightarrow> node_row" where
  "queue_node k = \<lparr>jn_job = k, jn_node = ''n'', jn_status = ''pending'', jn_stale_reason = [], jn_error = [],
     jn_category = [], jn_detail = [], jn_started = None, jn_finished = None, jn_created = 0, jn_generation = 0\<rparr>"

definition queue_request :: "string \<Rightarrow> string \<Rightarrow> request_row" where
  "queue_request e job = \<lparr>rq_execution = e, rq_workspace = ''ws'', rq_job = job, rq_node = ''n'', rq_kind = ''code'',
     rq_agent_id = ''run'', rq_agent_hash = [], rq_audit_limit = 1, rq_state = ''queued'', rq_worker = None,
     rq_lease = None, rq_run = None, rq_attempt = 0, rq_queued = 0, rq_claimed = None, rq_heartbeat = None,
     rq_finished = None, rq_manifest = [(PStr ''timeout_seconds'', PInt 60)], rq_outcome = None, rq_trimmed = False,
     rq_pinned = None, rq_generation = 0, rq_source = ''node'', rq_runtime = None, rq_labels = None\<rparr>"

definition queue_worker :: worker_row where
  "queue_worker = \<lparr>wk_id = ''w'', wk_runtimes = [''pi''], wk_models = [], wk_capacity = 1, wk_code_capacity = 2,
     wk_labels = [], wk_protocol = 6, wk_allowed = [], wk_node_limits = [(''n'', 2)], wk_last_seen = 0, wk_revoked = None\<rparr>"

definition queue_db :: db where
  "queue_db = \<lparr>t_jobs = map queue_job [''j1'', ''j2''], t_nodes = map queue_node [''j1'', ''j2''], t_runs = [],
     t_leases = [], t_shards = [], t_artifacts = [],
     t_requests = [queue_request ''e1'' ''j1'', queue_request ''e2'' ''j2''],
     t_limits = [((''ws'', ''n''), 2)], t_next_run = 1, t_workers = [queue_worker], t_agent_caps = [(''ws'', 1)]\<rparr>"

definition queue_broker :: broker where
  "queue_broker = \<lparr>br_workspaces = [(''ws'', None)], br_agents = [], br_revisions = [], br_inputs = [],
     br_materials = [], br_bundles = [], br_paused = (\<lambda>ws. False),
     br_key = (\<lambda>k. int (length k)), br_render = (\<lambda>m. PNone), br_log_path = (\<lambda>m. []),
     br_audit = (\<lambda>m. []), br_ttl = 30, br_requeue_limit = 1, br_touch = 0\<rparr>"

definition queue_tx :: "int \<Rightarrow> claim_tx" where
  "queue_tx t = \<lparr>tx_now = t, tx_uuid = (\<lambda>e. CHR ''L'' # e), tx_locked = [], tx_meanwhile = (\<lambda>job j. j)\<rparr>"

definition undeclared :: declared where
  "undeclared = \<lparr>dc_agent = None, dc_code = None, dc_node_limits = None\<rparr>"

definition unlimited :: pool_left where
  "unlimited = \<lparr>pl_agent = None, pl_code = None\<rparr>"

definition sample_batch :: "(claim_outcome \<times> nat \<times> db) option" where
  "sample_batch = claim_batch queue_broker (queue_tx 5) ''w'' undeclared 2 unlimited 0 queue_db queue_db"

definition batch_claims :: "agent_claim list" where
  "batch_claims = (case sample_batch of None \<Rightarrow> [] | Some (out, cursor, s) \<Rightarrow> co_claims out)"

definition batch_db :: db where
  "batch_db = (case sample_batch of None \<Rightarrow> queue_db | Some (out, cursor, s) \<Rightarrow> s)"

lemma sample_batch_facts: "map ac_execution batch_claims = [''e1'', ''e2'']"
  by code_simp

lemma sample_batch_Some:
  obtains out cursor' where
    "claim_batch queue_broker (queue_tx 5) ''w'' undeclared 2 unlimited 0 queue_db queue_db = Some (out, cursor', batch_db)"
    "co_claims out = batch_claims"
proof -
  have "batch_claims \<noteq> []" using sample_batch_facts by auto
  then show ?thesis using that
    by (auto simp: batch_claims_def batch_db_def sample_batch_def split: option.splits)
qed

lemma queue_db_ok: "requests_ok queue_db" "snapshot_of queue_db queue_db" "distinct_requests queue_db"
  "worker_of queue_db ''w'' = Some queue_worker"
  by code_simp+

section \<open>Limits\<close>

lemma prepared_limits:
  assumes "prepare_claim_view w d s = Some (v, s1)" and "worker_of s w = Some k"
  shows "vw_agent_capacity v = declared_or (dc_agent d) (wk_capacity k)"
    "vw_code_capacity v = declared_or (dc_code d) (wk_code_capacity k)"
    "vw_node_limits v = declared_or (dc_node_limits d) (wk_node_limits k)"
  using assms by (auto simp: prepare_claim_view_def sync_declared_capacity_def build_worker_view_def Let_def
      split: if_splits)

lemma touched_loads [simp]:
  "kind_load w' k (touch_worker w i now s) = kind_load w' k s"
  "worker_node_load w' n (touch_worker w i now s) = worker_node_load w' n s"
  "workspace_agent_load ws (touch_worker w i now s) = workspace_agent_load ws s"
  "node_load ws n t (touch_worker w i now s) = node_load ws n t s"
  by (simp_all add: kind_load_def worker_node_load_def workspace_agent_load_def node_load_def)

text \<open>
  C16. Neither a single nor a batch claim takes any of the counted loads over its limit: the agent and
  code slots of the worker, its claims per node, the agent requests of a workspace and the live leases of a
  code node. A load that exceeds a limit lowered in the meantime does not grow.
\<close>

theorem broker_claims_within_limits:
  assumes "claim_in_transaction b tx w d cursor s = Some (out, cursor', s')
      \<or> claim_batch b tx w d count pl cursor s0 s = Some (out, cursor', s')"
    and "worker_of s w = Some k" and "requests_ok s" and "requests_ok s0" and "snapshot_of s0 s"
  shows "int (kind_load w ''agent'' s') \<le> max (int (kind_load w ''agent'' s)) (declared_or (dc_agent d) (wk_capacity k))
    \<and> int (kind_load w ''code'' s') \<le> max (int (kind_load w ''code'' s)) (declared_or (dc_code d) (wk_code_capacity k))
    \<and> (\<forall>node limit. dget (declared_or (dc_node_limits d) (wk_node_limits k)) node = Some limit \<longrightarrow>
        int (worker_node_load w node s') \<le> max (int (worker_node_load w node s)) limit)
    \<and> (\<forall>ws limit. dget (t_agent_caps s) ws = Some limit \<longrightarrow>
        int (workspace_agent_load ws s') \<le> max (int (workspace_agent_load ws s)) limit)
    \<and> (\<forall>ws node limit. dget (t_limits s) (ws, node) = Some limit \<longrightarrow>
        int (node_load ws node (tx_now tx) s') \<le> max (int (node_load ws node (tx_now tx) s)) limit)"
proof -
  from assms(1) obtain v s1 where v: "prepare_claim_view w d s = Some (v, s1)"
    by (auto simp: claim_in_transaction_def claim_batch_def claim_batch_in_transaction_def split: option.splits)
  have d: "distinct_requests s" using assms(3) by (simp add: requests_ok_def)
  from assms(1) obtain s2 where run: "(claim_step b tx w v)\<^sup>*\<^sup>* s1 s2" "s' = touch_worker w (br_touch b) (tx_now tx) s2"
  proof
    assume "claim_in_transaction b tx w d cursor s = Some (out, cursor', s')"
    from single_run [OF this v assms(3)] that show ?thesis by blast
  next
    assume "claim_batch b tx w d count pl cursor s0 s = Some (out, cursor', s')"
    from batch_run [OF this v assms(4,5) d] that show ?thesis by blast
  qed
  note t = prepare_view [OF v]
  have same: "kind_load w k s1 = kind_load w k s" "worker_node_load w n s1 = worker_node_load w n s"
    "workspace_agent_load ws s1 = workspace_agent_load ws s" "node_load ws n at' s1 = node_load ws n at' s" for k n ws at'
    by (simp_all add: kind_load_def worker_node_load_def workspace_agent_load_def node_load_def t)
  note lim = run_limits [OF run(1), unfolded same t(5,6) prepared_limits(3) [OF v assms(2)]]
  show ?thesis
    using lim(1) [of "''agent''"] lim(1) [of "''code''"] lim(2-4) prepared_limits(1,2) [OF v assms(2)]
    unfolding run(2) touched_loads by (simp add: pool_capacity_def)
qed

theorem broker_claims_within_limits_witness:
  "int (kind_load ''w'' ''code'' batch_db) \<le> 2 \<and> int (node_load ''ws'' ''n'' 5 batch_db) \<le> 2"
proof -
  obtain out cursor' where c:
    "claim_batch queue_broker (queue_tx 5) ''w'' undeclared 2 unlimited 0 queue_db queue_db = Some (out, cursor', batch_db)"
    by (rule sample_batch_Some)
  have zero: "kind_load ''w'' ''code'' queue_db = 0" "node_load ''ws'' ''n'' 5 queue_db = 0" by code_simp+
  have lim: "dget (t_limits queue_db) (''ws'', ''n'') = Some 2" "tx_now (queue_tx 5) = 5"
    "declared_or (dc_code undeclared) (wk_code_capacity queue_worker) = 2" by code_simp+
  from broker_claims_within_limits [OF disjI2 [OF c] queue_db_ok(4,1,1,2)] show ?thesis
    unfolding zero lim(2,3) using lim(1) zero by force
qed

section \<open>Batches\<close>

lemma claim_held_touch [simp]: "claim_held x a (touch_worker w i now s) = claim_held x a s"
  by (simp add: claim_held_def held_def)

text \<open>
  C17. A batch claim honours its request: no more claims than asked for in total and in each pool,
  pairwise distinct executions, all of them queued when the write phase began and afterwards held by
  this worker with an active lease.
\<close>

theorem batch_claim_honours_request:
  assumes "claim_batch b tx w d count pl cursor s0 s = Some (out, cursor', s')" and "distinct_requests s"
  shows "length (co_claims out) \<le> min count max_batch_claims
    \<and> (\<forall>kind \<in> {''agent'', ''code''}. \<forall>m. budget_of pl kind = Some m \<longrightarrow>
        int (length (filter (\<lambda>a. ac_kind a = kind) (co_claims out))) \<le> max 0 m)
    \<and> distinct (map ac_execution (co_claims out))
    \<and> (\<forall>a \<in> set (co_claims out). ac_execution a \<in> queued_executions s \<and> claim_held w a s')"
proof -
  from assms(1) obtain sel c1 where sel: "select_batch_candidates b w d count pl cursor s0 = Some (sel, c1)"
    and tx: "claim_batch_in_transaction b tx w d sel s = Some (out, s')"
    by (auto simp: claim_batch_def split: option.splits)
  from tx obtain v s1 where v: "prepare_claim_view w d s = Some (v, s1)"
    by (auto simp: claim_batch_in_transaction_def split: option.splits)
  show ?thesis
  proof (cases "sl_scan_skipped sel")
    case True
    with tx v have "co_claims out = []" by (auto simp: claim_batch_in_transaction_def)
    then show ?thesis by simp
  next
    case False
    obtain claims st s2 where p: "promote_selected b tx w (lock_code_pool_for_batch (sl_candidates sel) s1)
        (lock_order_sorted (sl_candidates sel)) v initial_scan s1 = (claims, st, s2)" by (metis prod_cases3)
    have out: "co_claims out = claims" "s' = touch_worker w (br_touch b) (tx_now tx) s2"
      using tx v False p by (auto simp: claim_batch_in_transaction_def Let_def)
    have d1: "distinct_requests s1" "queued_executions s1 = queued_executions s"
      using assms(2) prepare_view(1) [OF v] by (simp_all add: distinct_requests_def queued_executions_def)
    from sel False obtain v0 st0 st1 c2 where
      slots: "select_slots (min count max_batch_claims) b s0 v0 pl None cursor [] st0 = (sl_candidates sel, st1, c2)"
      by (auto simp: select_batch_candidates_def Let_def split: option.splits if_splits prod.splits)
    have len: "length claims \<le> length (sl_candidates sel)"
      using promoted_kinds [OF p] by (simp add: lock_order_sorted_def)
    have kinds: "length (filter (\<lambda>a. ac_kind a = k) claims) \<le> of_kind k (sl_candidates sel)" for k
      using promoted_kinds [OF p] unfolding of_kind_sorted by blast
    have "int (length (filter (\<lambda>a. ac_kind a = k) claims)) \<le> max 0 m"
      if "k \<in> {''agent'', ''code''}" "budget_of pl k = Some m" for k m
      using kinds [of k] select_slots_budget(2) [OF slots that] by (simp add: of_kind_def)
    moreover have "length claims \<le> min count max_batch_claims"
      using len select_slots_budget(1) [OF slots] by simp
    moreover note promote_selected_facts [OF p d1(1), unfolded d1(2)]
    ultimately show ?thesis unfolding out claim_held_touch by blast
  qed
qed

theorem batch_claim_honours_request_witness:
  "length batch_claims \<le> 2 \<and> distinct (map ac_execution batch_claims) \<and> batch_claims \<noteq> []"
proof -
  obtain out cursor' where c:
    "claim_batch queue_broker (queue_tx 5) ''w'' undeclared 2 unlimited 0 queue_db queue_db = Some (out, cursor', batch_db)"
    "co_claims out = batch_claims" by (rule sample_batch_Some)
  from batch_claim_honours_request [OF c(1) queue_db_ok(3)] c(2) sample_batch_facts show ?thesis by auto
qed

section \<open>What a granted claim means\<close>

definition sample_candidate :: candidate where
  "sample_candidate = make_candidate queue_broker queue_db None (queue_request ''e1'' ''j1'')"

definition sample_view :: worker_view where
  "sample_view = build_worker_view queue_worker (1, 2, [(''n'', 2)]) queue_db"

lemma sample_grant:
  obtains a st s' where
    "evaluate_candidate queue_broker (queue_tx 5) ''w'' sample_candidate sample_view None initial_scan queue_db = (Granted a, st, s')"
    "manifest_shard (ac_manifest a) = None" "ac_job a = ''j1''"
proof -
  have "case fst (evaluate_candidate queue_broker (queue_tx 5) ''w'' sample_candidate sample_view None initial_scan queue_db) of
      Granted a \<Rightarrow> manifest_shard (ac_manifest a) = None \<and> ac_job a = ''j1'' | _ \<Rightarrow> False"
    by code_simp
  then show ?thesis using that by (cases "evaluate_candidate queue_broker (queue_tx 5) ''w'' sample_candidate sample_view None
      initial_scan queue_db") (auto split: claim_verdict.splits)
qed

text \<open>
  C18. A granted claim found the request queued, its job runnable, unpaused and in the
  epoch of the request and its node waiting; it leaves the job running, unpaused and in that epoch, the
  node running in that epoch and the request claimed by the worker with one more attempt, whatever
  lockless writers such as a pause do between the check and the promotion. For the request of a shard
  the shard was pending and now runs for this execution, and its node was waiting or running and now runs.
\<close>

theorem granted_claim_meaning:
  assumes "evaluate_candidate b tx w c v frozen st0 s = (Granted a, st, s')"
    and "lockless tx" and "distinct_jobs s" and "distinct_requests s"
  shows "(\<exists>j. job_of s (ac_job a) = Some j \<and> \<not> j_paused j \<and> j_status j \<in> set runnable_job_statuses
        \<and> j_generation j = ac_generation a)
    \<and> (\<exists>j. job_of s' (ac_job a) = Some j \<and> j_status j = ''running'' \<and> \<not> j_paused j \<and> j_generation j = ac_generation a)
    \<and> node_started (ac_job a) (ac_node a) (manifest_shard (ac_manifest a)) (ac_generation a) (ac_execution a) s s'
    \<and> (\<exists>r. request_of s (ac_execution a) = Some r \<and> rq_state r = ''queued''
        \<and> request_of s' (ac_execution a) = Some (claimed_row w tx (ac_run a) r))"
proof -
  from assms(1) obtain r0 where r0: "check_locked tx w c v frozen s = Proceed r0"
    and a: "ac_job a = rq_job (cd_row c)" "ac_generation a = rq_generation r0" by (rule evaluate_Granted)
  from granted_request [OF assms(1,4)] obtain r where r: "r \<in> set (t_requests s)" "rq_execution r = ac_execution a"
    "rq_state r = ''queued''" "request_of s' (ac_execution a) = Some (claimed_row w tx (ac_run a) r)" by blast
  have "request_of s (ac_execution a) = Some r"
    using find_distinct [OF assms(4) [unfolded distinct_requests_def] r(1)] r(2) by (simp add: request_of_def)
  then show ?thesis
    using check_locked_Proceed(5) [OF r0] granted_job [OF assms(1-3)] granted_started [OF assms(1)] r(3,4)
    unfolding a by blast
qed

theorem granted_claim_meaning_witness:
  "\<exists>a st s'. evaluate_candidate queue_broker (queue_tx 5) ''w'' sample_candidate sample_view None initial_scan queue_db = (Granted a, st, s')
    \<and> (\<exists>j. job_of s' ''j1'' = Some j \<and> j_status j = ''running'')"
proof -
  obtain a st s' where g:
    "evaluate_candidate queue_broker (queue_tx 5) ''w'' sample_candidate sample_view None initial_scan queue_db = (Granted a, st, s')"
    "manifest_shard (ac_manifest a) = None" "ac_job a = ''j1''" by (rule sample_grant)
  have "lockless (queue_tx 5)" by (simp add: lockless_def queue_tx_def)
  moreover have "distinct_jobs queue_db" by code_simp
  ultimately have "\<exists>j. job_of s' (ac_job a) = Some j \<and> j_status j = ''running''"
    using granted_claim_meaning [OF g(1) _ _ queue_db_ok(3)] by blast
  with g show ?thesis by auto
qed

section \<open>The rotation\<close>

text \<open>
  C19. The rotation over workspaces is fair: within a workspace the order of the queue is kept, and after any
  number of positions a workspace has had at most one turn more than another one, unless the other
  one has no candidate left.
\<close>

theorem candidate_rotation_fair:
  "ws_groups (fair_candidate_order rows cursor) k = ws_groups rows k
    \<and> (ws_count u (take n (fair_candidate_order rows cursor)) \<le> ws_count v (take n (fair_candidate_order rows cursor)) + 1
      \<or> ws_count v (take n (fair_candidate_order rows cursor)) = ws_count v rows)"
  using fair_order_workspace [of k rows cursor] fair_prefix [OF refl, where w = u and v = v and n = n and rows = rows and cursor = cursor]
  by (simp add: ws_groups_def)

end
