(* ===== verification/Broker_Queue_Properties.thy ===== *)
theory Broker_Queue_Properties
  imports Broker_Properties
begin

text \<open>
  What the agent broker promises about a queued and about a running request: its timeout, the locks of
  a batch, the sweep of requests no worker can claim, late results and heartbeats.
\<close>

section \<open>The timeout of a claim\<close>

text \<open>
  The timeout that applied when a request was queued, read off the queued manifest: the recorded base with
  its source; for a manifest without one the timeout it was sent with; failing both the platform's.
\<close>

definition recorded_timeout :: "pydict \<Rightarrow> int \<Rightarrow> pyval \<Rightarrow> bool" where
  "recorded_timeout q i source \<longleftrightarrow> (\<exists>d. pget q ''timeout_base'' = PDict d \<and> pget d ''value'' = PInt i \<and> 1 \<le> i
     \<and> pget d ''source'' = source \<and> truthy source)"

definition sent_timeout :: "string \<Rightarrow> pydict \<Rightarrow> int \<Rightarrow> bool" where
  "sent_timeout kind q i \<longleftrightarrow> 1 \<le> i
     \<and> (if kind = ''code'' then pget q ''timeout_seconds'' = PInt i
        else \<exists>e. pget q ''execution'' = PDict e \<and> pget e ''timeout_seconds'' = PInt i)"

definition enqueued_timeout :: "string \<Rightarrow> pydict \<Rightarrow> int \<Rightarrow> pyval \<Rightarrow> bool" where
  "enqueued_timeout kind q i source \<longleftrightarrow> recorded_timeout q i source
     \<or> (\<nexists>i' source'. recorded_timeout q i' source') \<and>
       (sent_timeout kind q i \<and> source = PStr ''enqueue_snapshot''
        \<or> (\<nexists>i'. sent_timeout kind q i') \<and> i = (if kind = ''code'' then 600 else 1800) \<and> source = PStr ''platform_default'')"

lemma valid_timeout_iff: "valid_timeout v \<longleftrightarrow> (\<exists>i. v = PInt i \<and> 1 \<le> i)"
  by (simp add: valid_timeout_def split: pyval.splits)

lemma pget_mapping: "pget (mapping_of v) k = x \<Longrightarrow> x \<noteq> PNone \<Longrightarrow> \<exists>d. v = PDict d \<and> pget d k = x"
  by (auto simp: mapping_of_def pget_def dget_default_def split: pyval.splits)

lemma pget_mapping_iff: "x \<noteq> PNone \<Longrightarrow> pget (mapping_of v) k = x \<longleftrightarrow> (\<exists>d. v = PDict d \<and> pget d k = x)"
  using pget_mapping by auto

lemma recorded_timeout_iff:
  "recorded_timeout q i source \<longleftrightarrow>
     (let base = mapping_of (pget q ''timeout_base'') in
      pget base ''value'' = PInt i \<and> 1 \<le> i \<and> pget base ''source'' = source \<and> truthy source)"
  unfolding recorded_timeout_def Let_def
  by (auto simp: pget_mapping_iff)

lemma sent_timeout_iff:
  "sent_timeout kind q i \<longleftrightarrow> 1 \<le> i \<and> claim_timeout kind q = PInt i"
  by (auto simp: sent_timeout_def claim_timeout_def pget_mapping_iff)

lemma queued_base_enqueued:
  obtains i where "fst (queued_base q kind) = PInt i" "1 \<le> i" "enqueued_timeout kind q i (snd (queued_base q kind))"
proof -
  from queued_base_valid [of q kind] obtain i where i: "fst (queued_base q kind) = PInt i" "1 \<le> i"
    by (auto simp: valid_timeout_iff)
  let ?base = "mapping_of (pget q ''timeout_base'')"
  have "enqueued_timeout kind q i (snd (queued_base q kind))"
  proof (cases "valid_timeout (pget ?base ''value'') \<and> truthy (pget ?base ''source'')")
    case True
    with i have "recorded_timeout q i (snd (queued_base q kind))"
      by (simp add: recorded_timeout_iff queued_base_def Let_def)
    then show ?thesis by (simp add: enqueued_timeout_def)
  next
    case False
    then have none: "\<nexists>i' source'. recorded_timeout q i' source'"
      by (auto simp: recorded_timeout_iff valid_timeout_iff Let_def)
    have base: "queued_base q kind = (if valid_timeout (claim_timeout kind q) then (claim_timeout kind q, PStr ''enqueue_snapshot'')
        else (PInt (default_timeout kind), PStr ''platform_default''))"
      using False by (auto simp: queued_base_def Let_def claim_timeout_def)
    show ?thesis
    proof (cases "valid_timeout (claim_timeout kind q)")
      case True
      with i none show ?thesis by (simp add: enqueued_timeout_def sent_timeout_iff base)
    next
      case other: False
      then have "\<nexists>i'. sent_timeout kind q i'" by (auto simp: sent_timeout_iff valid_timeout_iff)
      with i none other show ?thesis by (simp add: enqueued_timeout_def base default_timeout_def split: if_splits)
    qed
  qed
  with i that show ?thesis by blast
qed

lemma queued_base_cong:
  assumes "pget m ''timeout_base'' = pget q ''timeout_base''" and "claim_timeout kind m = claim_timeout kind q"
  shows "queued_base m kind = queued_base q kind"
  using assms by (simp add: queued_base_def claim_timeout_def Let_def split: if_splits)

lemma contract_keeps:
  assumes "adapter_contract runtime = Some contract"
  shows "pget (fold (\<lambda>(k, _) d. pset k (pget r k) d) contract d) ''timeout_seconds'' = pget d ''timeout_seconds''"
  using assms by (auto simp: adapter_contract_def split: if_splits)

text \<open>The last part of \<open>live_claim_manifest\<close>, where the override is used.\<close>

definition finish_manifest :: "broker \<Rightarrow> bool \<Rightarrow> pydict \<Rightarrow> pydict \<Rightarrow> pydict \<Rightarrow> (string \<times> bool) list \<Rightarrow> pyval option \<Rightarrow> pydict" where
  "finish_manifest b pinned ne resolved m1 contract override =
     (let m2 = pset ''execution'' (PDict (fold (\<lambda>(k, _) d. pset k (pget resolved k) d) contract (mapping_of (pget m1 ''execution'')))) m1;
          m3 = (if pinned then m2
                else pset ''prompt_mode'' (PStr (text_value (pget ne ''prompt_mode'')))
                  (pset ''additional_prompt'' (PStr (text_value (pget ne ''prompt''))) m2));
          m4 = decide_claim_timeout ''agent'' override m3 in
      if list_all (phas m4) [''tools'', ''inputs'', ''expected_outputs''] then pset ''command_spec'' (br_render b m4) m4 else m4)"

lemma live_manifest_form:
  obtains pinned ne resolved m1 rt where
    "pget m1 ''timeout_base'' = pget (rq_manifest (cd_row c)) ''timeout_base''"
    "pget m1 ''execution'' = pget (rq_manifest (cd_row c)) ''execution''"
    "\<And>ov. live_claim_manifest b (c\<lparr>cd_override := ov\<rparr>) =
      (case adapter_contract rt of None \<Rightarrow> Inl (UnknownRuntime rt)
       | Some ct \<Rightarrow> bindE (validate_execution_contract (rq_node (cd_row c)) rt resolved)
           (\<lambda>_. Inr (finish_manifest b pinned ne resolved m1 ct ov)))"
proof -
  define m0 where "m0 = rq_manifest (cd_row c)"
  define node where "node = (if truthy (pget m0 ''node_profile_pin'') then [] else revision_node (cd_revision c) (rq_node (cd_row c)))"
  define label where "label = text_value (pget node ''label'')"
  define ne where "ne = mapping_of (pget node ''execution'')"
  define m1 where "m1 = (if label \<noteq> [] then pset ''node_label'' (PStr label) m0 else m0)"
  define rt where "rt = (if truthy (pget m1 ''runtime'') then text_value (pget m1 ''runtime'')
                     else (case cd_runtime c of None \<Rightarrow> [] | Some r \<Rightarrow> r))"
  define resolved where "resolved = resolve_execution_chain [ne, mapping_of (pget m1 ''execution_defaults''), mapping_of (pget m1 ''execution'')]"
  have "live_claim_manifest b (c\<lparr>cd_override := ov\<rparr>) =
      (case adapter_contract rt of None \<Rightarrow> Inl (UnknownRuntime rt)
       | Some ct \<Rightarrow> bindE (validate_execution_contract (rq_node (cd_row c)) rt resolved)
           (\<lambda>_. Inr (finish_manifest b (truthy (pget m0 ''node_profile_pin'')) ne resolved m1 ct ov)))" for ov
  proof -
    have sel: "cd_row (c\<lparr>cd_override := ov\<rparr>) = cd_row c" "cd_runtime (c\<lparr>cd_override := ov\<rparr>) = cd_runtime c"
      "cd_revision (c\<lparr>cd_override := ov\<rparr>) = cd_revision c" "cd_override (c\<lparr>cd_override := ov\<rparr>) = ov" by simp_all
    show ?thesis
      unfolding live_claim_manifest_def Let_def sel finish_manifest_def resolved_def rt_def m1_def ne_def label_def node_def m0_def ..
  qed
  moreover have "pget m1 ''timeout_base'' = pget (rq_manifest (cd_row c)) ''timeout_base''"
    "pget m1 ''execution'' = pget (rq_manifest (cd_row c)) ''execution''" by (simp_all add: m1_def m0_def)
  ultimately show ?thesis using that by blast
qed

lemma live_manifest_decides:
  assumes "live_claim_manifest b c = Inr m"
  obtains m0 where "m = decide_claim_timeout ''agent'' (cd_override c) m0
      \<or> m = pset ''command_spec'' (br_render b (decide_claim_timeout ''agent'' (cd_override c) m0))
          (decide_claim_timeout ''agent'' (cd_override c) m0)"
    "queued_base m0 ''agent'' = queued_base (rq_manifest (cd_row c)) ''agent''"
proof -
  obtain pinned ne resolved m1 rt where m1: "pget m1 ''timeout_base'' = pget (rq_manifest (cd_row c)) ''timeout_base''"
      "pget m1 ''execution'' = pget (rq_manifest (cd_row c)) ''execution''"
    and live: "\<And>ov. live_claim_manifest b (c\<lparr>cd_override := ov\<rparr>) =
      (case adapter_contract rt of None \<Rightarrow> Inl (UnknownRuntime rt)
       | Some ct \<Rightarrow> bindE (validate_execution_contract (rq_node (cd_row c)) rt resolved)
           (\<lambda>_. Inr (finish_manifest b pinned ne resolved m1 ct ov)))" by (rule live_manifest_form [where b = b and c = c]) (rule that)
  from assms have "live_claim_manifest b (c\<lparr>cd_override := cd_override c\<rparr>) = Inr m" by simp
  then obtain ct where k: "adapter_contract rt = Some ct"
    and m: "m = finish_manifest b pinned ne resolved m1 ct (cd_override c)"
    unfolding live by (auto simp: err_simps split: option.splits)
  let ?m2 = "pset ''execution'' (PDict (fold (\<lambda>(k, _) d. pset k (pget resolved k) d) ct (mapping_of (pget m1 ''execution'')))) m1"
  let ?m3 = "if pinned then ?m2 else pset ''prompt_mode'' (PStr (text_value (pget ne ''prompt_mode'')))
      (pset ''additional_prompt'' (PStr (text_value (pget ne ''prompt''))) ?m2)"
  have "queued_base ?m3 ''agent'' = queued_base (rq_manifest (cd_row c)) ''agent''"
    by (rule queued_base_cong) (simp_all add: m1 claim_timeout_def contract_keeps [OF k])
  with m that [of ?m3] show ?thesis unfolding finish_manifest_def Let_def by presburger
qed

lemma claim_manifest_decides:
  assumes "claim_manifest b c = Inr m" and "cd_override c = Some raw" and "rq_kind (cd_row c) \<in> {''agent'', ''code''}"
  obtains m0 where "claim_timeout (rq_kind (cd_row c)) m
        = claim_timeout (rq_kind (cd_row c)) (decide_claim_timeout (rq_kind (cd_row c)) (Some raw) m0)"
    "pget m ''config_resolution'' = pget (decide_claim_timeout (rq_kind (cd_row c)) (Some raw) m0) ''config_resolution''"
    "queued_base m0 (rq_kind (cd_row c)) = queued_base (rq_manifest (cd_row c)) (rq_kind (cd_row c))"
proof (cases "rq_kind (cd_row c) = ''code''")
  case True
  with assms(1,2) have "m = decide_claim_timeout ''code'' (Some raw) (rq_manifest (cd_row c))"
    by (simp add: claim_manifest_def)
  with True that [of "rq_manifest (cd_row c)"] show ?thesis by simp
next
  case False
  with assms(3) have kind: "rq_kind (cd_row c) = ''agent''" by blast
  from assms(1) kind have "live_claim_manifest b c = Inr m" by (simp add: claim_manifest_def)
  from live_manifest_decides [OF this] obtain m0 where
    "m = decide_claim_timeout ''agent'' (Some raw) m0
      \<or> m = pset ''command_spec'' (br_render b (decide_claim_timeout ''agent'' (Some raw) m0)) (decide_claim_timeout ''agent'' (Some raw) m0)"
    "queued_base m0 ''agent'' = queued_base (rq_manifest (cd_row c)) ''agent''"
    using assms(2) by metis
  then show ?thesis using that kind by (auto simp: claim_timeout_pset)
qed

text \<open>
  C20. The timeout a claim hands to the worker is always a positive integer: the override of the workspace
  when that is one, and otherwise (no override, or an invalid one) the timeout that applied when the request
  was queued: the base recorded in its manifest, else the timeout it was sent with, else the platform's 600
  seconds for code and 1800 for an agent. The recorded resolution carries the same value and says which case it was.
\<close>

theorem claim_timeout_decided:
  assumes "claim_manifest b c = Inr m" and "cd_override c = Some raw" and "rq_kind (cd_row c) \<in> {''agent'', ''code''}"
  shows "\<exists>base source i. enqueued_timeout (rq_kind (cd_row c)) (rq_manifest (cd_row c)) base source
    \<and> claim_timeout (rq_kind (cd_row c)) m = PInt i \<and> 1 \<le> i
    \<and> (raw = PInt i \<or> (\<forall>r. raw = PInt r \<longrightarrow> r < 1) \<and> i = base)
    \<and> pget m ''config_resolution'' = PDict [(PStr ''timeout_seconds'', PDict [(PStr ''value'', PInt i), (PStr ''source'',
        if raw = PNone then source
        else if \<exists>r. raw = PInt r \<and> 1 \<le> r then PStr ''workspace_override'' else PStr ''workspace_override_invalid'')])]"
proof -
  let ?k = "rq_kind (cd_row c)" and ?q = "rq_manifest (cd_row c)"
  from claim_manifest_decides [OF assms] obtain m0 where
    t: "claim_timeout ?k m = claim_timeout ?k (decide_claim_timeout ?k (Some raw) m0)"
    and p: "pget m ''config_resolution'' = pget (decide_claim_timeout ?k (Some raw) m0) ''config_resolution''"
    and q: "queued_base m0 ?k = queued_base ?q ?k" by blast
  obtain base where base: "fst (queued_base ?q ?k) = PInt base" "1 \<le> base"
    "enqueued_timeout ?k ?q base (snd (queued_base ?q ?k))" by (rule queued_base_enqueued)
  let ?r = "resolve_timeout (queued_base ?q ?k) raw"
  have chosen: "claim_timeout ?k m = fst ?r" unfolding t decided_timeout q ..
  have res: "pget m ''config_resolution'' = PDict [(PStr ''timeout_seconds'',
      PDict [(PStr ''value'', fst ?r), (PStr ''source'', snd ?r)])]"
    unfolding p by (simp add: decide_claim_timeout_def q case_prod_beta)
  show ?thesis
  proof (cases "valid_timeout raw")
    case True
    then obtain r where "raw = PInt r" "1 \<le> r" by (auto simp: valid_timeout_iff)
    with base show ?thesis unfolding chosen res
      by (intro exI [of _ base] exI [of _ "snd (queued_base ?q ?k)"] exI [of _ r])
        (simp add: resolve_timeout_def valid_timeout_iff)
  next
    case False
    then have "\<forall>r. raw = PInt r \<longrightarrow> r < 1" by (auto simp: valid_timeout_iff)
    with base False show ?thesis unfolding chosen res
      by (intro exI [of _ base] exI [of _ "snd (queued_base ?q ?k)"] exI [of _ base])
        (auto simp: resolve_timeout_def valid_timeout_iff)
  qed
qed

theorem claim_timeout_decided_witness:
  "\<exists>m. claim_manifest queue_broker (sample_candidate\<lparr>cd_override := Some (PInt 0)\<rparr>) = Inr m \<and> claim_timeout ''code'' m = PInt 60"
proof -
  let ?c = "sample_candidate\<lparr>cd_override := Some (PInt 0)\<rparr>"
  have kind: "rq_kind (cd_row ?c) = ''code''" by (simp add: sample_candidate_def make_candidate_def queue_request_def)
  then obtain m where m: "claim_manifest queue_broker ?c = Inr m" by (simp add: claim_manifest_def)
  have q: "pget (rq_manifest (cd_row ?c)) ''timeout_base'' = PNone" "pget (rq_manifest (cd_row ?c)) ''timeout_seconds'' = PInt 60"
    by (simp_all add: sample_candidate_def make_candidate_def queue_request_def pget_def dget_default_def)
  have base: "base = 60" if "enqueued_timeout ''code'' (rq_manifest (cd_row ?c)) base source" for base source
    using that q spec [of "\<lambda>i. i \<ge> 1 \<longrightarrow> i \<noteq> (60::int)" 60]
    by (auto simp: enqueued_timeout_def recorded_timeout_def sent_timeout_def)
  have "\<exists>base source i. enqueued_timeout (rq_kind (cd_row ?c)) (rq_manifest (cd_row ?c)) base source
      \<and> claim_timeout (rq_kind (cd_row ?c)) m = PInt i \<and> 1 \<le> i \<and> (PInt 0 = PInt i \<or> i = base)"
    using claim_timeout_decided [OF m, of "PInt 0"] kind by simp blast
  with base have "claim_timeout ''code'' m = PInt 60" unfolding kind by auto
  with m show ?thesis by auto
qed

section \<open>Locks\<close>

text \<open>
  C21. Two batch claims wait for each other crosswise, each for a lock the other one holds, only on a collision
  of the hash: as long as no two names of different kinds (code pool, workspaces, workers, jobs) share an advisory key
  among the locks the two hold and wait for, they never do, whatever they selected, from whatever databases, and
  wherever in their transactions they are. Names of one kind may collide.
\<close>

theorem batches_cross_only_on_collision:
  assumes "select_batch_candidates b w1 d1 n1 pl1 k1 r1 = Some (sel1, k1')"
    and "select_batch_candidates b w2 d2 n2 pl2 k2 r2 = Some (sel2, k2')"
    and "batch_locks b tx1 w1 d1 sel1 s1 = held1 @ a # rest1" and "batch_locks b tx2 w2 d2 sel2 s2 = held2 @ c # rest2"
    and "\<forall>x \<in> set (a # held1). \<forall>y \<in> set (c # held2). lock_target_of b x = lock_target_of b y \<longrightarrow> lock_class x = lock_class y"
  shows "\<not> (waits_for b a held1 held2 \<and> waits_for b c held2 held1)"
  using crossed_ranks [OF assms(3,4) selection_offered [OF assms(1)] selection_offered [OF assms(2)]] assms(5)
  unfolding collision_def by blast

definition two_workers_db :: db where
  "two_workers_db = queue_db\<lparr>t_workers := [queue_worker, queue_worker\<lparr>wk_id := ''w2''\<rparr>]\<rparr>"

definition sample_locks :: "broker \<Rightarrow> string \<Rightarrow> db \<Rightarrow> lock_call list option" where
  "sample_locks b w s = map_option (\<lambda>(sel, k). batch_locks b (queue_tx 5) w undeclared sel s)
     (select_batch_candidates b w undeclared 2 unlimited 0 s)"

lemma sample_locks_SomeD:
  assumes "sample_locks b w s = Some ls"
  obtains sel k where "select_batch_candidates b w undeclared 2 unlimited 0 s = Some (sel, k)"
    "batch_locks b (queue_tx 5) w undeclared sel s = ls"
  using assms by (auto simp: sample_locks_def)

theorem batches_cross_only_on_collision_witness:
  "\<not> (waits_for queue_broker (JobMutation ''j1'') [WorkerRow ''w'', CodePool, AgentWorker ''w''] [WorkerRow ''w2'']
    \<and> waits_for queue_broker CodePool [WorkerRow ''w2''] [WorkerRow ''w'', CodePool, AgentWorker ''w''])"
proof -
  have "sample_locks queue_broker ''w'' two_workers_db = Some [WorkerRow ''w'', CodePool, AgentWorker ''w'', JobMutation ''j1'',
      AgentWorker ''w'', JobMutation ''j2'']"
    by code_simp
  then obtain sel1 k1 where 1: "select_batch_candidates queue_broker ''w'' undeclared 2 unlimited 0 two_workers_db = Some (sel1, k1)"
    "batch_locks queue_broker (queue_tx 5) ''w'' undeclared sel1 two_workers_db = [WorkerRow ''w'', CodePool, AgentWorker ''w''] @
      JobMutation ''j1'' # [AgentWorker ''w'', JobMutation ''j2'']"
    by (elim sample_locks_SomeD) simp
  have "sample_locks queue_broker ''w2'' two_workers_db = Some [WorkerRow ''w2'', CodePool, AgentWorker ''w2'', JobMutation ''j1'',
      AgentWorker ''w2'', JobMutation ''j2'']"
    by code_simp
  then obtain sel2 k2 where 2: "select_batch_candidates queue_broker ''w2'' undeclared 2 unlimited 0 two_workers_db = Some (sel2, k2)"
    "batch_locks queue_broker (queue_tx 5) ''w2'' undeclared sel2 two_workers_db = [WorkerRow ''w2''] @
      CodePool # [AgentWorker ''w2'', JobMutation ''j1'', AgentWorker ''w2'', JobMutation ''j2'']"
    by (elim sample_locks_SomeD) simp
  show ?thesis
    by (rule batches_cross_only_on_collision [OF 1(1) 2(1) 1(2) 2(2)]) code_simp
qed

text \<open>
  The condition is needed: where a job's key is that of a worker, two batches over the same two jobs can block each
  other. The batch of \<open>w2\<close> holds the lock of its worker and waits for the job \<open>j1\<close>; that of \<open>w\<close> holds \<open>j1\<close> and waits for
  \<open>j2\<close>, whose key is that of \<open>w2\<close>.
\<close>

definition colliding_broker :: broker where
  "colliding_broker = queue_broker\<lparr>br_key := (\<lambda>k. if last k = CHR ''2'' then 1 else 0)\<rparr>"

lemma collision_crosses:
  "sample_locks colliding_broker ''w2'' (two_workers_db\<lparr>t_limits := []\<rparr>)
     = Some ([WorkerRow ''w2'', AgentWorker ''w2''] @ JobMutation ''j1'' # [AgentWorker ''w2'', JobMutation ''j2''])"
  "sample_locks colliding_broker ''w'' (two_workers_db\<lparr>t_limits := []\<rparr>)
     = Some ([WorkerRow ''w'', AgentWorker ''w'', JobMutation ''j1'', AgentWorker ''w''] @ JobMutation ''j2'' # [])"
  "waits_for colliding_broker (JobMutation ''j1'') [WorkerRow ''w2'', AgentWorker ''w2'']
     [WorkerRow ''w'', AgentWorker ''w'', JobMutation ''j1'', AgentWorker ''w'']"
  "waits_for colliding_broker (JobMutation ''j2'') [WorkerRow ''w'', AgentWorker ''w'', JobMutation ''j1'', AgentWorker ''w'']
     [WorkerRow ''w2'', AgentWorker ''w2'']"
  by code_simp+

section \<open>Late results\<close>

definition not_held :: "string \<Rightarrow> db \<Rightarrow> bool" where
  "not_held e s \<longleftrightarrow> list_all (\<lambda>r. rq_execution r = e \<longrightarrow> rq_state r \<notin> set held_states) (t_requests s)"

lemma not_held_update:
  "not_held e s \<Longrightarrow> t_requests s' = update_where p f (t_requests s) \<Longrightarrow>
    (\<And>r. p r \<Longrightarrow> rq_execution (f r) = rq_execution r) \<Longrightarrow>
    (\<And>r. p r \<Longrightarrow> rq_state (f r) \<notin> set held_states) \<Longrightarrow> not_held e s'"
  by (auto simp: not_held_def list_all_iff update_where_def)

lemma not_held_owner: "not_held e s \<Longrightarrow> \<not> exists_where (owns_request w e l) (t_requests s)"
  unfolding not_held_def list_all_iff exists_where_iff owns_request_def by blast

lemma on_shard_finished_requests [simp]: "t_requests (snd (on_shard_finished job node i st out err now s)) = t_requests s"
  by (simp add: on_shard_finished_def Let_def split: option.splits)

lemma shard_requeue_requests [simp]:
  "t_requests (reset_shard_for_requeue job node e s) = t_requests s"
  "t_requests (fail_shard_for_dead_execution job node e err now s) = t_requests s"
  by (simp_all add: reset_shard_for_requeue_def fail_shard_for_dead_execution_def split: option.splits)

lemma sweep_row_requests:
  assumes "sweep_row b now gens leases fresh r (acc, s) = (acc', s')"
  shows "\<exists>p f. t_requests s' = update_where p f (t_requests s) \<and> (\<forall>q. p q \<longrightarrow> rq_execution (f q) = rq_execution q
      \<and> rq_state (f q) \<notin> set held_states)"
    and "acc' = acc \<or> acc' = acc @ [rq_execution r] \<and> not_held (rq_execution r) s'"
proof -
  have none: "t_requests s = update_where (\<lambda>q. False) (\<lambda>q. q) (t_requests s)" by (simp add: update_where_def)
  have final: "rq_state (done_row o1 now q) \<notin> set held_states" "rq_state (cancelled_row now q) \<notin> set held_states"
    "rq_state (requeued_row q) \<notin> set held_states" "rq_execution (done_row o1 now q) = rq_execution q"
    "rq_execution (cancelled_row now q) = rq_execution q" "rq_execution (requeued_row q) = rq_execution q" for o1 q
    by (simp_all add: done_row_def cancelled_row_def requeued_row_def held_states_def)
  have "(\<exists>p f. t_requests s' = update_where p f (t_requests s) \<and> (\<forall>q. p q \<longrightarrow> rq_execution (f q) = rq_execution q
      \<and> rq_state (f q) \<notin> set held_states)) \<and> (acc' = acc \<or> acc' = acc @ [rq_execution r] \<and> not_held (rq_execution r) s')"
  proof (cases "case rq_lease r of None \<Rightarrow> None | Some l \<Rightarrow> leases l")
    case None
    with assms none show ?thesis by (auto simp: sweep_row_def)
  next
    case (Some status)
    consider (settled) "acc' = acc" "t_requests s' = update_where (\<lambda>q. rq_execution q = rq_execution r \<and> rq_state q \<in> set held_states) (done_row None now) (t_requests s)"
      | (kept) "acc' = acc" "s' = s"
      | (dropped) "acc' = acc" "t_requests s' = update_where (\<lambda>q. rq_execution q = rq_execution r) (cancelled_row now) (t_requests s)"
      | (requeued) "acc' = acc @ [rq_execution r]" "t_requests s' = update_where (\<lambda>q. rq_execution q = rq_execution r) requeued_row (t_requests s)"
      | (failed) "acc' = acc" "t_requests s' = update_where (\<lambda>q. rq_execution q = rq_execution r)
          (done_row (Some (failed_outcome requeue_limit_message)) now) (t_requests s)"
      using assms Some
      by (auto simp: sweep_row_def Let_def requeue_claim_def abandon_claim_def reclaim_lease_def cancel_request_def
          update_runs_def update_nodes_def sync_job_status_def update_job_def split: if_splits)
    then show ?thesis
    proof cases
      case kept
      with none show ?thesis by auto
    next
      case requeued
      then have "not_held (rq_execution r) s'" by (auto simp: not_held_def list_all_iff update_where_def final)
      with requeued final show ?thesis by blast
    qed (use final in blast)+
  qed
  then show "\<exists>p f. t_requests s' = update_where p f (t_requests s) \<and> (\<forall>q. p q \<longrightarrow> rq_execution (f q) = rq_execution q
      \<and> rq_state (f q) \<notin> set held_states)" "acc' = acc \<or> acc' = acc @ [rq_execution r] \<and> not_held (rq_execution r) s'" by blast+
qed

lemma sweep_row_not_held:
  assumes "sweep_row b now gens leases fresh r (acc, s) = (acc', s')" and "not_held e s"
  shows "not_held e s'"
proof -
  from sweep_row_requests(1) [OF assms(1)] obtain p f where
    t: "t_requests s' = update_where p f (t_requests s)" and
    f: "\<And>q. p q \<Longrightarrow> rq_execution (f q) = rq_execution q" "\<And>q. p q \<Longrightarrow> rq_state (f q) \<notin> set held_states" by blast
  show ?thesis by (rule not_held_update [OF assms(2) t f])
qed

lemma sweep_fold_not_held:
  assumes "fold (sweep_row b now gens leases fresh) rows (acc, s) = (acc', s')"
    and "\<forall>e \<in> set acc. not_held e s"
  shows "\<forall>e \<in> set acc'. not_held e s'"
  using assms
proof (induction rows arbitrary: acc s)
  case (Cons r rows)
  obtain acc1 s1 where r: "sweep_row b now gens leases fresh r (acc, s) = (acc1, s1)" by fastforce
  have "\<forall>e \<in> set acc1. not_held e s1"
    using sweep_row_requests(2) [OF r] sweep_row_not_held [OF r] Cons.prems(2) by auto
  moreover have "fold (sweep_row b now gens leases fresh) rows (acc1, s1) = (acc', s')" using Cons.prems(1) r by simp
  ultimately show ?case using Cons.IH by blast
qed simp

lemma sweep_not_held:
  "sweep_expired_claims b locked now s = (requeued, s') \<Longrightarrow> e \<in> set requeued \<Longrightarrow> not_held e s'"
  using sweep_fold_not_held [of b now "job_generation s" "lease_status_of s" "fresh_workers now s"
      "sweep_order b (expired_claims b locked now s)" "[]" s requeued s']
  by (simp add: sweep_expired_claims_def)

lemma mark_done_not_held:
  "mark_done b e w l outcome now s = (Some l', s') \<Longrightarrow> not_held e s'"
proof -
  assume d: "mark_done b e w l outcome now s = (Some l', s')"
  then have "t_requests s' = update_where (\<lambda>r. rq_execution r = e) (done_row (Some outcome) now) (t_requests s)"
    by (auto simp: mark_done_def split: if_splits)
  moreover have "rq_state (done_row (Some outcome) now r) \<notin> set held_states" for r
    by (simp add: done_row_def held_states_def)
  ultimately show ?thesis by (auto simp: not_held_def list_all_iff update_where_def)
qed

text \<open>
  C22. Nothing that arrives late is applied: once a request was closed by its result, or put back into the
  queue by the sweep, neither a result nor a heartbeat of any worker and any lease is accepted for it,
  and the result changes nothing.
\<close>

theorem late_results_rejected:
  assumes "mark_done b e w l outcome now s = (Some l, s')
      \<or> (\<exists>requeued. sweep_expired_claims b locked now s = (requeued, s') \<and> e \<in> set requeued)"
  shows "mark_done b e w2 l2 outcome2 t s' = (None, s') \<and> fst (renew_one b w2 t e l2 s') \<noteq> Renewed
    \<and> snd (renew_one b w2 t e l2 s') = s'"
proof -
  have "not_held e s'" using assms mark_done_not_held sweep_not_held by blast
  then have "\<not> exists_where (owns_request w2 e l2) (t_requests s')" by (rule not_held_owner)
  then show ?thesis by (simp add: mark_done_def renew_one_def split: option.splits)
qed

theorem late_results_rejected_witness:
  "\<exists>s'. mark_done queue_broker ''e1'' ''w'' ''Le1'' [] 9 batch_db = (Some ''Le1'', s')
    \<and> mark_done queue_broker ''e1'' ''w'' ''Le1'' [] 10 s' = (None, s')"
proof -
  have "exists_where (owns_request ''w'' ''e1'' ''Le1'') (t_requests batch_db)" by code_simp
  then obtain s' where d: "mark_done queue_broker ''e1'' ''w'' ''Le1'' [] 9 batch_db = (Some ''Le1'', s')"
    by (simp add: mark_done_def)
  from late_results_rejected [OF disjI1 [OF d]] have "mark_done queue_broker ''e1'' ''w'' ''Le1'' [] 10 s' = (None, s')" by blast
  with d show ?thesis by blast
qed

section \<open>Heartbeats\<close>

lemma touch_touch [simp]: "touch_worker w 0 now (touch_worker w 0 now s) = touch_worker w 0 now s"
  by (simp add: touch_worker_def update_workers_def update_where_def cong: if_cong)

lemma renew_one_touch:
  "renew_one b w now e l (touch_worker w 0 now s) = (fst (renew_one b w now e l s), touch_worker w 0 now (snd (renew_one b w now e l s)))"
proof -
  have hb: "heartbeat_lease l ttl now (touch_worker w 0 now s)
      = (fst (heartbeat_lease l ttl now s), touch_worker w 0 now (snd (heartbeat_lease l ttl now s)))" for ttl s
    by (simp add: heartbeat_lease_def lease_of_def touch_worker_def update_workers_def update_leases_def split: option.splits)
  have note_hb: "note_heartbeat e now (touch_worker w 0 now s) = touch_worker w 0 now (note_heartbeat e now s)"
    by (simp add: note_heartbeat_def touch_worker_def update_workers_def update_requests_def)
  have req: "request_of (touch_worker w 0 now s) e = request_of s e" by (simp add: request_of_def)
  show ?thesis
    unfolding renew_one_def note_hb hb req touch_worker_tables by (simp add: case_prod_beta split: option.splits bool.splits)
qed

lemma single_heartbeat_renew:
  "single_heartbeat b w now e l s =
    (if fst (renew_one b w now e l s) = Renewed then (True, touch_worker w 0 now (snd (renew_one b w now e l s)))
     else (False, snd (renew_one b w now e l s)))"
  by (auto simp: single_heartbeat_def renew_one_def split: option.splits prod.splits bool.splits)

definition single_item ::
  "broker \<Rightarrow> string \<Rightarrow> int \<Rightarrow> string \<times> string \<Rightarrow> string list \<times> db \<Rightarrow> string list \<times> db" where
  "single_item b w now item st =
     (case single_heartbeat b w now (fst item) (snd item) (snd st) of
        (True, s) \<Rightarrow> (fst st @ [fst item], s) | (False, s) \<Rightarrow> (fst st, s))"

lemma renew_items_singles:
  assumes "t = (if ha_renewed answer = [] then s else touch_worker w 0 now s)"
  shows "fold (single_item b w now) items (ha_renewed answer, t) =
    (let (answer', s') = fold (renew_item b w now) items (answer, s) in
      (ha_renewed answer', if ha_renewed answer' = [] then s' else touch_worker w 0 now s'))"
  using assms
proof (induction items arbitrary: answer s t)
  case (Cons item items)
  obtain verdict s1 where r: "renew_one b w now (fst item) (snd item) s = (verdict, s1)" by fastforce
  have t: "renew_one b w now (fst item) (snd item) t = (verdict, if ha_renewed answer = [] then s1 else touch_worker w 0 now s1)"
    using Cons.prems by (simp add: renew_one_touch r)
  obtain answer1 where a: "renew_item b w now item (answer, s) = (answer1, s1)" by (simp add: renew_item_def r)
  then have ren: "ha_renewed answer1 = (if verdict = Renewed then ha_renewed answer @ [fst item] else ha_renewed answer)"
    by (auto simp: renew_item_def r split: renewal.splits)
  have step: "single_item b w now item (ha_renewed answer, t)
      = (ha_renewed answer1, if ha_renewed answer1 = [] then s1 else touch_worker w 0 now s1)"
    unfolding single_item_def single_heartbeat_renew ren snd_conv fst_conv t by simp
  from Cons.IH [OF refl, of answer1 s1] show ?case unfolding fold_Cons comp_def step a by simp
qed simp

text \<open>
  C23. A batch heartbeat is the sequence of single heartbeats of its items: the same executions are
  renewed and the same state is left, worker row included.
\<close>

theorem batch_heartbeat_singles:
  "(ha_renewed (fst (batch_heartbeat b w now items s)), snd (batch_heartbeat b w now items s))
    = fold (single_item b w now) (batch_items items) ([], s)"
  using renew_items_singles [of s "\<lparr>ha_renewed = [], ha_lost = [], ha_settled = []\<rparr>" s w now b "batch_items items"]
  by (simp add: batch_heartbeat_def case_prod_beta)

end
