(* ===== verification/Broker_Sweep_Properties.thy ===== *)
theory Broker_Sweep_Properties
  imports Broker_Queue_Properties
begin

text \<open>
  The sweep of requests that no worker can claim agrees with the admission of a claim; and two concrete
  runs in which the broker falls short of its documentation.
\<close>

section \<open>Requests no worker can claim\<close>

definition manifest_text :: "pydict \<Rightarrow> string \<Rightarrow> string" where
  "manifest_text m k = text_value (pget (mapping_of (pget m ''execution'')) k)"

lemma decide_text: "k \<noteq> ''timeout_seconds'' \<Longrightarrow> manifest_text (decide_claim_timeout ''agent'' ov m) k = manifest_text m k"
  by (simp add: manifest_text_def decide_claim_timeout_def write_timeout_def case_prod_beta split: option.splits)

text \<open>The override of the timeout decides neither whether a manifest exists nor its provider and model.\<close>

lemma live_manifest_override:
  assumes "live_claim_manifest b (c\<lparr>cd_override := o1\<rparr>) = Inr m1"
  shows "\<exists>m2. live_claim_manifest b (c\<lparr>cd_override := o2\<rparr>) = Inr m2
    \<and> (\<forall>k. k \<noteq> ''timeout_seconds'' \<longrightarrow> manifest_text m2 k = manifest_text m1 k)"
proof -
  have strip: "manifest_text (pset ''command_spec'' v m) k = manifest_text m k" for v m k
    by (simp add: manifest_text_def)
  obtain pinned ne resolved ma rt where "pget ma ''timeout_base'' = pget (rq_manifest (cd_row c)) ''timeout_base''"
    "pget ma ''execution'' = pget (rq_manifest (cd_row c)) ''execution''"
    and live: "\<And>ov. live_claim_manifest b (c\<lparr>cd_override := ov\<rparr>) =
      (case adapter_contract rt of None \<Rightarrow> Inl (UnknownRuntime rt)
       | Some ct \<Rightarrow> bindE (validate_execution_contract (rq_node (cd_row c)) rt resolved)
           (\<lambda>_. Inr (finish_manifest b pinned ne resolved ma ct ov)))" by (rule live_manifest_form [where b = b and c = c]) (rule that)
  have same: "manifest_text (finish_manifest b pinned ne resolved ma ct ov) k = manifest_text (finish_manifest b pinned ne resolved ma ct ov') k"
    if "k \<noteq> ''timeout_seconds''" for ct ov ov' k
    using that by (simp add: finish_manifest_def Let_def strip decide_text)
  from assms obtain ct where ct: "adapter_contract rt = Some ct"
    "validate_execution_contract (rq_node (cd_row c)) rt resolved = Inr ()" "m1 = finish_manifest b pinned ne resolved ma ct o1"
    unfolding live by (auto simp: err_simps split: option.splits)
  show ?thesis
    by (rule exI [of _ "finish_manifest b pinned ne resolved ma ct o2"]) (use ct same in \<open>auto simp: live\<close>)
qed

lemma worker_can_run_text:
  "manifest_text m1 ''provider'' = manifest_text m2 ''provider'' \<Longrightarrow> manifest_text m1 ''model'' = manifest_text m2 ''model'' \<Longrightarrow>
    worker_can_run c m1 ws = worker_can_run c m2 ws"
  by (simp add: worker_can_run_def manifest_text_def Let_def)

lemma unmatched_iff: "unmatched_reasons c m ws = [] \<longleftrightarrow> list_ex (runnable_by c m) ws"
  by (simp add: unmatched_reasons_def Let_def)

lemma unclaimable_admission:
  assumes "unclaimable_error b (sweep_candidate b s r) (declarations s) = Some err"
    and "rq_kind r = ''agent''" and "k \<in> set (t_workers s)" and "wk_revoked k = None"
  shows "fst (admit_candidate b (make_candidate b s doc r) (build_worker_view k pools s) st) = None"
proof (cases "admit_candidate b (make_candidate b s doc r) (build_worker_view k pools s) st")
  case (Pair mo st1)
  show ?thesis
  proof (cases mo)
    case (Some m)
    let ?c = "make_candidate b s doc r" and ?d = "(wk_runtimes k, worker_model_declarations k)"
    note ad = admit_Some [OF Pair [unfolded Some]]
    from ad(1) assms(2) have "live_claim_manifest b (?c\<lparr>cd_override := cd_override ?c\<rparr>) = Inr m"
      by (simp add: claim_manifest_def make_candidate_def)
    from live_manifest_override [OF this, of None] obtain m2 where
      m2: "live_claim_manifest b (?c\<lparr>cd_override := None\<rparr>) = Inr m2"
        "manifest_text m2 ''provider'' = manifest_text m ''provider''" "manifest_text m2 ''model'' = manifest_text m ''model''"
      by auto
    have sweep: "sweep_candidate b s r = ?c\<lparr>cd_override := None\<rparr>" by (simp add: sweep_candidate_def make_candidate_def)
    from ad(2) assms(2) obtain rt where rt: "cd_runtime ?c = Some rt" "rt \<in> set (wk_runtimes k)"
      and run: "worker_can_run ?c m (worker_model_declarations k)"
      by (cases pools) (auto simp: pool_reason_def Let_def build_worker_view_def make_candidate_def split: if_splits option.splits)
    have "worker_can_run (sweep_candidate b s r) m2 (worker_model_declarations k)"
      using run unfolding worker_can_run_text [OF m2(2,3)] sweep by (simp add: worker_can_run_def)
    then have "runnable_by (sweep_candidate b s r) m2 ?d"
      using rt by (simp add: runnable_by_def sweep declared_or_def)
    moreover have "?d \<in> set (declarations s)" using assms(3,4) by (auto simp: declarations_def)
    ultimately have "unmatched_reasons (sweep_candidate b s r) m2 (declarations s) = []"
      unfolding unmatched_iff list_ex_iff by blast
    with assms(1) m2(1) sweep show ?thesis by (simp add: unclaimable_error_def)
  qed (simp add: Pair)
qed

lemma fail_unclaimable_fold:
  "e \<in> set (fst (fold (fail_unclaimable_row b u locked now ws) cs st)) \<Longrightarrow>
    e \<in> set (fst st) \<or> (\<exists>c \<in> set cs. cd_execution c = e \<and> unclaimable_error b c ws \<noteq> None)"
proof (induction cs arbitrary: st)
  case (Cons c cs)
  then have "e \<in> set (fst (fail_unclaimable_row b u locked now ws c st))
      \<or> (\<exists>c \<in> set cs. cd_execution c = e \<and> unclaimable_error b c ws \<noteq> None)" by simp
  moreover have "e \<in> set (fst (fail_unclaimable_row b u locked now ws c st)) \<Longrightarrow>
      e \<in> set (fst st) \<or> cd_execution c = e \<and> unclaimable_error b c ws \<noteq> None"
    by (auto simp: fail_unclaimable_row_def split: option.splits prod.splits bool.splits)
  ultimately show ?case by auto
qed simp

lemma sweep_order_set [simp]: "set (sweep_order b rows) = set rows"
  by (simp add: sweep_order_def)

text \<open>
  C24. The sweep of unclaimable requests agrees with the claim: every request it fails is a queued agent
  request that the admission of a claim rejects for every registered worker, whatever override,
  loads, labels and pools that claim sees.
\<close>

theorem swept_requests_unclaimable:
  assumes "fail_unclaimable_model_requests b u locked now s = (failed, s')" and "e \<in> set failed"
  shows "\<exists>r \<in> set (t_requests s). rq_execution r = e \<and> rq_state r = ''queued'' \<and> rq_kind r = ''agent''
    \<and> (\<forall>k doc pools st. k \<in> set (t_workers s) \<and> wk_revoked k = None \<longrightarrow>
        fst (admit_candidate b (make_candidate b s doc r) (build_worker_view k pools s) st) = None)"
proof -
  have "declarations s \<noteq> []" using assms by (auto simp: fail_unclaimable_model_requests_def)
  with assms have "e \<in> set (fst (fold (fail_unclaimable_row b u locked now (declarations s))
      (map (sweep_candidate b s) (sweep_order b (unclaimable_window b s))) ([], s)))"
    by (simp add: fail_unclaimable_model_requests_def)
  from fail_unclaimable_fold [OF this] obtain r err where r: "r \<in> set (unclaimable_window b s)"
    "cd_execution (sweep_candidate b s r) = e" "unclaimable_error b (sweep_candidate b s r) (declarations s) = Some err"
    by auto
  from r(1) have q: "r \<in> set (t_requests s)" "rq_state r = ''queued''" "rq_kind r = ''agent''"
    by (auto simp: unclaimable_window_def dest!: in_set_takeD)
  moreover have "rq_execution r = e" using r(2) by (simp add: sweep_candidate_def make_candidate_def)
  ultimately show ?thesis using unclaimable_admission [OF r(3) q(3)] by blast
qed

definition foreign_request :: request_row where
  "foreign_request = (queue_request ''e3'' ''j1'')\<lparr>rq_kind := ''agent'', rq_runtime := Some ''pi'',
     rq_manifest := [(PStr ''execution'', PDict [(PStr ''provider'', PStr ''p''), (PStr ''model'', PStr ''m'')])]\<rparr>"

definition foreign_db :: db where
  "foreign_db = queue_db\<lparr>t_requests := [foreign_request]\<rparr>"

definition no_tables :: unicode_tables where
  "no_tables = \<lparr>uc_digit = (\<lambda>s. False), uc_word = (\<lambda>s. False)\<rparr>"

theorem swept_requests_unclaimable_witness:
  "\<exists>r \<in> set (t_requests foreign_db). rq_execution r = ''e3''
    \<and> fst (admit_candidate queue_broker (make_candidate queue_broker foreign_db None r)
        (build_worker_view queue_worker (1, 2, []) foreign_db) initial_scan) = None"
proof -
  have "fst (fail_unclaimable_model_requests queue_broker no_tables [] 9 foreign_db) = [''e3'']" by code_simp
  then obtain s' where s': "fail_unclaimable_model_requests queue_broker no_tables [] 9 foreign_db = ([''e3''], s')"
    by (cases "fail_unclaimable_model_requests queue_broker no_tables [] 9 foreign_db") simp
  have "queue_worker \<in> set (t_workers foreign_db) \<and> wk_revoked queue_worker = None" by code_simp
  with swept_requests_unclaimable [OF s', of "''e3''"] show ?thesis by auto
qed

section \<open>Two expired shards of one node\<close>

definition shard_claim :: "string \<Rightarrow> nat \<Rightarrow> request_row" where
  "shard_claim e i = (queue_request e ''j1'')\<lparr>rq_state := ''claimed'', rq_worker := Some ''w'',
     rq_lease := Some (CHR ''L'' # e), rq_run := Some (int i), rq_attempt := 1, rq_claimed := Some 0, rq_heartbeat := Some 0,
     rq_manifest := [(PStr ''shard_index'', PInt (int i))]\<rparr>"

definition shard_lease :: "string \<Rightarrow> nat \<Rightarrow> lease_row" where
  "shard_lease e i = \<lparr>le_id = CHR ''L'' # e, le_execution = e, le_executor = ''agent:code:run'', le_workspace = ''ws'',
     le_job = ''j1'', le_node = ''n'', le_run = int i, le_status = ''active'', le_acquired = 0, le_heartbeat = 0,
     le_expires = 30000000, le_generation = 0\<rparr>"

definition running_shard :: "string \<Rightarrow> nat \<Rightarrow> shard_row" where
  "running_shard e i = (pending_shard ''j1'' ''n'' i [])\<lparr>sd_status := ''running'', sd_execution := e\<rparr>"

definition sharded_db :: db where
  "sharded_db = queue_db\<lparr>t_jobs := [(queue_job ''j1'')\<lparr>j_status := ''running''\<rparr>],
     t_nodes := [(queue_node ''j1'')\<lparr>jn_status := ''running''\<rparr>],
     t_shards := [running_shard ''e1'' 0, running_shard ''e2'' 1],
     t_requests := [shard_claim ''e1'' 0, shard_claim ''e2'' 1],
     t_leases := [shard_lease ''e1'' 0, shard_lease ''e2'' 1]\<rparr>"

text \<open>
  A worker dies with two shards of one node. The sweep puts the first one back into the queue and with
  it sets the node to pending; for the second one the node now looks finished elsewhere, so its request is
  cancelled while its shard row stays running, and a claim of that shard is refused. One run, computed.
\<close>

lemma sweep_strands_second_shard:
  "fst (sweep_expired_claims queue_broker [] 99000000 sharded_db) = [''e1'']
    \<and> map rq_state (t_requests (snd (sweep_expired_claims queue_broker [] 99000000 sharded_db))) = [''queued'', ''cancelled'']
    \<and> map sd_status (t_shards (snd (sweep_expired_claims queue_broker [] 99000000 sharded_db))) = [''pending'', ''running'']
    \<and> map jn_status (t_nodes (snd (sweep_expired_claims queue_broker [] 99000000 sharded_db))) = [''pending'']
    \<and> try_start_shard ''j1'' ''n'' 1 ''e3'' 99000001 (Some 0) (snd (sweep_expired_claims queue_broker [] 99000000 sharded_db)) = None"
proof (intro conjI)
  let ?r = "sweep_expired_claims queue_broker [] 99000000 sharded_db"
  show "fst ?r = [''e1'']" by code_simp
  show "map rq_state (t_requests (snd ?r)) = [''queued'', ''cancelled'']" by code_simp
  show "map sd_status (t_shards (snd ?r)) = [''pending'', ''running'']" by code_simp
  show "map jn_status (t_nodes (snd ?r)) = [''pending'']" by code_simp
  have "case try_start_shard ''j1'' ''n'' 1 ''e3'' 99000001 (Some 0) (snd ?r) of None \<Rightarrow> True | _ \<Rightarrow> False" by code_simp
  then show "try_start_shard ''j1'' ''n'' 1 ''e3'' 99000001 (Some 0) (snd ?r) = None" by (simp split: option.splits)
qed

section \<open>A paused job at the head of the queue\<close>

definition head_paused_db :: db where
  "head_paused_db = queue_db\<lparr>t_jobs := [(queue_job ''j1'')\<lparr>j_paused := True, j_status := ''paused''\<rparr>, queue_job ''j2'']\<rparr>"

definition paused_batch :: "nat \<Rightarrow> (claim_outcome \<times> nat \<times> db) option" where
  "paused_batch count = claim_batch queue_broker (queue_tx 5) ''w'' undeclared count unlimited 0 head_paused_db head_paused_db"

text \<open>
  A batch claim for one slot that finds the request of a paused job at the head of the queue claims nothing and
  leaves the queue as it is, so the next one starts over, although a request of another job is
  claimable: the same batch for two slots and the single claim both get it.
\<close>

theorem paused_head_starves_batch:
  "map_option (\<lambda>(out, _, s). (co_claims out = [], map rq_state (t_requests s))) (paused_batch 1) = Some (True, [''queued'', ''queued''])
    \<and> map_option (\<lambda>(out, _, s). map ac_execution (co_claims out)) (paused_batch 2) = Some [''e2'']
    \<and> map_option (\<lambda>(out, _, s). map ac_execution (co_claims out))
        (claim_in_transaction queue_broker (queue_tx 5) ''w'' undeclared 0 head_paused_db) = Some [''e2'']"
proof (intro conjI)
  show "map_option (\<lambda>(out, _, s). (co_claims out = [], map rq_state (t_requests s))) (paused_batch 1) = Some (True, [''queued'', ''queued''])"
    by code_simp
  show "map_option (\<lambda>(out, _, s). map ac_execution (co_claims out)) (paused_batch 2) = Some [''e2'']" by code_simp
  show "map_option (\<lambda>(out, _, s). map ac_execution (co_claims out))
        (claim_in_transaction queue_broker (queue_tx 5) ''w'' undeclared 0 head_paused_db) = Some [''e2'']" by code_simp
qed

end
