(* ===== verification/Queue_Frames.thy ===== *)
theory Queue_Frames
  imports Lease_System Broker_Sweeps
begin

text \<open>
  What the transactions of the local lane do to the request queue: they cancel queued requests, drop
  the requests of a deleted job, and keep every lease a request may refer to.
\<close>

section \<open>Keeping the queue\<close>

definition leases_forward :: "db \<Rightarrow> db \<Rightarrow> bool" where
  "leases_forward s s' \<longleftrightarrow> (\<forall>l \<in> set (t_leases s). \<exists>l' \<in> set (t_leases s'). lease_keeps l l')"

definition only_cancels :: "db \<Rightarrow> db \<Rightarrow> bool" where
  "only_cancels s s' \<longleftrightarrow> (\<exists>p f. t_requests s' = update_where p f (t_requests s)
     \<and> (\<forall>r. rq_execution (f r) = rq_execution r \<and> rq_state (f r) = ''cancelled'' \<and> rq_attempt (f r) = rq_attempt r))"

definition queue_keeps :: "db \<Rightarrow> db \<Rightarrow> bool" where
  "queue_keeps s s' \<longleftrightarrow> only_cancels s s' \<and> leases_forward s s'"

lemma only_cancels_same [intro]: "t_requests s' = t_requests s \<Longrightarrow> only_cancels s s'"
  unfolding only_cancels_def
  by (intro exI [of _ "\<lambda>r. False"] exI [of _ "\<lambda>r. r\<lparr>rq_state := ''cancelled''\<rparr>"]) (simp add: update_where_def)

lemma only_cancels_row:
  "t_requests s' = update_where p (\<lambda>r. r\<lparr>rq_state := ''cancelled'', rq_finished := Some now, rq_trimmed := True\<rparr>) (t_requests s)
    \<Longrightarrow> only_cancels s s'"
  unfolding only_cancels_def by (intro exI [of _ p] exI conjI) (assumption, simp)

lemma forward_same [intro]: "t_leases s' = t_leases s \<Longrightarrow> leases_forward s s'"
  by (auto simp: leases_forward_def)

lemma forward_append: "t_leases s' = t_leases s @ xs \<Longrightarrow> leases_forward s s'"
  by (auto simp: leases_forward_def)

lemma forward_update:
  assumes "t_leases s' = update_where p f (t_leases s)" and "\<And>l. p l \<Longrightarrow> lease_keeps l (f l)"
  shows "leases_forward s s'"
  unfolding leases_forward_def
proof
  fix l
  assume "l \<in> set (t_leases s)"
  then have "(if p l then f l else l) \<in> set (t_leases s')" by (auto simp: assms(1) set_update_where)
  moreover have "lease_keeps l (if p l then f l else l)" using assms(2) by simp
  ultimately show "\<exists>l' \<in> set (t_leases s'). lease_keeps l l'" by blast
qed

lemma queue_keeps_same: "t_requests s' = t_requests s \<Longrightarrow> t_leases s' = t_leases s \<Longrightarrow> queue_keeps s s'"
  by (auto simp: queue_keeps_def)

section \<open>The tables the operations leave alone\<close>

lemma sync_requests [simp]:
  "t_requests (sync_job_status now job s) = t_requests s"
  "t_requests (pause_job_on_target_completion job node now s) = t_requests s"
  by (auto simp: sync_job_status_def pause_job_on_target_completion_def split: option.splits)

lemma update_run_requests [simp]: "t_requests (update_runs p f s) = t_requests s"
  by (simp add: update_runs_def)

lemma update_lease_requests [simp]: "t_requests (update_leases p f s) = t_requests s"
  by (simp add: update_leases_def)

lemma delete_requests [simp]:
  "t_requests (delete_shards job ks s) = t_requests s" "t_requests (clear_run_dirs job ks s) = t_requests s"
  "t_requests (stale_descendant job gen now k s) = t_requests s"
  by (simp_all add: delete_shards_def clear_run_dirs_def stale_descendant_def)

lemma settle_requests [simp]:
  "t_requests (settle_run env le r s) = t_requests s" "t_requests (settle_expired le now s) = t_requests s"
  by (simp_all add: settle_run_def settle_expired_def Let_def split_beta)

lemma flip_requests [simp]:
  "t_requests (flip_node env le r s) = t_requests s" "t_requests (expire_flip_node le now s) = t_requests s"
  unfolding flip_node_def expire_flip_node_def Let_def split_beta
  by (auto simp: try_return_node_to_pending_def split: option.splits if_splits)

lemma fold_stale_requests [simp]:
  "t_requests (fold (stale_descendant job gen now) ds s) = t_requests s"
  by (induction ds arbitrary: s) simp_all

lemma reset_target_requests: "reset_target job gen now k s = Inr s' \<Longrightarrow> t_requests s' = t_requests s"
  by (auto simp: reset_target_def err_simps)

lemma foldE_reset_requests: "foldE (reset_target job gen now) ks s = Inr s' \<Longrightarrow> t_requests s' = t_requests s"
proof (induction ks arbitrary: s)
  case (Cons k ks)
  then obtain s1 where s1: "reset_target job gen now k s = Inr s1" "foldE (reset_target job gen now) ks s1 = Inr s'"
    by (auto simp: err_simps)
  from Cons.IH [OF s1(2)] reset_target_requests [OF s1(1)] show ?case by simp
qed simp

lemma bump_requests: "bump_generation f job now s = Inr (g, s') \<Longrightarrow> t_requests s' = t_requests s \<and> t_leases s' = t_leases s"
  by (auto simp: bump_generation_def Let_def split: option.splits)

lemma retire_requests: "retire_artifact_rows_by_name job names s = (rows, s') \<Longrightarrow> t_requests s' = t_requests s"
  by (auto simp: retire_artifact_rows_by_name_def Let_def)

section \<open>Each transaction keeps the queue\<close>

lemma keeps_claim:
  assumes "claim_lease r ev s = Inr (Some (ce, s'))"
  shows "queue_keeps s s'"
proof -
  from claim_lease_Some [OF assms] obtain s1 lg where
    st: "start_node_run r ev (cr_generation r) s = Some s1" and s': "s' = snd (record_claim r ev lg s1)"
    by (metis snd_conv)
  have "t_requests s1 = t_requests s"
    using st by (auto simp: start_node_run_def try_start_shard_def Let_def split: option.splits if_splits)
  then have "t_requests s' = t_requests s" by (simp add: s' record_claim_def Let_def)
  moreover have "t_leases s' = t_leases s @ [new_lease r ev (t_next_run s1)]"
    by (simp add: s' record_claim_tables start_node_run_Some [OF st])
  ultimately show ?thesis by (auto simp: queue_keeps_def intro: forward_append)
qed

lemma keeps_heartbeat: "queue_keeps s (snd (heartbeat_lease l ttl now s))"
proof -
  have "t_requests (snd (heartbeat_lease l ttl now s)) = t_requests s"
    by (simp add: heartbeat_lease_def split: option.splits)
  moreover have "leases_forward s (snd (heartbeat_lease l ttl now s))"
  proof (cases "snd (heartbeat_lease l ttl now s) = s")
    case False
    then obtain p f where u: "t_leases (snd (heartbeat_lease l ttl now s)) = update_where p f (t_leases s)"
      and f: "\<And>x. lease_keeps x (f x)"
      by (auto simp: heartbeat_lease_def lease_keeps_def lease_place_def split: option.splits if_splits)
    show ?thesis by (rule forward_update [OF u f])
  qed (auto simp: leases_forward_def)
  ultimately show ?thesis by (auto simp: queue_keeps_def)
qed

lemma forward_settle:
  "leases_forward s (settle_run env le r s)" "leases_forward s (settle_expired le now s)"
  by (rule forward_update, simp, simp add: lease_keeps_def lease_place_def)+

lemma keeps_finish:
  assumes "lease_inv s"
  shows "queue_keeps s (snd (finish_lease env l r s))"
proof (rule finish_cases [OF assms, of env l r])
  fix le r'
  assume eq: "snd (finish_lease env l r s) = flip_node env le r' (settle_run env le r' s)"
  show ?thesis
    using forward_settle(1) [of s env le r'] by (auto simp: eq queue_keeps_def leases_forward_def flip_node_tables)
qed (auto simp: queue_keeps_def forward_settle)

lemma expire_cases:
  assumes "lease_inv s"
  obtains "snd (expire_lease_row le now s) = s" | "snd (expire_lease_row le now s) = settle_expired le now s"
    | "snd (expire_lease_row le now s) = expire_flip_node le now (settle_expired le now s)"
proof -
  have ns: "shard_index_for_execution (le_job le) (le_node le) (le_execution le) (settle_expired le now s) = None"
    by (rule no_shards [OF inv_settle_expired [OF assms]])
  show ?thesis
    using that by (cases "count_where (\<lambda>l. active_lease (le_id le) l \<and> le_expires l \<le> now) (t_leases s) = 0";
        cases "job_generation s (le_job le) = Some (le_generation le)") (simp_all add: expire_lease_row_def Let_def ns)
qed

lemma keeps_expire:
  assumes "lease_inv s"
  shows "queue_keeps s (snd (expire_lease_row le now s))"
  by (rule expire_cases [OF assms, of le now])
    (use forward_settle(2) [of s le now] in \<open>auto simp: queue_keeps_def leases_forward_def expire_flip_tables expire_flip_node_def Let_def\<close>)

lemma keeps_recover: "queue_keeps s (snd (recover_orphaned_job job now s))"
  by (rule queue_keeps_same) (simp_all add: recover_orphaned_job_def Let_def split: option.splits)

lemma keeps_park: "queue_keeps s (snd (park_awaiting_approval job node gen now s))"
  by (rule queue_keeps_same) (simp_all add: park_awaiting_approval_def Let_def)

lemma keeps_fail: "queue_keeps s (snd (fail_without_lease u job node gen err lg now s))"
  by (rule queue_keeps_same)
    (simp_all add: fail_without_lease_def record_failed_node_def Let_def split: option.splits prod.splits)

lemma keeps_empty: "queue_keeps s (snd (complete_empty_shard_node job node gen now s))"
  by (rule queue_keeps_same) (simp_all add: complete_empty_shard_node_def Let_def)

lemma keeps_rerun:
  assumes m: "mark_nodes_for_rerun job targets downstream staged now s = Inr (rows, s')"
  shows "queue_keeps s s'"
proof -
  let ?affected = "dedup (targets @ rerun_descendants targets downstream)"
  obtain retired s1 where r: "retire_artifact_rows_by_name job staged s = (retired, s1)" by force
  from m obtain gen s3 s4 where
    b: "bump_generation (\<lambda>j. j\<lparr>j_status := ''queued'', j_error := [], j_packed := False\<rparr>) job now
      (delete_shards job ?affected (clear_run_dirs job ?affected s1)) = Inr (gen, s3)"
    and f: "foldE (reset_target job gen now) targets s3 = Inr s4"
    and s': "s' = cancel_queued job ?affected now (fold (stale_descendant job gen now) (rerun_descendants targets downstream) s4)"
    unfolding mark_nodes_for_rerun_def Let_def r by (auto simp: err_simps)
  have q: "t_requests s4 = t_requests s" "t_leases s4 = t_leases s"
    using foldE_reset_requests [OF f] bump_requests [OF b] retire_requests [OF r] retire_tables [OF r] foldE_reset_tables [OF f]
    by simp_all
  have "only_cancels s s'" by (rule only_cancels_row) (simp add: s' cancel_queued_def q)
  moreover have "t_leases s' = t_leases s" by (simp add: s' q)
  ultimately show ?thesis by (auto simp: queue_keeps_def)
qed

lemma keeps_run_to:
  assumes m: "apply_run_to job target closure reset staged now s = Inr (rows, s')"
  shows "queue_keeps s s'"
proof -
  define resets where "resets = (case reset of Some r \<Rightarrow> r | None \<Rightarrow> default_reset_nodes job closure s)"
  obtain retired s1 where r: "(if staged \<noteq> [] \<and> resets \<noteq> [] then retire_artifact_rows_by_name job staged s else ([], s)) = (retired, s1)"
    by force
  have s1: "t_requests s1 = t_requests s" using r by (auto simp: retire_artifact_rows_by_name_def Let_def split: if_splits)
  obtain t where t: "node_of s job target = Some t" using m by (auto simp: apply_run_to_def split: option.splits)
  from m obtain gen s2 where b: "bump_generation (run_to_control target) job now s1 = Inr (gen, s2)"
    and q: "t_requests s' = update_where (\<lambda>r. rq_job r = job \<and> rq_node r \<in> set (closure @ resets) \<and> rq_state r = ''queued'')
        (\<lambda>r. r\<lparr>rq_state := ''cancelled'', rq_finished := Some now, rq_trimmed := True\<rparr>) (t_requests s2)"
    unfolding apply_run_to_def t option.case Let_def resets_def [symmetric] r
    by (auto simp: err_simps set_run_to_control_bump_def cancel_queued_def)
  have "only_cancels s s'" using q bump_requests [OF b] s1 by (intro only_cancels_row) simp
  moreover from apply_run_to_stages [OF m] obtain s1' gen' s2' where
    "bump_generation (run_to_control target) job now s1' = Inr (gen', s2')" "t_leases s1' = t_leases s" "t_leases s' = t_leases s2'"
    by blast
  then have "t_leases s' = t_leases s" using bump_requests by metis
  ultimately show ?thesis by (auto simp: queue_keeps_def)
qed

lemma keeps_upgrade:
  assumes m: "upgrade_job_workflow_inherit job pin nkeys inherit staged keep full removed now s = Inr (st, s')"
  shows "queue_keeps s s'"
proof -
  define kept where "kept = kept_nodes job nkeys inherit s"
  define reset where "reset = filter (\<lambda>k. k \<notin> set kept) nkeys"
  define renamed where "renamed = (case removed of Some ks \<Rightarrow> ks
      | None \<Rightarrow> filter (\<lambda>k. k \<notin> set nkeys) (existing_node_keys job s))"
  from m obtain gen s1 where
    b: "bump_generation (pin_job pin (if reset \<noteq> [] then ''queued'' else summarize_job_status (map (\<lambda>k. ''completed'') kept))) job now s
      = Inr (gen, s1)"
    unfolding upgrade_job_workflow_inherit_def Let_def kept_def [symmetric] reset_def [symmetric]
    by (auto simp: bindE_eq_Inr)
  define s2 where "s2 = clean_executions job kept (reset @ renamed) now
      (clear_run_dirs job (reset @ renamed) (rebuild_nodes job kept reset gen now s1))"
  obtain rows s3 where art: "(if kept \<noteq> [] \<or> \<not> full then delete_reset_artifact_rows job reset staged renamed s2
      else delete_all_artifact_rows job keep s2) = (rows, s3)" by force
  have "upgrade_job_workflow_inherit job pin nkeys inherit staged keep full removed now s =
      Inr (\<lparr>us_kept = length kept, us_rerun = length reset, us_deleted = rows\<rparr>, s3)"
    unfolding upgrade_job_workflow_inherit_def Let_def kept_def [symmetric] reset_def [symmetric] renamed_def [symmetric] b
      bindE.simps split s2_def [symmetric] art by simp
  with m have s': "s' = s3" by simp
  have art': "delete_reset_artifact_rows job reset staged renamed s2 = (rows, s3) \<or> delete_all_artifact_rows job keep s2 = (rows, s3)"
    using art by (auto split: if_splits)
  note tables = artifact_rows_tables [OF art']
  have base: "t_requests (rebuild_nodes job kept reset gen now s1) = t_requests s"
    using bump_requests [OF b] by (simp add: rebuild_nodes_def)
  have "only_cancels s s2"
  proof (cases "kept = []")
    case True
    show ?thesis
      by (rule only_cancels_row [where p = "\<lambda>r. rq_job r = job \<and> rq_state r = ''queued''" and now = now])
        (simp add: s2_def clean_executions_def True cancel_queued_requests_for_job_def base [unfolded True])
  next
    case False
    show ?thesis
      by (rule only_cancels_row [where p = "\<lambda>r. rq_job r = job \<and> rq_node r \<in> set (reset @ renamed) \<and> rq_state r = ''queued''" and now = now])
        (simp add: s2_def clean_executions_def False cancel_queued_def base)
  qed
  then have "only_cancels s s'" unfolding only_cancels_def s' tables by simp
  moreover have "t_leases s' = t_leases s" using upgrade_stages [OF m] by blast
  ultimately show ?thesis by (auto simp: queue_keeps_def)
qed

lemma keeps_resume: "resume_job_between job now s0 s = Inr s' \<Longrightarrow> queue_keeps s s'"
proof -
  assume "resume_job_between job now s0 s = Inr s'"
  then obtain reason where "resume_update job reason now s = Inr s'"
    by (auto simp: resume_job_between_def err_simps split: option.splits)
  from resume_update_Inr [OF this] show ?thesis by (auto intro: queue_keeps_same)
qed

lemma keeps_pause:
  "queue_keeps s (snd (mark_execution_paused job reason now s))" "queue_keeps s (snd (clear_execution_paused job now s))"
  by (rule queue_keeps_same; simp add: mark_execution_paused_def clear_execution_paused_def Let_def)+

text \<open>Every step of the local lane keeps the queue or deletes a whole job.\<close>

lemma lease_step_queue:
  assumes inv: "lease_inv s" and step: "lease_step s s'"
  shows "queue_keeps s s' \<or> (\<exists>job. delete_job job s = Inr s')"
  using step
proof cases
  case (step_rerun job now rr targets downstream staged rows)
  then show ?thesis using keeps_rerun lease_guarded_Inr by metis
next
  case (step_run_to job now target closure reset staged rows)
  then show ?thesis using keeps_run_to lease_guarded_Inr by metis
next
  case (step_upgrade job now pin nkeys inherit staged keep full removed st)
  then show ?thesis using keeps_upgrade lease_guarded_Inr by metis
next
  case (step_claim r ev ce)
  then show ?thesis using keeps_claim by metis
next
  case (step_heartbeat l ttl now)
  then show ?thesis using keeps_heartbeat by simp
next
  case (step_finish env l r)
  then show ?thesis using keeps_finish [OF inv] by simp
next
  case (step_expire le now)
  then show ?thesis using keeps_expire [OF inv] by simp
next
  case (step_recover job now)
  then show ?thesis using keeps_recover by simp
next
  case (step_park job node gen now)
  then show ?thesis using keeps_park by simp
next
  case (step_fail u job node gen err lg now)
  then show ?thesis using keeps_fail by simp
next
  case (step_empty job node gen now)
  then show ?thesis using keeps_empty by simp
next
  case (step_resume job now s0)
  then show ?thesis using keeps_resume by metis
next
  case (step_pause job reason now)
  then show ?thesis using keeps_pause(1) by simp
next
  case (step_unpause job now)
  then show ?thesis using keeps_pause(2) by simp
next
  case (step_delete job)
  then show ?thesis by blast
qed

end
