(* ===== verification/Broker_System.thy ===== *)
theory Broker_System
  imports Queue_Frames Broker_Queue_Properties
begin

text \<open>
  Both execution lanes as one transition system on the database: the transactions of the local lane,
  and those of the agent broker (enqueue, one candidate of a claim, heartbeat, release, close, sweeps).
  The invariant ties the requests a worker holds to the lease rows.
\<close>

section \<open>Transitions\<close>

inductive broker_step :: "broker \<Rightarrow> db \<Rightarrow> db \<Rightarrow> bool" for b :: broker where
  step_local: "lease_step s s' \<Longrightarrow> broker_step b s s'"
| step_enqueue: "enqueue_request_tx b routes q uuid now s = Inr (Some (e, s')) \<Longrightarrow> broker_step b s s'"
| step_view: "prepare_claim_view w d s = Some (v, s') \<Longrightarrow> broker_step b s s'"
| step_candidate: "evaluate_candidate b tx w c v frozen st0 s = (verdict, st, s') \<Longrightarrow> lockless tx \<Longrightarrow>
    sound_candidate s c \<Longrightarrow> tx_uuid tx (cd_execution c) \<notin> le_id ` set (t_leases s) \<Longrightarrow> broker_step b s s'"
| step_touch: "broker_step b s (touch_worker w interval now s)"
| step_renew: "broker_step b s (snd (renew_one b w now e l s))"
| step_release: "broker_step b s (snd (release_slot e w l s))"
| step_close: "broker_step b s (snd (mark_done b e w l outcome now s))"
| step_sweep: "broker_step b s (snd (sweep_expired_claims b locked now s))"
| step_stale: "broker_step b s (snd (fail_stale_definition_requests b u locked now s))"
| step_unclaimable: "broker_step b s (snd (fail_unclaimable_model_requests b u locked now s))"

section \<open>The invariant\<close>

text \<open>A held request has a lease row of its own execution, node and epoch.\<close>

definition linked :: "lease_row set \<Rightarrow> request_row \<Rightarrow> bool" where
  "linked ls r \<longleftrightarrow> (\<exists>l \<in> ls. rq_lease r = Some (le_id l) \<and> le_execution l = rq_execution r
     \<and> lease_place l = (rq_job r, rq_node r) \<and> le_generation l = rq_generation r)"

definition row_ok :: "int \<Rightarrow> lease_row set \<Rightarrow> request_row \<Rightarrow> bool" where
  "row_ok limit ls r \<longleftrightarrow> (rq_state r \<in> set held_states \<longrightarrow> linked ls r)
     \<and> rq_attempt r \<le> limit + 1 \<and> (rq_state r = ''queued'' \<longrightarrow> rq_attempt r \<le> limit)"

definition queue_ok :: "int \<Rightarrow> db \<Rightarrow> bool" where
  "queue_ok limit s \<longleftrightarrow> distinct_requests s \<and> (\<forall>r \<in> set (t_requests s). row_ok limit (set (t_leases s)) r)"

definition broker_inv :: "broker \<Rightarrow> db \<Rightarrow> bool" where
  "broker_inv b s \<longleftrightarrow> lease_inv s \<and> queue_ok (br_requeue_limit b) s"

lemma linked_forward: "leases_forward s s' \<Longrightarrow> linked (set (t_leases s)) r \<Longrightarrow> linked (set (t_leases s')) r"
  unfolding linked_def leases_forward_def lease_keeps_def by metis

lemma queue_forward:
  assumes q: "queue_ok limit s" and l: "leases_forward s s'" and t: "t_requests s' = update_where p f (t_requests s)"
    and f: "\<And>r. p r \<Longrightarrow> rq_execution (f r) = rq_execution r"
      "\<And>r. r \<in> set (t_requests s) \<Longrightarrow> p r \<Longrightarrow> row_ok limit (set (t_leases s')) r \<Longrightarrow> row_ok limit (set (t_leases s')) (f r)"
  shows "queue_ok limit s'"
proof -
  have "map rq_execution (t_requests s') = map rq_execution (t_requests s)"
    unfolding t update_where_def using f(1) by simp
  then have "distinct_requests s'" using q by (simp add: queue_ok_def distinct_requests_def)
  moreover have "row_ok limit (set (t_leases s')) r'" if r': "r' \<in> set (t_requests s')" for r'
  proof -
    from r' obtain r where r: "r \<in> set (t_requests s)" "r' = (if p r then f r else r)"
      unfolding t set_update_where by blast
    have "row_ok limit (set (t_leases s')) r"
      using q r(1) linked_forward [OF l] unfolding queue_ok_def row_ok_def by blast
    with f(2) [OF r(1)] r(2) show ?thesis by simp
  qed
  ultimately show ?thesis by (simp add: queue_ok_def)
qed

lemma row_ok_final:
  "rq_state r' \<notin> set active_request_states \<Longrightarrow> rq_attempt r' = rq_attempt r \<Longrightarrow> row_ok limit ls r \<Longrightarrow> row_ok limit ls r'"
  by (auto simp: row_ok_def active_request_states_def held_states_def)

lemma queue_keeps_ok: "queue_keeps s s' \<Longrightarrow> queue_ok limit s \<Longrightarrow> queue_ok limit s'"
proof -
  assume k: "queue_keeps s s'" and q: "queue_ok limit s"
  from k obtain p f where t: "t_requests s' = update_where p f (t_requests s)"
    and f: "\<And>r. rq_execution (f r) = rq_execution r" "\<And>r. rq_state (f r) = ''cancelled''" "\<And>r. rq_attempt (f r) = rq_attempt r"
    by (auto simp: queue_keeps_def only_cancels_def)
  from k have l: "leases_forward s s'" by (simp add: queue_keeps_def)
  show ?thesis
    by (rule queue_forward [OF q l t f(1)]) (rule row_ok_final [OF _ f(3)], simp_all add: f active_request_states_def)
qed

lemma queue_same: "t_requests s' = t_requests s \<Longrightarrow> t_leases s' = t_leases s \<Longrightarrow> queue_ok limit s \<Longrightarrow> queue_ok limit s'"
  by (rule queue_keeps_ok [OF queue_keeps_same])

lemma queue_delete_job:
  assumes d: "delete_job job s = Inr s'" and q: "queue_ok limit s"
  shows "queue_ok limit s'"
proof -
  have t: "t_requests s' = delete_where (\<lambda>r. rq_job r = job) (t_requests s)"
    "t_leases s' = delete_where (\<lambda>r. le_job r = job) (t_leases s)"
    using d by (auto simp: delete_job_def err_simps)
  have "distinct_requests s'" using q by (simp add: queue_ok_def distinct_requests_def t distinct_map_delete)
  moreover have "row_ok limit (set (t_leases s')) r" if "r \<in> set (t_requests s')" for r
  proof -
    from that have r: "r \<in> set (t_requests s)" "rq_job r \<noteq> job" by (auto simp: t set_delete_where)
    with q have "row_ok limit (set (t_leases s)) r" by (simp add: queue_ok_def)
    moreover have "linked (set (t_leases s)) r \<Longrightarrow> linked (set (t_leases s')) r"
      using r(2) by (auto simp: linked_def t set_delete_where lease_place_def)
    ultimately show ?thesis by (auto simp: row_ok_def)
  qed
  ultimately show ?thesis by (simp add: queue_ok_def)
qed

lemma inv_local: "broker_inv b s \<Longrightarrow> lease_step s s' \<Longrightarrow> broker_inv b s'"
  using lease_step_inv lease_step_queue queue_keeps_ok queue_delete_job unfolding broker_inv_def by metis

section \<open>Enqueue, heartbeat, release and close\<close>

lemma lease_inv_same:
  "lease_inv s \<Longrightarrow> t_jobs s' = t_jobs s \<Longrightarrow> t_leases s' = t_leases s \<Longrightarrow> t_nodes s' = t_nodes s \<Longrightarrow> t_shards s' = t_shards s
    \<Longrightarrow> lease_inv s'"
  by (rule inv_jobs_only) (simp_all add: job_generation_def job_of_def)

lemma inv_workers_only: "broker_inv b s \<Longrightarrow> broker_inv b (update_workers p f s)"
  unfolding broker_inv_def using lease_inv_same [of s "update_workers p f s"] queue_same [of "update_workers p f s" s]
  by (simp add: update_workers_def)

lemma inv_touch: "broker_inv b s \<Longrightarrow> broker_inv b (touch_worker w interval now s)"
  by (simp add: touch_worker_def inv_workers_only)

lemma inv_view: "broker_inv b s \<Longrightarrow> prepare_claim_view w d s = Some (v, s') \<Longrightarrow> broker_inv b s'"
  by (auto simp: prepare_claim_view_def sync_declared_capacity_def Let_def inv_workers_only split: option.splits if_splits)

lemma inv_requests:
  assumes "broker_inv b s" and "t_requests s' = update_where p f (t_requests s)"
    and "t_jobs s' = t_jobs s" "t_leases s' = t_leases s" "t_nodes s' = t_nodes s" "t_shards s' = t_shards s"
    and "\<And>r. p r \<Longrightarrow> rq_execution (f r) = rq_execution r"
    and "\<And>r. p r \<Longrightarrow> row_ok (br_requeue_limit b) (set (t_leases s)) r \<Longrightarrow> row_ok (br_requeue_limit b) (set (t_leases s)) (f r)"
  shows "broker_inv b s'"
  using lease_inv_same [of s s'] queue_forward [of "br_requeue_limit b" s s' p f] forward_same [of s' s] assms
  unfolding broker_inv_def by simp

lemma inv_enqueue:
  assumes inv: "broker_inv b s" and lim: "0 \<le> br_requeue_limit b"
    and e: "enqueue_request_tx b routes q uuid now s = Inr (Some (e, s'))"
  shows "broker_inv b s'"
proof -
  from e obtain limit where s': "s' = s\<lparr>t_requests := t_requests s @ [new_request q e limit now]\<rparr>"
    and fresh: "\<not> exists_where (\<lambda>x. rq_execution x = e) (t_requests s)"
    by (auto simp: enqueue_request_tx_def Let_def err_simps split: if_splits)
  have "lease_inv s'" by (rule lease_inv_same [of s]) (use inv in \<open>simp_all add: s' broker_inv_def\<close>)
  moreover have "queue_ok (br_requeue_limit b) s'"
    using inv fresh lim unfolding s' broker_inv_def queue_ok_def distinct_requests_def exists_where_iff
    by (auto simp: new_request_def row_ok_def held_states_def)
  ultimately show ?thesis by (simp add: broker_inv_def)
qed

lemma inv_release: "broker_inv b s \<Longrightarrow> broker_inv b (snd (release_slot e w l s))"
  by (rule inv_requests [where p = "\<lambda>r. rq_execution r = e \<and> rq_worker r = Some w \<and> rq_lease r = Some l \<and> rq_state r = ''claimed''"
        and f = "\<lambda>r. r\<lparr>rq_state := ''reporting''\<rparr>"])
    (auto simp: release_slot_def Let_def row_ok_def linked_def held_states_def)

lemma inv_close: "broker_inv b s \<Longrightarrow> broker_inv b (snd (mark_done b e w l outcome now s))"
proof -
  assume inv: "broker_inv b s"
  have "broker_inv b (update_requests (\<lambda>r. rq_execution r = e) (done_row (Some outcome) now) s)"
    by (rule inv_requests [OF inv, where p = "\<lambda>r. rq_execution r = e" and f = "done_row (Some outcome) now"])
      (auto simp: update_requests_def done_row_def row_ok_def held_states_def)
  then show ?thesis using inv by (auto simp: mark_done_def intro: inv_touch)
qed

lemma inv_note_heartbeat: "broker_inv b s \<Longrightarrow> broker_inv b (note_heartbeat e now s)"
  by (rule inv_requests [where p = "\<lambda>r. rq_execution r = e" and f = "\<lambda>r. r\<lparr>rq_heartbeat := Some now\<rparr>"])
    (auto simp: note_heartbeat_def update_requests_def row_ok_def linked_def)

lemma inv_renew: "broker_inv b s \<Longrightarrow> broker_inv b (snd (renew_one b w now e l s))"
proof -
  assume inv: "broker_inv b s"
  have "broker_inv b (snd (heartbeat_lease l (br_ttl b) now (note_heartbeat e now s)))"
    by (rule inv_local [OF inv_note_heartbeat [OF inv] step_heartbeat])
  then show ?thesis using inv by (auto simp: renew_one_def split: option.splits prod.splits bool.splits)
qed

section \<open>Claims\<close>

lemma lockless_generation: "lockless tx \<Longrightarrow> job_generation (meanwhile tx job s) k = job_generation s k"
  unfolding meanwhile_def update_job_def
  by (rule job_generation_jobs_update [where p = "\<lambda>j. j_id j = job" and f = "tx_meanwhile tx job"])
    (simp_all add: lockless_def)

lemma inv_cancel: "broker_inv b s \<Longrightarrow> broker_inv b (cancel_request e now s)"
  by (rule inv_requests [where p = "\<lambda>r. rq_execution r = e" and f = "cancelled_row now"])
    (auto simp: cancel_request_def update_requests_def cancelled_row_def row_ok_def held_states_def)

lemma granted_generation:
  assumes g: "evaluate_candidate b tx w c v frozen st0 s = (Granted a, st, s')" and tx: "lockless tx"
  shows "job_generation s' k = job_generation s k"
proof -
  from g obtain m st1 r s1 where "check_locked tx w c v frozen s = Proceed r"
    and s1: "start_claimed_node tx (cd_row c) m (rq_generation r) s = Inr s1"
    and p: "promote_claim b tx w (cd_row c) m (rq_generation r) s1 = Some (ac_lease a, ac_run a, s')"
    by (rule evaluate_Granted)
  let ?s2 = "meanwhile tx (rq_job (cd_row c)) (write_claim b tx w (cd_row c) m (rq_generation r) s1)"
  let ?p = "\<lambda>j. j_id j = rq_job (cd_row c) \<and> j_status j \<in> {''queued'', ''awaiting_approval''} \<and> \<not> j_paused j"
  let ?f = "\<lambda>j. j\<lparr>j_status := ''running'', j_updated := tx_now tx\<rparr>"
  have "t_jobs s' = t_jobs ?s2 \<or> t_jobs s' = update_where ?p ?f (t_jobs ?s2)"
    using p by (auto simp: promote_claim_def Let_def split: if_splits option.splits)
  then have "job_generation s' k = job_generation ?s2 k"
  proof
    assume "t_jobs s' = t_jobs ?s2"
    then show ?thesis by (rule job_generation_eq)
  next
    assume "t_jobs s' = update_where ?p ?f (t_jobs ?s2)"
    then show ?thesis by (rule job_generation_jobs_update) simp_all
  qed
  also have "\<dots> = job_generation s k"
    unfolding lockless_generation [OF tx] by (rule job_generation_eq) (simp add: start_claimed_tables(5) [OF s1])
  finally show ?thesis .
qed

lemma granted_unsharded:
  assumes g: "evaluate_candidate b tx w c v frozen st0 s = (Granted a, st, s')" and "t_shards s = []"
  shows "manifest_shard (ac_manifest a) = None" "t_shards s' = []"
proof -
  from g obtain m st1 r s1 where r: "check_locked tx w c v frozen s = Proceed r"
    and s1: "start_claimed_node tx (cd_row c) m (rq_generation r) s = Inr s1"
    and p: "promote_claim b tx w (cd_row c) m (rq_generation r) s1 = Some (ac_lease a, ac_run a, s')"
    and m: "ac_manifest a = m" by (rule evaluate_Granted)
  have none: "try_start_shard job node i e t gen s = None" for job node i e t gen
    using assms(2) by (simp add: try_start_shard_def Let_def count_where_def split: option.splits)
  show "manifest_shard (ac_manifest a) = None"
    using s1 none unfolding m start_claimed_node_def by (auto split: option.splits)
  then have "t_shards s1 = t_shards s"
    using s1 unfolding m start_claimed_node_def by (auto simp: Let_def update_nodes_def split: if_splits)
  then show "t_shards s' = []" using promote_tables(4) [OF p] assms(2) by simp
qed

lemma inv_granted:
  assumes inv: "broker_inv b s" and g: "evaluate_candidate b tx w c v frozen st0 s = (Granted a, st, s')"
    and tx: "lockless tx" and c: "sound_candidate s c" and fresh: "tx_uuid tx (cd_execution c) \<notin> le_id ` set (t_leases s)"
  shows "broker_inv b s'"
proof -
  from inv have li: "lease_inv s" and q: "queue_ok (br_requeue_limit b) s" by (simp_all add: broker_inv_def)
  have "t_shards s = []" using li by (simp add: lease_inv_def keys_ok_def)
  note un = granted_unsharded [OF g this]
  let ?new = "broker_lease b tx (cd_row c) (ac_generation a) (t_next_run s)"
  from g obtain r where r: "check_locked tx w c v frozen s = Proceed r"
    and place: "ac_job a = rq_job (cd_row c)" "ac_node a = rq_node (cd_row c)" "ac_generation a = rq_generation r"
    by (rule evaluate_Granted)
  note row = check_locked_Proceed(1-3) [OF r]
  note ls = granted_leases [OF g]
  have new: "le_job ?new = ac_job a" "le_node ?new = ac_node a" "le_generation ?new = ac_generation a"
    "le_id ?new = tx_uuid tx (cd_execution c)" "le_execution ?new = cd_execution c"
    by (simp_all add: broker_lease_def place)
  have epoch: "job_generation s (ac_job a) = Some (ac_generation a)"
    using check_locked_Proceed(5) [OF r] by (auto simp: place job_generation_def)
  have "lease_inv s'"
  proof (rule inv_new_lease [OF li granted_generation [OF g tx] ls _ _ _ _ _ _ un(2)])
    show "le_id ?new \<notin> le_id ` set (t_leases s)" using fresh by (simp add: new)
    show "job_generation s (le_job ?new) = Some (le_generation ?new)"
      using epoch by (simp add: new)
    show "\<exists>n \<in> set (t_nodes s). node_match (le_job ?new) (le_node ?new) queueable n"
      using granted_node(1) [OF g un(1)] by (simp add: new)
    show "t_nodes s' = update_where (node_match (le_job ?new) (le_node ?new) queueable)
        (\<lambda>n. n\<lparr>jn_status := ''running'', jn_stale_reason := [], jn_error := [], jn_started := Some (tx_now tx),
            jn_finished := None, jn_generation := ac_generation a\<rparr>) (t_nodes s)"
      unfolding new by (rule granted_node(2) [OF g un(1)])
  qed (simp_all add: node_place_def)
  moreover have "queue_ok (br_requeue_limit b) s'"
  proof (rule queue_forward [OF q forward_append [OF ls]])
    from g obtain r' where "t_requests s' = update_where (\<lambda>q. rq_execution q = cd_execution c \<and> rq_state q = ''queued'')
        (claimed_row w tx (t_next_run s)) (t_requests s)" by (rule granted_requests)
    then show "t_requests s' = update_where (\<lambda>q. rq_execution q = cd_execution c \<and> rq_state q = ''queued'')
        (claimed_row w tx (t_next_run s)) (t_requests s)" .
    fix x
    assume x: "x \<in> set (t_requests s)" "rq_execution x = cd_execution c \<and> rq_state x = ''queued''"
      and ok: "row_ok (br_requeue_limit b) (set (t_leases s')) x"
    have "x = r" using q row(1,2) x unfolding queue_ok_def distinct_requests_def distinct_map by (metis inj_onD)
    moreover have "?new \<in> set (t_leases s')" by (simp add: ls)
    ultimately have "linked (set (t_leases s')) (claimed_row w tx (t_next_run s) x)"
      using sound_row [OF c row(1,2)] row(2) unfolding linked_def
      by (intro bexI [of _ ?new]) (simp_all add: claimed_row_def broker_lease_def place lease_place_def)
    then show "row_ok (br_requeue_limit b) (set (t_leases s')) (claimed_row w tx (t_next_run s) x)"
      using ok x(2) by (auto simp: row_ok_def claimed_row_def)
  qed (simp add: claimed_row_def)
  ultimately show ?thesis by (simp add: broker_inv_def)
qed

lemma inv_candidate:
  assumes inv: "broker_inv b s" and e: "evaluate_candidate b tx w c v frozen st0 s = (verdict, st, s')"
    and tx: "lockless tx" and c: "sound_candidate s c" and fresh: "tx_uuid tx (cd_execution c) \<notin> le_id ` set (t_leases s)"
  shows "broker_inv b s'"
proof (cases verdict)
  case (Granted a)
  with inv_granted [OF inv _ tx c fresh] e show ?thesis by blast
next
  case Skipped
  with e have "s' = s \<or> s' = cancel_request (cd_execution c) (tx_now tx) s" by (simp add: evaluate_Skipped)
  with inv inv_cancel show ?thesis by blast
next
  case Raced
  with e have s': "s' = meanwhile tx (rq_job (cd_row c)) s" by (simp add: evaluate_Raced)
  have "lease_inv s'"
    by (rule inv_jobs_only [of s]) (use inv lockless_generation [OF tx] in \<open>simp_all add: broker_inv_def s'\<close>)
  moreover have "queue_ok (br_requeue_limit b) s'"
    by (rule queue_same [of s' s]) (use inv in \<open>simp_all add: broker_inv_def s'\<close>)
  ultimately show ?thesis by (simp add: broker_inv_def)
qed

section \<open>The sweeps of queued requests\<close>

lemma inv_done: "broker_inv b s \<Longrightarrow> broker_inv b (update_requests (\<lambda>r. rq_execution r = e \<and> p r) (done_row outcome now) s)"
  by (rule inv_requests [where p = "\<lambda>r. rq_execution r = e \<and> p r" and f = "done_row outcome now"])
    (auto simp: update_requests_def done_row_def row_ok_def held_states_def)

lemma inv_fail_request:
  assumes inv: "broker_inv b s"
  shows "broker_inv b (fail_request r err fl now s)"
proof -
  let ?s1 = "update_requests (\<lambda>q. rq_execution q = rq_execution r) (done_row (Some (failed_outcome err)) now) s"
  have inv1: "broker_inv b ?s1" using inv_done [OF inv, of "rq_execution r" "\<lambda>_. True"] by simp
  show ?thesis
  proof (cases "record_failed_node (rq_job r) (rq_node r) err fl [] now ?s1")
    case None
    then show ?thesis using inv1 by (simp add: fail_request_def)
  next
    case (Some res)
    let ?s' = "fail_request r err fl now s"
    let ?f = "\<lambda>n. n\<lparr>jn_status := ''failed'', jn_stale_reason := [], jn_error := err,
        jn_finished := Some now, jn_category := fst fl, jn_detail := snd fl\<rparr>"
    let ?p = "\<lambda>j. j_id j = rq_job r \<and> j_status j \<notin> {''failed'', ''completed''}"
    have t: "t_nodes ?s' = update_where (node_match (rq_job r) (rq_node r) queueable) ?f (t_nodes ?s1)"
      "t_leases ?s' = t_leases ?s1" "t_shards ?s' = t_shards ?s1" "t_requests ?s' = t_requests ?s1"
      "t_jobs ?s' = update_where ?p (\<lambda>j. j\<lparr>j_status := ''failed'', j_error := err, j_updated := now\<rparr>) (t_jobs ?s1)"
      using Some by (auto simp: fail_request_def record_failed_node_def Let_def update_nodes_def split: if_splits)
    have gens: "job_generation ?s' k = job_generation ?s1 k" for k by (rule job_generation_jobs_update [OF t(5)]) simp_all
    have "lease_inv ?s'"
      by (rule inv_queueable [OF _ gens t(2,1) _ t(3)]) (use inv1 in \<open>simp_all add: broker_inv_def node_place_def\<close>)
    moreover have "queue_ok (br_requeue_limit b) ?s'"
      by (rule queue_same [OF t(4,2)]) (use inv1 in \<open>simp add: broker_inv_def\<close>)
    ultimately show ?thesis by (simp add: broker_inv_def)
  qed
qed

lemma inv_lock_sweep: "broker_inv b s \<Longrightarrow> broker_inv b (snd (lock_sweep_candidate locked now r s))"
  by (auto simp: lock_sweep_candidate_def Let_def intro: inv_cancel split: option.splits)

lemma inv_stale_row: "broker_inv b (snd st) \<Longrightarrow> broker_inv b (snd (fail_stale_row u locked now r st))"
  using inv_lock_sweep [of b "snd st" locked now r]
  by (auto simp: fail_stale_row_def Let_def intro: inv_fail_request split: prod.splits bool.splits)

lemma inv_unclaimable_row: "broker_inv b (snd st) \<Longrightarrow> broker_inv b (snd (fail_unclaimable_row b u locked now ws c st))"
  using inv_lock_sweep [of b "snd st" locked now "cd_row c"]
  by (auto simp: fail_unclaimable_row_def Let_def intro: inv_fail_request split: option.splits prod.splits bool.splits)

lemma inv_queued_sweeps:
  assumes "broker_inv b s"
  shows "broker_inv b (snd (fail_stale_definition_requests b u locked now s))"
    "broker_inv b (snd (fail_unclaimable_model_requests b u locked now s))"
proof -
  show "broker_inv b (snd (fail_stale_definition_requests b u locked now s))"
    unfolding fail_stale_definition_requests_def
    by (rule fold_invariant [where P = "\<lambda>st. broker_inv b (snd st)" and Q = "\<lambda>_. True"])
      (simp_all add: assms inv_stale_row)
  have "broker_inv b (snd (fold (fail_unclaimable_row b u locked now (declarations s)) rows ([], s)))" for rows
    by (rule fold_invariant [where P = "\<lambda>st. broker_inv b (snd st)" and Q = "\<lambda>_. True"])
      (simp_all add: assms inv_unclaimable_row)
  then show "broker_inv b (snd (fail_unclaimable_model_requests b u locked now s))"
    using assms by (simp add: fail_unclaimable_model_requests_def)
qed

section \<open>The sweep of expired claims\<close>

lemma inv_fewer_leases:
  assumes inv: "lease_inv s" and gen: "\<And>k. job_generation s' k = job_generation s k"
    and leases: "t_leases s' = delete_where d (t_leases s)"
    and nodes: "t_nodes s' = update_where p f (t_nodes s)" and f: "\<And>n. node_place (f n) = node_place n"
    and idle: "\<And>n. p n \<Longrightarrow> node_place n \<notin> busy s'" and shards: "t_shards s' = []"
  shows "lease_inv s'"
proof -
  have cur: "current s' l \<longleftrightarrow> current s l" for l by (simp add: current_def gen)
  have "keys_ok s'"
    using inv unfolding keys_ok_def leases nodes shards lease_inv_def
    by (simp add: distinct_map_delete map_update_where f)
  moreover have "epochs_ok s'"
    using inv unfolding epochs_ok_def leases gen by (auto simp: lease_inv_def epochs_ok_def set_delete_where)
  moreover have "running_ok s'"
    unfolding running_ok_def
  proof (intro ballI impI)
    fix n'
    assume n': "n' \<in> set (t_nodes s')" and b: "node_place n' \<in> busy s'"
    then obtain n where n: "n \<in> set (t_nodes s)" "n' = (if p n then f n else n)"
      unfolding nodes set_update_where by blast
    with b idle f have nn: "n' = n" by (metis (full_types))
    from b have "node_place n \<in> busy s" unfolding nn by (auto simp: busy_iff leases set_delete_where cur)
    with inv_running [OF inv n(1)] show "jn_status n' = ''running''" by (simp add: nn)
  qed
  moreover have "unique_ok s'"
    using inv unfolding unique_ok_def leases lease_inv_def by (auto simp: set_delete_where cur)
  ultimately show ?thesis by (simp add: lease_inv_def)
qed

text \<open>The state of the sweep against the state \<open>s0\<close> that its batch was read from.\<close>

definition swept :: "broker \<Rightarrow> db \<Rightarrow> db \<Rightarrow> bool" where
  "swept b s0 s \<longleftrightarrow> broker_inv b s \<and> set (t_leases s) \<subseteq> set (t_leases s0)
     \<and> (\<forall>k. job_generation s k = job_generation s0 k)
     \<and> (\<forall>q \<in> set (t_requests s). \<exists>q0 \<in> set (t_requests s0). rq_execution q0 = rq_execution q \<and> rq_attempt q0 = rq_attempt q)"

lemma swept_requests:
  assumes "swept b s0 s" and "broker_inv b s'" and "t_leases s' = t_leases s" and "\<And>k. job_generation s' k = job_generation s k"
    and "t_requests s' = update_where p f (t_requests s)"
    and "\<And>q. rq_execution (f q) = rq_execution q" "\<And>q. rq_attempt (f q) = rq_attempt q"
  shows "swept b s0 s'"
  using assms unfolding swept_def by (auto simp: set_update_where)

lemma reclaimed_swept:
  assumes inv0: "broker_inv b s0" and sw: "swept b s0 s"
    and r: "r \<in> set (t_requests s0)" and l0: "l0 \<in> set (t_leases s0)" "le_status l0 = ''active''" "rq_lease r = Some (le_id l0)"
      "le_execution l0 = rq_execution r" "lease_place l0 = (rq_job r, rq_node r)" "le_generation l0 = rq_generation r"
    and leases: "t_leases s' = delete_where (\<lambda>l. Some (le_id l) = rq_lease r) (t_leases s)"
    and requests: "t_requests s' = update_where (\<lambda>q. rq_execution q = rq_execution r) g (t_requests s)"
    and g: "\<And>q. rq_execution (g q) = rq_execution q" "\<And>q. rq_attempt (g q) = rq_attempt q"
      "\<And>q. rq_state (g q) \<notin> set held_states" "\<And>q. rq_state (g q) = ''queued'' \<Longrightarrow> rq_attempt r \<le> br_requeue_limit b"
    and gen: "\<And>k. job_generation s' k = job_generation s k"
    and nodes: "t_nodes s' = update_where p f (t_nodes s)" and f: "\<And>n. node_place (f n) = node_place n"
    and p: "\<And>n. p n \<Longrightarrow> node_place n = (rq_job r, rq_node r) \<and> job_generation s0 (rq_job r) = Some (rq_generation r)"
    and shards: "t_shards s' = t_shards s"
  shows "swept b s0 s'"
proof -
  from sw have inv: "lease_inv s" "queue_ok (br_requeue_limit b) s" and sub: "set (t_leases s) \<subseteq> set (t_leases s0)"
    and gen0: "\<And>k. job_generation s k = job_generation s0 k"
    and origin: "\<And>q. q \<in> set (t_requests s) \<Longrightarrow> \<exists>q0 \<in> set (t_requests s0). rq_execution q0 = rq_execution q \<and> rq_attempt q0 = rq_attempt q"
    by (auto simp: swept_def broker_inv_def)
  from inv0 have li0: "lease_inv s0" and d0: "distinct_requests s0" by (auto simp: broker_inv_def queue_ok_def)
  have same: "l = l0" if "l \<in> set (t_leases s)" "Some (le_id l) = rq_lease r" for l
    using li0 that sub l0(1,3) unfolding lease_inv_def keys_ok_def distinct_map by (metis inj_onD option.inject subsetD)
  have "lease_inv s'"
  proof (rule inv_fewer_leases [OF inv(1) gen leases nodes f])
    fix n
    assume "p n"
    from p [OF this] have pl: "node_place n = lease_place l0" and e: "job_generation s0 (rq_job r) = Some (rq_generation r)"
      using l0(5) by auto
    have c0: "current s0 l0" using e l0(2,5,6) by (simp add: current_def lease_place_def)
    show "node_place n \<notin> busy s'"
    proof
      assume "node_place n \<in> busy s'"
      then obtain l where l: "l \<in> set (t_leases s)" "Some (le_id l) \<noteq> rq_lease r" "current s' l" "lease_place l = lease_place l0"
        unfolding busy_iff leases pl by (auto simp: set_delete_where)
      have "current s0 l" using l(3) by (simp add: current_def gen gen0)
      with inv_unique [OF li0 _ l0(1) _ c0 l(4)] l(1) sub have "l = l0" by blast
      with l(2) l0(3) show False by simp
    qed
  qed (use inv(1) shards in \<open>simp add: lease_inv_def keys_ok_def\<close>)
  moreover have "queue_ok (br_requeue_limit b) s'"
    unfolding queue_ok_def
  proof (intro conjI ballI)
    have "map rq_execution (t_requests s') = map rq_execution (t_requests s)"
      unfolding requests by (rule map_update_where) (simp add: g)
    then show "distinct_requests s'" using inv(2) by (simp add: queue_ok_def distinct_requests_def)
    fix q'
    assume "q' \<in> set (t_requests s')"
    then obtain q where q: "q \<in> set (t_requests s)" "q' = (if rq_execution q = rq_execution r then g q else q)"
      unfolding requests set_update_where by blast
    have ok: "row_ok (br_requeue_limit b) (set (t_leases s)) q" using inv(2) q(1) by (simp add: queue_ok_def)
    show "row_ok (br_requeue_limit b) (set (t_leases s')) q'"
    proof (cases "rq_execution q = rq_execution r")
      case True
      from origin [OF q(1)] obtain q0 where q0: "q0 \<in> set (t_requests s0)" "rq_execution q0 = rq_execution q" "rq_attempt q0 = rq_attempt q"
        by blast
      with d0 r True have "q0 = r" unfolding distinct_requests_def distinct_map by (metis inj_onD)
      with ok q(2) q0 True g(2,3) g(4) [of q] show ?thesis by (auto simp: row_ok_def)
    next
      case False
      have "linked (set (t_leases s')) q" if "linked (set (t_leases s)) q"
      proof -
        from that obtain l where l: "l \<in> set (t_leases s)" "rq_lease q = Some (le_id l)" "le_execution l = rq_execution q"
          "lease_place l = (rq_job q, rq_node q)" "le_generation l = rq_generation q" by (auto simp: linked_def)
        have "Some (le_id l) \<noteq> rq_lease r" using same [OF l(1)] l(3) l0(4) False by auto
        then have "l \<in> set (t_leases s')" using l(1) by (simp add: leases set_delete_where)
        with l show ?thesis unfolding linked_def by blast
      qed
      with ok q(2) False show ?thesis by (auto simp: row_ok_def)
    qed
  qed
  moreover have "\<exists>q0 \<in> set (t_requests s0). rq_execution q0 = rq_execution q' \<and> rq_attempt q0 = rq_attempt q'"
    if "q' \<in> set (t_requests s')" for q'
  proof -
    from that obtain q where "q \<in> set (t_requests s)" "q' = (if rq_execution q = rq_execution r then g q else q)"
      unfolding requests set_update_where by blast
    with origin [of q] show ?thesis by (auto simp: g)
  qed
  moreover have "set (t_leases s') \<subseteq> set (t_leases s0)" using sub by (auto simp: leases delete_where_def)
  ultimately show ?thesis using gen gen0 unfolding swept_def broker_inv_def by simp
qed

lemma cancel_tables [simp]:
  "t_leases (cancel_request e now s) = t_leases s" "t_nodes (cancel_request e now s) = t_nodes s"
  "t_shards (cancel_request e now s) = t_shards s" "t_jobs (cancel_request e now s) = t_jobs s"
  "t_requests (cancel_request e now s) = update_where (\<lambda>r. rq_execution r = e) (cancelled_row now) (t_requests s)"
  by (simp_all add: cancel_request_def update_requests_def)

lemma reclaim_tables [simp]:
  "t_leases (reclaim_lease r now s) = delete_where (\<lambda>l. Some (le_id l) = rq_lease r) (t_leases s)"
  "t_nodes (reclaim_lease r now s) = t_nodes s" "t_shards (reclaim_lease r now s) = t_shards s"
  "t_jobs (reclaim_lease r now s) = t_jobs s" "t_requests (reclaim_lease r now s) = t_requests s"
  by (simp_all add: reclaim_lease_def update_runs_def)

lemma shard_requeue_none:
  "t_shards s = [] \<Longrightarrow> reset_shard_for_requeue job node e s = s"
  "t_shards s = [] \<Longrightarrow> fail_shard_for_dead_execution job node e err now s = s"
  by (simp_all add: reset_shard_for_requeue_def fail_shard_for_dead_execution_def shard_index_for_execution_def)

lemma jobs_generation:
  "job_generation (cancel_request e now s) k = job_generation s k"
  "job_generation (reclaim_lease r now s) k = job_generation s k"
  "job_generation (update_requests p f s) k = job_generation s k"
  "job_generation (update_nodes pn fn s) k = job_generation s k"
  by (rule job_generation_eq; simp add: update_requests_def)+

lemma final_rows [simp]:
  "rq_execution (cancelled_row now q) = rq_execution q" "rq_attempt (cancelled_row now q) = rq_attempt q"
  "rq_state (cancelled_row now q) = ''cancelled''"
  "rq_execution (done_row o1 now q) = rq_execution q" "rq_attempt (done_row o1 now q) = rq_attempt q"
  "rq_state (done_row o1 now q) = ''done''"
  "rq_execution (requeued_row q) = rq_execution q" "rq_attempt (requeued_row q) = rq_attempt q"
  "rq_state (requeued_row q) = ''queued''"
  by (simp_all add: cancelled_row_def done_row_def requeued_row_def)

text \<open>What the sweep does with a row whose lease is active and that is not deferred.\<close>

lemma sweep_row_branch:
  assumes "(case rq_lease r of None \<Rightarrow> None | Some l \<Rightarrow> leases l) = Some ''active''" and "\<not> should_defer b now fresh r"
  shows "snd (sweep_row b now gens leases fresh r (acc, s)) =
    (if gens (rq_job r) \<noteq> Some (rq_generation r) then cancel_request (rq_execution r) now (reclaim_lease r now s)
     else if rq_attempt r \<le> br_requeue_limit b then snd (requeue_claim r now (reclaim_lease r now s))
     else abandon_claim r now (reclaim_lease r now s))"
proof -
  have pull: "snd (case z of (True, s2) \<Rightarrow> (x :: string list, s2) | (False, s2) \<Rightarrow> (y, s2)) = snd z" for z :: "bool \<times> db" and x y
    by (cases z; cases "fst z") auto
  show ?thesis using assms by (simp add: sweep_row_def Let_def pull)
qed

text \<open>The branches of a row that is reclaimed, each an instance of \<open>reclaimed_swept\<close>.\<close>

lemma swept_row:
  assumes inv0: "broker_inv b s0" and sw: "swept b s0 s" and r: "r \<in> set (t_requests s0)" "rq_state r \<in> set held_states"
  shows "swept b s0 (snd (sweep_row b now (job_generation s0) (lease_status_of s0) fresh r (acc, s)))"
proof -
  from sw have shards: "t_shards s = []" by (simp add: swept_def broker_inv_def lease_inv_def keys_ok_def)
  from inv0 r have "linked (set (t_leases s0)) r" by (auto simp: broker_inv_def queue_ok_def row_ok_def)
  then obtain l0 where l0: "l0 \<in> set (t_leases s0)" "rq_lease r = Some (le_id l0)"
      "le_execution l0 = rq_execution r" "lease_place l0 = (rq_job r, rq_node r)" "le_generation l0 = rq_generation r"
    by (auto simp: linked_def)
  have "distinct (map le_id (t_leases s0))" using inv0 by (simp add: broker_inv_def lease_inv_def keys_ok_def)
  from find_distinct [OF this l0(1)] have st: "(case rq_lease r of None \<Rightarrow> None | Some l \<Rightarrow> lease_status_of s0 l) = Some (le_status l0)"
    by (simp add: l0(2) lease_status_of_def lease_of_def)
  let ?s1 = "reclaim_lease r now s"
  note rec = reclaimed_swept [OF inv0 sw r(1) l0(1) _ l0(2-5)]
  have held: "\<And>x. ''queued'' \<notin> set held_states \<and> ''done'' \<notin> set held_states \<and> ''cancelled'' \<notin> set held_states"
    by (simp add: held_states_def)
  have cancel: "swept b s0 (cancel_request (rq_execution r) now ?s1)" if "le_status l0 = ''active''"
    by (rule rec [OF that, where g = "cancelled_row now" and p = "\<lambda>_. False" and f = "\<lambda>n. n"])
      (simp_all add: held jobs_generation update_where_def)
  show ?thesis
  proof (cases "le_status l0 = ''active'' \<and> \<not> should_defer b now fresh r")
    case False
    have "swept b s0 (update_requests (\<lambda>q. rq_execution q = rq_execution r \<and> rq_state q \<in> set held_states) (done_row None now) s)"
      by (rule swept_requests [OF sw inv_done, where f = "done_row None now"
            and p = "\<lambda>q. rq_execution q = rq_execution r \<and> rq_state q \<in> set held_states"])
        (use sw in \<open>simp_all add: swept_def jobs_generation\<close>)
    with False sw st show ?thesis by (auto simp: sweep_row_def)
  next
    case True
    then have act: "le_status l0 = ''active''" by simp
    note branch = sweep_row_branch [OF st [unfolded act] conjunct2 [OF True], of "job_generation s0" acc s]
    consider "snd (sweep_row b now (job_generation s0) (lease_status_of s0) fresh r (acc, s)) = cancel_request (rq_execution r) now ?s1"
      | "job_generation s0 (rq_job r) = Some (rq_generation r)" "rq_attempt r \<le> br_requeue_limit b"
        "snd (sweep_row b now (job_generation s0) (lease_status_of s0) fresh r (acc, s)) = snd (requeue_claim r now ?s1)"
      | "job_generation s0 (rq_job r) = Some (rq_generation r)"
        "snd (sweep_row b now (job_generation s0) (lease_status_of s0) fresh r (acc, s)) = abandon_claim r now ?s1"
      using branch by (auto split: if_splits)
    then show ?thesis
    proof cases
      case 1
      with cancel [OF act] show ?thesis by simp
    next
      case 2
      let ?p = "node_match (rq_job r) (rq_node r) [''running'', ''failed'']"
      have "swept b s0 (update_requests (\<lambda>q. rq_execution q = rq_execution r) requeued_row
          (update_nodes ?p (\<lambda>n. n\<lparr>jn_status := ''pending'', jn_started := None, jn_finished := None, jn_error := []\<rparr>) ?s1))"
        by (rule rec [OF act, where g = requeued_row and p = ?p
              and f = "\<lambda>n. n\<lparr>jn_status := ''pending'', jn_started := None, jn_finished := None, jn_error := []\<rparr>"])
          (use 2 in \<open>auto simp: held jobs_generation update_nodes_def node_place_def node_match_def\<close>)
      with 2 cancel [OF act] shards show ?thesis
        by (simp add: requeue_claim_def Let_def shard_requeue_none update_nodes_def)
    next
      case 3
      let ?p = "node_match (rq_job r) (rq_node r) [''running'']"
      let ?f = "\<lambda>n. n\<lparr>jn_status := ''failed'', jn_finished := Some now, jn_error := requeue_limit_message\<rparr>"
      let ?s2 = "update_requests (\<lambda>q. rq_execution q = rq_execution r) (done_row (Some (failed_outcome requeue_limit_message)) now) ?s1"
      have "swept b s0 ?s2"
        by (rule rec [OF act, where g = "done_row (Some (failed_outcome requeue_limit_message)) now" and p = "\<lambda>_. False" and f = "\<lambda>n. n"])
          (simp_all add: held jobs_generation update_where_def)
      moreover have "swept b s0 (sync_job_status now (rq_job r) (update_nodes ?p ?f ?s2))"
        by (rule rec [OF act, where g = "done_row (Some (failed_outcome requeue_limit_message)) now" and p = ?p and f = ?f])
          (use 3 in \<open>auto simp: held jobs_generation update_nodes_def node_place_def node_match_def\<close>)
      ultimately show ?thesis using 3 shards by (simp add: abandon_claim_def Let_def shard_requeue_none)
    qed
  qed
qed

lemma inv_sweep:
  assumes inv: "broker_inv b s"
  shows "broker_inv b (snd (sweep_expired_claims b locked now s))"
proof -
  have "swept b s (snd (fold (sweep_row b now (job_generation s) (lease_status_of s) (fresh_workers now s))
      (sweep_order b (expired_claims b locked now s)) ([], s)))"
  proof (rule fold_invariant [where P = "\<lambda>st. swept b s (snd st)" and Q = "\<lambda>r. r \<in> set (t_requests s) \<and> rq_state r \<in> set held_states"])
    show "swept b s (snd ([], s))" using inv by (auto simp: swept_def)
    show "r \<in> set (t_requests s) \<and> rq_state r \<in> set held_states"
      if "r \<in> set (sweep_order b (expired_claims b locked now s))" for r
      using that by (auto simp: sweep_order_def expired_claims_def Let_def dest!: in_set_takeD)
    show "swept b s (snd (sweep_row b now (job_generation s) (lease_status_of s) (fresh_workers now s) r st))"
      if "r \<in> set (t_requests s) \<and> rq_state r \<in> set held_states" "swept b s (snd st)" for r st
      using swept_row [OF inv that(2)] that(1) by (cases st) simp
  qed
  then show ?thesis by (simp add: swept_def sweep_expired_claims_def)
qed

section \<open>Every transition\<close>

lemma broker_step_inv:
  assumes inv: "0 \<le> br_requeue_limit b \<and> broker_inv b s" and step: "broker_step b s s'"
  shows "0 \<le> br_requeue_limit b \<and> broker_inv b s'"
proof -
  from inv have lim: "0 \<le> br_requeue_limit b" and i: "broker_inv b s" by simp_all
  from step have "broker_inv b s'"
  proof cases
    case step_local
    then show ?thesis using inv_local [OF i] by blast
  next
    case (step_enqueue routes q uuid now e)
    then show ?thesis using inv_enqueue [OF i lim] by blast
  next
    case (step_view w d v)
    then show ?thesis using inv_view [OF i] by blast
  next
    case (step_candidate tx w c v frozen st0 verdict st)
    then show ?thesis using inv_candidate [OF i] by blast
  next
    case (step_touch w interval now)
    then show ?thesis using inv_touch [OF i] by simp
  next
    case (step_renew w now e l)
    then show ?thesis using inv_renew [OF i] by simp
  next
    case (step_release e w l)
    then show ?thesis using inv_release [OF i] by simp
  next
    case (step_close e w l outcome now)
    then show ?thesis using inv_close [OF i] by simp
  next
    case (step_sweep locked now)
    then show ?thesis using inv_sweep [OF i] by simp
  next
    case (step_stale u locked now)
    then show ?thesis using inv_queued_sweeps(1) [OF i] by simp
  next
    case (step_unclaimable u locked now)
    then show ?thesis using inv_queued_sweeps(2) [OF i] by simp
  qed
  with lim show ?thesis by simp
qed

interpretation lanes: invariant_system "\<lambda>s. 0 \<le> br_requeue_limit b \<and> broker_inv b s" "broker_step b" for b
  by unfold_locales (rule broker_step_inv)

lemma empty_queue_inv:
  "t_leases s = [] \<Longrightarrow> t_shards s = [] \<Longrightarrow> t_requests s = [] \<Longrightarrow> distinct (map node_place (t_nodes s)) \<Longrightarrow> broker_inv b s"
  using no_leases_inv by (simp add: broker_inv_def queue_ok_def distinct_requests_def)

end
