(* ===== verification/System_Properties.thy ===== *)
theory System_Properties
  imports Broker_System
begin

text \<open>
  What both execution lanes together promise: no node is handed out twice, and no request is tried
  more often than its limit allows.
\<close>

text \<open>A request some worker may still write results for: held, with an active lease, in the epoch of its job.\<close>

definition in_effect :: "db \<Rightarrow> request_row \<Rightarrow> bool" where
  "in_effect s r \<longleftrightarrow> rq_state r \<in> set held_states \<and> job_generation s (rq_job r) = Some (rq_generation r)
     \<and> (\<exists>l \<in> set (t_leases s). rq_lease r = Some (le_id l) \<and> le_status l = ''active'')"

lemma in_effect_lease:
  assumes inv: "broker_inv b s" and r: "r \<in> set (t_requests s)" "in_effect s r"
  obtains l where "l \<in> set (t_leases s)" "current s l" "lease_place l = (rq_job r, rq_node r)" "le_execution l = rq_execution r"
proof -
  from r(2) obtain l' where l': "l' \<in> set (t_leases s)" "rq_lease r = Some (le_id l')" "le_status l' = ''active''"
    and e: "rq_state r \<in> set held_states" "job_generation s (rq_job r) = Some (rq_generation r)" by (auto simp: in_effect_def)
  from inv r(1) e(1) obtain l where l: "l \<in> set (t_leases s)" "rq_lease r = Some (le_id l)" "le_execution l = rq_execution r"
      "lease_place l = (rq_job r, rq_node r)" "le_generation l = rq_generation r"
    by (auto simp: broker_inv_def queue_ok_def row_ok_def linked_def)
  have "inj_on le_id (set (t_leases s))" using inv by (simp add: broker_inv_def lease_inv_def keys_ok_def distinct_map)
  then have "l' = l" using l'(1,2) l(1,2) by (simp add: inj_on_def)
  then have "current s l" using l l'(3) e(2) by (simp add: current_def lease_place_def)
  with l that show ?thesis by blast
qed

text \<open>
  C12. Whatever the local lane, the claims of the agent workers, their heartbeats and results, reruns,
  upgrades, deletions and sweeps do in whatever order: from an empty queue and without sharded nodes,
  a node never has two requests in effect and never a local lease of the current epoch beside one of another execution; it is running as long
  as it has one; and no request is handed out more often than the requeue limit plus one.
\<close>

theorem no_double_execution:
  assumes "(broker_step b)\<^sup>*\<^sup>* s0 s" and "0 \<le> br_requeue_limit b"
    and "t_leases s0 = []" and "t_shards s0 = []" and "t_requests s0 = []" and "distinct (map node_place (t_nodes s0))"
  shows "(\<forall>r \<in> set (t_requests s). rq_attempt r \<le> br_requeue_limit b + 1)
    \<and> (\<forall>r \<in> set (t_requests s). in_effect s r \<longrightarrow>
          (\<forall>q \<in> set (t_requests s). in_effect s q \<and> rq_job q = rq_job r \<and> rq_node q = rq_node r \<longrightarrow> q = r)
        \<and> (\<forall>l \<in> set (t_leases s). current s l \<and> lease_place l = (rq_job r, rq_node r) \<longrightarrow> le_execution l = rq_execution r))
    \<and> (\<forall>l \<in> set (t_leases s). current s l \<longrightarrow>
          (\<forall>l' \<in> set (t_leases s). current s l' \<and> lease_place l' = lease_place l \<longrightarrow> l' = l)
        \<and> (\<forall>n \<in> set (t_nodes s). node_place n = lease_place l \<longrightarrow> jn_status n = ''running''))"
proof -
  have inv: "broker_inv b s" using lanes.reach_inv [OF assms(1)] empty_queue_inv [OF assms(3-6)] assms(2) by blast
  then have li: "lease_inv s" and q: "queue_ok (br_requeue_limit b) s" by (simp_all add: broker_inv_def)
  note unique = inv_unique [OF li]
  have "rq_attempt r \<le> br_requeue_limit b + 1" if "r \<in> set (t_requests s)" for r
    using q that by (auto simp: queue_ok_def row_ok_def)
  moreover have "le_execution l = rq_execution r"
    if r: "r \<in> set (t_requests s)" "in_effect s r" and l: "l \<in> set (t_leases s)" "current s l" "lease_place l = (rq_job r, rq_node r)"
    for r l
    using in_effect_lease [OF inv r] unique [OF l(1) _ l(2)] l(3) by metis
  moreover have "x = r"
    if r: "r \<in> set (t_requests s)" "in_effect s r" and x: "x \<in> set (t_requests s)" "in_effect s x"
      and p: "rq_job x = rq_job r" "rq_node x = rq_node r" for r x
  proof -
    obtain l where l: "l \<in> set (t_leases s)" "current s l" "lease_place l = (rq_job r, rq_node r)" "le_execution l = rq_execution r"
      by (rule in_effect_lease [OF inv r])
    obtain k where k: "k \<in> set (t_leases s)" "current s k" "lease_place k = (rq_job x, rq_node x)" "le_execution k = rq_execution x"
      by (rule in_effect_lease [OF inv x])
    have "k = l" by (rule unique [OF k(1) l(1) k(2) l(2)]) (simp add: k l p)
    then have "rq_execution x = rq_execution r" using k(4) l(4) by simp
    moreover have "inj_on rq_execution (set (t_requests s))" using q by (simp add: queue_ok_def distinct_requests_def distinct_map)
    ultimately show ?thesis using x(1) r(1) by (simp add: inj_on_def)
  qed
  moreover have "l' = l" if "l \<in> set (t_leases s)" "current s l" "l' \<in> set (t_leases s)" "current s l'" "lease_place l' = lease_place l" for l l'
    by (rule unique [OF that(3,1,4,2,5)])
  moreover have "jn_status n = ''running''" if "l \<in> set (t_leases s)" "current s l" "n \<in> set (t_nodes s)" "node_place n = lease_place l" for l n
    by (rule inv_running [OF li that(3)]) (use that in \<open>auto simp: busy_iff\<close>)
  ultimately show ?thesis by blast
qed

definition empty_queue :: db where
  "empty_queue = queue_db\<lparr>t_requests := []\<rparr>"

definition code_enqueue :: enqueue_request where
  "code_enqueue = \<lparr>eq_workspace = ''ws'', eq_job = ''j1'', eq_node = ''n'', eq_agent = ''run'', eq_hash = ''h'',
     eq_manifest = [(PStr ''kind'', PStr ''code''), (PStr ''capability'', PStr ''run''), (PStr ''code_hash'', PStr ''h''),
       (PStr ''timeout_seconds'', PInt 60)],
     eq_execution = ''e1'', eq_pinned = None, eq_kind = ''code'', eq_generation = 0, eq_source = ''node'',
     eq_runtime = None, eq_labels = None\<rparr>"

definition one_queued :: db where
  "one_queued = (case enqueue_request_tx queue_broker [] code_enqueue ''u'' 1 empty_queue of
     Inr (Some (e, s)) \<Rightarrow> s | _ \<Rightarrow> empty_queue)"

definition one_candidate :: candidate where
  "one_candidate = make_candidate queue_broker one_queued None (hd (t_requests one_queued))"

definition one_claimed :: db where
  "one_claimed = snd (snd (evaluate_candidate queue_broker (queue_tx 5) ''w'' one_candidate sample_view None initial_scan one_queued))"

lemma one_claimed_reachable: "(broker_step queue_broker)\<^sup>*\<^sup>* empty_queue one_claimed"
proof -
  have "\<exists>e. enqueue_request_tx queue_broker [] code_enqueue ''u'' 1 empty_queue = Inr (Some (e, one_queued))"
  proof -
    have "case enqueue_request_tx queue_broker [] code_enqueue ''u'' 1 empty_queue of Inr (Some (e, s)) \<Rightarrow> True | _ \<Rightarrow> False"
      by code_simp
    then show ?thesis unfolding one_queued_def by (auto split: sum.splits option.splits)
  qed
  then have a: "broker_step queue_broker empty_queue one_queued" by (blast intro: step_enqueue)
  have sound: "sound_candidate one_queued one_candidate" by code_simp
  have fresh: "tx_uuid (queue_tx 5) (cd_execution one_candidate) \<notin> le_id ` set (t_leases one_queued)" by code_simp
  have "lockless (queue_tx 5)" by (simp add: lockless_def queue_tx_def)
  then have "broker_step queue_broker one_queued one_claimed"
    unfolding one_claimed_def using sound fresh by (metis prod.collapse step_candidate)
  with a show ?thesis by (meson converse_rtranclp_into_rtranclp r_into_rtranclp)
qed

theorem no_double_execution_witness:
  "jn_status (hd (t_nodes one_claimed)) = ''running'' \<and> rq_state (hd (t_requests one_claimed)) = ''claimed''"
proof -
  have start: "t_leases empty_queue = []" "t_shards empty_queue = []" "t_requests empty_queue = []"
    "distinct (map node_place (t_nodes empty_queue))" "0 \<le> br_requeue_limit queue_broker" by code_simp+
  have l: "hd (t_leases one_claimed) \<in> set (t_leases one_claimed)" by code_simp
  have c: "current one_claimed (hd (t_leases one_claimed))" unfolding current_def by code_simp
  have n: "hd (t_nodes one_claimed) \<in> set (t_nodes one_claimed)"
    "node_place (hd (t_nodes one_claimed)) = lease_place (hd (t_leases one_claimed))" by code_simp+
  have "jn_status (hd (t_nodes one_claimed)) = ''running''"
    using no_double_execution [OF one_claimed_reachable start(5,1-4)] l c n by blast
  moreover have "rq_state (hd (t_requests one_claimed)) = ''claimed''" by code_simp
  ultimately show ?thesis by blast
qed

end
