(* ===== verification/Rerun_Guard.thy ===== *)
theory Rerun_Guard
  imports Upgrade_Staging Job_Mutations Workflow_Loader
begin

text \<open>
  The preconditions of a rerun (\<open>services/job_operation_error.py\<close>,
  \<open>services/job_rerun/upstream_guard.py\<close>, \<open>eligibility.py\<close>, \<open>preview_checks.py\<close>, the node choice of
  \<open>single.py\<close>) over the reads they make (\<open>jobs/queries/job_nodes.py\<close>, \<open>job_rerun_states.py\<close>,
  \<open>job_locked_rereads.py\<close>, \<open>executors/leases.py\<close>).
\<close>

section \<open>Results\<close>

text \<open>The fields of \<open>JobOperationError\<close> and of the result dictionary it turns into.\<close>

record op_result =
  or_job :: string
  or_operation :: string
  or_status :: string
  or_node :: "string option"
  or_reason :: "string option"
  or_message :: "string option"

definition op_error :: "string \<Rightarrow> string \<Rightarrow> string \<Rightarrow> string option \<Rightarrow> string \<Rightarrow> string \<Rightarrow> op_result" where
  "op_error job operation status node reason msg =
     \<lparr>or_job = job, or_operation = operation, or_status = status, or_node = node, or_reason = Some reason,
      or_message = Some msg\<rparr>"

definition op_success :: "string \<Rightarrow> string \<Rightarrow> string option \<Rightarrow> op_result" where
  "op_success job operation node =
     \<lparr>or_job = job, or_operation = operation, or_status = ''succeeded'', or_node = node, or_reason = None,
      or_message = None\<rparr>"

text \<open>
  A mutation is accepted with the committed state, refused with an operation error (rolled back), or
  ends in another exception.
\<close>

datatype service_outcome = Accepted db | Refused op_result | Crashed

section \<open>Reads\<close>

definition list_job_nodes :: "string \<Rightarrow> db \<Rightarrow> node_row list" where
  "list_job_nodes job s = filter (\<lambda>n. jn_job n = job) (t_nodes s)"

text \<open>The rows of a job have distinct keys (unique index), so the dictionary is the list of pairs.\<close>

definition node_row_statuses :: "node_row list \<Rightarrow> statuses" where
  "node_row_statuses rows = map (\<lambda>n. (jn_node n, jn_status n)) rows"

definition list_job_node_statuses :: "string \<Rightarrow> db \<Rightarrow> statuses" where
  "list_job_node_statuses job s = node_row_statuses (list_job_nodes job s)"

definition has_active_for_node :: "string \<Rightarrow> string \<Rightarrow> int \<Rightarrow> db \<Rightarrow> bool" where
  "has_active_for_node job node now s =
     exists_where (\<lambda>l. le_job l = job \<and> le_node l = node \<and> live_lease now l) (t_leases s)"

definition has_active_for_job :: "string \<Rightarrow> int \<Rightarrow> db \<Rightarrow> bool" where
  "has_active_for_job job now s = exists_where (\<lambda>l. le_job l = job \<and> live_lease now l) (t_leases s)"

definition job_has_running_nodes :: "string \<Rightarrow> db \<Rightarrow> bool" where
  "job_has_running_nodes job s = list_ex (\<lambda>n. jn_status n = ''running'') (list_job_nodes job s)"

text \<open>
  The definition of a job: its frozen snapshot, else the active revision of its workspace.
  \<open>re_parse\<close> is the JSON parser, \<open>re_active\<close> the catalog.
\<close>

record rerun_env =
  re_parse :: "string \<Rightarrow> pyval option"
  re_active :: "string \<Rightarrow> workflow_definition"

definition definition_of_job :: "rerun_env \<Rightarrow> job_row \<Rightarrow> workflow_definition" where
  "definition_of_job env j =
     (case definition_from_job_snapshot (j_snapshot j) (re_parse env (j_snapshot j)) of
        Some d \<Rightarrow> d | None \<Rightarrow> re_active env (j_workspace j))"

section \<open>The failed-upstream guard\<close>

definition comma_join :: "string list \<Rightarrow> string" where
  "comma_join xs = (case xs of [] \<Rightarrow> [] | x # rest \<Rightarrow> x @ concat (map (\<lambda>y. '', '' @ y) rest))"

definition failed_upstream_node_keys :: "workflow_definition \<Rightarrow> statuses \<Rightarrow> string \<Rightarrow> string list" where
  "failed_upstream_node_keys d st node = filter (\<lambda>k. dget st k = Some ''failed'') (dependency_ancestors d node)"

definition upstream_failed_error :: "string \<Rightarrow> string \<Rightarrow> string list \<Rightarrow> string \<Rightarrow> op_result" where
  "upstream_failed_error job node failed operation =
     op_error job operation ''skipped'' (Some node) ''upstream_failed''
       (''Upstream node(s) failed: '' @ comma_join failed @ ''; rerun from the failed node instead'')"

definition raise_if_failed_upstream ::
  "workflow_definition \<Rightarrow> statuses \<Rightarrow> string \<Rightarrow> string \<Rightarrow> string \<Rightarrow> string \<Rightarrow> op_result option" where
  "raise_if_failed_upstream d st start job operation error_node =
     (let failed = failed_upstream_node_keys d st start in
      if failed \<noteq> [] then Some (upstream_failed_error job error_node failed operation) else None)"

text \<open>Failed parents of the reset set that stay outside of it.\<close>

definition blocked_parents :: "workflow_definition \<Rightarrow> statuses \<Rightarrow> string list \<Rightarrow> string list" where
  "blocked_parents d st reset =
     sort (dedup (filter (\<lambda>p. p \<notin> set reset \<and> dget st p = Some ''failed'')
       (concat (map (dget_default [] (dependency_parents d)) reset))))"

definition raise_if_failed_upstream_in_tx ::
  "workflow_definition \<Rightarrow> string \<Rightarrow> string \<Rightarrow> string \<Rightarrow> string \<Rightarrow> string list \<Rightarrow> db \<Rightarrow> op_result option" where
  "raise_if_failed_upstream_in_tx d start job operation error_node stale s =
     (let st = list_job_node_statuses job s in
      case raise_if_failed_upstream d st start job operation error_node of
        Some e \<Rightarrow> Some e
      | None \<Rightarrow>
          (let blocked = blocked_parents d st (start # stale) in
           if blocked \<noteq> [] then Some (upstream_failed_error job error_node blocked operation) else None))"

section \<open>Choosing the node\<close>

text \<open>\<open>Inl\<close> is the error; the two variants of the code differ in where the rows come from.\<close>

definition resolve_rerun_node_from_nodes ::
  "string \<Rightarrow> string \<Rightarrow> node_row list \<Rightarrow> string option \<Rightarrow> bool \<Rightarrow> op_result + string" where
  "resolve_rerun_node_from_nodes job status nodes node from_failed =
     (if from_failed
      then if status \<noteq> ''failed'' then Inl (op_error job ''rerun'' ''skipped'' None ''not_failed'' ''Job is not failed'')
           else (case find (\<lambda>n. jn_status n = ''failed'') nodes of
                   Some n \<Rightarrow> Inr (jn_node n)
                 | None \<Rightarrow> Inl (op_error job ''rerun'' ''skipped'' None ''no_failed_node'' ''No failed node found''))
      else (case node of
              None \<Rightarrow> Inl (op_error job ''rerun'' ''failed'' None ''node_key_required'' ''node_key is required'')
            | Some k \<Rightarrow> Inr k))"

definition resolve_rerun_node :: "job_row \<Rightarrow> string option \<Rightarrow> bool \<Rightarrow> db \<Rightarrow> op_result + string" where
  "resolve_rerun_node j node from_failed s =
     resolve_rerun_node_from_nodes (j_id j) (j_status j) (list_job_nodes (j_id j) s) node from_failed"

section \<open>Eligibility\<close>

definition node_type_of :: "workflow_definition \<Rightarrow> string \<Rightarrow> string option" where
  "node_type_of d k = map_option n_type (dget (d_nodes d) k)"

definition check_rerun_eligibility :: "rerun_env \<Rightarrow> job_row \<Rightarrow> string \<Rightarrow> int \<Rightarrow> db \<Rightarrow> op_result option" where
  "check_rerun_eligibility env j node now s =
     (let job = j_id j; d = definition_of_job env j; err = (\<lambda>status. op_error job ''rerun'' status (Some node)) in
      if node \<notin> set (node_keys d)
      then Some (err ''failed'' ''node_not_found'' (''Node '' @ node @ '' not found in workflow''))
      else if node_type_of d node = Some ''start''
      then Some (err ''failed'' ''node_not_executable''
             (''Node '' @ node @ '' is an entry (type: start) node and never executes''))
      else if node_of s job node = None
      then Some (err ''failed'' ''node_not_found'' (''Node '' @ node @ '' not found for job''))
      else if has_active_for_node job node now s
      then Some (err ''skipped'' ''busy'' ''Node has an active executor lease'')
      else if job_has_running_nodes job s then Some (err ''skipped'' ''busy'' ''Job has running nodes'')
      else (let failed = failed_upstream_node_keys d (list_job_node_statuses job s) node in
            if failed \<noteq> [] then Some (upstream_failed_error job node failed ''rerun'') else None))"

text \<open>The bulk variant of batch and preview; it has no rule for start nodes.\<close>

definition rerun_ineligible_from_nodes ::
  "workflow_definition \<Rightarrow> node_row list \<Rightarrow> (string \<times> string) list \<Rightarrow> string \<Rightarrow> string \<Rightarrow> op_result option" where
  "rerun_ineligible_from_nodes d nodes busy job node =
     (let err = (\<lambda>status. op_error job ''rerun'' status (Some node)) in
      if node \<notin> set (node_keys d)
      then Some (err ''failed'' ''node_not_found'' (''Node '' @ node @ '' not found in workflow''))
      else if \<not> list_ex (\<lambda>n. jn_node n = node) nodes
      then Some (err ''failed'' ''node_not_found'' (''Node '' @ node @ '' not found for job''))
      else if (job, node) \<in> set busy
      then Some (err ''skipped'' ''busy'' ''Node has an active executor lease'')
      else if list_ex (\<lambda>n. jn_status n = ''running'') nodes
      then Some (err ''skipped'' ''busy'' ''Job has running nodes'')
      else (let failed = failed_upstream_node_keys d (node_row_statuses nodes) node in
            if failed \<noteq> [] then Some (upstream_failed_error job node failed ''rerun'') else None))"

section \<open>The bulk check agrees with the single one\<close>

definition busy_pairs :: "string list \<Rightarrow> int \<Rightarrow> db \<Rightarrow> (string \<times> string) list" where
  "busy_pairs ids now s =
     map (\<lambda>l. (le_job l, le_node l)) (filter (\<lambda>l. le_job l \<in> set ids \<and> live_lease now l) (t_leases s))"

lemma busy_pairs_iff: "job \<in> set ids \<Longrightarrow> (job, node) \<in> set (busy_pairs ids now s) \<longleftrightarrow> has_active_for_node job node now s"
  by (auto simp: busy_pairs_def has_active_for_node_def exists_where_iff)

lemma node_of_rows: "node_of s job node = None \<longleftrightarrow> \<not> list_ex (\<lambda>n. jn_node n = node) (list_job_nodes job s)"
  by (auto simp: node_of_def list_job_nodes_def find_None_iff list_ex_iff)

lemma bulk_check_agrees:
  assumes "j_id j \<in> set ids" and "node_type_of (definition_of_job env j) node \<noteq> Some ''start''"
  shows "rerun_ineligible_from_nodes (definition_of_job env j) (list_job_nodes (j_id j) s) (busy_pairs ids now s) (j_id j) node
    = check_rerun_eligibility env j node now s"
  unfolding rerun_ineligible_from_nodes_def check_rerun_eligibility_def Let_def busy_pairs_iff [OF assms(1)] node_of_rows
    list_job_node_statuses_def job_has_running_nodes_def
  using assms(2) by simp

end
