(* ===== verification/Rerun_Service.thy ===== *)
theory Rerun_Service
  imports Rerun_Guard
begin

text \<open>
  The rerun and run-to services (\<open>services/job_rerun/\<close>: \<open>__init__.py\<close>, \<open>single.py\<close>, \<open>batch.py\<close>,
  \<open>batch_ops.py\<close>, \<open>by_failure_results.py\<close>, \<open>preview.py\<close>; \<open>job_run_to.py\<close>, \<open>job_execution.py\<close>). The selection
  of a batch is its resolved list of identifiers. Moving files, object deletion and events are left out.
\<close>

text \<open>The \<open>repr\<close> of a string without quotes, backslashes and unprintable characters.\<close>

definition quoted :: "string \<Rightarrow> string" where
  "quoted x = CHR 0x27 # x @ [CHR 0x27]"

section \<open>One rerun\<close>

text \<open>\<open>str(exc)\<close> of the errors a mutation raises.\<close>

definition mutation_text :: "mutation_error \<Rightarrow> string" where
  "mutation_text e =
     (case e of
        Conflict reason msg \<Rightarrow> msg
      | UnknownNode job node \<Rightarrow> ''Unknown job node: '' @ job @ ''.'' @ node
      | JobNotFound job \<Rightarrow> ''Job not found: '' @ job
      | BadMode mode \<Rightarrow> ''invalid execution_mode: '' @ mode
      | MissingTarget \<Rightarrow> ''target_node_key is required''
      | EmptyClosure \<Rightarrow> ''Run-to closure cannot be empty'')"

text \<open>A conflict is skipped with its own reason; any other \<open>ValueError\<close> failed.\<close>

definition mutation_refusal :: "string \<Rightarrow> string \<Rightarrow> string \<Rightarrow> string \<Rightarrow> mutation_error \<Rightarrow> op_result" where
  "mutation_refusal job operation node failed_reason e =
     (case e of
        Conflict reason msg \<Rightarrow> op_error job operation ''skipped'' (Some node) reason msg
      | _ \<Rightarrow> op_error job operation ''failed'' (Some node) failed_reason (mutation_text e))"

text \<open>
  The outcome of a guarded mutation whose body may also raise an operation error, or (\<open>None\<close>) another
  exception; either rolls the transaction back.
\<close>

definition guarded_outcome ::
  "(mutation_error \<Rightarrow> op_result) \<Rightarrow> mutation_error + (op_result option + artifact_row list) \<times> db \<Rightarrow> service_outcome" where
  "guarded_outcome refuse r =
     (case r of
        Inl e \<Rightarrow> Refused (refuse e)
      | Inr (Inl None, _) \<Rightarrow> Crashed
      | Inr (Inl (Some e), _) \<Rightarrow> Refused e
      | Inr (Inr rows, s) \<Rightarrow> Accepted s)"

definition rerun_body ::
  "workflow_definition \<Rightarrow> string \<Rightarrow> string \<Rightarrow> string list \<Rightarrow> int \<Rightarrow> db \<Rightarrow>
   mutation_error + (op_result option + artifact_row list) \<times> db" where
  "rerun_body d job node affected now s =
     (let stale = filter (\<lambda>k. k \<noteq> node) affected in
      case raise_if_failed_upstream_in_tx d node job ''rerun'' node stale s of
        Some e \<Rightarrow> Inr (Inl (Some e), s)
      | None \<Rightarrow>
          bindE (mark_nodes_for_rerun job [node] [(node, stale)] (so_names (stage_outputs d affected [] [])) now s)
            (\<lambda>(rows, s'). Inr (Inr rows, s')))"

definition commit_rerun :: "workflow_definition \<Rightarrow> string \<Rightarrow> string \<Rightarrow> int \<Rightarrow> db \<Rightarrow> service_outcome" where
  "commit_rerun d job node now s =
     (case rerun_reset_closure d [node] of
        Inl e \<Rightarrow> Crashed
      | Inr face \<Rightarrow>
          guarded_outcome (mutation_refusal job ''rerun'' node ''cleanup_failed'')
            (lease_guarded job now True (rerun_body d job node (sort (dedup face)) now) s))"

definition execute_rerun :: "rerun_env \<Rightarrow> job_row \<Rightarrow> string \<Rightarrow> int \<Rightarrow> db \<Rightarrow> service_outcome" where
  "execute_rerun env j node now s =
     (case check_rerun_eligibility env j node now s of
        Some e \<Rightarrow> Refused e | None \<Rightarrow> commit_rerun (definition_of_job env j) (j_id j) node now s)"

definition job_missing :: "string \<Rightarrow> string \<Rightarrow> string option \<Rightarrow> op_result" where
  "job_missing job operation node = op_error job operation ''failed'' node ''not_found'' ''Job not found''"

definition rerun :: "rerun_env \<Rightarrow> string \<Rightarrow> string \<Rightarrow> string option \<Rightarrow> bool \<Rightarrow> int \<Rightarrow> db \<Rightarrow> string option \<times> service_outcome" where
  "rerun env ws job node from_failed now s =
     (case job_of s job of
        None \<Rightarrow> (None, Refused (job_missing job ''rerun'' node))
      | Some j \<Rightarrow>
          if j_workspace j \<noteq> ws then (None, Refused (job_missing job ''rerun'' node))
          else (case resolve_rerun_node j node from_failed s of
                  Inl e \<Rightarrow> (None, Refused e) | Inr k \<Rightarrow> (Some k, execute_rerun env j k now s)))"

text \<open>The result dictionary of an outcome with the state it leaves; \<open>None\<close> is an escaping exception.\<close>

definition outcome_result :: "string \<Rightarrow> string \<Rightarrow> string option \<Rightarrow> service_outcome \<Rightarrow> db \<Rightarrow> op_result option \<times> db" where
  "outcome_result job operation node r s =
     (case r of
        Accepted s' \<Rightarrow> (Some (op_success job operation node), s')
      | Refused e \<Rightarrow> (Some e, s) | Crashed \<Rightarrow> (None, s))"

section \<open>Batch rerun\<close>

record prefetched =
  pf_jobs :: "(string, job_row) dict"
  pf_nodes :: "(string, node_row list) dict"
  pf_busy :: "(string \<times> string) list"

definition prefetch_rerun_state :: "string list \<Rightarrow> int \<Rightarrow> db \<Rightarrow> prefetched" where
  "prefetch_rerun_state ids now s =
     \<lparr>pf_jobs = map (\<lambda>j. (j_id j, j)) (filter (\<lambda>j. j_id j \<in> set ids) (t_jobs s)),
      pf_nodes = map (\<lambda>i. (i, list_job_nodes i s)) ids, pf_busy = busy_pairs ids now s\<rparr>"

definition plan_rerun_target ::
  "rerun_env \<Rightarrow> prefetched \<Rightarrow> string \<Rightarrow> string \<Rightarrow> string option \<Rightarrow> bool \<Rightarrow> op_result + string" where
  "plan_rerun_target env pre ws job node from_failed =
     (case dget (pf_jobs pre) job of
        None \<Rightarrow> Inl (job_missing job ''rerun'' node)
      | Some j \<Rightarrow>
          if j_workspace j \<noteq> ws then Inl (job_missing job ''rerun'' node)
          else (let nodes = dget_default [] (pf_nodes pre) job in
            case resolve_rerun_node_from_nodes job (j_status j) nodes node from_failed of
              Inl e \<Rightarrow> Inl e
            | Inr k \<Rightarrow>
                (case rerun_ineligible_from_nodes (definition_of_job env j) nodes (pf_busy pre) job k of
                   Some e \<Rightarrow> Inl e | None \<Rightarrow> Inr k)))"

definition list_jobs_by_ids :: "string \<Rightarrow> string list \<Rightarrow> db \<Rightarrow> job_row list" where
  "list_jobs_by_ids ws ids s = filter (\<lambda>j. j_workspace j = ws \<and> j_id j \<in> set ids) (t_jobs s)"

text \<open>
  One commit of the write phase: the full row of the job must have been read and its definition is
  the one of the planning phase.
\<close>

definition commit_rerun_result ::
  "rerun_env \<Rightarrow> prefetched \<Rightarrow> string list \<Rightarrow> string \<Rightarrow> string \<Rightarrow> int \<Rightarrow> db \<Rightarrow> op_result option \<times> db" where
  "commit_rerun_result env pre full job node now s =
     (case dget (pf_jobs pre) job of
        None \<Rightarrow> (None, s)
      | Some j \<Rightarrow>
          if job \<notin> set full then (None, s)
          else outcome_result job ''rerun'' (Some node) (commit_rerun (definition_of_job env j) job node now s) s)"

text \<open>The write phase; an escaping exception ends it, what is committed stays.\<close>

fun commit_planned ::
  "rerun_env \<Rightarrow> prefetched \<Rightarrow> string list \<Rightarrow> int \<Rightarrow> (string \<times> string) list \<Rightarrow> db \<Rightarrow> (string, op_result) dict option \<times> db" where
  "commit_planned env pre full now [] s = (Some [], s)"
| "commit_planned env pre full now ((job, node) # plans) s =
     (case commit_rerun_result env pre full job node now s of
        (None, s1) \<Rightarrow> (None, s1)
      | (Some r, s1) \<Rightarrow>
          (case commit_planned env pre full now plans s1 of
             (None, s2) \<Rightarrow> (None, s2) | (Some rs, s2) \<Rightarrow> (Some ((job, r) # rs), s2)))"

definition normalize_ids :: "string list \<Rightarrow> string list" where
  "normalize_ids ids = dedup (filter (\<lambda>i. i \<noteq> []) (map strip ids))"

definition batch_rerun ::
  "rerun_env \<Rightarrow> string \<Rightarrow> string list \<Rightarrow> string option \<Rightarrow> bool \<Rightarrow> int \<Rightarrow> db \<Rightarrow> op_result list option \<times> db" where
  "batch_rerun env ws selected node from_failed now s =
     (let ids = normalize_ids selected;
          pre = prefetch_rerun_state ids now s;
          planned = map (\<lambda>i. (i, plan_rerun_target env pre ws i node from_failed)) ids;
          errors = concat (map (\<lambda>(i, p). case p of Inl e \<Rightarrow> [(i, e)] | Inr k \<Rightarrow> []) planned);
          plans = concat (map (\<lambda>(i, p). case p of Inl e \<Rightarrow> [] | Inr k \<Rightarrow> [(i, k)]) planned);
          full = map j_id (list_jobs_by_ids ws (map fst plans) s) in
      case commit_planned env pre full now plans s of
        (None, s') \<Rightarrow> (None, s')
      | (Some rs, s') \<Rightarrow> (Some (concat (map (\<lambda>i. case dget (errors @ rs) i of None \<Rightarrow> [] | Some r \<Rightarrow> [r]) ids)), s'))"

definition batch_rerun_preview ::
  "rerun_env \<Rightarrow> string \<Rightarrow> string list \<Rightarrow> string option \<Rightarrow> bool \<Rightarrow> int \<Rightarrow> db \<Rightarrow> nat \<times> nat" where
  "batch_rerun_preview env ws selected node from_failed now s =
     (let ids = normalize_ids selected; pre = prefetch_rerun_state ids now s in
      (length ids, length (filter (\<lambda>i. case plan_rerun_target env pre ws i node from_failed of Inl e \<Rightarrow> False | Inr k \<Rightarrow> True) ids)))"

section \<open>Reruns by failure category\<close>

text \<open>The newest run of each node when it failed with the category, newest first (unfinished ones first of all).\<close>

definition latest_failed_run :: "db \<Rightarrow> run_row \<Rightarrow> bool" where
  "latest_failed_run s r \<longleftrightarrow> nr_status r = ''failed''
     \<and> \<not> exists_where (\<lambda>q. nr_job q = nr_job r \<and> nr_node q = nr_node r \<and> nr_id q > nr_id r) (t_runs s)"

definition list_failed_node_runs :: "string \<Rightarrow> string \<Rightarrow> string list \<Rightarrow> db \<Rightarrow> run_row list" where
  "list_failed_node_runs ws category job_ids s =
     (let rows = filter (\<lambda>r. latest_failed_run s r \<and> (category = [] \<or> nr_category r = category)
            \<and> (case job_of s (nr_job r) of None \<Rightarrow> False | Some j \<Rightarrow> j_workspace j = ws)
            \<and> (job_ids = [] \<or> nr_job r \<in> set job_ids)) (t_runs s);
          newest = sort_key (\<lambda>r. - nr_id r) rows in
      filter (\<lambda>r. nr_finished r = None) newest
      @ sort_key (\<lambda>r. - (case nr_finished r of None \<Rightarrow> 0 | Some t \<Rightarrow> t)) (filter (\<lambda>r. nr_finished r \<noteq> None) newest))"

definition failed_nodes_by_job :: "string \<Rightarrow> string \<Rightarrow> string list \<Rightarrow> db \<Rightarrow> (string, string list) dict" where
  "failed_nodes_by_job ws category requested s =
     (let runs = filter (\<lambda>r. requested = [] \<or> nr_job r \<in> set requested) (list_failed_node_runs ws category requested s) in
      map (\<lambda>job. (job, dedup (map nr_node (filter (\<lambda>r. nr_job r = job) runs)))) (dedup (map nr_job runs)))"

definition auto_strategy :: "string \<Rightarrow> string" where
  "auto_strategy category =
     (if category = ''technical'' then ''rerun_self'' else if category = ''business'' then ''rerun_upstream''
      else if category = ''unknown'' then ''rerun_self'' else ''rerun_self'')"

definition resolve_failure_rerun_targets :: "workflow_definition \<Rightarrow> string list \<Rightarrow> string \<Rightarrow> string list" where
  "resolve_failure_rerun_targets d failed strategy =
     dedup (concat (map (\<lambda>k.
       let parents = (if strategy = ''rerun_upstream'' then dget_default [] (dependency_parents d) k else []) in
       if parents = [] then [k] else parents) failed))"

record failure_result =
  fr_job :: string
  fr_status :: string
  fr_reason :: "string option"
  fr_message :: "string option"
  fr_nodes :: "string list"

definition job_failure_result :: "string \<Rightarrow> string \<Rightarrow> string option \<Rightarrow> string option \<Rightarrow> failure_result" where
  "job_failure_result job status reason msg =
     \<lparr>fr_job = job, fr_status = status, fr_reason = reason, fr_message = msg, fr_nodes = []\<rparr>"

text \<open>\<open>str(r["node_key"])\<close>; a success always has a node.\<close>

definition declared_node :: "string option \<Rightarrow> string" where
  "declared_node k = (case k of None \<Rightarrow> ''None'' | Some x \<Rightarrow> x)"

definition assemble_rerun_targets :: "string \<Rightarrow> op_result list \<Rightarrow> failure_result" where
  "assemble_rerun_targets job rs =
     (let nodes = concat (map (\<lambda>r. if or_status r = ''succeeded'' then [declared_node (or_node r)] else []) rs);
          result = job_failure_result job ''succeeded'' None None in
      (case filter (\<lambda>r. or_status r = ''failed'') rs of
         r # _ \<Rightarrow> result\<lparr>fr_status := ''failed'', fr_reason := or_reason r, fr_message := or_message r\<rparr>
       | [] \<Rightarrow>
           (case filter (\<lambda>r. or_status r = ''skipped'') rs of
              r # _ \<Rightarrow> if nodes = [] then result\<lparr>fr_status := ''skipped'', fr_reason := or_reason r, fr_message := or_message r\<rparr>
                      else result
            | [] \<Rightarrow> result))\<lparr>fr_nodes := nodes\<rparr>)"

text \<open>
  The jobs and nodes to consider: the selected ones, or every job with a matching failure (the union
  of the pages).
\<close>

definition resolve_failure_rerun_scope :: "string \<Rightarrow> string \<Rightarrow> string list \<Rightarrow> db \<Rightarrow> string list \<times> string list" where
  "resolve_failure_rerun_scope ws category selected s =
     (let requested = filter (\<lambda>i. i \<noteq> []) (map strip selected) in
      if requested \<noteq> [] then (requested, requested)
      else (requested, dedup (map nr_job (list_failed_node_runs ws category [] s))))"

text \<open>The plan of one job: its result at once, or the targets with the errors found so far.\<close>

definition plan_failure_job ::
  "rerun_env \<Rightarrow> prefetched \<Rightarrow> string \<Rightarrow> string \<Rightarrow> string option \<Rightarrow> string \<times> string list \<Rightarrow>
   failure_result + (op_result + string) list" where
  "plan_failure_job env pre ws strategy from_node entry =
     (let (job, failed) = entry in
      case dget (pf_jobs pre) job of
        None \<Rightarrow> Inl (job_failure_result job ''failed'' (Some ''not_found'') (Some ''Job not found''))
      | Some j \<Rightarrow>
          if j_workspace j \<noteq> ws
          then Inl (job_failure_result job ''failed'' (Some ''not_found'') (Some ''Job not found''))
          else (let d = definition_of_job env j;
                    check = (\<lambda>k. case rerun_ineligible_from_nodes d (dget_default [] (pf_nodes pre) job) (pf_busy pre) job k of
                       Some e \<Rightarrow> Inl e | None \<Rightarrow> Inr k) in
            case from_node of
              Some k \<Rightarrow>
                if list_ex (\<lambda>n. n = k \<or> n \<in> set (dependency_downstream d k)) failed then Inr [check k]
                else Inl (job_failure_result job ''skipped'' (Some ''no_matching_failure'')
                       (Some (''No latest failed run at or downstream of node '' @ quoted k)))
            | None \<Rightarrow> Inr (map check (resolve_failure_rerun_targets d failed strategy))))"

fun commit_targets ::
  "rerun_env \<Rightarrow> prefetched \<Rightarrow> string list \<Rightarrow> string \<Rightarrow> int \<Rightarrow> (op_result + string) list \<Rightarrow> db \<Rightarrow> op_result list option \<times> db" where
  "commit_targets env pre full job now [] s = (Some [], s)"
| "commit_targets env pre full job now (entry # entries) s =
     (case (case entry of Inl e \<Rightarrow> (Some e, s) | Inr k \<Rightarrow> commit_rerun_result env pre full job k now s) of
        (None, s1) \<Rightarrow> (None, s1)
      | (Some r, s1) \<Rightarrow>
          (case commit_targets env pre full job now entries s1 of
             (None, s2) \<Rightarrow> (None, s2) | (Some rs, s2) \<Rightarrow> (Some (r # rs), s2)))"

fun commit_failure_jobs ::
  "rerun_env \<Rightarrow> prefetched \<Rightarrow> string list \<Rightarrow> int \<Rightarrow> (string \<times> (failure_result + (op_result + string) list)) list \<Rightarrow> db \<Rightarrow>
   failure_result list option \<times> db" where
  "commit_failure_jobs env pre full now [] s = (Some [], s)"
| "commit_failure_jobs env pre full now ((job, plan) # plans) s =
     (case (case plan of
              Inl r \<Rightarrow> (Some r, s)
            | Inr entries \<Rightarrow>
                (case commit_targets env pre full job now entries s of
                   (None, s1) \<Rightarrow> (None, s1) | (Some rs, s1) \<Rightarrow> (Some (assemble_rerun_targets job rs), s1))) of
        (None, s1) \<Rightarrow> (None, s1)
      | (Some r, s1) \<Rightarrow>
          (case commit_failure_jobs env pre full now plans s1 of
             (None, s2) \<Rightarrow> (None, s2) | (Some rs, s2) \<Rightarrow> (Some (r # rs), s2)))"

text \<open>\<open>strategy\<close> is \<open>auto\<close> or explicit.\<close>

definition rerun_by_failure_category ::
  "rerun_env \<Rightarrow> string \<Rightarrow> string \<Rightarrow> string \<Rightarrow> string list \<Rightarrow> string option \<Rightarrow> int \<Rightarrow> db \<Rightarrow> failure_result list option \<times> db" where
  "rerun_by_failure_category env ws category strategy selected from_node now s =
     (let resolved = (if strategy = ''auto'' then auto_strategy category else strategy);
          (requested, scope) = resolve_failure_rerun_scope ws category selected s in
      if scope = [] then (Some [], s)
      else (let grouped = failed_nodes_by_job ws category scope s;
                pre = prefetch_rerun_state (map fst grouped) now s;
                plans = map (\<lambda>g. (fst g, plan_failure_job env pre ws resolved from_node g)) grouped;
                full = map j_id (list_jobs_by_ids ws (map fst (filter (\<lambda>p. case snd p of Inl r \<Rightarrow> False | Inr e \<Rightarrow> True) plans)) s) in
            case commit_failure_jobs env pre full now plans s of
              (None, s') \<Rightarrow> (None, s')
            | (Some rs, s') \<Rightarrow>
                (Some (rs @ map (\<lambda>i. job_failure_result i ''skipped'' (Some ''no_matching_failure'')
                    (Some (''No latest failed run with category '' @ quoted category)))
                  (filter (\<lambda>i. i \<notin> set (map fst grouped)) requested)), s')))"

text \<open>The eligible jobs that the preview counts for a failure category.\<close>

definition failure_category_eligible_count ::
  "rerun_env \<Rightarrow> prefetched \<Rightarrow> string \<Rightarrow> string \<Rightarrow> string list \<Rightarrow> db \<Rightarrow> nat" where
  "failure_category_eligible_count env pre ws category ids s =
     length (filter (\<lambda>g. case plan_failure_job env pre ws (auto_strategy category) None g of
         Inl r \<Rightarrow> False
       | Inr entries \<Rightarrow> list_ex (\<lambda>e. case e of Inl r \<Rightarrow> False | Inr k \<Rightarrow> True) entries)
       (failed_nodes_by_job ws category ids s))"

section \<open>Run-to\<close>

definition run_to_body ::
  "workflow_definition \<Rightarrow> string \<Rightarrow> string \<Rightarrow> string list \<Rightarrow> int \<Rightarrow> db \<Rightarrow>
   mutation_error + (op_result option + artifact_row list) \<times> db" where
  "run_to_body d job target closure now s =
     (case run_to_reset_nodes d closure (list_job_node_statuses job s) of
        Inl e \<Rightarrow> Inr (Inl None, s)
      | Inr reset \<Rightarrow>
          bindE (apply_run_to job target closure (Some reset) (so_names (stage_outputs d reset [] [])) now s)
            (\<lambda>(rows, s'). Inr (Inr rows, s')))"

definition run_to_without_start :: "workflow_definition \<Rightarrow> string \<Rightarrow> string \<Rightarrow> string list \<Rightarrow> int \<Rightarrow> db \<Rightarrow> service_outcome" where
  "run_to_without_start d job target closure now s =
     (if dget (list_job_node_statuses job s) target = Some ''completed''
      then Refused (op_error job ''run_to'' ''skipped'' (Some target) ''target_already_completed'' ''Target node is already completed'')
      else guarded_outcome (mutation_refusal job ''run_to'' target ''node_not_found'')
             (lease_guarded job now True (run_to_body d job target closure now) s))"

definition run_to_start_body ::
  "workflow_definition \<Rightarrow> string \<Rightarrow> string \<Rightarrow> string \<Rightarrow> string list \<Rightarrow> int \<Rightarrow> db \<Rightarrow>
   mutation_error + (op_result option + artifact_row list) \<times> db" where
  "run_to_start_body d job target start affected now s =
     (let stale = filter (\<lambda>k. k \<noteq> start) affected in
      case raise_if_failed_upstream_in_tx d start job ''run_to'' target stale s of
        Some e \<Rightarrow> Inr (Inl (Some e), s)
      | None \<Rightarrow>
          bindE (mark_nodes_for_rerun job [start] [(start, stale)] (so_names (stage_outputs d affected [] [])) now s)
            (\<lambda>(rows, s'). Inr (Inr rows, set_run_to_control job target now s')))"

definition run_to_with_start ::
  "workflow_definition \<Rightarrow> string \<Rightarrow> string \<Rightarrow> string \<Rightarrow> string list \<Rightarrow> int \<Rightarrow> db \<Rightarrow> service_outcome" where
  "run_to_with_start d job target start closure now s =
     (let err = op_error job ''run_to'' ''failed'' (Some target) in
      if start \<notin> set (node_keys d) then Refused (err ''node_not_found'' (''Start node '' @ start @ '' not found in workflow''))
      else if node_type_of d start = Some ''start''
      then Refused (err ''node_not_executable'' (''Node '' @ start @ '' is an entry (type: start) node and never executes''))
      else if start \<notin> set closure then Refused (err ''invalid_start'' (''Start node '' @ start @ '' is not in the target closure''))
      else (case raise_if_failed_upstream d (list_job_node_statuses job s) start job ''run_to'' target of
              Some e \<Rightarrow> Refused e
            | None \<Rightarrow>
                (case rerun_reset_closure d [start] of
                   Inl (UnknownKey k) \<Rightarrow> Refused (err ''rerun_failed'' (quoted k))
                 | Inr face \<Rightarrow>
                     guarded_outcome (mutation_refusal job ''run_to'' target ''cleanup_failed'')
                       (lease_guarded job now True (run_to_start_body d job target start (sort (dedup face)) now) s))))"

definition run_to :: "rerun_env \<Rightarrow> string \<Rightarrow> string \<Rightarrow> string \<Rightarrow> string option \<Rightarrow> int \<Rightarrow> db \<Rightarrow> service_outcome" where
  "run_to env ws job target start now s =
     (let err = (\<lambda>status. op_error job ''run_to'' status (Some target)) in
      case job_of s job of
        None \<Rightarrow> Refused (job_missing job ''run_to'' (Some target))
      | Some j \<Rightarrow>
          if j_workspace j \<noteq> ws then Refused (job_missing job ''run_to'' (Some target))
          else (let d = definition_of_job env j in
            if target \<notin> set (node_keys d)
            then Refused (err ''failed'' ''node_not_found'' (''Node '' @ target @ '' not found in workflow''))
            else if node_type_of d target = Some ''start''
            then Refused (err ''failed'' ''node_not_executable''
                   (''Node '' @ target @ '' is an entry (type: start) node and never executes''))
            else (let closure = dedup (target # dependency_ancestors d target) in
              if has_active_for_job job now s then Refused (err ''skipped'' ''busy'' ''Job has an active executor lease'')
              else (case start of
                      None \<Rightarrow> run_to_without_start d job target closure now s
                    | Some k \<Rightarrow> run_to_with_start d job target k closure now s))))"

text \<open>\<open>batch_run_to\<close>: identifiers are not normalised; an escaping exception ends the loop.\<close>

fun batch_run_to ::
  "rerun_env \<Rightarrow> string \<Rightarrow> string list \<Rightarrow> string \<Rightarrow> string option \<Rightarrow> int \<Rightarrow> db \<Rightarrow> op_result list option \<times> db" where
  "batch_run_to env ws [] target start now s = (Some [], s)"
| "batch_run_to env ws (job # ids) target start now s =
     (case outcome_result job ''run_to'' (Some target) (run_to env ws job target start now s) s of
        (None, s1) \<Rightarrow> (None, s1)
      | (Some r, s1) \<Rightarrow>
          (case batch_run_to env ws ids target start now s1 of
             (None, s2) \<Rightarrow> (None, s2) | (Some rs, s2) \<Rightarrow> (Some (r # rs), s2)))"

text \<open>
  \<open>continue_job\<close>: the model of the mutation keeps the status of a job that cannot be resumed, from
  which the message is made.
\<close>

definition continue_job :: "string \<Rightarrow> string \<Rightarrow> int \<Rightarrow> db \<Rightarrow> service_outcome" where
  "continue_job ws job now s =
     (case job_of s job of
        None \<Rightarrow> Refused (job_missing job ''continue'' None)
      | Some j \<Rightarrow>
          if j_workspace j \<noteq> ws then Refused (job_missing job ''continue'' None)
          else (case resume_job job now s of
                  Inr s' \<Rightarrow> Accepted s'
                | Inl (Conflict reason status) \<Rightarrow>
                    Refused (op_error job ''continue'' ''skipped'' None reason
                      (''Job is '' @ status @ '', only paused jobs can be resumed''))
                | Inl (JobNotFound k) \<Rightarrow> Refused (op_error job ''continue'' ''failed'' None ''not_found'' ''Job not found'')
                | Inl e \<Rightarrow> Refused (op_error job ''continue'' ''failed'' None ''resume_failed'' (mutation_text e))))"

end
