(* ===== verification/Rerun_Facts.thy ===== *)
theory Rerun_Facts
  imports Rerun_Service
begin

text \<open>
  What an accepted rerun changes, and the batch against the loop of single reruns.
\<close>

section \<open>The rows an accepted rerun writes\<close>

definition reset_row :: "int \<Rightarrow> int \<Rightarrow> node_row \<Rightarrow> node_row" where
  "reset_row now gen n = n\<lparr>jn_status := ''pending'', jn_stale_reason := [], jn_error := [], jn_category := [], jn_detail := [],
     jn_started := None, jn_finished := None, jn_created := now, jn_generation := gen\<rparr>"

definition stale_row :: "int \<Rightarrow> int \<Rightarrow> node_row \<Rightarrow> node_row" where
  "stale_row now gen n = n\<lparr>jn_status := ''stale'', jn_stale_reason := ''upstream rerun'', jn_error := [], jn_category := [],
     jn_detail := [], jn_created := now, jn_generation := gen\<rparr>"

lemma reset_row_fun: "reset_row now gen = (\<lambda>n. n\<lparr>jn_status := ''pending'', jn_stale_reason := [], jn_error := [],
    jn_category := [], jn_detail := [], jn_started := None, jn_finished := None, jn_created := now, jn_generation := gen\<rparr>)"
  by (simp add: fun_eq_iff reset_row_def)

lemma stale_row_fun: "stale_row now gen = (\<lambda>n. n\<lparr>jn_status := ''stale'', jn_stale_reason := ''upstream rerun'', jn_error := [],
    jn_category := [], jn_detail := [], jn_created := now, jn_generation := gen\<rparr>)"
  by (simp add: fun_eq_iff stale_row_def)

lemma row_keys [simp]:
  "jn_job (reset_row now gen n) = jn_job n" "jn_node (reset_row now gen n) = jn_node n"
  "jn_status (reset_row now gen n) = ''pending''" "jn_generation (reset_row now gen n) = gen"
  "jn_job (stale_row now gen n) = jn_job n" "jn_node (stale_row now gen n) = jn_node n"
  "jn_status (stale_row now gen n) = ''stale''" "jn_generation (stale_row now gen n) = gen"
  by (simp_all add: reset_row_def stale_row_def)

lemma stale_row_twice [simp]: "stale_row now gen (stale_row now gen n) = stale_row now gen n"
  by (simp add: stale_row_def)

lemma fold_stale_nodes:
  "t_nodes (fold (stale_descendant job gen now) ds s) =
    update_where (\<lambda>n. jn_job n = job \<and> jn_node n \<in> set ds) (stale_row now gen) (t_nodes s)"
proof (induction ds arbitrary: s)
  case Nil
  then show ?case by (simp add: update_where_def)
next
  case (Cons d ds)
  have one: "t_nodes (stale_descendant job gen now d s) = update_where (at_node job d) (stale_row now gen) (t_nodes s)"
    by (simp add: stale_descendant_def update_nodes_def stale_row_fun)
  show ?case
    unfolding fold_Cons comp_def Cons.IH one by (auto simp: update_where_def at_node_def)
qed

definition rerun_nodes :: "string \<Rightarrow> string \<Rightarrow> string set \<Rightarrow> int \<Rightarrow> int \<Rightarrow> node_row list \<Rightarrow> node_row list" where
  "rerun_nodes job node face now gen rows =
     update_where (\<lambda>n. jn_job n = job \<and> jn_node n \<in> face \<and> jn_node n \<noteq> node) (stale_row now gen)
       (update_where (at_node job node) (reset_row now gen) rows)"

lemma mark_one_node:
  assumes m: "mark_nodes_for_rerun job [node] [(node, stale)] staged now s = Inr (rows, s')"
  obtains j where "job_of s job = Some j" "t_leases s' = t_leases s"
    "\<exists>n \<in> set (t_nodes s). at_node job node n"
    "t_nodes s' = rerun_nodes job node (set stale) now (j_generation j + 1) (t_nodes s)"
    "\<And>k. job_of s' k = (if k = job then Some (j\<lparr>j_status := ''queued'', j_error := [], j_packed := False,
        j_generation := j_generation j + 1, j_updated := now\<rparr>) else job_of s k)"
proof -
  let ?f = "\<lambda>j. j\<lparr>j_status := ''queued'', j_error := [], j_packed := False\<rparr>"
  let ?ds = "rerun_descendants [node] [(node, stale)]"
  from mark_nodes_for_rerun_stages [OF m] obtain s2 gen s3 s4 where
    b: "bump_generation ?f job now s2 = Inr (gen, s3)"
    and s2: "t_jobs s2 = t_jobs s" "t_nodes s2 = t_nodes s" "t_leases s2 = t_leases s"
    and f: "foldE (reset_target job gen now) [node] s3 = Inr s4"
    and s': "s' = cancel_queued job (dedup ([node] @ ?ds)) now (fold (stale_descendant job gen now) ?ds s4)" by blast
  note bg = bump_generation_Inr [OF b, simplified]
  from b obtain j where j: "job_of s2 job = Some j" and gen: "gen = j_generation j + 1"
    and s3: "s3 = update_job job (\<lambda>j. (?f j)\<lparr>j_generation := j_generation j + 1, j_updated := now\<rparr>) s2"
    by (auto simp: bump_generation_def Let_def job_generation_def job_of_update_job split: option.splits)
  from f have s4: "\<exists>n \<in> set (t_nodes s3). at_node job node n" "s4 = update_nodes (at_node job node) (reset_row now gen) s3"
    by (auto simp: err_simps reset_target_def count_where_0 reset_row_fun)
  have ds: "set ?ds = {k \<in> set stale. k \<noteq> node}" by (auto simp: rerun_descendants_def dget_default_def)
  have jobs: "t_jobs s' = t_jobs s3" by (simp add: s' s4)
  have "job_of s' k = (if k = job then Some (j\<lparr>j_status := ''queued'', j_error := [], j_packed := False,
        j_generation := j_generation j + 1, j_updated := now\<rparr>) else job_of s k)" for k
  proof -
    have "job_of s' k = job_of s3 k" by (simp add: job_of_def jobs)
    moreover have "job_of s2 k = job_of s k" by (simp add: job_of_def s2)
    ultimately show ?thesis using j unfolding s3 by (simp add: job_of_update_job)
  qed
  moreover have "t_nodes s' = rerun_nodes job node (set stale) now (j_generation j + 1) (t_nodes s)"
    using ds unfolding s' cancel_queued_tables fold_stale_nodes
    by (simp add: s4 update_nodes_def rerun_nodes_def gen bg(4) s2 conj_assoc)
  moreover have "t_leases s' = t_leases s" by (simp add: s' s4 bg(5) s2)
  moreover have "\<exists>n \<in> set (t_nodes s). at_node job node n" using s4(1) bg(4) s2(2) by simp
  moreover have "job_of s job = Some j" using j s2(1) by (simp add: job_of_def)
  ultimately show ?thesis using that by blast
qed

lemma commit_rerun_accepted:
  assumes c: "commit_rerun d job node now s = Accepted s'"
  obtains face j where "rerun_reset_closure d [node] = Inr face" "job_of s job = Some j"
    "\<not> has_active_for_job job now s" "\<not> job_has_running_nodes job s"
    "raise_if_failed_upstream_in_tx d node job ''rerun'' node (filter (\<lambda>k. k \<noteq> node) (sort (dedup face))) s = None"
    "\<exists>n \<in> set (t_nodes s). at_node job node n"
    "t_leases s' = t_leases s"
    "t_nodes s' = rerun_nodes job node (set face) now (j_generation j + 1) (t_nodes s)"
    "\<And>k. job_of s' k = (if k = job then Some (j\<lparr>j_status := ''queued'', j_error := [], j_packed := False,
        j_generation := j_generation j + 1, j_updated := now\<rparr>) else job_of s k)"
proof -
  from c obtain face where f: "rerun_reset_closure d [node] = Inr face" by (auto simp: commit_rerun_def split: sum.splits)
  let ?stale = "filter (\<lambda>k. k \<noteq> node) (sort (dedup face))"
  from c f obtain rows where g: "lease_guarded job now True (rerun_body d job node (sort (dedup face)) now) s = Inr (Inr rows, s')"
    by (auto simp: commit_rerun_def guarded_outcome_def split: sum.splits option.splits)
  from g have free: "\<not> has_active_for_job job now s" "\<not> job_has_running_nodes job s"
    and body: "rerun_body d job node (sort (dedup face)) now s = Inr (Inr rows, s')"
    by (auto simp: lease_guarded_def err_simps has_active_for_job_def job_has_running_nodes_def list_job_nodes_def
        exists_where_iff node_in_def list_ex_iff)
  from body have up: "raise_if_failed_upstream_in_tx d node job ''rerun'' node ?stale s = None"
    by (auto simp: rerun_body_def Let_def split: option.splits)
  with body obtain rows' where m: "mark_nodes_for_rerun job [node] [(node, ?stale)] (so_names (stage_outputs d (sort (dedup face)) [] [])) now s
      = Inr (rows', s')"
    by (auto simp: rerun_body_def Let_def err_simps)
  show ?thesis
  proof (rule mark_one_node [OF m])
    fix j
    assume j: "job_of s job = Some j" "t_leases s' = t_leases s" "\<exists>n \<in> set (t_nodes s). at_node job node n"
      and n: "t_nodes s' = rerun_nodes job node (set ?stale) now (j_generation j + 1) (t_nodes s)"
      and jobs: "\<And>k. job_of s' k = (if k = job then Some (j\<lparr>j_status := ''queued'', j_error := [], j_packed := False,
          j_generation := j_generation j + 1, j_updated := now\<rparr>) else job_of s k)"
    have "rerun_nodes job node (set ?stale) now (j_generation j + 1) (t_nodes s)
        = rerun_nodes job node (set face) now (j_generation j + 1) (t_nodes s)"
      by (simp add: rerun_nodes_def conj_ac cong: conj_cong)
    with n show ?thesis using that [OF f j(1) free up j(3,2) _ jobs] by simp
  qed
qed

section \<open>Other jobs\<close>

definition others_same :: "string \<Rightarrow> db \<Rightarrow> db \<Rightarrow> bool" where
  "others_same job s s' \<longleftrightarrow> t_leases s' = t_leases s
     \<and> (\<forall>k. k \<noteq> job \<longrightarrow> job_of s' k = job_of s k \<and> list_job_nodes k s' = list_job_nodes k s)"

lemma filter_update_other:
  "(\<And>r. p r \<Longrightarrow> \<not> q r) \<Longrightarrow> (\<And>r. p r \<Longrightarrow> \<not> q (f r)) \<Longrightarrow> filter q (update_where p f rows) = filter q rows"
  by (induction rows) (auto simp: update_where_def)

lemma commit_rerun_others:
  assumes "commit_rerun d job node now s = Accepted s'"
  shows "others_same job s s'"
proof (rule commit_rerun_accepted [OF assms])
  fix face j
  assume t: "t_leases s' = t_leases s"
    "t_nodes s' = rerun_nodes job node (set face) now (j_generation j + 1) (t_nodes s)"
    "\<And>k. job_of s' k = (if k = job then Some (j\<lparr>j_status := ''queued'', j_error := [], j_packed := False,
        j_generation := j_generation j + 1, j_updated := now\<rparr>) else job_of s k)"
  have "list_job_nodes k s' = list_job_nodes k s" if "k \<noteq> job" for k
    unfolding list_job_nodes_def t(2) rerun_nodes_def
    using that by (subst filter_update_other; simp; subst filter_update_other; simp add: at_node_def)
  with t show ?thesis by (simp add: others_same_def)
qed

section \<open>The batch and the loop\<close>

text \<open>One rerun after the other, each with its own checks and its own transaction.\<close>

fun rerun_loop ::
  "rerun_env \<Rightarrow> string \<Rightarrow> string list \<Rightarrow> string option \<Rightarrow> bool \<Rightarrow> int \<Rightarrow> db \<Rightarrow> op_result list option \<times> db" where
  "rerun_loop env ws [] node from_failed now s = (Some [], s)"
| "rerun_loop env ws (job # ids) node from_failed now s =
     (case rerun env ws job node from_failed now s of (k, r) \<Rightarrow>
       (case outcome_result job ''rerun'' k r s of
          (None, s1) \<Rightarrow> (None, s1)
        | (Some x, s1) \<Rightarrow>
            (case rerun_loop env ws ids node from_failed now s1 of
               (None, s2) \<Rightarrow> (None, s2) | (Some xs, s2) \<Rightarrow> (Some (x # xs), s2))))"

definition agrees :: "string list \<Rightarrow> db \<Rightarrow> db \<Rightarrow> bool" where
  "agrees ids s0 s \<longleftrightarrow> t_leases s = t_leases s0 \<and> (\<forall>i \<in> set ids. job_of s i = job_of s0 i \<and> list_job_nodes i s = list_job_nodes i s0)"

lemma dget_prefetched_job:
  "i \<in> set ids \<Longrightarrow> dget (pf_jobs (prefetch_rerun_state ids now s)) i = job_of s i"
proof -
  assume i: "i \<in> set ids"
  have "dget (map (\<lambda>j. (j_id j, j)) (filter (\<lambda>j. j_id j \<in> set ids) js)) i = find (\<lambda>j. j_id j = i) js" for js
    using i by (induction js) auto
  then show ?thesis by (simp add: prefetch_rerun_state_def job_of_def)
qed

lemma dget_prefetched_nodes:
  "i \<in> set ids \<Longrightarrow> dget_default [] (pf_nodes (prefetch_rerun_state ids now s)) i = list_job_nodes i s"
proof -
  assume i: "i \<in> set ids"
  have "dget (map (\<lambda>i. (i, list_job_nodes i s)) ids) i = Some (list_job_nodes i s)"
    using i by (induction ids) auto
  then show ?thesis by (simp add: prefetch_rerun_state_def dget_default_def)
qed

text \<open>No selected node is a start node; the rule for start nodes is missing in the bulk check.\<close>

definition no_start_selected :: "rerun_env \<Rightarrow> string list \<Rightarrow> string option \<Rightarrow> bool \<Rightarrow> db \<Rightarrow> bool" where
  "no_start_selected env ids node from_failed s \<longleftrightarrow> (\<forall>i \<in> set ids. \<forall>j k. job_of s i = Some j
     \<and> resolve_rerun_node j node from_failed s = Inr k \<longrightarrow> node_type_of (definition_of_job env j) k \<noteq> Some ''start'')"

definition plan_of :: "rerun_env \<Rightarrow> string \<Rightarrow> string \<Rightarrow> string option \<Rightarrow> bool \<Rightarrow> int \<Rightarrow> db \<Rightarrow> op_result + string" where
  "plan_of env ws job node from_failed now s =
     (case job_of s job of
        None \<Rightarrow> Inl (job_missing job ''rerun'' node)
      | Some j \<Rightarrow>
          if j_workspace j \<noteq> ws then Inl (job_missing job ''rerun'' node)
          else (case resolve_rerun_node j node from_failed s of
                  Inl e \<Rightarrow> Inl e
                | Inr k \<Rightarrow> (case check_rerun_eligibility env j k now s of Some e \<Rightarrow> Inl e | None \<Rightarrow> Inr k)))"

lemma job_of_id: "job_of s job = Some j \<Longrightarrow> j_id j = job"
  by (auto simp: job_of_def find_Some_iff)

lemma plan_prefetched:
  assumes "i \<in> set ids" and "no_start_selected env ids node from_failed s"
  shows "plan_rerun_target env (prefetch_rerun_state ids now s) ws i node from_failed = plan_of env ws i node from_failed now s"
proof (cases "job_of s i")
  case None
  then show ?thesis by (simp add: plan_rerun_target_def plan_of_def dget_prefetched_job [OF assms(1)])
next
  case (Some j)
  note id = job_of_id [OF Some]
  have busy: "pf_busy (prefetch_rerun_state ids now s) = busy_pairs ids now s" by (simp add: prefetch_rerun_state_def)
  show ?thesis
  proof (cases "resolve_rerun_node j node from_failed s")
    case (Inl e)
    then show ?thesis using Some id
      by (simp add: plan_rerun_target_def plan_of_def dget_prefetched_job [OF assms(1)] dget_prefetched_nodes [OF assms(1)]
          resolve_rerun_node_def)
  next
    case (Inr k)
    have "node_type_of (definition_of_job env j) k \<noteq> Some ''start''"
      using assms(2) assms(1) Some Inr unfolding no_start_selected_def by blast
    from bulk_check_agrees [OF _ this, of ids s now] id assms(1) Inr Some show ?thesis
      by (simp add: plan_rerun_target_def plan_of_def dget_prefetched_job [OF assms(1)] dget_prefetched_nodes [OF assms(1)]
          resolve_rerun_node_def busy)
  qed
qed

text \<open>A plan only reads the job, its nodes and the leases.\<close>

lemma plan_of_agrees:
  assumes "agrees ids s0 s" and "i \<in> set ids"
  shows "plan_of env ws i node from_failed now s = plan_of env ws i node from_failed now s0"
proof -
  from assms have j: "job_of s i = job_of s0 i" and n: "list_job_nodes i s = list_job_nodes i s0" and l: "t_leases s = t_leases s0"
    by (auto simp: agrees_def)
  have node: "node_of s i k = None \<longleftrightarrow> node_of s0 i k = None" for k unfolding node_of_rows n ..
  show ?thesis
  proof (cases "job_of s0 i")
    case (Some r)
    note id = job_of_id [OF Some]
    have "check_rerun_eligibility env r k now s = check_rerun_eligibility env r k now s0" for k
      unfolding check_rerun_eligibility_def Let_def id
      by (simp add: node has_active_for_node_def job_has_running_nodes_def list_job_node_statuses_def n l)
    then show ?thesis using Some j n id by (simp add: plan_of_def resolve_rerun_node_def split: sum.splits)
  qed (simp add: plan_of_def j)
qed

lemma rerun_plan:
  "rerun env ws job node from_failed now s =
    (case plan_of env ws job node from_failed now s of
       Inl e \<Rightarrow> (fst (rerun env ws job node from_failed now s), Refused e)
     | Inr k \<Rightarrow> (case job_of s job of
           None \<Rightarrow> (None, Crashed) | Some j \<Rightarrow> (Some k, commit_rerun (definition_of_job env j) job k now s)))"
proof (cases "job_of s job")
  case (Some j)
  then show ?thesis using job_of_id [OF Some]
    by (simp add: rerun_def plan_of_def execute_rerun_def split: sum.splits option.splits)
qed (simp add: rerun_def plan_of_def)

lemma plan_of_Inr:
  "plan_of env ws job node from_failed now s = Inr k \<Longrightarrow> \<exists>j. job_of s job = Some j \<and> j_workspace j = ws"
  by (auto simp: plan_of_def split: option.splits if_splits)

lemma agrees_commit:
  assumes "agrees (i # ids) s0 s" and "i \<notin> set ids" and "outcome_result i op k (commit_rerun d i n now s) s = (x, s1)"
  shows "agrees ids s0 s1"
proof -
  have "s1 = s \<or> others_same i s s1"
    using assms(3) commit_rerun_others by (auto simp: outcome_result_def split: service_outcome.splits)
  then show ?thesis using assms(1,2) by (auto simp: agrees_def others_same_def)
qed

definition planned_pairs :: "(string \<Rightarrow> op_result + string) \<Rightarrow> string list \<Rightarrow> (string \<times> string) list" where
  "planned_pairs P ids = concat (map (\<lambda>i. case P i of Inl e \<Rightarrow> [] | Inr k \<Rightarrow> [(i, k)]) ids)"

lemma batch_is_loop:
  fixes env ws node from_failed now s0 ids0 full
  defines "pre \<equiv> prefetch_rerun_state ids0 now s0"
  defines "P \<equiv> \<lambda>i. plan_of env ws i node from_failed now s0"
  assumes "distinct ids" and "set ids \<subseteq> set ids0" and "agrees ids s0 s"
    and full: "\<And>i k. i \<in> set ids \<Longrightarrow> P i = Inr k \<Longrightarrow> i \<in> set full"
  shows "commit_planned env pre full now (planned_pairs P ids) s =
      (case rerun_loop env ws ids node from_failed now s of
         (None, s') \<Rightarrow> (None, s') | (Some xs, s') \<Rightarrow> (Some (filter (\<lambda>(i, x). \<not> isl (P i)) (zip ids xs)), s'))
    \<and> (\<forall>xs s'. rerun_loop env ws ids node from_failed now s = (Some xs, s') \<longrightarrow>
         length xs = length ids \<and> (\<forall>(i, x) \<in> set (zip ids xs). \<forall>e. P i = Inl e \<longrightarrow> x = e))"
  using assms(3-6)
proof (induction ids arbitrary: s)
  case Nil
  then show ?case by (simp add: planned_pairs_def)
next
  case (Cons i ids)
  have plan: "plan_of env ws i node from_failed now s = P i"
    unfolding P_def by (rule plan_of_agrees [OF Cons.prems(3)]) simp
  have tail: "distinct ids" "set ids \<subseteq> set ids0" "i \<notin> set ids" using Cons.prems(1,2) by auto
  note IH = Cons.IH [OF tail(1,2) _ Cons.prems(4), simplified]
  show ?case
  proof (cases "P i")
    case (Inl e)
    obtain k where run: "rerun env ws i node from_failed now s = (k, Refused e)"
      using rerun_plan [of env ws i node from_failed now s] plan Inl by simp
    have pairs: "planned_pairs P (i # ids) = planned_pairs P ids" by (simp add: planned_pairs_def Inl)
    have "agrees ids s0 s" using Cons.prems(3) by (simp add: agrees_def)
    note ih = IH [OF this]
    obtain o' s' where loop: "rerun_loop env ws ids node from_failed now s = (o', s')" by fastforce
    have step: "rerun_loop env ws (i # ids) node from_failed now s = (map_option (\<lambda>xs. e # xs) o', s')"
      by (simp add: run outcome_result_def loop split: option.splits)
    show ?thesis using ih unfolding pairs step loop by (auto simp: Inl split: option.splits)
  next
    case (Inr k)
    from plan_of_Inr [OF trans [OF plan Inr]] obtain j where j: "job_of s i = Some j" "j_workspace j = ws" by blast
    have j0: "dget (pf_jobs pre) i = Some j"
      using Cons.prems(2,3) j(1) by (simp add: pre_def dget_prefetched_job agrees_def)
    have run: "rerun env ws i node from_failed now s = (Some k, commit_rerun (definition_of_job env j) i k now s)"
      by (subst rerun_plan) (simp add: plan Inr j)
    obtain x s1 where out: "outcome_result i ''rerun'' (Some k) (commit_rerun (definition_of_job env j) i k now s) s = (x, s1)" by fastforce
    have com: "commit_rerun_result env pre full i k now s = (x, s1)"
      using Cons.prems(4) [of i k] Inr by (simp add: commit_rerun_result_def j0 out)
    have pairs: "planned_pairs P (i # ids) = (i, k) # planned_pairs P ids" by (simp add: planned_pairs_def Inr)
    note ih = IH [OF agrees_commit [OF Cons.prems(3) tail(3) out]]
    obtain o' s' where loop: "rerun_loop env ws ids node from_failed now s1 = (o', s')" by fastforce
    have step: "rerun_loop env ws (i # ids) node from_failed now s =
        (case x of None \<Rightarrow> (None, s1) | Some y \<Rightarrow> (map_option (\<lambda>xs. y # xs) o', s'))"
      using run out loop by (auto split: option.splits)
    show ?thesis
      using ih unfolding pairs step loop by (auto simp: Inr com split: option.splits)
  qed
qed

lemma lookup_results:
  assumes "length ids = length xs" and "\<And>i x. (i, x) \<in> set (zip ids xs) \<Longrightarrow> dget D i = Some x"
  shows "concat (map (\<lambda>i. case dget D i of None \<Rightarrow> [] | Some r \<Rightarrow> [r]) ids) = xs"
  using assms
proof (induction rule: list_induct2)
  case (Cons i ids x xs)
  have "dget D i = Some x" by (rule Cons.prems) simp
  moreover have "concat (map (\<lambda>i. case dget D i of None \<Rightarrow> [] | Some r \<Rightarrow> [r]) ids) = xs"
    by (rule Cons.IH) (rule Cons.prems, simp)
  ultimately show ?case by simp
qed simp

lemma dget_error:
  "dget (concat (map (\<lambda>(i, p). case p of Inl e \<Rightarrow> [(i, e)] | Inr k \<Rightarrow> []) (map (\<lambda>i. (i, P i)) ids)) @ D) i =
    (if i \<in> set ids \<and> isl (P i) then Some (projl (P i)) else dget D i)"
  by (induction ids) (auto split: sum.splits)

lemma dget_filter_zip:
  assumes "distinct ids" and "(i, x) \<in> set (zip ids xs)" and "Q i"
  shows "dget (filter (\<lambda>(i, x). Q i) (zip ids xs)) i = Some x"
proof -
  have "distinct (map fst (filter (\<lambda>(i, x). Q i) (zip ids xs)))"
    using assms(1) by (simp add: distinct_map_filter map_fst_zip_take)
  moreover have "(i, x) \<in> set (filter (\<lambda>(i, x). Q i) (zip ids xs))" using assms(2,3) by auto
  ultimately show ?thesis by (simp add: dget_distinct keys_def)
qed

lemma distinct_normalize_ids [simp]: "distinct (normalize_ids ids)"
  by (simp add: normalize_ids_def)

lemma batch_rerun_loop:
  assumes "no_start_selected env (normalize_ids selected) node from_failed s"
  shows "batch_rerun env ws selected node from_failed now s = rerun_loop env ws (normalize_ids selected) node from_failed now s"
    and "rerun_loop env ws (normalize_ids selected) node from_failed now s = (Some xs, s') \<Longrightarrow>
      length xs = length (normalize_ids selected) \<and> (\<forall>(i, x) \<in> set (zip (normalize_ids selected) xs). \<forall>e.
        plan_of env ws i node from_failed now s = Inl e \<longrightarrow> x = e)"
proof -
  define ids where "ids = normalize_ids selected"
  define P where "P = (\<lambda>i. plan_of env ws i node from_failed now s)"
  let ?pre = "prefetch_rerun_state ids now s"
  have planned: "map (\<lambda>i. (i, plan_rerun_target env ?pre ws i node from_failed)) ids = map (\<lambda>i. (i, P i)) ids"
    unfolding P_def using plan_prefetched [OF _ assms [folded ids_def]] by simp
  have pairs: "concat (map (\<lambda>(i, p). case p of Inl e \<Rightarrow> [] | Inr k \<Rightarrow> [(i, k)]) (map (\<lambda>i. (i, P i)) ids)) = planned_pairs P ids"
    by (simp add: planned_pairs_def comp_def)
  let ?full = "map j_id (list_jobs_by_ids ws (map fst (planned_pairs P ids)) s)"
  have full: "i \<in> set ?full" if "i \<in> set ids" "P i = Inr k" for i k
  proof -
    from plan_of_Inr [OF that(2) [unfolded P_def]] obtain j where j: "job_of s i = Some j" "j_workspace j = ws" by blast
    then have "j \<in> set (t_jobs s)" "j_id j = i" by (auto simp: job_of_def find_Some_iff)
    moreover have "i \<in> set (map fst (planned_pairs P ids))" using that by (force simp: planned_pairs_def)
    ultimately show ?thesis using j(2) by (force simp: list_jobs_by_ids_def)
  qed
  have d: "distinct ids" by (simp add: ids_def)
  have loop: "commit_planned env ?pre ?full now (planned_pairs P ids) s =
      (case rerun_loop env ws ids node from_failed now s of
         (None, s') \<Rightarrow> (None, s') | (Some xs, s') \<Rightarrow> (Some (filter (\<lambda>(i, x). \<not> isl (P i)) (zip ids xs)), s'))
    \<and> (\<forall>xs s'. rerun_loop env ws ids node from_failed now s = (Some xs, s') \<longrightarrow>
         length xs = length ids \<and> (\<forall>(i, x) \<in> set (zip ids xs). \<forall>e. P i = Inl e \<longrightarrow> x = e))"
    unfolding P_def
    by (rule batch_is_loop [OF d subset_refl]) (simp add: agrees_def, rule full [unfolded P_def])
  obtain ox s'' where run: "rerun_loop env ws ids node from_failed now s = (ox, s'')" by fastforce
  have batch: "batch_rerun env ws selected node from_failed now s =
      (case commit_planned env ?pre ?full now (planned_pairs P ids) s of
        (None, s') \<Rightarrow> (None, s')
      | (Some rs, s') \<Rightarrow> (Some (concat (map (\<lambda>i. case dget (concat (map (\<lambda>(i, p). case p of Inl e \<Rightarrow> [(i, e)] | Inr k \<Rightarrow> []) (map (\<lambda>i. (i, P i)) ids)) @ rs) i of
            None \<Rightarrow> [] | Some r \<Rightarrow> [r]) ids)), s'))"
    unfolding batch_rerun_def Let_def ids_def [symmetric] planned pairs ..
  show "batch_rerun env ws selected node from_failed now s = rerun_loop env ws (normalize_ids selected) node from_failed now s"
  proof (cases ox)
    case None
    with loop run show ?thesis unfolding batch ids_def [symmetric] by simp
  next
    case (Some ys)
    with loop run have len: "length ids = length ys" and err: "\<forall>(i, x) \<in> set (zip ids ys). \<forall>e. P i = Inl e \<longrightarrow> x = e"
      and com: "commit_planned env ?pre ?full now (planned_pairs P ids) s = (Some (filter (\<lambda>(i, x). \<not> isl (P i)) (zip ids ys)), s'')"
      by simp_all
    have "dget (concat (map (\<lambda>(i, p). case p of Inl e \<Rightarrow> [(i, e)] | Inr k \<Rightarrow> []) (map (\<lambda>i. (i, P i)) ids))
        @ filter (\<lambda>(i, x). \<not> isl (P i)) (zip ids ys)) i = Some x" if "(i, x) \<in> set (zip ids ys)" for i x
    proof (cases "P i")
      case (Inl e)
      with err that have "x = e" by auto
      moreover have "i \<in> set ids" using that by (rule set_zip_leftD)
      ultimately show ?thesis using Inl unfolding dget_error by simp
    next
      case (Inr k)
      then show ?thesis unfolding dget_error using dget_filter_zip [OF d that, of "\<lambda>i. \<not> isl (P i)"] by simp
    qed
    from lookup_results [OF len this] Some run show ?thesis unfolding batch com ids_def [symmetric] by simp
  qed
  show "length xs = length (normalize_ids selected) \<and> (\<forall>(i, x) \<in> set (zip (normalize_ids selected) xs). \<forall>e.
        plan_of env ws i node from_failed now s = Inl e \<longrightarrow> x = e)"
    if "rerun_loop env ws (normalize_ids selected) node from_failed now s = (Some xs, s')"
    using loop that unfolding ids_def [symmetric] P_def by blast
qed

text \<open>A refusal never reads as a success, so the preview counts at least the successes.\<close>

lemma plan_error_status:
  "plan_of env ws i node from_failed now s = Inl e \<Longrightarrow> or_status e \<noteq> ''succeeded''"
  by (auto simp: plan_of_def job_missing_def op_error_def resolve_rerun_node_def resolve_rerun_node_from_nodes_def
      check_rerun_eligibility_def upstream_failed_error_def Let_def split: option.splits if_splits)

lemma successes_bounded:
  assumes "length ids = length xs" and "\<And>i x e. (i, x) \<in> set (zip ids xs) \<Longrightarrow> P i = Inl e \<Longrightarrow> or_status x \<noteq> ''succeeded''"
  shows "length (filter (\<lambda>x. or_status x = ''succeeded'') xs) \<le> length (filter (\<lambda>i. case P i of Inl e \<Rightarrow> False | Inr k \<Rightarrow> True) ids)"
  using assms
proof (induction rule: list_induct2)
  case (Cons i ids x xs)
  have "length (filter (\<lambda>x. or_status x = ''succeeded'') xs) \<le> length (filter (\<lambda>i. case P i of Inl e \<Rightarrow> False | Inr k \<Rightarrow> True) ids)"
    by (rule Cons.IH, rule Cons.prems) simp_all
  moreover have "P i = Inl e \<Longrightarrow> or_status x \<noteq> ''succeeded''" for e using Cons.prems [of i x e] by simp
  ultimately show ?case by (cases "P i") auto
qed simp

lemma preview_bounds:
  assumes n: "no_start_selected env (normalize_ids selected) node from_failed s"
    and r: "batch_rerun env ws selected node from_failed now s = (Some xs, s')"
  shows "fst (batch_rerun_preview env ws selected node from_failed now s) = length xs"
    "length (filter (\<lambda>x. or_status x = ''succeeded'') xs) \<le> snd (batch_rerun_preview env ws selected node from_failed now s)"
proof -
  let ?ids = "normalize_ids selected"
  from r batch_rerun_loop(1) [OF n] have loop: "rerun_loop env ws ?ids node from_failed now s = (Some xs, s')" by metis
  note facts = batch_rerun_loop(2) [OF n loop]
  show "fst (batch_rerun_preview env ws selected node from_failed now s) = length xs"
    using facts by (simp add: batch_rerun_preview_def Let_def)
  have "filter (\<lambda>i. case plan_rerun_target env (prefetch_rerun_state ?ids now s) ws i node from_failed of Inl e \<Rightarrow> False | Inr k \<Rightarrow> True) ?ids
      = filter (\<lambda>i. case plan_of env ws i node from_failed now s of Inl e \<Rightarrow> False | Inr k \<Rightarrow> True) ?ids"
    by (rule filter_cong) (simp_all add: plan_prefetched [OF _ n])
  then show "length (filter (\<lambda>x. or_status x = ''succeeded'') xs) \<le> snd (batch_rerun_preview env ws selected node from_failed now s)"
    using successes_bounded [of ?ids xs "\<lambda>i. plan_of env ws i node from_failed now s"] facts plan_error_status
    by (fastforce simp: batch_rerun_preview_def Let_def)
qed

end
