(* ===== verification/Rerun_Progress.thy ===== *)
theory Rerun_Progress
  imports Rerun_Facts
begin

text \<open>
  What the scheduler sees after an accepted rerun: the statuses of the job's rows, the inputs that
  are left after the staging, and that some node at or above the rerun node is ready.
\<close>

section \<open>The statuses after a rerun\<close>

lemma dget_update_statuses:
  assumes "\<And>n. jn_job (f n) = jn_job n" and "\<And>n. jn_node (f n) = jn_node n" and "\<And>n. jn_status (f n) = v"
    and "\<And>n. jn_job n = job \<Longrightarrow> p n \<longleftrightarrow> Q (jn_node n)"
  shows "dget (node_row_statuses (filter (\<lambda>n. jn_job n = job) (update_where p f rows))) y =
    (if Q y then map_option (\<lambda>_. v) (dget (node_row_statuses (filter (\<lambda>n. jn_job n = job) rows)) y)
     else dget (node_row_statuses (filter (\<lambda>n. jn_job n = job) rows)) y)"
  by (induction rows) (auto simp: node_row_statuses_def update_where_def assms)

lemma rerun_statuses:
  assumes "t_nodes s' = rerun_nodes job node face now gen (t_nodes s)"
  shows "dget (list_job_node_statuses job s') y =
    (if y = node then map_option (\<lambda>_. ''pending'') (dget (list_job_node_statuses job s) y)
     else if y \<in> face then map_option (\<lambda>_. ''stale'') (dget (list_job_node_statuses job s) y)
     else dget (list_job_node_statuses job s) y)"
proof -
  let ?st = "\<lambda>rows. dget (node_row_statuses (filter (\<lambda>n. jn_job n = job) rows)) y"
  let ?rows = "update_where (at_node job node) (reset_row now gen) (t_nodes s)"
  have outer: "?st (update_where (\<lambda>n. jn_job n = job \<and> jn_node n \<in> face \<and> jn_node n \<noteq> node) (stale_row now gen) ?rows)
      = (if y \<in> face \<and> y \<noteq> node then map_option (\<lambda>_. ''stale'') (?st ?rows) else ?st ?rows)"
    by (rule dget_update_statuses) simp_all
  have inner: "?st ?rows = (if y = node then map_option (\<lambda>_. ''pending'') (?st (t_nodes s)) else ?st (t_nodes s))"
    by (rule dget_update_statuses) (simp_all add: at_node_def)
  show ?thesis unfolding list_job_node_statuses_def list_job_nodes_def assms rerun_nodes_def outer inner by simp
qed

lemma running_nodes_status:
  "\<not> job_has_running_nodes job s \<Longrightarrow> dget (list_job_node_statuses job s) y \<noteq> Some ''running''"
  by (fastforce simp: job_has_running_nodes_def list_ex_iff list_job_node_statuses_def node_row_statuses_def dest: map_of_SomeD)

section \<open>Executable nodes\<close>

lemma must_reset_executable:
  assumes "start_isolated d" and "set seeds \<subseteq> set (keys (executable_nodes d))" and "k \<in> must_reset d seeds"
  shows "k \<in> set (keys (executable_nodes d))"
  using assms(3,1,2) by induction (auto simp: start_isolated_def)

lemma executable_iff:
  "k \<in> set (keys (executable_nodes d)) \<longleftrightarrow> (\<exists>n. (k, n) \<in> set (d_nodes d) \<and> n_type n \<noteq> ''start'')"
  by (auto simp: executable_nodes_def in_keys_pair)

lemma effective_executable:
  assumes "wf_shape d" and "k \<in> set (keys (executable_nodes d))"
  shows "dget_default v (effective_node_statuses d st) k = dget_default v st k"
proof -
  from assms(2) obtain n where "(k, n) \<in> set (d_nodes d)" "n_type n \<noteq> ''start''" by (auto simp: executable_iff)
  with wf_shape_node [OF assms(1)] have "\<not> (\<exists>n. (k, n) \<in> set (d_nodes d) \<and> n_type n = ''start'')"
    by (metis option.inject)
  then show ?thesis by (auto simp: dget_default_def dget_effective [OF assms(1)])
qed

lemma effective_start:
  assumes "wf_shape d" and "k \<in> set (node_keys d)" and "k \<notin> set (keys (executable_nodes d))"
  shows "dget_default v (effective_node_statuses d st) k = ''completed''"
  using assms by (auto simp: dget_default_def dget_effective in_node_keys executable_iff split: option.splits)

section \<open>Accepted reruns\<close>

lemma eligible_node:
  assumes "check_rerun_eligibility env j node now s = None"
  shows "node \<in> set (keys (executable_nodes (definition_of_job env j)))"
    and "failed_upstream_node_keys (definition_of_job env j) (list_job_node_statuses (j_id j) s) node = []"
proof -
  let ?d = "definition_of_job env j"
  have "node \<in> set (node_keys ?d)" and "node_type_of ?d node \<noteq> Some ''start''"
    and up: "failed_upstream_node_keys ?d (list_job_node_statuses (j_id j) s) node = []"
    using assms by (auto simp: check_rerun_eligibility_def Let_def split: if_splits)
  from this(1) obtain n where n: "dget (d_nodes ?d) node = Some n" by (auto simp: node_keys_def in_keys_iff)
  with \<open>node_type_of ?d node \<noteq> Some ''start''\<close> have "n_type n \<noteq> ''start''" by (simp add: node_type_of_def)
  with n show "node \<in> set (keys (executable_nodes ?d))" by (auto simp: executable_iff dest: map_of_SomeD)
  show "failed_upstream_node_keys ?d (list_job_node_statuses (j_id j) s) node = []" by (rule up)
qed

lemma rerun_accepted:
  assumes "rerun env ws job node from_failed now s = (Some k, Accepted s')"
  obtains j where "job_of s job = Some j" "j_id j = job" "check_rerun_eligibility env j k now s = None"
    "commit_rerun (definition_of_job env j) job k now s = Accepted s'"
  using assms job_of_id
  by (auto simp: rerun_def execute_rerun_def split: option.splits sum.splits if_splits)

section \<open>A ready node\<close>

text \<open>The artifacts that are left when the files of the given names are moved away.\<close>

definition without :: "string list \<Rightarrow> job_dir \<Rightarrow> job_dir" where
  "without names dir name = (if name \<in> set names then None else dir name)"

text \<open>A staged name is written by a reset node that does not read it, so it is another one for every reader.\<close>

lemma staged_producer:
  assumes "wf_shape d" and "name \<in> set (so_names (stage_outputs d affected [] []))"
    and "(x, n) \<in> set (d_nodes d)" and "name \<in> set (n_inputs n)"
  obtains p where "produces d p name" "p \<in> set affected" "p \<noteq> x"
proof -
  from assms(2) obtain p where p: "p \<in> set affected" "name \<in> set (outputs_of d p)" "name \<notin> set (inputs_of d p)"
    by (auto simp: stage_outputs_def staging_output_names_def Let_def)
  from p(2) have "produces d p name"
    by (cases "dget (d_nodes d) p") (auto simp: outputs_of_def produces_def dest: map_of_SomeD)
  moreover have "p \<noteq> x" using p(3) assms(4) inputs_of_node [OF assms(1,3)] by auto
  ultimately show ?thesis using p(1) that by blast
qed

lemma rerun_progress:
  assumes r: "rerun env ws job node from_failed now s = (Some k, Accepted s')"
    and j: "job_of s job = Some j" and d: "definition_of_job env j = d"
    and wf: "wf_shape d" and iso: "start_isolated d" and ac: "acyclic (merged_graph d)"
    and unc: "\<forall>e \<in> set (d_edges d). e_condition e = None"
    and calm: "\<forall>y \<in> set (dependency_ancestors d k). dget_default ''pending'' (list_job_node_statuses job s) y
      \<in> {''completed'', ''pending'', ''ready'', ''stale'', ''running'', ''failed''}"
    and files: "\<forall>(x, n) \<in> set (d_nodes d). x = k \<or> x \<in> set (dependency_ancestors d k) \<longrightarrow> (\<forall>name \<in> set (n_inputs n). dir name \<noteq> None
      \<or> (\<exists>p. produces d p name \<and> p \<noteq> x
          \<and> dget_default ''pending'' (effective_node_statuses d (list_job_node_statuses job s)) p \<noteq> ''completed''))"
  shows "\<exists>face. rerun_reset_closure d [k] = Inr face \<and>
    (\<exists>n \<in> set (find_ready_nodes d (list_job_node_statuses job s') (without (so_names (stage_outputs d (sort (dedup face)) [] [])) dir)).
       n_key n = k \<or> n_key n \<in> set (dependency_ancestors d k))"
proof (rule rerun_accepted [OF r])
  fix j'
  assume j': "job_of s job = Some j'" "j_id j' = job" and el: "check_rerun_eligibility env j' k now s = None"
    and com: "commit_rerun (definition_of_job env j') job k now s = Accepted s'"
  have jj: "j' = j" using j j'(1) by simp
  note ex = eligible_node [OF el, unfolded jj d j'(2) [unfolded jj]]
  show ?thesis
  proof (rule commit_rerun_accepted [OF com [unfolded jj d]])
    fix face j2
    assume face: "rerun_reset_closure d [k] = Inr face" and quiet: "\<not> job_has_running_nodes job s"
      and rows: "t_nodes s' = rerun_nodes job k (set face) now (j_generation j2 + 1) (t_nodes s)"
    define A where "A = insert k (set (dependency_ancestors d k))"
    let ?st = "list_job_node_statuses job s" and ?st' = "list_job_node_statuses job s'"
    let ?E = "\<lambda>st. dget_default ''pending'' (effective_node_statuses d st)"
    let ?dir = "without (so_names (stage_outputs d (sort (dedup face)) [] [])) dir"
    have kx: "k \<in> set (keys (executable_nodes d))" by (rule ex(1))
    have fx: "x \<in> set (keys (executable_nodes d))" if "x \<in> set face" for x
      using must_reset_executable [OF iso, of "[k]" x] kx that rerun_reset_closure_exact [OF wf iso face] by simp
    have anc: "set (dependency_ancestors d k) = ((merged_graph d)\<inverse>)\<^sup>+ `` {k}" by (rule set_dependency_ancestors [OF wf])
    note new = rerun_statuses [OF rows]
    have k_new: "?E ?st' k = ''pending''"
      using effective_executable [OF wf kx] by (simp add: dget_default_def new split: option.splits)
    have f_new: "?E ?st' x \<noteq> ''completed''" if "x \<in> set face" for x
      using effective_executable [OF wf fx [OF that]] that by (auto simp: dget_default_def new split: option.splits)
    have o_new: "?E ?st' x = ?E ?st x" if "x \<in> set (node_keys d)" "x \<noteq> k" "x \<notin> set face" for x
      using that effective_executable [OF wf] effective_start [OF wf that(1)] 
      by (cases "x \<in> set (keys (executable_nodes d))") (auto simp: dget_default_def new)
    have nodes: "A \<subseteq> set (node_keys d)"
    proof
      fix y
      assume "y \<in> A"
      then consider "y = k" | "(k, y) \<in> ((merged_graph d)\<inverse>)\<^sup>+" unfolding A_def anc by blast
      then show "y \<in> set (node_keys d)"
      proof cases
        case 1
        then show ?thesis using kx executable_keys by blast
      next
        case 2
        from tranclD2 [OF this] obtain z where "(y, z) \<in> merged_graph d" by blast
        from merged_graph_nodes [OF wf this] show ?thesis by simp
      qed
    qed
    have closed: "y \<in> A" if "(y, x) \<in> merged_graph d" "x \<in> A" for x y
    proof -
      have "(x, y) \<in> (merged_graph d)\<inverse>" using that(1) by simp
      moreover have "x = k \<or> (k, x) \<in> ((merged_graph d)\<inverse>)\<^sup>+" using that(2) unfolding A_def anc by blast
      ultimately have "(k, y) \<in> ((merged_graph d)\<inverse>)\<^sup>+" by (metis r_into_trancl' trancl_into_trancl)
      then show ?thesis unfolding A_def anc by blast
    qed
    have calm': "?E ?st' y \<in> {''completed'', ''pending'', ''ready'', ''stale''}" if "y \<in> A" for y
    proof (cases "y = k \<or> y \<notin> set (keys (executable_nodes d))")
      case True
      then show ?thesis using k_new effective_start [OF wf, of y] nodes that by auto
    next
      case False
      then have a: "y \<in> set (dependency_ancestors d k)" and y: "y \<in> set (keys (executable_nodes d))" "y \<noteq> k"
        using that by (auto simp: A_def)
      have "dget ?st y \<noteq> Some ''failed''"
        using ex(2) a by (auto simp: failed_upstream_node_keys_def filter_empty_conv)
      with running_nodes_status [OF quiet, of y] bspec [OF calm a]
      have before: "dget_default ''pending'' ?st y \<in> {''completed'', ''pending'', ''ready'', ''stale''}"
        by (cases "dget ?st y") (simp_all add: dget_default_def)
      have "?E ?st' y = (if y \<in> set face \<and> dget ?st y \<noteq> None then ''stale'' else dget_default ''pending'' ?st y)"
        using y(2) effective_executable [OF wf y(1)] by (cases "dget ?st y") (simp_all add: dget_default_def new)
      with before show ?thesis by simp
    qed
    have "\<exists>n \<in> set (find_ready_nodes d ?st' ?dir). n_key n \<in> A"
    proof (rule ready_progress_in [OF wf ac unc nodes closed calm'])
      show "\<exists>y \<in> A. ?E ?st' y \<noteq> ''completed''" using k_new by (auto simp: A_def)
      show "?dir name \<noteq> None \<or> (\<exists>p. produces d p name \<and> p \<noteq> x \<and> ?E ?st' p \<noteq> ''completed'')"
        if x: "(x, n) \<in> set (d_nodes d)" "x \<in> A" "name \<in> set (n_inputs n)" for x n name
      proof (cases "name \<in> set (so_names (stage_outputs d (sort (dedup face)) [] []))")
        case True
        from staged_producer [OF wf True x(1,3)] obtain p where "produces d p name" "p \<in> set (sort (dedup face))" "p \<noteq> x" .
        moreover from this(2) have "?E ?st' p \<noteq> ''completed''" using f_new by simp
        ultimately show ?thesis by blast
      next
        case False
        then have same: "?dir name = dir name" by (simp add: without_def)
        show ?thesis
        proof (cases "dir name = None")
          case True
          then obtain p where p: "produces d p name" "p \<noteq> x" "?E ?st p \<noteq> ''completed''"
            using bspec [OF files x(1)] x(2,3) by (auto simp: A_def)
          then have "p \<in> set (node_keys d)" by (auto simp: produces_def in_node_keys)
          then have "?E ?st' p \<noteq> ''completed''" using p(3) k_new f_new o_new by (cases "p = k"; cases "p \<in> set face") auto
          with p show ?thesis by blast
        qed (simp add: same)
      qed
    qed
    with face show ?thesis by (auto simp: A_def)
  qed
qed

end
