(* ===== verification/Rerun_Properties.thy ===== *)
theory Rerun_Properties
  imports Rerun_Progress Definition_Properties Lease_Properties
begin

text \<open>
  What the rerun service promises: the effect of an accepted rerun, that it leaves the job with
  something to run, and that a batch is the loop of its single reruns; with two places where batch
  and preview differ from the single rerun, and one where the category rerun does nothing.
\<close>

section \<open>Sample jobs\<close>

definition rerun_world :: "workflow_definition \<Rightarrow> rerun_env" where
  "rerun_world d = \<lparr>re_parse = (\<lambda>_. None), re_active = (\<lambda>_. d)\<rparr>"

definition status_row :: "string \<times> string \<Rightarrow> node_row" where
  "status_row p = (sample_row (fst p))\<lparr>jn_status := snd p\<rparr>"

definition status_db :: "(string \<times> string) list \<Rightarrow> db" where
  "status_db sts = sample_db\<lparr>t_jobs := [sample_job\<lparr>j_status := ''failed''\<rparr>], t_nodes := map status_row sts\<rparr>"

definition finished_db :: db where
  "finished_db = status_db [(''score'', ''completed''), (''good'', ''completed''), (''bad'', ''completed''),
     (''publish'', ''failed'')]"

definition rerun_good :: db where
  "rerun_good = (case rerun (rerun_world (sample_flow None None)) ''ws'' ''job'' (Some ''good'') False 5 finished_db of
     (k, Accepted s) \<Rightarrow> s | _ \<Rightarrow> finished_db)"

lemma rerun_good:
  "rerun (rerun_world (sample_flow None None)) ''ws'' ''job'' (Some ''good'') False 5 finished_db = (Some ''good'', Accepted rerun_good)"
proof -
  have "case rerun (rerun_world (sample_flow None None)) ''ws'' ''job'' (Some ''good'') False 5 finished_db of
      (k, Accepted s) \<Rightarrow> k = Some ''good'' | _ \<Rightarrow> False" by code_simp
  then show ?thesis by (auto simp: rerun_good_def split: prod.splits service_outcome.splits)
qed

lemma finished_job: "job_of finished_db ''job'' = Some (sample_job\<lparr>j_status := ''failed''\<rparr>)"
  by (simp add: finished_db_def status_db_def job_of_def sample_job_def)

lemma sample_definition: "definition_of_job (rerun_world d) (sample_job\<lparr>j_status := st\<rparr>) = d"
  by (simp add: definition_of_job_def definition_from_job_snapshot_def sample_job_def rerun_world_def)

section \<open>The effect of a rerun\<close>

text \<open>
  C13. An accepted rerun found no live lease and no running node of the job; it makes its node pending
  and every other node of the reset set stale, keeps the other nodes, queues the job with the next
  epoch, and leaves the leases and the other jobs alone.
\<close>

theorem rerun_effect:
  assumes r: "rerun env ws job node from_failed now s = (Some k, Accepted s')"
    and j: "job_of s job = Some j" and d: "definition_of_job env j = d"
    and wf: "wf_shape d" and iso: "start_isolated d"
  shows "\<not> has_active_for_job job now s \<and> \<not> job_has_running_nodes job s
    \<and> (\<forall>y. dget (list_job_node_statuses job s') y =
        (if y = k then Some ''pending''
         else if y \<in> must_reset d [k] then map_option (\<lambda>_. ''stale'') (dget (list_job_node_statuses job s) y)
         else dget (list_job_node_statuses job s) y))
    \<and> job_of s' job = Some (j\<lparr>j_status := ''queued'', j_error := [], j_packed := False,
        j_generation := j_generation j + 1, j_updated := now\<rparr>)
    \<and> others_same job s s'"
proof (rule rerun_accepted [OF r])
  fix j'
  assume "job_of s job = Some j'" and "commit_rerun (definition_of_job env j') job k now s = Accepted s'"
  then have com: "commit_rerun d job k now s = Accepted s'" using j d by simp
  show ?thesis
  proof (rule commit_rerun_accepted [OF com])
    fix face j2
    assume face: "rerun_reset_closure d [k] = Inr face" and j2: "job_of s job = Some j2"
      and free: "\<not> has_active_for_job job now s" "\<not> job_has_running_nodes job s"
      and row: "\<exists>n \<in> set (t_nodes s). at_node job k n"
      and rows: "t_nodes s' = rerun_nodes job k (set face) now (j_generation j2 + 1) (t_nodes s)"
      and jobs: "\<And>i. job_of s' i = (if i = job then Some (j2\<lparr>j_status := ''queued'', j_error := [], j_packed := False,
          j_generation := j_generation j2 + 1, j_updated := now\<rparr>) else job_of s i)"
    have "dget (list_job_node_statuses job s) k \<noteq> None"
      using row by (auto simp: dget_None_iff list_job_node_statuses_def node_row_statuses_def list_job_nodes_def keys_def at_node_def)
    then show ?thesis
      using free j j2 jobs commit_rerun_others [OF com]
      by (auto simp: rerun_statuses [OF rows] rerun_reset_closure_exact [OF wf iso face])
  qed
qed

theorem rerun_effect_witness:
  "list_job_node_statuses ''job'' rerun_good = [(''score'', ''completed''), (''good'', ''pending''), (''bad'', ''stale''),
     (''publish'', ''stale'')] \<and> others_same ''job'' finished_db rerun_good"
proof
  show "list_job_node_statuses ''job'' rerun_good = [(''score'', ''completed''), (''good'', ''pending''), (''bad'', ''stale''),
     (''publish'', ''stale'')]" by code_simp
  show "others_same ''job'' finished_db rerun_good"
    using rerun_effect [OF rerun_good finished_job sample_definition sample_flow_shape sample_flow_isolated] by blast
qed

section \<open>Progress\<close>

text \<open>
  C14. After an accepted rerun the scheduler always finds a ready node at the rerun node or among its
  ancestors, when the merged graph has no cycle, no edge is conditional, no ancestor is parked or cut
  off, and the inputs of these nodes were there before or come from another unfinished node, although
  the outputs of the whole reset set have been moved away.
\<close>

theorem rerun_never_strands:
  assumes "rerun env ws job node from_failed now s = (Some k, Accepted s')"
    and "job_of s job = Some j" and "definition_of_job env j = d"
    and "wf_shape d" and "start_isolated d" and "acyclic (merged_graph d)"
    and "\<forall>e \<in> set (d_edges d). e_condition e = None"
    and "\<forall>y \<in> set (dependency_ancestors d k). dget_default ''pending'' (list_job_node_statuses job s) y
      \<in> {''completed'', ''pending'', ''ready'', ''stale'', ''running'', ''failed''}"
    and "\<forall>(x, n) \<in> set (d_nodes d). x = k \<or> x \<in> set (dependency_ancestors d k) \<longrightarrow> (\<forall>name \<in> set (n_inputs n). dir name \<noteq> None
      \<or> (\<exists>p. produces d p name \<and> p \<noteq> x
          \<and> dget_default ''pending'' (effective_node_statuses d (list_job_node_statuses job s)) p \<noteq> ''completed''))"
  shows "\<exists>face. rerun_reset_closure d [k] = Inr face \<and>
    (\<exists>n \<in> set (find_ready_nodes d (list_job_node_statuses job s') (without (so_names (stage_outputs d (sort (dedup face)) [] [])) dir)).
       n_key n = k \<or> n_key n \<in> set (dependency_ancestors d k))"
  by (rule rerun_progress [OF assms])

theorem rerun_never_strands_witness:
  "\<exists>face. rerun_reset_closure (sample_flow None None) [''good''] = Inr face \<and>
    (\<exists>n \<in> set (find_ready_nodes (sample_flow None None) (list_job_node_statuses ''job'' rerun_good)
        (without (so_names (stage_outputs (sample_flow None None) (sort (dedup face)) [] [])) verdict_dir)).
       n_key n = ''good'' \<or> n_key n \<in> set (dependency_ancestors (sample_flow None None) ''good''))"
proof (rule rerun_never_strands [OF rerun_good finished_job sample_definition sample_flow_shape sample_flow_isolated sample_flow_acyclic])
  show "\<forall>e \<in> set (d_edges (sample_flow None None)). e_condition e = None" by (simp add: sample_flow_defs)
  show "\<forall>y \<in> set (dependency_ancestors (sample_flow None None) ''good''). dget_default ''pending'' (list_job_node_statuses ''job'' finished_db) y
      \<in> {''completed'', ''pending'', ''ready'', ''stale'', ''running'', ''failed''}" by code_simp
  have "\<forall>(x, n) \<in> set (d_nodes (sample_flow None None)).
      x = ''good'' \<or> x \<in> set (dependency_ancestors (sample_flow None None) ''good'') \<longrightarrow> n_inputs n = []" by code_simp
  then show "\<forall>(x, n) \<in> set (d_nodes (sample_flow None None)). x = ''good'' \<or> x \<in> set (dependency_ancestors (sample_flow None None) ''good'') \<longrightarrow>
      (\<forall>name \<in> set (n_inputs n). verdict_dir name \<noteq> None \<or> (\<exists>p. produces (sample_flow None None) p name \<and> p \<noteq> x
        \<and> dget_default ''pending'' (effective_node_statuses (sample_flow None None) (list_job_node_statuses ''job'' finished_db)) p \<noteq> ''completed''))"
    by fastforce
qed

section \<open>Batches and previews\<close>

text \<open>
  C15. When no selected node is a start node, a batch rerun gives the results and the state of the
  single reruns one after the other, in the order of the distinct identifiers; the preview counts
  every result, and at least as many eligible jobs as there are successes.
\<close>

theorem batch_rerun_exact:
  assumes "no_start_selected env (normalize_ids selected) node from_failed s"
  shows "batch_rerun env ws selected node from_failed now s = rerun_loop env ws (normalize_ids selected) node from_failed now s
    \<and> (\<forall>rs s'. batch_rerun env ws selected node from_failed now s = (Some rs, s') \<longrightarrow>
        fst (batch_rerun_preview env ws selected node from_failed now s) = length rs
        \<and> length (filter (\<lambda>r. or_status r = ''succeeded'') rs) \<le> snd (batch_rerun_preview env ws selected node from_failed now s))"
  using batch_rerun_loop(1) [OF assms] preview_bounds [OF assms] by blast

lemma normalized_ids:
  "normalize_ids [''job''] = [''job'']" "normalize_ids ['' job'', ''job'', ''ghost''] = [''job'', ''ghost'']"
proof -
  have "strip '' job'' = ''job''" "strip ''job'' = ''job''" "strip ''ghost'' = ''ghost''"
    by (simp_all add: strip_def white_space_def upt_conv_Cons char_of_def continuation_byte_def bit_0)
  then show "normalize_ids [''job''] = [''job'']" "normalize_ids ['' job'', ''job'', ''ghost''] = [''job'', ''ghost'']"
    by (simp_all add: normalize_ids_def)
qed

theorem batch_rerun_exact_witness:
  "batch_rerun (rerun_world (sample_flow None None)) ''ws'' ['' job'', ''job'', ''ghost''] (Some ''good'') False 5 finished_db
    = rerun_loop (rerun_world (sample_flow None None)) ''ws'' [''job'', ''ghost''] (Some ''good'') False 5 finished_db
   \<and> map or_status (the (fst (batch_rerun (rerun_world (sample_flow None None)) ''ws'' ['' job'', ''job'', ''ghost''] (Some ''good'') False 5
      finished_db))) = [''succeeded'', ''failed'']"
proof -
  have "job_of finished_db ''ghost'' = None" by code_simp
  moreover have "node_type_of (sample_flow None None) ''good'' = Some ''code''" by code_simp
  ultimately have "no_start_selected (rerun_world (sample_flow None None)) [''job'', ''ghost''] (Some ''good'') False finished_db"
    by (auto simp: no_start_selected_def finished_job sample_definition resolve_rerun_node_def resolve_rerun_node_from_nodes_def)
  then have "batch_rerun (rerun_world (sample_flow None None)) ''ws'' ['' job'', ''job'', ''ghost''] (Some ''good'') False 5 finished_db
    = rerun_loop (rerun_world (sample_flow None None)) ''ws'' [''job'', ''ghost''] (Some ''good'') False 5 finished_db"
    using batch_rerun_exact [of "rerun_world (sample_flow None None)" "['' job'', ''job'', ''ghost'']" "Some ''good''" False finished_db]
    unfolding normalized_ids by blast
  moreover have "map or_status (the (fst (rerun_loop (rerun_world (sample_flow None None)) ''ws'' [''job'', ''ghost''] (Some ''good'') False 5
      finished_db))) = [''succeeded'', ''failed'']" by code_simp
  ultimately show ?thesis by simp
qed

section \<open>Where the paths differ\<close>

text \<open>A join: both branches feed \<open>sum\<close>, and the right one failed.\<close>

definition join_flow :: workflow_definition where
  "join_flow = mk_definition ''flow'' ''Flow'' []
     [(''_start'', (mk_node ''_start'' ''Start'' [])\<lparr>n_type := ''start''\<rparr>), flow_node ''left'' [] [], flow_node ''right'' [] [],
      flow_node ''sum'' [] []]
     [flow_edge ''_start'' ''left'' None, flow_edge ''_start'' ''right'' None, flow_edge ''left'' ''sum'' None,
      flow_edge ''right'' ''sum'' None] 1 empty_execution"

definition join_db :: db where
  "join_db = (status_db [(''left'', ''completed''), (''right'', ''failed''), (''sum'', ''pending'')])
     \<lparr>t_runs := [\<lparr>nr_id = 1, nr_job = ''job'', nr_node = ''right'', nr_status = ''failed'', nr_exit = None, nr_error = [],
        nr_category = ''business'', nr_detail = [], nr_command = [], nr_log = [], nr_run_dir = [], nr_session_dir = [],
        nr_skill_version = [], nr_skill = [], nr_runner = [], nr_config = [], nr_definition = [], nr_started = Some 0,
        nr_finished = Some 1, nr_generation = 0\<rparr>]\<rparr>"

text \<open>
  The preview counts a job whose rerun is then refused: the reset set of \<open>left\<close> has a failed parent
  outside of it, which only the check inside the transaction looks for.
\<close>

lemma preview_counts_refused_job:
  "batch_rerun_preview (rerun_world join_flow) ''ws'' [''job''] (Some ''left'') False 5 join_db = (1, 1)"
  "rerun (rerun_world join_flow) ''ws'' ''job'' (Some ''left'') False 5 join_db
     = (Some ''left'', Refused (upstream_failed_error ''job'' ''left'' [''right''] ''rerun''))"
  unfolding batch_rerun_preview_def Let_def normalized_ids by code_simp+

text \<open>The bulk check has no rule for start nodes.\<close>

lemma start_node_refusals_differ:
  "map_option (map or_reason) (fst (batch_rerun (rerun_world join_flow) ''ws'' [''job''] (Some ''_start'') False 5 join_db))
     = Some [Some ''node_not_found'']"
  "map_option (map or_reason) (fst (rerun_loop (rerun_world join_flow) ''ws'' [''job''] (Some ''_start'') False 5 join_db))
     = Some [Some ''node_not_executable'']"
  unfolding batch_rerun_def Let_def normalized_ids by code_simp+

text \<open>
  A business failure of a node directly below the start node: the rerun by failure category with
  the automatic strategy targets the start node, reports \<open>node_not_found\<close> and changes nothing, where
  the node itself should be rerun as a root; with \<open>rerun_self\<close> the same request succeeds.
\<close>

lemma root_failure_not_rerun:
  "resolve_failure_rerun_targets join_flow [''right''] (auto_strategy ''business'') = [''_start'']
   \<and> rerun_by_failure_category (rerun_world join_flow) ''ws'' ''business'' ''auto'' [] None 5 join_db
      = (Some [\<lparr>fr_job = ''job'', fr_status = ''failed'', fr_reason = Some ''node_not_found'',
           fr_message = Some ''Node _start not found for job'', fr_nodes = []\<rparr>], join_db)
   \<and> map_option (map fr_nodes) (fst (rerun_by_failure_category (rerun_world join_flow) ''ws'' ''business'' ''rerun_self'' [] None 5 join_db))
      = Some [[''right'']]"
proof (intro conjI)
  show "resolve_failure_rerun_targets join_flow [''right''] (auto_strategy ''business'') = [''_start'']" by code_simp
  show "rerun_by_failure_category (rerun_world join_flow) ''ws'' ''business'' ''auto'' [] None 5 join_db
      = (Some [\<lparr>fr_job = ''job'', fr_status = ''failed'', fr_reason = Some ''node_not_found'',
           fr_message = Some ''Node _start not found for job'', fr_nodes = []\<rparr>], join_db)" by code_simp
  show "map_option (map fr_nodes) (fst (rerun_by_failure_category (rerun_world join_flow) ''ws'' ''business'' ''rerun_self'' [] None 5 join_db))
      = Some [[''right'']]" by code_simp
qed

end
