(* ===== verification/Spec2Isabelle.thy ===== *)
theory Spec2Isabelle
  imports Definition_Properties Job_Properties Config_Schema Job_Ids Node_Ordering
    Claim_Rounds Worker_Ramp Worker_Restart Upload_Lanes Upload_Handoff Upload_Report
    Upgrade_Properties Broker_Sweep_Properties System_Properties
    Rerun_Properties
begin

text \<open>
  A model of the scheduling core of agent-legion: workflow definitions and their loader, the
  graph algorithms over a definition, readiness and branching, configuration schemas, failure
  classification, the database transactions of node execution leases, sharded nodes and job
  mutations, the workflow upgrade, the request queue of the agent broker with its claims, heartbeats
  and sweeps, and on the worker's side the claim pass, its pacing and ramp, the supervisor's
  restarts and the upload scheduler, with the theorems that make them correct.

  \<^bold>\<open>The program.\<close> A workflow definition (YAML text or a persisted JSON snapshot) is loaded into
  frozen dataclasses (\<open>server/app/workflows/\<close>). A job runs one definition: its nodes are rows of
  \<open>job_nodes\<close>. The scheduler computes the ready nodes from the row statuses and the files in the
  job directory; a claim turns a ready node into a run with a lease (\<open>server/app/executors/\<close>);
  the worker reports back with heartbeat and finish; sweeps expire leases and recover jobs.
  Requests for remote workers go through a queue (\<open>server/app/agent_broker/\<close>): they are enqueued,
  claimed one by one or in batches by registered workers, kept alive by heartbeats, closed by
  results, and requeued or failed by sweeps when a worker is lost or none can run them.
  A worker process polls for claims within the capacity it computes, runs them, and hands finished
  results to an upload process, which schedules transfers in two lanes and reports the outcome
  (\<open>worker/\<close>). Operators rerun, pause, resume and delete jobs (\<open>server/app/jobs/\<close>) and upgrade
  them to a new revision of their workflow (\<open>server/app/services/job_workflow_upgrade*.py\<close>).
  Every reset raises the execution epoch (\<open>jobs.execution_generation\<close>), and every late writer compares its own epoch
  under the job-mutation lock.

  \<^bold>\<open>The theories.\<close>
  \<^item> \<open>Prelude\<close>: the error monad on sums (\<open>bindE\<close>, \<open>guardE\<close>, \<open>mapE\<close>, \<open>foldE\<close>), insertion-ordered
    dictionaries as association lists, the theorem collections.
  \<^item> \<open>Py_Value\<close>: parsed YAML/JSON values and the Python operations the code applies to them
    (truthiness, equality of numbers and booleans, strings as UTF-8 bytes).
  \<^item> \<open>Workflow_Schema\<close> (\<open>schema.py\<close>), \<open>Node_Fields\<close> (the field loaders), \<open>Workflow_Loader\<close>
    (\<open>loader.py\<close>, \<open>start_node.py\<close>, \<open>approval_node.py\<close>, \<open>snapshot_shape.py\<close>), \<open>Definition_Check\<close>
    (\<open>validator.py\<close>), \<open>Loader_Correct\<close> (stage lemmas of the loader).
  \<^item> \<open>Config_Schema\<close> (\<open>config_schema.py\<close>): schemas, values, defaults, the manifest projection.
  \<^item> \<open>Graph_Walk\<close>: the worklist interface as a locale, with its stack and queue instances;
    \<open>Workflow_Consumption\<close> (\<open>workflow_consumption.py\<close>), \<open>Workflow_Branching\<close>
    (\<open>conditions.py\<close>, \<open>condition_barrier.py\<close>, \<open>workflow_branching.py\<close>), \<open>Workflow_Scheduler\<close>
    (\<open>scheduler.py\<close>, \<open>execution_control.py\<close>), \<open>Reset_Closure\<close> (\<open>services/job_reset_closure.py\<close>,
    \<open>revision_diff.py\<close>).
  \<^item> \<open>Failure_Classification\<close> (\<open>services/failure_classification/\<close>).
  \<^item> \<open>Job_Store\<close>: the tables, one record per row, statements as functions with the row count of
    their \<open>where\<close> clause; \<open>Sharding\<close> (\<open>sharding*.py\<close>), \<open>Lease_Claim\<close>, \<open>Lease_Lifecycle\<close>
    (\<open>executors/_lease_*.py\<close>), \<open>Job_Mutations\<close> (\<open>jobs/*_mutation*.py\<close>).
  \<^item> \<open>Lease_Safety\<close>: late writers as a locale with its interpretation; \<open>Lease_System\<close>: the
    transactions as a transition system and its invariant.
  \<^item> \<open>Job_Ids\<close> (job identifiers and HTTP byte ranges); \<open>Node_Ordering\<close> (the order in which a job's
    nodes are shown).
  \<^item> \<open>Worker_Config\<close> (the loaders of the worker's controls), \<open>Worker_Ramp\<close> (the ramp-up of the
    claim capacity), \<open>Worker_Admission\<close> (availability and load shedding), \<open>Claim_Rounds\<close> (one
    claim pass: rounds, over-claims, deferred pools), \<open>Worker_Pacing\<close> (back-off, the adaptive poll
    interval, retries of a request), \<open>Worker_Restart\<close> (the supervisor: restarts after a crash,
    automatic resumption of claiming).
  \<^item> \<open>Upload_Lanes\<close> (the two transfer lanes and their shared limit), \<open>Upload_Handoff\<close> (exclusive
    finalisation of an upload between a recovering and a new owner), \<open>Upload_Report\<close> (the marker
    file, the classes of answers and the report loop with its degradation gate).
  \<^item> The workflow upgrade: \<open>Upgrade_Diff\<close> (change seeds and the rerun closure), \<open>Upgrade_Identity\<close>
    (which nodes provably ran the current implementation), \<open>Upgrade_Plan\<close> (the nodes to keep),
    \<open>Upgrade_Protection\<close> and \<open>Upgrade_Staging\<close> (which names are deleted), \<open>Upgrade_Store\<close> (the
    mutation), \<open>Upgrade_Service\<close> (the checks, one attempt, the retry). \<open>Upgrade_Round\<close> is
    specification only: the executions that follow, over the scheduler of \<open>Workflow_Scheduler\<close>.
  \<^item> The agent broker: \<open>Broker_Store\<close> (requests, workers, loads), \<open>Broker_Scan\<close> (the candidate
    query and the rotation), \<open>Broker_Admission\<close> (timeout, execution block, filters),
    \<open>Broker_Claim\<close> (the gates under the locks, the writes, the single claim), \<open>Broker_Batch\<close>
    (selection and write phase of a batch), \<open>Broker_Locks\<close> (the locks a batch waits for, along its
    write phase, and their order), \<open>Broker_Leases\<close> (enqueue, heartbeats, close), \<open>Broker_Sweeps\<close>. \<open>Broker_Steps\<close> (capacity gates as a locale, one
    interpretation per counted load), \<open>Broker_Meaning\<close> and \<open>Broker_Batch_Facts\<close> hold the lemmas; \<open>Broker_Properties\<close>, \<open>Broker_Queue_Properties\<close> and
    \<open>Broker_Sweep_Properties\<close> the properties.
  \<^item> Both lanes together: \<open>Queue_Frames\<close> (what the transactions of the local lane do to the request
    queue), \<open>Broker_System\<close> (the transactions of both lanes as one transition system with its
    invariant), \<open>System_Properties\<close>.
  \<^item> The rerun services: \<open>Rerun_Guard\<close> (the result dictionaries, the reads, the failed-upstream guard,
    the eligibility of one rerun and its bulk variant), \<open>Rerun_Service\<close> (\<open>services/job_rerun/\<close>: single,
    batch and category reruns with the preview; \<open>job_run_to.py\<close>, \<open>job_execution.py\<close>), \<open>Rerun_Facts\<close>
    (what an accepted rerun writes, the batch against the loop), \<open>Rerun_Progress\<close> (what the scheduler
    sees afterwards), \<open>Rerun_Properties\<close>.
  \<^item> \<open>Definition_Properties\<close>, \<open>Lease_Properties\<close>, \<open>Job_Properties\<close>, \<open>Upgrade_Properties\<close>: the
    properties of these components with their witnesses on small concrete inputs. The properties
    of the configuration, of job ids and views, of the worker and of the upload process stand at
    the end of their own theories.

  \<^bold>\<open>Correspondence.\<close> Definitions keep the names of the code. A raise is \<open>Inl\<close>; error values carry a
  constructor and the fixed part of the message. Python sets are duplicate-free lists and every
  theorem about them speaks of their set of elements. A transaction is one function of the
  database: the code takes the advisory job-mutation lock first, so transactions of one job do
  not interleave; where the code takes no lock (\<open>resume_job\<close>) the two reads are two states.
  Timestamps of the database are integers in microseconds. On the worker, floats are exact
  rationals, an overflowing power of two is an error value, and random draws, clock readings and
  the answers of the server are arguments; the server, clock and thread pool that one claim pass
  talks to are the functions of \<open>worker_env\<close>, and the property about a server that keeps to the
  requested amounts states that as the hypothesis \<open>honours_request\<close>.

  A claim transaction of the broker takes its clock, its fresh identifiers, the rows that others hold
  locked and the commits of lockless writers from \<open>claim_tx\<close>; a batch selects on one state and
  writes on another. Every advisory lock is the key that \<open>hashtext\<close> (\<open>br_key\<close>) gives to a name, and names of
  different kinds may have the same key. JSON columns are parsed documents. What the file operations of
  a result report do, their exceptions included, is an argument of each turn of the report loop.

  \<^bold>\<open>What the lemmas show.\<close> The loader only lets well-formed definitions through and its cycle check
  is exact; graph walks are reachability; branch evaluation and the rerun closure are
  characterised by relations on the graph; ready nodes never race and progress is guaranteed
  under stated conditions; configuration is accepted exactly when it conforms to its schema, with conformance stated as a typing
  relation of its own, and secrets stay out of manifests; claims respect capacity, late writers change nothing, a node never has two current
  leases, resets raise the epoch once and fence off old leases; sharded nodes settle. The nodes
  an upgrade keeps are the greatest set that is unchanged, reachable and closed under
  dependencies and shared names; what it deletes agrees with its protection plan; afterwards no
  node reads a leftover of the old revision, names updated in place whose producers were cut off apart, and the
  round does not begin stuck; the mutation rebuilds
  exactly the rows that are not kept, and of two overlapping upgrades one applies.
  No claim of the broker takes a counted load over its limit, a batch returns no more than asked
  for and nothing twice, a granted claim is in the epoch of its job and starts its node or shard, the timeout it
  hands out is the override or the one that applied at the enqueue, the rotation is fair, two batches wait for each other
  crosswise only where names of different kinds share an advisory key, late results are refused, and the sweep fails only what no worker
  may claim. In every state that the transactions of both lanes can reach, a node has one request in
  effect at most, and the attempts of a request stay within the limit.
  An accepted rerun resets exactly the least closed set of nodes and leaves something to run; a batch
  of reruns is the loop of its single reruns unless a start node is selected, and concrete runs show
  where batch, preview and category rerun depart from the single one.
  A claim pass never exceeds the worker's capacity when the server keeps to the request, and the pool of a
  server that over-claims is deferred at once and its claims are still accounted for; the ramp is
  the staircase of its claiming time; waits stay in their band; the supervisor resumes claiming
  at most three times in an hour; each transfer starts once, in the order of its lane and within
  the limit; a result is dropped as rejected by a verdict only when the report so answered
  carried an honest failure, and its archive is rewritten at most twice. Job identifiers and the marker file round-trip, and the displayed node
  order is a topological order of the visible edges.

  \<^bold>\<open>Fuel and termination.\<close> All recursions terminate: the walks by the number of unseen targets,
  the rerun fixpoint by the number of kept nodes not yet excluded, the cycle check by the number
  of unvisited keys, the ordering loop by the ready nodes plus the positive in-degrees, a claim
  pass by the budget left, the rotation by the positions left in its groups, a lane pump by the queued transfers, the report loop by its list of
  answers, the names an upgrade can regenerate by the outputs not yet available. \<open>run_with_retry\<close> may run forever when no bound on attempts is given and is a
  \<open>partial_function (option)\<close>; \<open>run_with_retry_bounded\<close> shows that it returns under such a
  bound. The search for a fresh start key has fuel \<open>length nodes + 1\<close>, which is
  enough because that many candidates are distinct.

  \<^bold>\<open>Not modelled.\<close> Of the agent broker the rendering of commands, bundles and archives, the
  group commit of results, events, timings and log throttling; HTTP routes, authentication, database pools and migrations, the
  process handling of the worker host (spawning, signals, containers, heartbeat batches), the
  preparation of result archives, studio chat, storage clients and the user interface: they are
  input/output around the modelled core. Parsing YAML and JSON text is left to the caller; file
  promotion and path canonicalisation on finish are parameters of \<open>finish_env\<close>. Of an upgrade the
  file moves, the event broadcasts and the cleanup after the commit are left out; what its plan
  reads from the catalog, the published code, the execution records, the skill lock and git is
  in \<open>identity_env\<close>, \<open>plan_env\<close> and \<open>diff_env\<close>. Of the rerun services the resolution of a
  batch selection from filters, the removal of objects, the restoring of staged files and the
  approval decisions are left out; the definition of a job comes from \<open>rerun_env\<close>. The upgrade theorems assume a start node without
  inputs, which the loader does not check. The invariants of the lease
  transactions and of both lanes are stated for databases without sharded nodes.
\<close>

end
